(* ===== verification/Prelude.thy ===== *)
theory Prelude
  imports Main "HOL-Library.Word"
begin

text \<open>
  Shared material of the development: the machine integer types of the C code, octet
  buffers, bounded scans over the fixed-size tables of the stack, and the theorem
  collections through which the component theories automate their proofs.
\<close>

unbundle bit_operations_syntax

named_theorems sm_simps \<open>equations of the MRP state machines\<close>
named_theorems frame_simps \<open>fields an operation leaves unchanged\<close>
named_theorems inv_intros \<open>operations that keep an invariant\<close>

section \<open>Machine integers and octet buffers\<close>

type_synonym u8 = "8 word"
type_synonym u16 = "16 word"
type_synonym u32 = "32 word"
type_synonym u64 = "64 word"
type_synonym octets = "u8 list"

abbreviation zeros :: "nat \<Rightarrow> octets" where
  "zeros n \<equiv> replicate n 0"

lemma unat_u8_less: "unat (b :: u8) < 256"
proof -
  have "unat b < 2 ^ LENGTH(8)" by (rule unsigned_less)
  then show ?thesis by simp
qed

lemma unat_u16_less: "unat (b :: u16) < 65536"
proof -
  have "unat b < 2 ^ LENGTH(16)" by (rule unsigned_less)
  then show ?thesis by simp
qed

lemma unat_u32_less: "unat (b :: u32) < 4294967296"
proof -
  have "unat b < 2 ^ LENGTH(32)" by (rule unsigned_less)
  then show ?thesis by simp
qed

section \<open>Scans over tables\<close>

text \<open>
  \<open>first_index P n\<close> is the scan \<open>for (i = 0; i < n; i++) if (P i) return i\<close>;
  \<open>foreach n f s\<close> the loop \<open>for (i = 0; i < n; i++) s = f i s\<close>.
\<close>

definition first_index :: "(nat \<Rightarrow> bool) \<Rightarrow> nat \<Rightarrow> nat option" where
  "first_index P n = List.find P [0..<n]"

definition foreach :: "nat \<Rightarrow> (nat \<Rightarrow> 's \<Rightarrow> 's) \<Rightarrow> 's \<Rightarrow> 's" where
  "foreach n f s = fold f [0..<n] s"

lemma first_index_SomeD:
  assumes "first_index P n = Some i"
  shows "i < n" and "P i" and "\<forall>j<i. \<not> P j"
proof -
  from assms obtain k where k: "k < n" "[0..<n] ! k = i" "P i" "\<forall>j<k. \<not> P ([0..<n] ! j)"
    by (auto simp: first_index_def find_Some_iff)
  then have "k = i" by simp
  with k show "i < n" and "P i" and "\<forall>j<i. \<not> P j" by auto
qed

lemma first_index_None: "first_index P n = None \<longleftrightarrow> (\<forall>i<n. \<not> P i)"
  by (auto simp: first_index_def find_None_iff)

lemma first_index_SomeI:
  assumes "i < n" and "P i" and "\<And>j. j < i \<Longrightarrow> \<not> P j"
  shows "first_index P n = Some i"
proof (cases "first_index P n")
  case None
  with assms show ?thesis by (auto simp: first_index_None)
next
  case (Some k)
  from first_index_SomeD [OF Some] assms have "\<not> k < i" "\<not> i < k" by auto
  with Some show ?thesis by simp
qed

lemma first_index_ex: "\<lbrakk>i < n; P i\<rbrakk> \<Longrightarrow> \<exists>k. first_index P n = Some k"
  by (cases "first_index P n") (auto simp: first_index_None)

lemma first_index_cong:
  "(\<And>i. i < n \<Longrightarrow> P i = Q i) \<Longrightarrow> first_index P n = first_index Q n"
  unfolding first_index_def by (rule find_cong) auto

lemma foreach_invariant:
  assumes "P s" and "\<And>i t. \<lbrakk>i < n; P t\<rbrakk> \<Longrightarrow> P (f i t)"
  shows "P (foreach n f s)"
proof -
  have "P (fold f is s)" if "P s" "set is \<subseteq> {..<n}" for "is" s
    using that by (induction "is" arbitrary: s) (auto intro: assms(2))
  from this [OF assms(1), of "[0..<n]"] show ?thesis
    by (simp add: foreach_def lessThan_atLeast0)
qed

lemma foreach_0 [simp]: "foreach 0 f s = s"
  by (simp add: foreach_def)

lemma foreach_Suc: "foreach (Suc n) f s = f n (foreach n f s)"
  by (simp add: foreach_def)

text \<open>A field no iteration changes is unchanged by the loop.\<close>

lemma foreach_frame:
  "(\<And>i t. g (f i t) = g t) \<Longrightarrow> g (foreach n f s) = g s"
  by (induction n) (simp_all add: foreach_Suc)

lemma fold_frame: "(\<And>x t. g (f x t) = g t) \<Longrightarrow> g (fold f xs s) = g s"
  by (induction xs arbitrary: s) simp_all

text \<open>A loop that changes only slot \<open>i\<close> of a list in iteration \<open>i\<close>.\<close>

lemma foreach_list_update:
  "foreach n (\<lambda>i xs. xs[i := f i (xs ! i)]) xs =
     map (\<lambda>i. if i < n then f i (xs ! i) else xs ! i) [0..<length xs]"
proof (induction n)
  case 0
  show ?case by (simp add: map_nth)
next
  case (Suc n)
  then show ?case
    by (auto simp: foreach_Suc intro!: nth_equalityI simp: nth_list_update less_Suc_eq)
qed

section \<open>Updates of one table slot\<close>

definition upd_at :: "nat \<Rightarrow> ('a \<Rightarrow> 'a) \<Rightarrow> 'a list \<Rightarrow> 'a list" where
  "upd_at i f xs = xs[i := f (xs ! i)]"

lemma length_upd_at [simp]: "length (upd_at i f xs) = length xs"
  by (simp add: upd_at_def)

lemma nth_upd_at:
  "j < length xs \<Longrightarrow> upd_at i f xs ! j = (if i = j then f (xs ! j) else xs ! j)"
  by (auto simp: upd_at_def nth_list_update)

lemma nth_upd_at_same [simp]: "i < length xs \<Longrightarrow> upd_at i f xs ! i = f (xs ! i)"
  by (simp add: upd_at_def)

lemma nth_upd_at_other [simp]: "i \<noteq> j \<Longrightarrow> upd_at i f xs ! j = xs ! j"
  by (simp add: upd_at_def)

end
