(* ===== verification/Utils.thy ===== *)
theory Utils
  imports Prelude "HOL-Library.Signed_Division"
begin

text \<open>
  The helpers of \<open>avbutils.c\<close>: big-endian octet fields, the three-packed-event codec
  of MRP (IEEE 802.1Q 10.8.2.10), bit and hex strings, endianness reversal and
  \<open>timeval\<close> arithmetic.  An octet buffer is a list; a C integer whose address is
  passed to \<open>int_to_octets\<close> is a 64-bit word, whose low bytes are what the
  little-endian target stores at that address.
\<close>

section \<open>Octet fields\<close>

definition octets_to_uint :: "octets \<Rightarrow> nat \<Rightarrow> u64" where
  "octets_to_uint buffer sz =
     (if sz = 0 \<or> sz > 8 then 0
      else if sz = 1 then ucast (0 :: u8)
      else
        let result = foreach sz
              (\<lambda>i result. result OR push_bit (8 * (sz - 1 - i)) (ucast (buffer ! i))) 0
        in if sz = 2 then ucast (ucast result :: u16)
           else if sz \<le> 4 then ucast (ucast result :: u32)
           else result)"

definition reverse_octets :: "octets \<Rightarrow> nat \<Rightarrow> octets" where
  "reverse_octets buffer sz =
     (if sz \<le> 1 then buffer
      else foreach (sz div 2)
        (\<lambda>i b. (b[i := b ! (sz - 1 - i)])[sz - 1 - i := b ! i]) buffer)"

text \<open>The first \<open>sz\<close> bytes of a little-endian integer object.\<close>

definition object_bytes :: "u64 \<Rightarrow> nat \<Rightarrow> octets" where
  "object_bytes v sz = map (\<lambda>i. ucast (drop_bit (8 * i) v)) [0..<sz]"

definition int_to_octets :: "u64 \<Rightarrow> nat \<Rightarrow> octets" where
  "int_to_octets v sz = reverse_octets (object_bytes v sz) sz"

lemma foreach_swap_nth:
  assumes "n \<le> length xs div 2" and "k < length xs"
  shows "foreach n (\<lambda>i b. (b[i := b ! (length xs - 1 - i)])[length xs - 1 - i := b ! i]) xs ! k =
           (if k < n \<or> length xs - 1 - k < n then xs ! (length xs - 1 - k) else xs ! k)
       \<and> length (foreach n (\<lambda>i b. (b[i := b ! (length xs - 1 - i)])[length xs - 1 - i := b ! i]) xs)
           = length xs"
  using assms
proof (induction n arbitrary: k)
  case 0
  then show ?case by simp
next
  case (Suc n)
  let ?f = "\<lambda>i b. (b[i := b ! (length xs - 1 - i)])[length xs - 1 - i := b ! i]"
  let ?b = "foreach n ?f xs"
  let ?m = "length xs - 1 - n"
  have n: "n < length xs" "n < ?m" "?m < length xs" using Suc.prems by auto
  have le: "n \<le> length xs div 2" using Suc.prems by simp
  have len: "length ?b = length xs" using Suc.IH [OF le n(1)] by simp
  have lo: "?b ! n = xs ! n" using Suc.IH [OF le n(1)] n by auto
  have hi: "?b ! ?m = xs ! ?m" using Suc.IH [OF le n(3)] n by auto
  have k: "?b ! k = (if k < n \<or> length xs - 1 - k < n then xs ! (length xs - 1 - k) else xs ! k)"
    using Suc.IH [OF le Suc.prems(2)] by simp
  have "?f n ?b ! k = (if k = ?m then xs ! n else if k = n then xs ! ?m else ?b ! k)"
    using n len lo hi by (auto simp: nth_list_update)
  with k n Suc.prems len show ?case
    by (auto simp: foreach_Suc)
qed

lemma length_reverse_octets [simp]: "length (reverse_octets xs n) = length xs"
  unfolding reverse_octets_def by (auto intro: foreach_frame)

lemma reverse_octets_rev: "reverse_octets xs (length xs) = rev xs"
proof (cases "length xs \<le> 1")
  case True
  then have "xs = [] \<or> (\<exists>x. xs = [x])" by (cases xs) auto
  then show ?thesis by (auto simp: reverse_octets_def)
next
  case False
  show ?thesis
  proof (rule nth_equalityI)
    show "length (reverse_octets xs (length xs)) = length (rev xs)"
      by simp
  next
    fix k assume "k < length (reverse_octets xs (length xs))"
    then have k: "k < length xs" by simp
    have mid: "\<not> k < length xs div 2 \<Longrightarrow> \<not> length xs - 1 - k < length xs div 2 \<Longrightarrow>
      length xs - 1 - k = k" using k by linarith
    show "reverse_octets xs (length xs) ! k = rev xs ! k"
      using foreach_swap_nth [OF le_refl k] False mid k
      by (auto simp: reverse_octets_def rev_nth split: if_splits)
  qed
qed

lemma length_object_bytes [simp]: "length (object_bytes v n) = n"
  by (simp add: object_bytes_def)

lemma int_to_octets_rev: "int_to_octets v n = rev (object_bytes v n)"
  using reverse_octets_rev [of "object_bytes v n"] by (simp add: int_to_octets_def)

lemma length_int_to_octets [simp]: "length (int_to_octets v n) = n"
  by (simp add: int_to_octets_rev)

lemma nth_int_to_octets:
  "i < n \<Longrightarrow> int_to_octets v n ! i = ucast (drop_bit (8 * (n - 1 - i)) v)"
  by (simp add: int_to_octets_rev rev_nth object_bytes_def)

lemma bit_octet_fold:
  "k < 64 \<Longrightarrow> bit (foreach m (\<lambda>i r. r OR push_bit (8 * (sz - 1 - i)) (ucast (b i :: u8))) (0 :: u64)) k
     \<longleftrightarrow> (\<exists>i<m. 8 * (sz - 1 - i) \<le> k \<and> bit (b i) (k - 8 * (sz - 1 - i)))"
  by (induction m) (auto simp: foreach_Suc bit_simps less_Suc_eq)

lemma octet_fold_int_to_octets:
  assumes "0 < n" "n \<le> 8"
  shows "foreach n (\<lambda>i r. r OR push_bit (8 * (n - 1 - i)) (ucast (int_to_octets v n ! i))) (0 :: u64)
       = take_bit (8 * n) v"
proof (rule bit_eqI)
  fix k assume "possible_bit TYPE(u64) k"
  then have k: "k < 64" by simp
  have "bit (foreach n (\<lambda>i r. r OR push_bit (8 * (n - 1 - i)) (ucast (int_to_octets v n ! i))) (0 :: u64)) k
    \<longleftrightarrow> (\<exists>i<n. 8 * (n - 1 - i) \<le> k \<and> bit (int_to_octets v n ! i) (k - 8 * (n - 1 - i)))"
    using k by (rule bit_octet_fold)
  also have "\<dots> \<longleftrightarrow> (\<exists>i<n. 8 * (n - 1 - i) \<le> k \<and> k < 8 * (n - 1 - i) + 8 \<and> bit v k)"
    by (rule ex_cong1) (auto simp: nth_int_to_octets bit_simps)
  also have "\<dots> \<longleftrightarrow> k < 8 * n \<and> bit v k"
  proof (cases "k < 8 * n")
    case True
    let ?i = "n - 1 - k div 8"
    have q: "k div 8 < n" using True by linarith
    then have "?i < n" "n - 1 - ?i = k div 8" by auto
    moreover have "8 * (k div 8) \<le> k" "k < 8 * (k div 8) + 8" by linarith+
    ultimately show ?thesis using True by metis
  next
    case False
    then show ?thesis by auto
  qed
  finally show "bit (foreach n (\<lambda>i r. r OR push_bit (8 * (n - 1 - i)) (ucast (int_to_octets v n ! i))) (0 :: u64)) k
     \<longleftrightarrow> bit (take_bit (8 * n) v) k"
    using k by (auto simp: bit_simps)
qed

lemma ucast_ucast_take_bit: "(ucast (ucast (v :: u64) :: u16) :: u64) = take_bit 16 v"
  by (rule bit_eqI) (auto simp: bit_simps)

lemma ucast_ucast_take_bit32: "(ucast (ucast (v :: u64) :: u32) :: u64) = take_bit 32 v"
  by (rule bit_eqI) (auto simp: bit_simps)

text \<open>Reading back a field that \<open>int_to_octets\<close> wrote gives the value modulo the
  field's width, for every field of two to eight octets.\<close>

theorem octets_roundtrip:
  assumes "2 \<le> n" and "n \<le> 8"
  shows "octets_to_uint (int_to_octets v n) n = take_bit (8 * n) v"
  using assms octet_fold_int_to_octets [of n v]
  by (auto simp: octets_to_uint_def Let_def ucast_ucast_take_bit ucast_ucast_take_bit32 min_def)

theorem octets_roundtrip_witness:
  "octets_to_uint (int_to_octets 0xABCDE 2) 2 = 0xBCDE"
  using octets_roundtrip [of 2 "0xABCDE"] by (simp add: take_bit_eq_mask mask_eq_exp_minus_1)


section \<open>Three-packed events\<close>

definition int_to_3pe :: "int \<Rightarrow> int \<Rightarrow> int \<Rightarrow> u8" where
  "int_to_3pe value1 value2 value3 = word_of_int (value1 * 36 + value2 * 6 + value3)"

definition three_pe_to_int :: "u8 \<Rightarrow> int \<times> int \<times> int" where
  "three_pe_to_int v = (uint v div 36, uint v mod 36 div 6, uint v mod 6)"

definition attr_event_value :: "int \<Rightarrow> bool" where
  "attr_event_value e \<longleftrightarrow> 0 \<le> e \<and> e \<le> 5"

lemma uint_int_to_3pe:
  assumes "0 \<le> a * 36 + b * 6 + c" and "a * 36 + b * 6 + c < 256"
  shows "uint (int_to_3pe a b c) = a * 36 + b * 6 + c"
proof -
  have "uint (int_to_3pe a b c) = (a * 36 + b * 6 + c) mod 2 ^ 8"
    by (simp only: int_to_3pe_def uint_word_of_int len_num1 len_bit0) simp
  also have "\<dots> = a * 36 + b * 6 + c"
    using assms by (simp add: mod_pos_pos_trivial)
  finally show ?thesis .
qed

text \<open>The three-packed-event codec is a bijection between triples of attribute events
  (0 to 5) and the octets below 216.\<close>

theorem three_pe_roundtrip:
  "attr_event_value a \<Longrightarrow> attr_event_value b \<Longrightarrow> attr_event_value c \<Longrightarrow>
     three_pe_to_int (int_to_3pe a b c) = (a, b, c) \<and> int_to_3pe a b c < 216"
proof -
  assume "attr_event_value a" "attr_event_value b" "attr_event_value c"
  then have r: "0 \<le> a" "a \<le> 5" "0 \<le> b" "b \<le> 5" "0 \<le> c" "c \<le> 5"
    by (auto simp: attr_event_value_def)
  have u: "uint (int_to_3pe a b c) = a * 36 + b * 6 + c"
    using r by (intro uint_int_to_3pe) auto
  have bc: "0 \<le> b * 6 + c" "b * 6 + c < 36" using r by linarith+
  have "(a * 36 + b * 6 + c) div 36 = a + (b * 6 + c) div 36"
    by (simp add: add.assoc)
  then have "(a * 36 + b * 6 + c) div 36 = a" using bc by simp
  moreover have "(a * 36 + b * 6 + c) mod 36 = b * 6 + c"
    using bc by (simp add: add.assoc)
  moreover have "(b * 6 + c) div 6 = b" using r by simp
  moreover have "(a * 36 + b * 6 + c) mod 6 = c"
  proof -
    have "a * 36 + b * 6 + c = c + (a * 6 + b) * 6" by simp
    then have "(a * 36 + b * 6 + c) mod 6 = c mod 6" by (simp only: mod_mult_self1)
    then show ?thesis using r by simp
  qed
  ultimately show ?thesis
    using u r by (simp add: three_pe_to_int_def word_less_def)
qed

theorem three_pe_roundtrip_witness: "three_pe_to_int (int_to_3pe 5 0 3) = (5, 0, 3)"
  using three_pe_roundtrip [of 5 0 3] by (simp add: attr_event_value_def)

lemma three_pe_first:
  "attr_event_value a \<Longrightarrow> fst (three_pe_to_int (int_to_3pe a 0 0)) = a"
  using uint_int_to_3pe [of a 0 0] by (simp add: three_pe_to_int_def attr_event_value_def)

section \<open>Bit and hex strings\<close>

definition hex_digit :: "nat \<Rightarrow> char" where
  "hex_digit n = ''0123456789ABCDEF'' ! n"

definition octets_to_hex_string :: "octets \<Rightarrow> nat \<Rightarrow> char \<Rightarrow> string option" where
  "octets_to_hex_string buffer sz delimiter =
     (if sz = 0 then None
      else
        let d = (if delimiter = CHR 0x00 then CHR '' '' else delimiter)
        in Some (foreach sz
             (\<lambda>i hex_string. hex_string
                @ [hex_digit (unat (buffer ! i) div 16), hex_digit (unat (buffer ! i) mod 16)]
                @ (if i < sz - 1 then [d] else [])) []))"

definition octets_to_binary_string :: "octets \<Rightarrow> nat \<Rightarrow> string option" where
  "octets_to_binary_string buffer sz =
     (if sz = 0 then None
      else Some (concat (map (\<lambda>i. map (\<lambda>b. if (buffer ! i) AND push_bit b 1 \<noteq> 0
                                          then CHR ''1'' else CHR ''0'') (rev [0..<8])) [0..<sz])))"

definition int_to_binary_string :: "u64 \<Rightarrow> int \<Rightarrow> bool \<Rightarrow> string option" where
  "int_to_binary_string v num_bits reverse_order =
     (if num_bits \<le> 0 \<or> num_bits > 64 then None
      else let n = nat num_bits in
        Some (map (\<lambda>i. if \<not> reverse_order
                        then if v AND push_bit (n - 1 - i) 1 \<noteq> 0 then CHR ''1'' else CHR ''0''
                        else if v AND push_bit i 1 \<noteq> 0 then CHR ''1'' else CHR ''0'') [0..<n]))"

lemma hex_string_len:
  "length (foreach m (\<lambda>i hex_string. hex_string
     @ hex_digit (unat (buffer ! i) div 16) # hex_digit (unat (buffer ! i) mod 16)
     # (if i < sz - Suc 0 then [d] else [])) []) = 2 * m + min m (sz - 1)"
  by (induction m) (auto simp: foreach_Suc)

text \<open>The hex string of \<open>sz\<close> octets, with its terminator, fits the \<open>3 * sz + 1\<close>
  bytes the comment of \<open>octets_to_hex_string\<close> asks of the caller (one byte is spare).\<close>

theorem hex_string_fits:
  "octets_to_hex_string buffer sz d = Some out \<Longrightarrow> length out + 1 = 3 * sz"
  by (auto simp: octets_to_hex_string_def Let_def hex_string_len split: if_splits)

theorem hex_string_fits_witness:
  "octets_to_hex_string [0x0a, 0xff] 2 (CHR '':'') = Some ''0A:FF'' \<and> length ''0A:FF'' + 1 = 6"
proof -
  have e: "octets_to_hex_string [0x0a, 0xff] 2 (CHR '':'') = Some ''0A:FF''" by code_simp
  show ?thesis using e hex_string_fits [OF e] by simp
qed

section \<open>Endianness reversal\<close>

definition reverse_endianness :: "u64 \<Rightarrow> int \<Rightarrow> u64" where
  "reverse_endianness v num_bits =
     (if num_bits = 16 then
        push_bit 8 (v AND 0x00FF) OR drop_bit 8 (v AND 0xFF00)
      else if num_bits = 32 then
        push_bit 24 (v AND 0x000000FF) OR push_bit 8 (v AND 0x0000FF00)
        OR drop_bit 8 (v AND 0x00FF0000) OR drop_bit 24 (v AND 0xFF000000)
      else if num_bits = 64 then
        push_bit 56 (v AND 0x00000000000000FF) OR push_bit 40 (v AND 0x000000000000FF00)
        OR push_bit 24 (v AND 0x0000000000FF0000) OR push_bit 8 (v AND 0x00000000FF000000)
        OR drop_bit 8 (v AND 0x000000FF00000000) OR drop_bit 24 (v AND 0x0000FF0000000000)
        OR drop_bit 40 (v AND 0x00FF000000000000) OR drop_bit 56 (v AND 0xFF00000000000000)
      else v)"

definition reverse_endianness_64 :: "u64 \<Rightarrow> u64" where
  "reverse_endianness_64 v = reverse_endianness v 64"

definition reverse_endianness_32 :: "u32 \<Rightarrow> u32" where
  "reverse_endianness_32 v = ucast (reverse_endianness (ucast v) 32)"

definition reverse_endianness_16 :: "u16 \<Rightarrow> u16" where
  "reverse_endianness_16 v = ucast (reverse_endianness (ucast v) 16)"

section \<open>Time values\<close>

record timeval =
  tv_sec :: int
  tv_usec :: int

definition octets_to_timeval :: "octets \<Rightarrow> timeval" where
  "octets_to_timeval buffer =
     \<lparr> tv_sec = uint (octets_to_uint buffer 6),
       tv_usec = uint (octets_to_uint (drop 6 buffer) 4) div 1000 \<rparr>"

definition timeval_to_octets :: "timeval \<Rightarrow> octets \<times> octets" where
  "timeval_to_octets tv =
     (reverse_octets (object_bytes (word_of_int (tv_sec tv)) 6) 6,
      reverse_octets (object_bytes (word_of_int (tv_usec tv * 1000)) 4) 4)"

definition timeval_add :: "timeval \<Rightarrow> timeval \<Rightarrow> timeval" where
  "timeval_add a b =
     (let sec = tv_sec a + tv_sec b; usec = tv_usec a + tv_usec b
      in if usec \<ge> 1000000
         then \<lparr> tv_sec = sec + usec sdiv 1000000, tv_usec = usec smod 1000000 \<rparr>
         else \<lparr> tv_sec = sec, tv_usec = usec \<rparr>)"

definition timeval_subtract :: "timeval \<Rightarrow> timeval \<Rightarrow> timeval" where
  "timeval_subtract a b =
     (let sec = tv_sec a - tv_sec b; usec = tv_usec a - tv_usec b
      in if usec < 0
         then \<lparr> tv_sec = sec - 1, tv_usec = usec + 1000000 \<rparr>
         else \<lparr> tv_sec = sec, tv_usec = usec \<rparr>)"

text \<open>A division by zero is undefined in C, hence the option.\<close>

definition timeval_divide_by_int :: "timeval \<Rightarrow> int \<Rightarrow> timeval option" where
  "timeval_divide_by_int tv divisor =
     (if divisor = 0 then None
      else let total_usec = (tv_sec tv * 1000000 + tv_usec tv) sdiv divisor
           in Some \<lparr> tv_sec = total_usec sdiv 1000000, tv_usec = total_usec smod 1000000 \<rparr>)"

definition compare_timeval :: "timeval \<Rightarrow> timeval \<Rightarrow> int" where
  "compare_timeval t1 t2 =
     (if tv_sec t1 < tv_sec t2 then -1
      else if tv_sec t1 > tv_sec t2 then 1
      else if tv_usec t1 < tv_usec t2 then -1
      else if tv_usec t1 > tv_usec t2 then 1
      else 0)"

definition timeval_add_ms :: "timeval \<Rightarrow> int \<Rightarrow> timeval" where
  "timeval_add_ms tv ms =
     (let sec = tv_sec tv + ms sdiv 1000; usec = tv_usec tv + (ms smod 1000) * 1000
      in if usec \<ge> 1000000 then \<lparr> tv_sec = sec + 1, tv_usec = usec - 1000000 \<rparr>
         else \<lparr> tv_sec = sec, tv_usec = usec \<rparr>)"

definition timeval_ok :: "timeval \<Rightarrow> bool" where
  "timeval_ok tv \<longleftrightarrow> 0 \<le> tv_usec tv \<and> tv_usec tv < 1000000"

definition timeval_us :: "timeval \<Rightarrow> int" where
  "timeval_us tv = tv_sec tv * 1000000 + tv_usec tv"

lemma smod_pos: "0 \<le> (a :: int) \<Longrightarrow> 0 < b \<Longrightarrow> a smod b = a mod b"
  by (cases "a = 0") (simp_all add: signed_modulo_int_def)

lemma sdiv_pos: "0 \<le> (a :: int) \<Longrightarrow> 0 < b \<Longrightarrow> a sdiv b = a div b"
  by (cases "a = 0") (simp_all add: signed_divide_int_def)

text \<open>Addition, subtraction and comparison of normalised time values are those of the
  microsecond counts they stand for, and the sum and the difference are normalised.\<close>

theorem timeval_arith:
  assumes "timeval_ok a" and "timeval_ok b"
  shows "timeval_us (timeval_add a b) = timeval_us a + timeval_us b \<and> timeval_ok (timeval_add a b)
    \<and> timeval_us (timeval_subtract a b) = timeval_us a - timeval_us b
    \<and> timeval_ok (timeval_subtract a b)
    \<and> compare_timeval a b = sgn (timeval_us a - timeval_us b)"
  using assms
  by (auto simp: timeval_ok_def timeval_us_def timeval_add_def timeval_subtract_def Let_def
      compare_timeval_def sdiv_pos smod_pos sgn_if)

theorem timeval_arith_witness:
  "timeval_add \<lparr> tv_sec = 1, tv_usec = 600000 \<rparr> \<lparr> tv_sec = 2, tv_usec = 700000 \<rparr>
     = \<lparr> tv_sec = 4, tv_usec = 300000 \<rparr>"
  using timeval_arith [of "\<lparr> tv_sec = 1, tv_usec = 600000 \<rparr>" "\<lparr> tv_sec = 2, tv_usec = 700000 \<rparr>"]
  by (simp add: timeval_ok_def timeval_us_def timeval_add_def sdiv_pos smod_pos)

end
