(* ===== verification/Maap.thy ===== *)
theory Maap
  imports Utils
begin

text \<open>
  MAAP, the acquisition of multicast destination addresses for the output streams
  (\<open>mrp.c\<close>, IEEE 1722 Annex B).  The state is the MAC address of port 0, the per-stream
  machines and the stream destination addresses; messages sent are collected, newest last,
  in \<open>maap_tx\<close>.  \<open>now\<close> is the value of \<open>esp_timer_get_time\<close> during the call.
\<close>

section \<open>State and messages\<close>

datatype maap_state_t = maap_state_initial | maap_state_probe | maap_state_defend

datatype maap_msg_type_t = maap_msg_type_probe | maap_msg_type_defend | maap_msg_type_announce
  | maap_msg_type_other

record maap_stream_state_s =
  maap_state :: maap_state_t
  acquired_addr :: octets
  probe_count :: u8
  timer_expiry_us :: int
  acquired :: bool
  reselect_count :: u16

text \<open>The fields of \<open>maap_message_s\<close> that carry information: the constants of the header
  (subtype, versions, length) are the same in every message sent.\<close>

record maap_message_s =
  msg_type :: maap_msg_type_t
  req_start_addr :: octets
  req_count :: octets
  confl_start_addr :: octets
  confl_count :: octets

record maap_ctx =
  internal_mac_addr :: octets
  maap :: "maap_stream_state_s list"
  stream_dest_addr :: "octets list"
  maap_tx :: "maap_message_s list"

definition MAAP_PROBE_RETRANSMITS :: u8 where "MAAP_PROBE_RETRANSMITS = 3"
definition MAAP_PROBE_INTERVAL_BASE_MS :: int where "MAAP_PROBE_INTERVAL_BASE_MS = 500"
definition MAAP_PROBE_INTERVAL_VAR_MS :: int where "MAAP_PROBE_INTERVAL_VAR_MS = 100"
definition MAAP_ANNOUNCE_INTERVAL_BASE_MS :: int where "MAAP_ANNOUNCE_INTERVAL_BASE_MS = 30000"
definition MAAP_ANNOUNCE_INTERVAL_VAR_MS :: int where "MAAP_ANNOUNCE_INTERVAL_VAR_MS = 2000"
definition MAAP_POOL_SIZE :: u32 where "MAAP_POOL_SIZE = 0xFE00"

section \<open>Operations\<close>

definition maap_seed :: "octets \<Rightarrow> nat \<Rightarrow> u16 \<Rightarrow> u32" where
  "maap_seed mac stream_index reselects =
     (let seed = ucast (mac ! 2) XOR ucast (mac ! 3);
          seed = push_bit 8 seed OR ucast (mac ! 4);
          seed = push_bit 8 seed OR ucast (mac ! 5);
          seed = seed + of_nat stream_index
      in seed + ucast reselects * 0x0101)"

definition maap_generate_addr :: "octets \<Rightarrow> nat \<Rightarrow> u16 \<Rightarrow> octets" where
  "maap_generate_addr mac stream_index reselects =
     (let offset = (ucast (maap_seed mac stream_index reselects mod MAAP_POOL_SIZE) :: u16)
      in [0x91, 0xe0, 0xf0, 0x00,
          ucast (drop_bit 8 offset AND 0xFF), ucast (offset AND 0xFF)])"

definition maap_jitter_us :: "int \<Rightarrow> int \<Rightarrow> int \<Rightarrow> int" where
  "maap_jitter_us now base_ms var_ms =
     (let r = uint (word_of_int now :: u32); jitter = r mod (var_ms + 1)
      in (base_ms + jitter) * 1000)"

definition maap_addr_conflicts :: "octets \<Rightarrow> octets \<Rightarrow> bool" where
  "maap_addr_conflicts a b \<longleftrightarrow> take 6 a = take 6 b"

definition avb_send_maap_msg ::
  "maap_msg_type_t \<Rightarrow> octets \<Rightarrow> u16 \<Rightarrow> octets option \<Rightarrow> u16 \<Rightarrow> maap_ctx \<Rightarrow> maap_ctx" where
  "avb_send_maap_msg ty req_addr rcount confl_addr ccount s =
     (let msg = \<lparr> msg_type = ty, req_start_addr = req_addr,
                 req_count = int_to_octets (ucast rcount) 2,
                 confl_start_addr = (case confl_addr of None \<Rightarrow> zeros 6 | Some a \<Rightarrow> a),
                 confl_count = (if ccount > 0 then int_to_octets (ucast ccount) 2 else zeros 2) \<rparr>
      in s\<lparr> maap_tx := maap_tx s @ [msg] \<rparr>)"

definition upd_maap ::
  "nat \<Rightarrow> (maap_stream_state_s \<Rightarrow> maap_stream_state_s) \<Rightarrow> maap_ctx \<Rightarrow> maap_ctx" where
  "upd_maap i f s = s\<lparr> maap := upd_at i f (maap s) \<rparr>"

definition maap_probe_timer :: "int \<Rightarrow> int" where
  "maap_probe_timer now =
     now + maap_jitter_us now MAAP_PROBE_INTERVAL_BASE_MS MAAP_PROBE_INTERVAL_VAR_MS"

definition maap_announce_timer :: "int \<Rightarrow> int" where
  "maap_announce_timer now =
     now + maap_jitter_us now MAAP_ANNOUNCE_INTERVAL_BASE_MS MAAP_ANNOUNCE_INTERVAL_VAR_MS"

definition avb_maap_init :: "int \<Rightarrow> maap_ctx \<Rightarrow> maap_ctx" where
  "avb_maap_init now s =
     foreach (length (maap s)) (\<lambda>i s.
       let mac = internal_mac_addr s;
           s = upd_maap i (\<lambda>m. m\<lparr> maap_state := maap_state_initial, acquired := False \<rparr>) s;
           s = upd_maap i (\<lambda>m. m\<lparr> acquired_addr := maap_generate_addr mac i (reselect_count m) \<rparr>) s;
           s = upd_maap i (\<lambda>m. m\<lparr> probe_count := MAAP_PROBE_RETRANSMITS,
                 timer_expiry_us := maap_probe_timer now, maap_state := maap_state_probe \<rparr>) s
       in avb_send_maap_msg maap_msg_type_probe (acquired_addr (maap s ! i)) 1 None 0 s) s"

definition maap_tick_stream :: "int \<Rightarrow> nat \<Rightarrow> maap_ctx \<Rightarrow> maap_ctx" where
  "maap_tick_stream now i s =
     (let m = maap s ! i in
      if now < timer_expiry_us m then s
      else if maap_state m = maap_state_probe then
        (let s = upd_maap i (\<lambda>m. m\<lparr> probe_count := probe_count m - 1 \<rparr>) s in
         if probe_count (maap s ! i) = 0 then
           (let s = upd_maap i (\<lambda>m. m\<lparr> maap_state := maap_state_defend, acquired := True \<rparr>) s;
                s = s\<lparr> stream_dest_addr := (stream_dest_addr s)[i := acquired_addr m] \<rparr>;
                s = avb_send_maap_msg maap_msg_type_announce (acquired_addr m) 1 None 0 s
            in upd_maap i (\<lambda>m. m\<lparr> timer_expiry_us := maap_announce_timer now \<rparr>) s)
         else
           (let s = avb_send_maap_msg maap_msg_type_probe (acquired_addr m) 1 None 0 s
            in upd_maap i (\<lambda>m. m\<lparr> timer_expiry_us := maap_probe_timer now \<rparr>) s))
      else if maap_state m = maap_state_defend then
        (let s = avb_send_maap_msg maap_msg_type_announce (acquired_addr m) 1 None 0 s
         in upd_maap i (\<lambda>m. m\<lparr> timer_expiry_us := maap_announce_timer now \<rparr>) s)
      else s)"

definition avb_maap_tick :: "int \<Rightarrow> maap_ctx \<Rightarrow> maap_ctx" where
  "avb_maap_tick now s = foreach (length (maap s)) (maap_tick_stream now) s"

text \<open>The reselection both probe conflicts and a conflicting announce share.\<close>

definition maap_reselect :: "int \<Rightarrow> octets \<Rightarrow> nat \<Rightarrow> maap_stream_state_s \<Rightarrow> maap_stream_state_s" where
  "maap_reselect now mac i m =
     (let m = m\<lparr> reselect_count := reselect_count m + 1 \<rparr>;
          m = m\<lparr> acquired_addr := maap_generate_addr mac i (reselect_count m) \<rparr>
      in m\<lparr> probe_count := MAAP_PROBE_RETRANSMITS, timer_expiry_us := maap_probe_timer now \<rparr>)"

definition maap_process_stream :: "int \<Rightarrow> maap_message_s \<Rightarrow> nat \<Rightarrow> maap_ctx \<Rightarrow> maap_ctx" where
  "maap_process_stream now msg i s =
     (let m = maap s ! i; mac = internal_mac_addr s in
      if \<not> maap_addr_conflicts (acquired_addr m) (req_start_addr msg) then s
      else case msg_type msg of
        maap_msg_type_probe \<Rightarrow>
          if maap_state m = maap_state_defend
          then avb_send_maap_msg maap_msg_type_defend (req_start_addr msg) 1
                 (Some (acquired_addr m)) 1 s
          else if maap_state m = maap_state_probe
          then upd_maap i (maap_reselect now mac i) s
          else s
      | maap_msg_type_defend \<Rightarrow>
          if maap_state m = maap_state_probe then upd_maap i (maap_reselect now mac i) s else s
      | maap_msg_type_announce \<Rightarrow>
          if maap_state m = maap_state_defend
          then upd_maap i (\<lambda>m. (maap_reselect now mac i (m\<lparr> acquired := False \<rparr>))
                                 \<lparr> maap_state := maap_state_probe \<rparr>) s
          else s
      | maap_msg_type_other \<Rightarrow> s)"

definition avb_process_maap :: "int \<Rightarrow> maap_message_s \<Rightarrow> maap_ctx \<Rightarrow> maap_ctx" where
  "avb_process_maap now msg s = foreach (length (maap s)) (maap_process_stream now msg) s"

section \<open>The address sequence\<close>

definition maap_base :: "octets \<Rightarrow> u32" where
  "maap_base mac =
     push_bit 8 (push_bit 8 (ucast (mac ! 2) XOR ucast (mac ! 3)) OR ucast (mac ! 4)) OR ucast (mac ! 5)"

lemma octet_bit_out: "8 \<le> n \<Longrightarrow> \<not> bit (w :: u8) n"
  using bit_imp_le_length by fastforce

lemma maap_base_less: "unat (maap_base mac) < 2 ^ 24"
proof -
  have t: "take_bit 24 (maap_base mac) = maap_base mac"
  proof (rule bit_eqI)
    fix k assume "possible_bit TYPE(u32) k"
    then have k: "k < 32" by simp
    show "bit (take_bit 24 (maap_base mac)) k = bit (maap_base mac) k"
      unfolding maap_base_def 
      using k by (cases "k < 24") (simp_all add: bit_simps octet_bit_out)
  qed
  have "unat (take_bit 24 (maap_base mac)) < 2 ^ 24"
    by (simp only: unsigned_take_bit_eq take_bit_nat_less_exp)
  then show ?thesis unfolding t .
qed
lemma octet_mask_bit: "bit (0xFF :: int) j \<longleftrightarrow> j < 8"
proof -
  have "(0xFF :: int) = mask 8" by (simp add: mask_eq_exp_minus_1)
  then have "bit (0xFF :: int) j = bit (mask 8 :: int) j" by (rule arg_cong)
  then show ?thesis by (simp only: bit_mask_iff) auto
qed

lemma octet_split: "x = push_bit 8 (ucast (ucast (drop_bit 8 x AND 0xFF) :: u8)) OR
      ucast (ucast (x AND 0xFF) :: u8)" for x :: u16
  proof (rule bit_eqI)
    fix k assume "possible_bit TYPE(u16) k"
    then have k: "k < 16" "k - 8 < 8" by auto
    show "bit x k = bit (push_bit 8 (ucast (ucast (drop_bit 8 x AND 0xFF) :: u8)) OR
      ucast (ucast (x AND 0xFF) :: u8) :: u16) k"
      using k by (cases "k < 8") (simp_all add: bit_simps octet_mask_bit)
  qed

lemma maap_seed_unat:
  assumes "i < 256"
  shows "unat (maap_seed mac i r) = unat (maap_base mac) + i + 257 * unat r"
proof -
  have i: "unat (of_nat i :: u32) = i" using assms by (simp add: unat_of_nat)
  have l: "unat r < 2 ^ 16" using unsigned_less [of r] by simp
  then have r: "unat (ucast r * 0x0101 :: u32) = 257 * unat r"
    by (simp add: unat_word_ariths unsigned_ucast_eq take_bit_nat_eq_self)
  have b: "unat (maap_base mac + of_nat i) = unat (maap_base mac) + i"
    using maap_base_less [of mac] assms by (simp add: unat_word_ariths i)
  have "maap_seed mac i r = (maap_base mac + of_nat i) + ucast r * 0x0101"
    by (simp add: maap_seed_def maap_base_def)
  then have "unat (maap_seed mac i r) = (unat (maap_base mac) + i + 257 * unat r) mod 2 ^ 32"
    using unat_word_ariths(1) [of "maap_base mac + of_nat i" "ucast r * 0x0101"]
    by (simp only: r b) simp
  then show ?thesis
    using l maap_base_less [of mac] assms by simp
qed

definition maap_offset :: "octets \<Rightarrow> nat \<Rightarrow> u16 \<Rightarrow> nat" where
  "maap_offset mac i r = unat (maap_seed mac i r) mod 65024"

lemma maap_offset_word:
  "unat (ucast (maap_seed mac i r mod MAAP_POOL_SIZE) :: u16) = maap_offset mac i r"
proof -
  have "unat (maap_seed mac i r mod MAAP_POOL_SIZE) = maap_offset mac i r"
    by (simp add: maap_offset_def MAAP_POOL_SIZE_def unat_mod)
  moreover have "maap_offset mac i r < 65024" by (simp add: maap_offset_def)
  ultimately show ?thesis by (simp add: unsigned_ucast_eq take_bit_nat_eq_self)
qed
lemma maap_generate_addr_eqD:
  assumes "maap_generate_addr mac i r = maap_generate_addr mac j q"
  shows "maap_offset mac i r = maap_offset mac j q"
proof -
  let ?v = "ucast (maap_seed mac i r mod MAAP_POOL_SIZE) :: u16"
  let ?w = "ucast (maap_seed mac j q mod MAAP_POOL_SIZE) :: u16"
  have e: "(ucast (drop_bit 8 ?v AND 0xFF) :: u8) = ucast (drop_bit 8 ?w AND 0xFF)"
    "(ucast (?v AND 0xFF) :: u8) = ucast (?w AND 0xFF)"
    using assms unfolding maap_generate_addr_def Let_def list.inject by blast+
  have "?v = ?w" using octet_split [of ?v] octet_split [of ?w] unfolding e by (rule trans [OF _ sym])
  then show ?thesis by (metis maap_offset_word)
qed
text \<open>257 is invertible modulo the pool size.\<close>

lemma coprime_257: "coprime 65024 (257 :: int)"
proof (rule coprimeI)
  fix c :: int assume "c dvd 65024" "c dvd 257"
  then have "c dvd 257 * 43265 - 65024 * 171" by (intro dvd_diff dvd_mult2)
  then show "is_unit c" by simp
qed
lemma mult_257_cancel: "65024 dvd 257 * (d :: int) \<longleftrightarrow> 65024 dvd d"
  using coprime_257 by (rule coprime_dvd_mult_right_iff)
lemma maap_offset_cong:
  assumes "maap_offset mac i r = maap_offset mac j q" and "i < 256" and "j < 256"
  shows "65024 dvd (int i - int j) + 257 * (uint r - uint q)"
proof -
  have "int (unat (maap_seed mac i r)) mod 65024 = int (unat (maap_seed mac j q)) mod 65024"
    using arg_cong [OF assms(1), of int] by (simp add: maap_offset_def zmod_int)
  then have "65024 dvd int (unat (maap_seed mac i r)) - int (unat (maap_seed mac j q))"
    by (simp only: mod_eq_dvd_iff)
  moreover have "int (unat (maap_seed mac i r)) - int (unat (maap_seed mac j q))
      = (int i - int j) + 257 * (uint r - uint q) + (int (unat (maap_base mac)) - int (unat (maap_base mac)))"
    unfolding maap_seed_unat [OF assms(2)] maap_seed_unat [OF assms(3)] by simp
  ultimately show ?thesis by simp
qed

lemma dvd_small: "\<lbrakk>(m :: int) dvd d; \<bar>d\<bar> < m\<rbrakk> \<Longrightarrow> d = 0"
  by (meson dvd_imp_le_int not_less order_less_le_trans abs_ge_self)

text \<open>A stream that keeps losing its address does not come back to one before it has
  tried all others of the pool: two retry counts of the same stream that differ by less than
  the pool size give different addresses.\<close>

theorem maap_retries_distinct:
  assumes "i < 256" and "r \<noteq> q" and "\<bar>uint r - uint q\<bar> < 65024"
  shows "maap_generate_addr mac i r \<noteq> maap_generate_addr mac i q"
proof
  assume "maap_generate_addr mac i r = maap_generate_addr mac i q"
  from maap_offset_cong [OF maap_generate_addr_eqD [OF this] assms(1,1)]
  have "65024 dvd 257 * (uint r - uint q)" by simp
  then have "65024 dvd uint r - uint q" by (simp only: mult_257_cancel)
  from dvd_small [OF this assms(3)] have "r = q" by (simp add: word_uint_eq_iff)
  with assms(2) show False by simp
qed

theorem maap_retries_distinct_witness:
  "maap_generate_addr [2, 0, 0, 0, 0, 1] 0 0 \<noteq> maap_generate_addr [2, 0, 0, 0, 0, 1] 0 1"
  by (rule maap_retries_distinct) simp_all

text \<open>The two streams of a device never contend with each other as long as their retry
  counts are less than 21759 apart.\<close>

theorem maap_streams_distinct:
  assumes "\<bar>uint r - uint q\<bar> < 21759"
  shows "maap_generate_addr mac 0 r \<noteq> maap_generate_addr mac 1 q"
proof
  assume "maap_generate_addr mac 0 r = maap_generate_addr mac 1 q"
  from maap_offset_cong [OF maap_generate_addr_eqD [OF this]]
  have d: "65024 dvd - 1 + 257 * (uint r - uint q)" by simp
  have "257 * (uint r - uint q - 43265) = (- 1 + 257 * (uint r - uint q)) - 65024 * 171"
    by simp
  moreover have "65024 dvd (- 1 + 257 * (uint r - uint q)) - 65024 * 171"
    using d by (rule dvd_diff) simp
  ultimately have "65024 dvd uint r - uint q - 43265"
    by (metis mult_257_cancel)
  moreover have "\<bar>uint r - uint q - 43265\<bar> < 65024" using assms by linarith
  ultimately have "uint r - uint q - 43265 = 0" by (rule dvd_small)
  with assms show False by simp
qed

theorem maap_streams_distinct_witness:
  "maap_generate_addr [2, 0, 0, 0, 0, 1] 0 3 \<noteq> maap_generate_addr [2, 0, 0, 0, 0, 1] 1 0"
  by (rule maap_streams_distinct) simp
section \<open>The machine of one stream\<close>

text \<open>Stream \<open>i\<close> of a context is sound: its address is the one its retry count selects, it is
  acquired exactly in the defend state, and then the stream sends to it; while probing between
  one and three expiries are left.\<close>

definition maap_stream_ok :: "maap_ctx \<Rightarrow> nat \<Rightarrow> bool" where
  "maap_stream_ok s i \<longleftrightarrow>
     (let m = maap s ! i in
      acquired_addr m = maap_generate_addr (internal_mac_addr s) i (reselect_count m)
    \<and> maap_state m \<noteq> maap_state_initial
    \<and> (acquired m \<longleftrightarrow> maap_state m = maap_state_defend)
    \<and> (acquired m \<longrightarrow> stream_dest_addr s ! i = acquired_addr m)
    \<and> (maap_state m = maap_state_probe \<longrightarrow> probe_count m \<in> {1, 2, 3}))"

definition maap_ok :: "maap_ctx \<Rightarrow> bool" where
  "maap_ok s \<longleftrightarrow> length (stream_dest_addr s) = length (maap s)
     \<and> (\<forall>i < length (maap s). maap_stream_ok s i)"

lemma upd_maap_fields [simp]:
  "maap (upd_maap i f s) = upd_at i f (maap s)"
  "internal_mac_addr (upd_maap i f s) = internal_mac_addr s"
  "stream_dest_addr (upd_maap i f s) = stream_dest_addr s"
  "maap_tx (upd_maap i f s) = maap_tx s"
  by (simp_all add: upd_maap_def)

lemma send_maap_fields [simp]:
  "maap (avb_send_maap_msg ty a n c k s) = maap s"
  "internal_mac_addr (avb_send_maap_msg ty a n c k s) = internal_mac_addr s"
  "stream_dest_addr (avb_send_maap_msg ty a n c k s) = stream_dest_addr s"
  by (simp_all add: avb_send_maap_msg_def)

lemma maap_tick_stream_other:
  assumes "i \<noteq> j"
  shows "maap (maap_tick_stream now i s) ! j = maap s ! j"
    and "stream_dest_addr (maap_tick_stream now i s) ! j = stream_dest_addr s ! j"
  using assms by (simp_all add: maap_tick_stream_def Let_def)

lemma maap_tick_stream_frame [simp]:
  "length (maap (maap_tick_stream now i s)) = length (maap s)"
  "length (stream_dest_addr (maap_tick_stream now i s)) = length (stream_dest_addr s)"
  "internal_mac_addr (maap_tick_stream now i s) = internal_mac_addr s"
  by (simp_all add: maap_tick_stream_def Let_def)

lemma maap_process_stream_other:
  assumes "i \<noteq> j"
  shows "maap (maap_process_stream now msg i s) ! j = maap s ! j"
  using assms by (simp add: maap_process_stream_def Let_def split: maap_msg_type_t.split)

lemma maap_process_stream_frame [simp]:
  "length (maap (maap_process_stream now msg i s)) = length (maap s)"
  "stream_dest_addr (maap_process_stream now msg i s) = stream_dest_addr s"
  "internal_mac_addr (maap_process_stream now msg i s) = internal_mac_addr s"
  by (simp_all add: maap_process_stream_def Let_def split: maap_msg_type_t.split)

lemma maap_tick_stream_ok:
  assumes "i < length (maap s)" and "length (stream_dest_addr s) = length (maap s)"
    and "maap_stream_ok s i"
  shows "maap_stream_ok (maap_tick_stream now i s) i"
  using assms
  by (cases "maap_state (maap s ! i)")
    (auto simp: maap_stream_ok_def maap_tick_stream_def Let_def)

lemma maap_process_stream_ok:
  assumes "i < length (maap s)" and "maap_stream_ok s i"
  shows "maap_stream_ok (maap_process_stream now msg i s) i"
  using assms
  by (cases "msg_type msg"; cases "maap_state (maap s ! i)")
    (simp_all add: maap_stream_ok_def maap_process_stream_def maap_reselect_def
      MAAP_PROBE_RETRANSMITS_def Let_def)

lemma maap_tick_ok: "maap_ok s \<Longrightarrow> maap_ok (avb_maap_tick now s)"
proof -
  assume ok: "maap_ok s"
  let ?P = "\<lambda>t. maap_ok t \<and> length (maap t) = length (maap s)"
  have "?P (foreach (length (maap s)) (maap_tick_stream now) s)"
  proof (rule foreach_invariant)
    fix i t assume i: "i < length (maap s)" and t: "?P t"
    have "maap_stream_ok (maap_tick_stream now i t) j" if "j < length (maap s)" for j
      using i t that maap_tick_stream_ok [of i t now] maap_tick_stream_other [of i j now t]
      by (cases "i = j") (auto simp: maap_ok_def maap_stream_ok_def)
    then show "?P (maap_tick_stream now i t)" using t by (simp add: maap_ok_def)
  qed (use ok in simp)
  then show ?thesis by (simp add: avb_maap_tick_def)
qed

lemma maap_process_ok: "maap_ok s \<Longrightarrow> maap_ok (avb_process_maap now msg s)"
proof -
  assume ok: "maap_ok s"
  let ?P = "\<lambda>t. maap_ok t \<and> length (maap t) = length (maap s)"
  have "?P (foreach (length (maap s)) (maap_process_stream now msg) s)"
  proof (rule foreach_invariant)
    fix i t assume i: "i < length (maap s)" and t: "?P t"
    have "maap_stream_ok (maap_process_stream now msg i t) j" if "j < length (maap s)" for j
      using i t that maap_process_stream_ok [of i t now msg] maap_process_stream_other [of i j now msg t]
      by (cases "i = j") (auto simp: maap_ok_def maap_stream_ok_def)
    then show "?P (maap_process_stream now msg i t)" using t by (simp add: maap_ok_def)
  qed (use ok in simp)
  then show ?thesis by (simp add: avb_process_maap_def)
qed

section \<open>Reachable states\<close>

text \<open>A device boots with any MAC address, retry counts and old destination addresses, runs
  \<open>avb_maap_init\<close>, then interleaves ticks and received messages at any times.\<close>

inductive maap_reach :: "maap_ctx \<Rightarrow> bool" where
  boot: "length (stream_dest_addr s) = length (maap s) \<Longrightarrow> maap_reach (avb_maap_init now s)"
| tick: "maap_reach s \<Longrightarrow> maap_reach (avb_maap_tick now s)"
| recv: "maap_reach s \<Longrightarrow> maap_reach (avb_process_maap now msg s)"

lemma maap_init_ok:
  assumes "length (stream_dest_addr s) = length (maap s)"
  shows "maap_ok (avb_maap_init now s)"
proof -
  define body where "body = (\<lambda>i s.
       let mac = internal_mac_addr s;
           s = upd_maap i (\<lambda>m. m\<lparr> maap_state := maap_state_initial, acquired := False \<rparr>) s;
           s = upd_maap i (\<lambda>m. m\<lparr> acquired_addr := maap_generate_addr mac i (reselect_count m) \<rparr>) s;
           s = upd_maap i (\<lambda>m. m\<lparr> probe_count := MAAP_PROBE_RETRANSMITS,
                 timer_expiry_us := maap_probe_timer now, maap_state := maap_state_probe \<rparr>) s
       in avb_send_maap_msg maap_msg_type_probe (acquired_addr (maap s ! i)) 1 None 0 s)"
  have frame: "length (maap (body i t)) = length (maap t)"
    "stream_dest_addr (body i t) = stream_dest_addr t"
    "internal_mac_addr (body i t) = internal_mac_addr t" for i t
    by (simp_all add: body_def Let_def)
  have other: "i \<noteq> j \<Longrightarrow> maap (body i t) ! j = maap t ! j" for i j t
    by (simp add: body_def Let_def)
  have here: "i < length (maap t) \<Longrightarrow> maap_stream_ok (body i t) i" for i t
    by (simp add: body_def Let_def maap_stream_ok_def MAAP_PROBE_RETRANSMITS_def)
  have "length (maap (foreach n body s)) = length (maap s)
      \<and> stream_dest_addr (foreach n body s) = stream_dest_addr s
      \<and> (\<forall>j < n. maap_stream_ok (foreach n body s) j)" if "n \<le> length (maap s)" for n
    using that
  proof (induction n)
    case (Suc n)
    have "maap_stream_ok (body n (foreach n body s)) j" if "j < Suc n" for j
      using that Suc frame [of n "foreach n body s"] other [of n j] here [of n "foreach n body s"]
      by (cases "j = n") (auto simp: maap_stream_ok_def)
    then show ?case using Suc frame by (simp add: foreach_Suc)
  qed simp
  from this [OF le_refl] assms have "maap_ok (foreach (length (maap s)) body s)"
    by (simp add: maap_ok_def)
  then show ?thesis by (simp add: avb_maap_init_def body_def)
qed

lemma maap_reach_ok: "maap_reach s \<Longrightarrow> maap_ok s"
  by (induction rule: maap_reach.induct) (simp_all add: maap_init_ok maap_tick_ok maap_process_ok)

text \<open>The pool 91:E0:F0:00:00:00 to 91:E0:F0:00:FD:FF.\<close>

definition maap_pool_addr :: "octets \<Rightarrow> bool" where
  "maap_pool_addr a \<longleftrightarrow> length a = 6 \<and> take 4 a = [0x91, 0xe0, 0xf0, 0x00] \<and> a ! 4 \<le> 0xFD"

lemma maap_generate_addr_pool: "maap_pool_addr (maap_generate_addr mac i r)"
proof -
  let ?v = "ucast (maap_seed mac i r mod MAAP_POOL_SIZE) :: u16"
  have v: "unat ?v < 65024" by (simp only: maap_offset_word) (simp add: maap_offset_def)
  have "unat (drop_bit 8 ?v AND 0xFF) \<le> unat (drop_bit 8 ?v)"
    by (simp add: word_and_le1 word_le_nat_alt [symmetric] word_and_le2)
  moreover have "unat (drop_bit 8 ?v) = unat ?v div 256"
    by (simp add: drop_bit_eq_div unat_div)
  ultimately have "unat (drop_bit 8 ?v AND 0xFF) \<le> 0xFD" using v by linarith
  then have "unat (ucast (drop_bit 8 ?v AND 0xFF) :: u8) \<le> 0xFD"
    by (simp add: unsigned_ucast_eq take_bit_nat_eq_self)
  then have "(ucast (drop_bit 8 ?v AND 0xFF) :: u8) \<le> 0xFD"
    by (simp add: word_le_nat_alt)
  then show ?thesis by (simp add: maap_pool_addr_def maap_generate_addr_def Let_def)
qed

text \<open>C32. In every reachable state each stream holds an address of the MAAP dynamic pool, it
  has acquired it exactly when it is defending it, and it then sends to that very address.\<close>

theorem maap_address_owned:
  assumes "maap_reach s" and "i < length (maap s)"
  shows "maap_pool_addr (acquired_addr (maap s ! i))
     \<and> (acquired (maap s ! i) \<longleftrightarrow> maap_state (maap s ! i) = maap_state_defend)
     \<and> (acquired (maap s ! i) \<longrightarrow> stream_dest_addr s ! i = acquired_addr (maap s ! i))"
  using maap_reach_ok [OF assms(1)] assms(2)
  by (auto simp: maap_ok_def maap_stream_ok_def Let_def maap_generate_addr_pool)

definition maap_boot :: maap_ctx where
  "maap_boot = avb_maap_init 0 \<lparr> internal_mac_addr = [2, 0, 0, 0, 0, 1],
     maap = [\<lparr> maap_state = maap_state_initial, acquired_addr = zeros 6, probe_count = 0,
              timer_expiry_us = 0, acquired = False, reselect_count = 0 \<rparr>],
     stream_dest_addr = [zeros 6], maap_tx = [] \<rparr>"

lemma maap_boot_reach: "maap_reach maap_boot"
  unfolding maap_boot_def by (rule maap_reach.boot) simp

theorem maap_address_owned_witness:
  "maap_pool_addr (acquired_addr (maap maap_boot ! 0))"
  using maap_address_owned [OF maap_boot_reach, of 0]
  by (simp add: maap_boot_def avb_maap_init_def foreach_Suc Let_def)

section \<open>Acquisition and conflicts\<close>

lemma maap_jitter_bounds:
  assumes "0 \<le> var"
  shows "base * 1000 \<le> maap_jitter_us now base var \<and> maap_jitter_us now base var \<le> (base + var) * 1000"
proof -
  have "0 \<le> uint (word_of_int now :: u32) mod (var + 1)"
    "uint (word_of_int now :: u32) mod (var + 1) < var + 1"
    using assms by (simp, intro pos_mod_bound) simp
  then show ?thesis by (simp add: maap_jitter_us_def Let_def)
qed

lemma maap_probe_timer_bounds: "now + 500000 \<le> maap_probe_timer now" "maap_probe_timer now \<le> now + 600000"
  using maap_jitter_bounds [of MAAP_PROBE_INTERVAL_VAR_MS MAAP_PROBE_INTERVAL_BASE_MS now]
  by (simp_all add: maap_probe_timer_def MAAP_PROBE_INTERVAL_BASE_MS_def MAAP_PROBE_INTERVAL_VAR_MS_def)

definition maap_msg :: "maap_msg_type_t \<Rightarrow> octets \<Rightarrow> maap_message_s" where
  "maap_msg ty a = \<lparr> msg_type = ty, req_start_addr = a, req_count = [0, 1],
                    confl_start_addr = zeros 6, confl_count = zeros 2 \<rparr>"

lemma send_maap_plain:
  "avb_send_maap_msg ty a 1 None 0 s = s\<lparr> maap_tx := maap_tx s @ [maap_msg ty a] \<rparr>"
proof -
  have "int_to_octets (ucast (1 :: u16)) 2 = [0, 1]" by code_simp
  then show ?thesis by (simp add: avb_send_maap_msg_def maap_msg_def Let_def)
qed

text \<open>A stream that starts probing and meets no conflict owns its address after three
  timer expiries, hence within 1.8 seconds of a caller that ticks often enough; in between it
  sends two probes and, on owning the address, one announcement.\<close>

theorem maap_acquires:
  assumes "i < length (maap s)" and "length (stream_dest_addr s) = length (maap s)"
    and "maap_state (maap s ! i) = maap_state_probe"
    and "probe_count (maap s ! i) = MAAP_PROBE_RETRANSMITS"
    and "timer_expiry_us (maap s ! i) \<le> t1" and "t1 + 600000 \<le> t2" and "t2 + 600000 \<le> t3"
  shows "let s' = maap_tick_stream t3 i (maap_tick_stream t2 i (maap_tick_stream t1 i s));
             a = acquired_addr (maap s ! i)
         in maap_state (maap s' ! i) = maap_state_defend \<and> acquired (maap s' ! i)
          \<and> acquired_addr (maap s' ! i) = a \<and> stream_dest_addr s' ! i = a
          \<and> maap_tx s' = maap_tx s @ [maap_msg maap_msg_type_probe a,
               maap_msg maap_msg_type_probe a, maap_msg maap_msg_type_announce a]"
  using assms maap_probe_timer_bounds [of t1] maap_probe_timer_bounds [of t2]
  by (simp add: maap_tick_stream_def send_maap_plain MAAP_PROBE_RETRANSMITS_def Let_def)

theorem maap_acquires_witness:
  "acquired (maap (maap_tick_stream 1900000 0 (maap_tick_stream 1300000 0
     (maap_tick_stream 700000 0 maap_boot))) ! 0)"
  using maap_acquires [of 0 maap_boot 700000 1300000 1900000] maap_probe_timer_bounds [of 0]
  by (simp add: maap_boot_def avb_maap_init_def foreach_Suc Let_def)

lemma maap_next_retry_differs:
  assumes "i < 256"
  shows "maap_generate_addr mac i (r + 1) \<noteq> maap_generate_addr mac i r"
proof
  assume "maap_generate_addr mac i (r + 1) = maap_generate_addr mac i r"
  from maap_offset_cong [OF maap_generate_addr_eqD [OF this] assms assms]
  have "65024 dvd 257 * (uint (r + 1) - uint r)" by simp
  then have d: "65024 dvd uint (r + 1) - uint r" by (simp only: mult_257_cancel)
  have r: "0 \<le> uint r" "uint r < 65536" using uint_lt2p [of r] by simp_all
  have "uint (r + 1) = (uint r + 1) mod 65536" using uint_word_ariths(1) [of r 1] by simp
  then have "uint (r + 1) - uint r = 1 \<or> uint (r + 1) - uint r = - 65535"
    using r by (cases "uint r = 65535") (auto simp: mod_pos_pos_trivial)
  with d show False by auto
qed

text \<open>A conflict is answered by moving away, never by sending: a probing stream that sees a
  probe or a defence for its address, and an owning stream that sees an announcement of it,
  goes back to probing a different address, and the handler transmits nothing.\<close>

theorem maap_conflict_moves:
  assumes "i < length (maap s)" and "i < 256" and "maap_stream_ok s i"
    and "req_start_addr msg = acquired_addr (maap s ! i)"
    and "maap_state (maap s ! i) = maap_state_probe
           \<and> msg_type msg \<in> {maap_msg_type_probe, maap_msg_type_defend}
       \<or> maap_state (maap s ! i) = maap_state_defend \<and> msg_type msg = maap_msg_type_announce"
  shows "let s' = maap_process_stream now msg i s in
           maap_state (maap s' ! i) = maap_state_probe \<and> \<not> acquired (maap s' ! i)
         \<and> acquired_addr (maap s' ! i) \<noteq> acquired_addr (maap s ! i)
         \<and> maap_tx s' = maap_tx s"
proof -
  have "maap_generate_addr mac i (r + 1) \<noteq> maap_generate_addr mac i r" for mac r
    using maap_next_retry_differs [OF assms(2)] .
  then show ?thesis
    using assms
    by (auto simp: maap_process_stream_def maap_addr_conflicts_def maap_stream_ok_def
        maap_reselect_def Let_def)
qed

theorem maap_conflict_moves_witness:
  "maap_tx (maap_process_stream 5 (maap_msg maap_msg_type_defend (acquired_addr (maap maap_boot ! 0)))
     0 maap_boot) = maap_tx maap_boot"
proof -
  have "maap_stream_ok maap_boot 0"
    using maap_reach_ok [OF maap_boot_reach]
    by (simp add: maap_ok_def maap_boot_def avb_maap_init_def foreach_Suc Let_def)
  then show ?thesis
    using maap_conflict_moves [of 0 maap_boot
        "maap_msg maap_msg_type_defend (acquired_addr (maap maap_boot ! 0))" 5]
    by (simp add: maap_msg_def maap_boot_def avb_maap_init_def foreach_Suc Let_def)
qed

end
