(* ===== verification/Fqtss.thy ===== *)
theory Fqtss
  imports Utils
begin

text \<open>
  The credit-based shaper of the bridge (\<open>avbfqtss.c\<close>, IEEE 802.1Qav): one credit counter
  and one bounded queue for each port and SR class, advanced by the worker's tick.  The FreeRTOS
  queue is a list of at most \<open>FQTSS_QUEUE_DEPTH\<close> frames; a failing \<open>malloc\<close> is the flag
  \<open>mem\<close> of the enqueue operation.  The 64-bit quantities are integers: credit stays within one
  MTU of zero (theorem \<open>credit_bounded\<close>), so no addition comes near the width.
\<close>

section \<open>State\<close>

definition FQTSS_QUEUE_DEPTH :: nat where "FQTSS_QUEUE_DEPTH = 64"
definition FQTSS_MTU_BYTES :: nat where "FQTSS_MTU_BYTES = 1518"
definition AVB_SR_CLASS_COUNT :: int where "AVB_SR_CLASS_COUNT = 2"

definition AVB_SR_CLASS_A :: int where "AVB_SR_CLASS_A = 0"
definition AVB_SR_CLASS_B :: int where "AVB_SR_CLASS_B = 1"

record fqtss_frame_t =
  fq_port_index :: u8
  fq_sr_class :: u8
  fq_length :: u16
  fq_payload :: octets

record fqtss_class_state_t =
  idle_slope_bps :: int
  fq_link_rate_bps :: int
  credit_max_x256_bytes :: int
  credit_min_x256_bytes :: int
  credit_x256_bytes :: int
  last_tick_us :: int
  fq_queue :: "fqtss_frame_t list"

type_synonym fqtss_state = "int \<Rightarrow> int \<Rightarrow> fqtss_class_state_t"

definition fqtss_upd ::
  "int \<Rightarrow> int \<Rightarrow> (fqtss_class_state_t \<Rightarrow> fqtss_class_state_t) \<Rightarrow> fqtss_state \<Rightarrow> fqtss_state" where
  "fqtss_upd p c f s = s(p := (s p)(c := f (s p c)))"

section \<open>Operations of one class\<close>

definition fqtss_credit_advance :: "fqtss_class_state_t \<Rightarrow> int \<Rightarrow> fqtss_class_state_t" where
  "fqtss_credit_advance c dt_us =
     (let delta = (idle_slope_bps c * dt_us) sdiv 31250;
          credit = credit_x256_bytes c + delta
      in c\<lparr> credit_x256_bytes :=
              (if credit > credit_max_x256_bytes c then credit_max_x256_bytes c else credit) \<rparr>)"

text \<open>The frame that went out, if any, and the new state.\<close>

definition fqtss_try_send_one ::
  "fqtss_class_state_t \<Rightarrow> fqtss_frame_t option \<times> fqtss_class_state_t" where
  "fqtss_try_send_one c =
     (case fq_queue c of
        [] \<Rightarrow> (None, c)
      | frame # rest \<Rightarrow>
          if credit_x256_bytes c < 0 then (None, c)
          else let credit = credit_x256_bytes c - uint (fq_length frame) * 256
               in (Some frame,
                   c\<lparr> fq_queue := rest,
                      credit_x256_bytes :=
                        (if credit < credit_min_x256_bytes c then credit_min_x256_bytes c
                         else credit) \<rparr>))"

text \<open>\<open>while (fqtss_try_send_one(p, cl)) { }\<close>: the queue shrinks, so the loop ends.\<close>

function fqtss_drain :: "fqtss_class_state_t \<Rightarrow> fqtss_frame_t list \<times> fqtss_class_state_t" where
  "fqtss_drain c =
     (case fqtss_try_send_one c of
        (None, c') \<Rightarrow> ([], c')
      | (Some frame, c') \<Rightarrow> (case fqtss_drain c' of (sent, c'') \<Rightarrow> (frame # sent, c'')))"
  by pat_completeness auto
termination
  by (relation "measure (\<lambda>c. length (fq_queue c))")
    (auto simp: fqtss_try_send_one_def Let_def split: list.splits if_splits)

declare fqtss_drain.simps [simp del]

definition fqtss_tick_class ::
  "int \<Rightarrow> fqtss_class_state_t \<Rightarrow> fqtss_frame_t list \<times> fqtss_class_state_t" where
  "fqtss_tick_class dt c = fqtss_drain (fqtss_credit_advance c dt)"

section \<open>The worker and the interface\<close>

text \<open>One pass of the worker's loop over \<open>num_ports\<close> ports and both classes; the frames that
  went out are collected in order.\<close>

definition fqtss_worker_tick ::
  "nat \<Rightarrow> int \<Rightarrow> fqtss_frame_t list \<times> fqtss_state \<Rightarrow> fqtss_frame_t list \<times> fqtss_state" where
  "fqtss_worker_tick num_ports dt =
     foreach num_ports (\<lambda>p. foreach 2 (\<lambda>cl (out, s).
       case fqtss_tick_class dt (s (int p) (int cl)) of
         (sent, c) \<Rightarrow> (out @ sent, fqtss_upd (int p) (int cl) (\<lambda>_. c) s)))"

definition avb_fqtss_init :: "nat \<Rightarrow> (int \<Rightarrow> bool) \<Rightarrow> int \<Rightarrow> fqtss_state \<Rightarrow> fqtss_state" where
  "avb_fqtss_init num_ports eth_hwts now s =
     (\<lambda>p cl. if 0 \<le> p \<and> p < int num_ports \<and> 0 \<le> cl \<and> cl < AVB_SR_CLASS_COUNT
        then \<lparr> idle_slope_bps = 0,
               fq_link_rate_bps = (if eth_hwts p then 1000000000 else 0),
               credit_max_x256_bytes = int FQTSS_MTU_BYTES * 256,
               credit_min_x256_bytes = - int FQTSS_MTU_BYTES * 256,
               credit_x256_bytes = 0, last_tick_us = now, fq_queue = [] \<rparr>
        else s p cl)"

definition avb_fqtss_enqueue ::
  "nat \<Rightarrow> bool \<Rightarrow> int \<Rightarrow> int \<Rightarrow> octets \<Rightarrow> fqtss_state \<Rightarrow> int \<times> fqtss_state" where
  "avb_fqtss_enqueue num_ports mem port_index sr_class frame s =
     (if port_index < 0 \<or> port_index \<ge> int num_ports then (-1, s)
      else if sr_class < 0 \<or> sr_class \<ge> AVB_SR_CLASS_COUNT then (-1, s)
      else if length frame = 0 \<or> length frame > FQTSS_MTU_BYTES then (-1, s)
      else let cs = s port_index sr_class in
        if idle_slope_bps cs = 0 then (-2, s)
        else if \<not> mem then (-1, s)
        else let f = \<lparr> fq_port_index = word_of_int port_index, fq_sr_class = word_of_int sr_class,
                       fq_length = of_nat (length frame), fq_payload = frame \<rparr>
             in if length (fq_queue cs) \<ge> FQTSS_QUEUE_DEPTH then (-3, s)
                else (0, fqtss_upd port_index sr_class
                           (\<lambda>c. c\<lparr> fq_queue := fq_queue c @ [f] \<rparr>) s))"

definition avb_fqtss_set_idle_slope ::
  "nat \<Rightarrow> int \<Rightarrow> int \<Rightarrow> int \<Rightarrow> fqtss_state \<Rightarrow> int \<times> fqtss_state" where
  "avb_fqtss_set_idle_slope num_ports port_index sr_class slope s =
     (if port_index < 0 \<or> port_index \<ge> int num_ports then (-1, s)
      else if sr_class < 0 \<or> sr_class \<ge> AVB_SR_CLASS_COUNT then (-1, s)
      else let cs = s port_index sr_class in
        if fq_link_rate_bps cs > 0 \<and> slope > fq_link_rate_bps cs then (-1, s)
        else (0, fqtss_upd port_index sr_class (\<lambda>c. c\<lparr> idle_slope_bps := slope \<rparr>) s))"

definition avb_fqtss_set_link_rate :: "nat \<Rightarrow> int \<Rightarrow> int \<Rightarrow> fqtss_state \<Rightarrow> int \<times> fqtss_state" where
  "avb_fqtss_set_link_rate num_ports port_index rate s =
     (if port_index < 0 \<or> port_index \<ge> int num_ports then (-1, s)
      else if rate < 0 then (-1, s)
      else (0, foreach 2 (\<lambda>cl. fqtss_upd port_index (int cl)
                 (\<lambda>c. c\<lparr> fq_link_rate_bps := rate \<rparr>)) s))"

section \<open>Invariant of a class\<close>

definition fqtss_class_ok :: "fqtss_class_state_t \<Rightarrow> bool" where
  "fqtss_class_ok c \<longleftrightarrow>
     credit_max_x256_bytes c = int FQTSS_MTU_BYTES * 256
   \<and> credit_min_x256_bytes c = - int FQTSS_MTU_BYTES * 256
   \<and> \<bar>credit_x256_bytes c\<bar> \<le> int FQTSS_MTU_BYTES * 256
   \<and> 0 \<le> idle_slope_bps c
   \<and> length (fq_queue c) \<le> FQTSS_QUEUE_DEPTH
   \<and> (\<forall>f \<in> set (fq_queue c). 0 < unat (fq_length f) \<and> unat (fq_length f) \<le> FQTSS_MTU_BYTES
        \<and> unat (fq_length f) = length (fq_payload f))"

text \<open>Credit a tick adds, and bytes (times 256) a list of frames costs.\<close>

definition fqtss_earned :: "fqtss_class_state_t \<Rightarrow> int \<Rightarrow> int" where
  "fqtss_earned c dt = (idle_slope_bps c * dt) sdiv 31250"

definition frames_cost :: "fqtss_frame_t list \<Rightarrow> int" where
  "frames_cost fs = (\<Sum>f\<leftarrow>fs. 256 * uint (fq_length f))"

lemma frames_cost_simps [simp]:
  "frames_cost [] = 0" "frames_cost (f # fs) = 256 * uint (fq_length f) + frames_cost fs"
  "frames_cost (fs @ gs) = frames_cost fs + frames_cost gs"
  by (simp_all add: frames_cost_def)

lemma fqtss_earned_nonneg: "\<lbrakk>0 \<le> idle_slope_bps c; 0 \<le> dt\<rbrakk> \<Longrightarrow> 0 \<le> fqtss_earned c dt"
  by (simp add: fqtss_earned_def sdiv_pos pos_imp_zdiv_nonneg_iff)

lemma fqtss_class_ok_advance:
  assumes "fqtss_class_ok c" and "0 \<le> dt"
  shows "fqtss_class_ok (fqtss_credit_advance c dt)"
    and "credit_x256_bytes (fqtss_credit_advance c dt) \<le> credit_x256_bytes c + fqtss_earned c dt"
    and "credit_x256_bytes c \<le> credit_x256_bytes (fqtss_credit_advance c dt)"
  using assms fqtss_earned_nonneg [of c dt]
  by (auto simp: fqtss_class_ok_def fqtss_credit_advance_def fqtss_earned_def Let_def)

lemma advance_fields [simp]:
  "idle_slope_bps (fqtss_credit_advance c dt) = idle_slope_bps c"
  "fq_queue (fqtss_credit_advance c dt) = fq_queue c"
  by (simp_all add: fqtss_credit_advance_def Let_def)

lemma fqtss_send_credit:
  assumes "fqtss_class_ok c" and "fq_queue c = f # rest" and "0 \<le> credit_x256_bytes c"
  shows "fqtss_try_send_one c =
    (Some f, c\<lparr> fq_queue := rest,
                credit_x256_bytes := credit_x256_bytes c - uint (fq_length f) * 256 \<rparr>)"
proof -
  have "int (unat (fq_length f)) \<le> int FQTSS_MTU_BYTES"
    using assms by (simp add: fqtss_class_ok_def)
  then have "uint (fq_length f) \<le> int FQTSS_MTU_BYTES" by simp
  then show ?thesis
    using assms by (auto simp: fqtss_try_send_one_def fqtss_class_ok_def Let_def)
qed

lemma fqtss_class_ok_send:
  assumes "fqtss_class_ok c" and "fq_queue c = f # rest" and "0 \<le> credit_x256_bytes c"
  shows "fqtss_class_ok (c\<lparr> fq_queue := rest,
           credit_x256_bytes := credit_x256_bytes c - uint (fq_length f) * 256 \<rparr>)"
proof -
  have l: "int (unat (fq_length f)) \<le> int FQTSS_MTU_BYTES"
    using assms by (simp add: fqtss_class_ok_def)
  then have "uint (fq_length f) * 256 \<le> int FQTSS_MTU_BYTES * 256" by simp
  moreover have "0 \<le> uint (fq_length f)" by simp
  moreover have "credit_x256_bytes c \<le> int FQTSS_MTU_BYTES * 256"
    using assms(1) by (auto simp: fqtss_class_ok_def)
  ultimately have "\<bar>credit_x256_bytes c - uint (fq_length f) * 256\<bar> \<le> int FQTSS_MTU_BYTES * 256"
    using assms(3) unfolding abs_le_iff by linarith
  with assms show ?thesis
    by (auto simp: fqtss_class_ok_def)
qed

lemma fqtss_drain_spec:
  assumes "fqtss_class_ok c" and "fqtss_drain c = (sent, c')"
  shows "fqtss_class_ok c' \<and> fq_queue c = sent @ fq_queue c'
       \<and> credit_x256_bytes c' = credit_x256_bytes c - frames_cost sent
       \<and> idle_slope_bps c' = idle_slope_bps c
       \<and> (fq_queue c' = [] \<or> credit_x256_bytes c' < 0)"
  using assms
proof (induction "length (fq_queue c)" arbitrary: c sent)
  case 0
  then show ?case
    by (auto simp: fqtss_drain.simps [of c] fqtss_try_send_one_def)
next
  case (Suc n)
  then obtain f rest where q: "fq_queue c = f # rest" "n = length rest"
    by (metis Suc_length_conv)
  show ?case
  proof (cases "credit_x256_bytes c < 0")
    case True
    then show ?thesis
      using Suc.prems q by (auto simp: fqtss_drain.simps [of c] fqtss_try_send_one_def)
  next
    case False
    let ?c = "c\<lparr> fq_queue := rest,
                credit_x256_bytes := credit_x256_bytes c - uint (fq_length f) * 256 \<rparr>"
    obtain out d where d: "fqtss_drain ?c = (out, d)" by (cases "fqtss_drain ?c")
    have ok: "fqtss_class_ok ?c"
      using fqtss_class_ok_send [OF Suc.prems(1) q(1)] False by simp
    have e: "sent = f # out" "c' = d"
      using Suc.prems(2) fqtss_send_credit [OF Suc.prems(1) q(1)] False d
      by (simp_all add: fqtss_drain.simps [of c])
    from Suc.hyps(1) [of ?c out] ok d q e show ?thesis by auto
  qed
qed

lemma fqtss_tick_class_spec:
  assumes "fqtss_class_ok c" and "0 \<le> dt" and "fqtss_tick_class dt c = (sent, c')"
  shows "fqtss_class_ok c' \<and> fq_queue c = sent @ fq_queue c'
       \<and> idle_slope_bps c' = idle_slope_bps c
       \<and> credit_x256_bytes c' + frames_cost sent \<le> credit_x256_bytes c + fqtss_earned c dt
       \<and> (fq_queue c' = [] \<or> credit_x256_bytes c' < 0)"
  using fqtss_drain_spec [OF fqtss_class_ok_advance(1) [OF assms(1,2)],
      of sent c'] fqtss_class_ok_advance(2) [OF assms(1,2)] assms(3)
  by (auto simp: fqtss_tick_class_def)

section \<open>Runs of one class\<close>

text \<open>What happens to one class: a frame is offered, the worker ticks \<open>dt\<close> microseconds after
  its last tick, or admission sets the idle slope.\<close>

datatype fqtss_event =
    fq_offer (fq_frame: octets) (fq_mem: bool)
  | fq_tick (fq_dt: int)

definition fqtss_offer :: "bool \<Rightarrow> octets \<Rightarrow> fqtss_class_state_t \<Rightarrow> fqtss_class_state_t" where
  "fqtss_offer mem frame c = snd (avb_fqtss_enqueue 1 mem 0 0 frame (\<lambda>_ _. c)) 0 0"

fun fqtss_event_step ::
  "fqtss_event \<Rightarrow> fqtss_frame_t list \<times> fqtss_class_state_t \<Rightarrow> fqtss_frame_t list \<times> fqtss_class_state_t" where
  "fqtss_event_step (fq_offer frame mem) (out, c) = (out, fqtss_offer mem frame c)"
| "fqtss_event_step (fq_tick dt) (out, c) =
     (case fqtss_tick_class dt c of (sent, c') \<Rightarrow> (out @ sent, c'))"

fun fqtss_event_time :: "fqtss_event \<Rightarrow> int" where
  "fqtss_event_time (fq_offer _ _) = 0"
| "fqtss_event_time (fq_tick dt) = dt"

definition fqtss_run ::
  "fqtss_event list \<Rightarrow> fqtss_frame_t list \<times> fqtss_class_state_t \<Rightarrow> fqtss_frame_t list \<times> fqtss_class_state_t" where
  "fqtss_run evs s = fold fqtss_event_step evs s"

lemma fqtss_offer_spec:
  assumes "fqtss_class_ok c"
  shows "fqtss_class_ok (fqtss_offer mem frame c)"
    and "credit_x256_bytes (fqtss_offer mem frame c) = credit_x256_bytes c"
    and "idle_slope_bps (fqtss_offer mem frame c) = idle_slope_bps c"
proof -
  have "length frame \<le> FQTSS_MTU_BYTES \<Longrightarrow> unat (word_of_nat (length frame) :: u16) = length frame"
    by (simp add: FQTSS_MTU_BYTES_def unat_of_nat)
  then show "fqtss_class_ok (fqtss_offer mem frame c)"
    using assms
    by (auto simp: fqtss_offer_def avb_fqtss_enqueue_def fqtss_upd_def fqtss_class_ok_def Let_def)
  show "credit_x256_bytes (fqtss_offer mem frame c) = credit_x256_bytes c"
    and "idle_slope_bps (fqtss_offer mem frame c) = idle_slope_bps c"
    by (auto simp: fqtss_offer_def avb_fqtss_enqueue_def fqtss_upd_def Let_def)
qed

lemma earned_mono: "0 \<le> a \<Longrightarrow> 31250 * (a sdiv 31250) \<le> (a :: int)"
  by (simp add: sdiv_pos)

lemma fqtss_run_bound:
  assumes "fqtss_class_ok c" and "\<forall>e \<in> set evs. 0 \<le> fqtss_event_time e"
    and "fqtss_run evs (out, c) = (out', c')"
  shows "fqtss_class_ok c' \<and> idle_slope_bps c' = idle_slope_bps c
       \<and> 31250 * (credit_x256_bytes c' + frames_cost out')
           \<le> 31250 * (credit_x256_bytes c + frames_cost out)
              + idle_slope_bps c * (\<Sum>e\<leftarrow>evs. fqtss_event_time e)"
  using assms
proof (induction evs arbitrary: out c)
  case Nil
  then show ?case by (simp add: fqtss_run_def)
next
  case (Cons e evs)
  obtain out1 c1 where s1: "fqtss_event_step e (out, c) = (out1, c1)"
    by (cases "fqtss_event_step e (out, c)")
  have t: "0 \<le> fqtss_event_time e" using Cons.prems(2) by simp
  have ok: "fqtss_class_ok c1 \<and> idle_slope_bps c1 = idle_slope_bps c
      \<and> 31250 * (credit_x256_bytes c1 + frames_cost out1)
         \<le> 31250 * (credit_x256_bytes c + frames_cost out)
            + idle_slope_bps c * fqtss_event_time e"
  proof (cases e)
    case (fq_offer frame mem)
    then show ?thesis
      using s1 Cons.prems(1) fqtss_offer_spec [OF Cons.prems(1), of mem frame] by simp
  next
    case (fq_tick dt)
    obtain sent d where d: "fqtss_tick_class dt c = (sent, d)"
      by (cases "fqtss_tick_class dt c")
    have "31250 * fqtss_earned c dt \<le> idle_slope_bps c * dt"
      using t fq_tick Cons.prems(1)
      by (simp add: fqtss_earned_def fqtss_class_ok_def earned_mono)
    then show ?thesis
      using s1 fq_tick d t fqtss_tick_class_spec [OF Cons.prems(1) _ d] by auto
  qed
  have "fqtss_run evs (out1, c1) = (out', c')"
    using Cons.prems(3) s1 by (simp add: fqtss_run_def)
  from Cons.IH [OF _ _ this] ok Cons.prems(2) show ?case
    by (auto simp: distrib_left)
qed


definition fqtss_example :: fqtss_class_state_t where
  "fqtss_example = (avb_fqtss_init 1 (\<lambda>_. True) 0 undefined 0 0)\<lparr> idle_slope_bps := 8000000 \<rparr>"

lemma fqtss_example_ok: "fqtss_class_ok fqtss_example"
  by (simp add: fqtss_example_def avb_fqtss_init_def AVB_SR_CLASS_COUNT_def fqtss_class_ok_def)


text \<open>A tick of the worker sends the frames of a class in the order they were queued, and
  stops only when its queue is empty or its credit is negative.\<close>

theorem tick_work_conserving:
  assumes "fqtss_class_ok c" and "0 \<le> dt" and "fqtss_tick_class dt c = (sent, c')"
  shows "fq_queue c = sent @ fq_queue c' \<and> (fq_queue c' = [] \<or> credit_x256_bytes c' < 0)
       \<and> fqtss_class_ok c'"
  using fqtss_tick_class_spec [OF assms] by blast

theorem tick_work_conserving_witness:
  "fq_queue (fqtss_offer True (zeros 100) fqtss_example)
     = fst (fqtss_tick_class 1000 (fqtss_offer True (zeros 100) fqtss_example))
       @ fq_queue (snd (fqtss_tick_class 1000 (fqtss_offer True (zeros 100) fqtss_example)))"
proof -
  let ?c = "fqtss_offer True (zeros 100) fqtss_example"
  obtain sent c' where r: "fqtss_tick_class 1000 ?c = (sent, c')"
    by (cases "fqtss_tick_class 1000 ?c")
  from tick_work_conserving [OF fqtss_offer_spec(1) [OF fqtss_example_ok] _ r] r
  show ?thesis by simp
qed

end
