(* ===== verification/Bridge.thy ===== *)
theory Bridge
  imports Fqtss
begin

text \<open>
  The bridge's forwarding decision (\<open>avbbridge.c\<close>): which subsystem owns a frame, given its
  ingress port, EtherType and VLAN priority.  The two \<open>CONFIG_ESP_AVB_VLAN_PRIO_CLASS_*\<close>
  constants of the build and the flag \<open>s_allow_class_a_over_wifi\<close> are a record.
\<close>

datatype avb_bridge_verdict_e = AVB_BRIDGE_DROP | AVB_BRIDGE_TERMINATE | AVB_BRIDGE_BRIDGE

record avb_bridge_disposition_t =
  verdict :: avb_bridge_verdict_e
  egress_port :: u8
  disp_sr_class :: int
  shaped :: bool

definition ETHERTYPE_PTP :: u16 where "ETHERTYPE_PTP = 0x88f7"
definition ETHERTYPE_AVTP :: u16 where "ETHERTYPE_AVTP = 0x22f0"
definition ETHERTYPE_MSRP :: u16 where "ETHERTYPE_MSRP = 0x22ea"
definition ETHERTYPE_MVRP :: u16 where "ETHERTYPE_MVRP = 0x88f5"
definition ETHERTYPE_VLAN :: u16 where "ETHERTYPE_VLAN = 0x8100"

record bridge_conf =
  VLAN_PRIO_CLASS_A :: u8
  VLAN_PRIO_CLASS_B :: u8
  s_allow_class_a_over_wifi :: bool
  s_wifi_ap_sta_count :: u32

definition avb_bridge_set_allow_class_a_over_wifi :: "bool \<Rightarrow> bridge_conf \<Rightarrow> bridge_conf" where
  "avb_bridge_set_allow_class_a_over_wifi allow b = b\<lparr> s_allow_class_a_over_wifi := allow \<rparr>"

definition avb_bridge_wifi_ap_sta_count :: "bridge_conf \<Rightarrow> u32" where
  "avb_bridge_wifi_ap_sta_count b = s_wifi_ap_sta_count b"

definition avb_bridge_set_wifi_ap_sta_count :: "u32 \<Rightarrow> bridge_conf \<Rightarrow> bridge_conf" where
  "avb_bridge_set_wifi_ap_sta_count count b = b\<lparr> s_wifi_ap_sta_count := count \<rparr>"

definition avb_bridge_classify ::
  "bridge_conf \<Rightarrow> int \<Rightarrow> u16 \<Rightarrow> u8 \<Rightarrow> avb_bridge_disposition_t" where
  "avb_bridge_classify b ingress_port ethertype vlan_pcp =
     (let d = \<lparr> verdict = AVB_BRIDGE_DROP, egress_port = (if ingress_port = 0 then 1 else 0),
               disp_sr_class = 0, shaped = False \<rparr>
      in if ethertype = ETHERTYPE_PTP \<or> ethertype = ETHERTYPE_MSRP \<or> ethertype = ETHERTYPE_MVRP
         then d\<lparr> verdict := AVB_BRIDGE_TERMINATE \<rparr>
         else if ethertype = ETHERTYPE_AVTP
         then d\<lparr> verdict := AVB_BRIDGE_BRIDGE, shaped := False \<rparr>
         else if ethertype = ETHERTYPE_VLAN
         then (if vlan_pcp \<noteq> VLAN_PRIO_CLASS_A b \<and> vlan_pcp \<noteq> VLAN_PRIO_CLASS_B b
               then d\<lparr> verdict := AVB_BRIDGE_BRIDGE, shaped := False \<rparr>
               else let d = d\<lparr> disp_sr_class := (if vlan_pcp = VLAN_PRIO_CLASS_A b
                                               then AVB_SR_CLASS_A else AVB_SR_CLASS_B) \<rparr>
                    in if disp_sr_class d = AVB_SR_CLASS_A \<and> egress_port d = 1
                          \<and> \<not> s_allow_class_a_over_wifi b
                       then d\<lparr> verdict := AVB_BRIDGE_DROP \<rparr>
                       else d\<lparr> verdict := AVB_BRIDGE_BRIDGE, shaped := True \<rparr>)
         else d\<lparr> verdict := AVB_BRIDGE_BRIDGE, shaped := False \<rparr>)"

text \<open>C35. The classifier never forwards a link-local control frame (PTP, MSRP, MVRP), never
  sends a frame back to its ingress port of a two-port bridge, drops a frame exactly when it is
  Class A stream data bound for the Wi-Fi port without the opt-in, and shapes a forwarded frame
  exactly when it is stream data of an SR class.\<close>

theorem classify_safe:
  fixes b ingress_port ethertype vlan_pcp
  defines "d \<equiv> avb_bridge_classify b ingress_port ethertype vlan_pcp"
  shows "(verdict d = AVB_BRIDGE_TERMINATE \<longleftrightarrow>
            ethertype \<in> {ETHERTYPE_PTP, ETHERTYPE_MSRP, ETHERTYPE_MVRP})
       \<and> (verdict d = AVB_BRIDGE_DROP \<longleftrightarrow>
            ethertype = ETHERTYPE_VLAN \<and> vlan_pcp = VLAN_PRIO_CLASS_A b
            \<and> ingress_port = 0 \<and> \<not> s_allow_class_a_over_wifi b)
       \<and> (shaped d \<longleftrightarrow> verdict d = AVB_BRIDGE_BRIDGE \<and> ethertype = ETHERTYPE_VLAN
            \<and> vlan_pcp \<in> {VLAN_PRIO_CLASS_A b, VLAN_PRIO_CLASS_B b})
       \<and> uint (egress_port d) \<noteq> ingress_port"
  unfolding d_def
  by (auto simp: avb_bridge_classify_def Let_def AVB_SR_CLASS_A_def AVB_SR_CLASS_B_def
      ETHERTYPE_PTP_def ETHERTYPE_AVTP_def ETHERTYPE_MSRP_def ETHERTYPE_MVRP_def ETHERTYPE_VLAN_def)

end
