(* ===== verification/Mrp_Sm.thy ===== *)
theory Mrp_Sm
  imports Utils
begin

text \<open>
  The generic MRP state machines of \<open>mrp.c\<close> sections 1 to 5 and the types of \<open>mrp.h\<close>
  they work on: the Applicant and Registrar of one attribute, the events that drive them,
  and the rule that turns an Applicant action into a wire event.  MSRP and MVRP embed one
  \<open>mrp_sm_state_t\<close> in every table entry.
\<close>

section \<open>States, events and actions\<close>

datatype mrp_applicant_state_e =
    mrp_applicant_vo | mrp_applicant_vp | mrp_applicant_vn | mrp_applicant_an
  | mrp_applicant_aa | mrp_applicant_qa | mrp_applicant_la | mrp_applicant_ao
  | mrp_applicant_qo | mrp_applicant_ap | mrp_applicant_qp | mrp_applicant_lo

datatype mrp_registrar_state_e =
    mrp_registrar_in | mrp_registrar_lv | mrp_registrar_mt

datatype mrp_event_e =
    mrp_event_r_new | mrp_event_r_join_in | mrp_event_r_in | mrp_event_r_join_mt
  | mrp_event_r_mt | mrp_event_r_lv | mrp_event_r_la
  | mrp_event_new | mrp_event_join | mrp_event_lv
  | mrp_event_tx | mrp_event_tx_la | mrp_event_periodic | mrp_event_leave_timer

datatype mrp_tx_action_e =
    mrp_tx_none | mrp_tx_new | mrp_tx_join | mrp_tx_leave

record mrp_sm_state_t =
  applicant :: mrp_applicant_state_e
  registrar :: mrp_registrar_state_e
  leave_timer_us :: int
  pending_tx :: mrp_tx_action_e

definition mrp_sm_zero :: mrp_sm_state_t where
  "mrp_sm_zero = \<lparr> applicant = mrp_applicant_vo, registrar = mrp_registrar_in,
                   leave_timer_us = 0, pending_tx = mrp_tx_none \<rparr>"

text \<open>Enumerators are numbered from zero, so this is what \<open>memset(0)\<close> leaves.  A fresh
  table entry then gets the idle state.\<close>

definition mrp_sm_idle_state :: mrp_sm_state_t where
  "mrp_sm_idle_state = mrp_sm_zero\<lparr> applicant := mrp_applicant_vo,
     registrar := mrp_registrar_mt, pending_tx := mrp_tx_none \<rparr>"

section \<open>Applicant and Registrar\<close>

definition MRP_LEAVE_TIMER_US :: int where "MRP_LEAVE_TIMER_US = 1000 * 1000"

text \<open>The rows shared by \<open>rLv!\<close> and \<open>rLA!\<close>, and by \<open>tx!\<close> and \<open>txLA!\<close>, of the switch
  of \<open>mrp_applicant_step\<close>.\<close>

definition applicant_on_leave :: "mrp_applicant_state_e \<Rightarrow> mrp_applicant_state_e" where
  "applicant_on_leave s =
     (case s of mrp_applicant_vo \<Rightarrow> mrp_applicant_lo
      | mrp_applicant_an \<Rightarrow> mrp_applicant_vn
      | mrp_applicant_aa \<Rightarrow> mrp_applicant_vp
      | mrp_applicant_qa \<Rightarrow> mrp_applicant_vp
      | mrp_applicant_ao \<Rightarrow> mrp_applicant_lo
      | mrp_applicant_qo \<Rightarrow> mrp_applicant_lo
      | mrp_applicant_ap \<Rightarrow> mrp_applicant_vp
      | mrp_applicant_qp \<Rightarrow> mrp_applicant_vp
      | mrp_applicant_lo \<Rightarrow> mrp_applicant_vo
      | _ \<Rightarrow> s)"

definition applicant_on_tx :: "mrp_applicant_state_e \<Rightarrow> mrp_applicant_state_e" where
  "applicant_on_tx s =
     (case s of mrp_applicant_vp \<Rightarrow> mrp_applicant_aa
      | mrp_applicant_vn \<Rightarrow> mrp_applicant_an
      | mrp_applicant_an \<Rightarrow> mrp_applicant_qa
      | mrp_applicant_aa \<Rightarrow> mrp_applicant_qa
      | mrp_applicant_la \<Rightarrow> mrp_applicant_vo
      | mrp_applicant_lo \<Rightarrow> mrp_applicant_vo
      | _ \<Rightarrow> s)"

definition applicant_action :: "mrp_applicant_state_e \<Rightarrow> mrp_tx_action_e \<Rightarrow> mrp_tx_action_e" where
  "applicant_action s tx =
     (case s of mrp_applicant_vp \<Rightarrow> mrp_tx_join
      | mrp_applicant_vn \<Rightarrow> mrp_tx_new
      | mrp_applicant_an \<Rightarrow> mrp_tx_new
      | mrp_applicant_aa \<Rightarrow> mrp_tx_join
      | mrp_applicant_la \<Rightarrow> mrp_tx_leave
      | _ \<Rightarrow> tx)"

fun applicant_next :: "mrp_event_e \<Rightarrow> mrp_applicant_state_e \<Rightarrow> mrp_applicant_state_e" where
  "applicant_next mrp_event_new s = mrp_applicant_vn"
| "applicant_next mrp_event_join s =
     (case s of mrp_applicant_vo \<Rightarrow> mrp_applicant_vp
      | mrp_applicant_la \<Rightarrow> mrp_applicant_vp
      | mrp_applicant_lo \<Rightarrow> mrp_applicant_vp
      | mrp_applicant_ao \<Rightarrow> mrp_applicant_ap
      | mrp_applicant_qo \<Rightarrow> mrp_applicant_qp
      | _ \<Rightarrow> s)"
| "applicant_next mrp_event_lv s =
     (case s of mrp_applicant_vo \<Rightarrow> mrp_applicant_lo
      | mrp_applicant_vp \<Rightarrow> mrp_applicant_vo
      | mrp_applicant_vn \<Rightarrow> mrp_applicant_lo
      | mrp_applicant_an \<Rightarrow> mrp_applicant_lo
      | mrp_applicant_aa \<Rightarrow> mrp_applicant_la
      | mrp_applicant_qa \<Rightarrow> mrp_applicant_la
      | mrp_applicant_ap \<Rightarrow> mrp_applicant_ao
      | mrp_applicant_qp \<Rightarrow> mrp_applicant_qo
      | _ \<Rightarrow> s)"
| "applicant_next mrp_event_r_new s = s"
| "applicant_next mrp_event_r_join_in s =
     (case s of mrp_applicant_vo \<Rightarrow> mrp_applicant_ao
      | mrp_applicant_vp \<Rightarrow> mrp_applicant_ap
      | mrp_applicant_aa \<Rightarrow> mrp_applicant_qa
      | mrp_applicant_ao \<Rightarrow> mrp_applicant_qo
      | mrp_applicant_ap \<Rightarrow> mrp_applicant_qp
      | _ \<Rightarrow> s)"
| "applicant_next mrp_event_r_in s = (if s = mrp_applicant_aa then mrp_applicant_qa else s)"
| "applicant_next mrp_event_r_join_mt s = (if s = mrp_applicant_qa then mrp_applicant_aa else s)"
| "applicant_next mrp_event_r_mt s = (if s = mrp_applicant_qa then mrp_applicant_aa else s)"
| "applicant_next mrp_event_r_lv s = applicant_on_leave s"
| "applicant_next mrp_event_r_la s = applicant_on_leave s"
| "applicant_next mrp_event_tx s = applicant_on_tx s"
| "applicant_next mrp_event_tx_la s =
     (if s = mrp_applicant_qa then mrp_applicant_aa else applicant_on_tx s)"
| "applicant_next mrp_event_periodic s =
     (case s of mrp_applicant_qa \<Rightarrow> mrp_applicant_aa
      | mrp_applicant_qo \<Rightarrow> mrp_applicant_ao
      | mrp_applicant_qp \<Rightarrow> mrp_applicant_ap
      | _ \<Rightarrow> s)"
| "applicant_next mrp_event_leave_timer s = s"

fun applicant_tx :: "mrp_event_e \<Rightarrow> mrp_applicant_state_e \<Rightarrow> mrp_tx_action_e \<Rightarrow> mrp_tx_action_e" where
  "applicant_tx mrp_event_tx s tx = applicant_action s tx"
| "applicant_tx mrp_event_tx_la s tx =
     (if s = mrp_applicant_qa then mrp_tx_join else applicant_action s tx)"
| "applicant_tx _ s tx = tx"

definition mrp_applicant_step :: "mrp_sm_state_t \<Rightarrow> mrp_event_e \<Rightarrow> mrp_sm_state_t" where
  "mrp_applicant_step sm ev =
     sm\<lparr> applicant := applicant_next ev (applicant sm),
         pending_tx := applicant_tx ev (applicant sm) (pending_tx sm) \<rparr>"

text \<open>\<open>now\<close> is the value \<open>esp_timer_get_time\<close> returns.\<close>

definition mrp_registrar_step :: "int \<Rightarrow> mrp_sm_state_t \<Rightarrow> mrp_event_e \<Rightarrow> mrp_sm_state_t" where
  "mrp_registrar_step now sm ev =
     (let r = registrar sm in
      if ev \<in> {mrp_event_r_new, mrp_event_r_join_in, mrp_event_r_join_mt, mrp_event_r_in}
      then sm\<lparr> registrar := mrp_registrar_in, leave_timer_us := 0 \<rparr>
      else if ev \<in> {mrp_event_r_lv, mrp_event_r_la}
      then (if r = mrp_registrar_in \<or> r = mrp_registrar_lv
            then sm\<lparr> registrar := mrp_registrar_lv, leave_timer_us := now + MRP_LEAVE_TIMER_US \<rparr>
            else sm)
      else if ev = mrp_event_leave_timer
      then (if r = mrp_registrar_lv
            then sm\<lparr> registrar := mrp_registrar_mt, leave_timer_us := 0 \<rparr>
            else sm)
      else sm)"

definition mrp_3pe_to_event :: "int \<Rightarrow> mrp_event_e" where
  "mrp_3pe_to_event pe_val =
     (if pe_val = 0 then mrp_event_r_new
      else if pe_val = 1 then mrp_event_r_join_in
      else if pe_val = 2 then mrp_event_r_in
      else if pe_val = 3 then mrp_event_r_join_mt
      else if pe_val = 4 then mrp_event_r_mt
      else if pe_val = 5 then mrp_event_r_lv
      else mrp_event_r_mt)"

definition mrp_sm_step :: "int \<Rightarrow> mrp_sm_state_t \<Rightarrow> mrp_event_e \<Rightarrow> mrp_sm_state_t" where
  "mrp_sm_step now sm ev = mrp_registrar_step now (mrp_applicant_step sm ev) ev"

text \<open>An attribute neither registered nor declared.\<close>

definition mrp_sm_idle :: "mrp_sm_state_t \<Rightarrow> bool" where
  "mrp_sm_idle sm \<longleftrightarrow> registrar sm = mrp_registrar_mt \<and> applicant sm = mrp_applicant_vo
     \<and> pending_tx sm = mrp_tx_none"

datatype mrp_reg_transition_e =
    mrp_reg_transition_none | mrp_reg_transition_register | mrp_reg_transition_deregister

definition mrp_reg_transition ::
  "mrp_registrar_state_e \<Rightarrow> mrp_registrar_state_e \<Rightarrow> mrp_reg_transition_e" where
  "mrp_reg_transition before after =
     (let was_in = (before = mrp_registrar_in); is_in = (after = mrp_registrar_in) in
      if \<not> was_in \<and> is_in then mrp_reg_transition_register
      else if was_in \<and> \<not> is_in then mrp_reg_transition_deregister
      else mrp_reg_transition_none)"

definition mrp_applicant_will_send :: "mrp_applicant_state_e \<Rightarrow> bool" where
  "mrp_applicant_will_send a \<longleftrightarrow> a = mrp_applicant_vp \<or> a = mrp_applicant_vn \<or>
     a = mrp_applicant_an \<or> a = mrp_applicant_aa \<or> a = mrp_applicant_la"

text \<open>Applicant states that hold an active local declaration.\<close>

fun mrp_applicant_declaring :: "mrp_applicant_state_e \<Rightarrow> bool" where
  "mrp_applicant_declaring mrp_applicant_vn = True"
| "mrp_applicant_declaring mrp_applicant_an = True"
| "mrp_applicant_declaring mrp_applicant_aa = True"
| "mrp_applicant_declaring mrp_applicant_qa = True"
| "mrp_applicant_declaring mrp_applicant_vp = True"
| "mrp_applicant_declaring mrp_applicant_ap = True"
| "mrp_applicant_declaring mrp_applicant_qp = True"
| "mrp_applicant_declaring _ = False"

definition mrp_declare_event :: "mrp_sm_state_t \<Rightarrow> mrp_event_e" where
  "mrp_declare_event sm =
     (if applicant sm \<in> {mrp_applicant_vo, mrp_applicant_ao, mrp_applicant_qo, mrp_applicant_lo}
      then mrp_event_new else mrp_event_join)"

definition mrp_sm_reset_for_new_value :: "mrp_sm_state_t \<Rightarrow> mrp_sm_state_t" where
  "mrp_sm_reset_for_new_value sm =
     sm\<lparr> applicant := mrp_applicant_vo, registrar := mrp_registrar_mt,
         leave_timer_us := 0, pending_tx := mrp_tx_none \<rparr>"

text \<open>\<open>lite\<close> is the flag \<open>s_mrp_lite\<close>.\<close>

definition mrp_withdraw_step :: "bool \<Rightarrow> mrp_sm_state_t \<Rightarrow> mrp_sm_state_t" where
  "mrp_withdraw_step lite sm =
     (let before = applicant sm; sm' = mrp_applicant_step sm mrp_event_lv in
      if lite \<and> (before = mrp_applicant_vn \<or> before = mrp_applicant_an)
      then sm'\<lparr> applicant := mrp_applicant_la \<rparr> else sm')"

text \<open>The wire event of an action: \<open>-1\<close> when there is nothing to send.\<close>

definition mrp_resolve_3pe :: "mrp_tx_action_e \<Rightarrow> mrp_registrar_state_e \<Rightarrow> int" where
  "mrp_resolve_3pe action reg =
     (case action of
        mrp_tx_new \<Rightarrow> 0
      | mrp_tx_join \<Rightarrow> (if reg = mrp_registrar_in then 1 else 3)
      | mrp_tx_leave \<Rightarrow> 5
      | mrp_tx_none \<Rightarrow> -1)"

section \<open>What a step changes\<close>

declare applicant_on_leave_def [sm_simps] applicant_on_tx_def [sm_simps]
  applicant_action_def [sm_simps] mrp_applicant_step_def [sm_simps]
  mrp_registrar_step_def [sm_simps] mrp_sm_step_def [sm_simps]

text \<open>The Applicant reads nothing of the Registrar and the Registrar nothing of the
  Applicant.\<close>

lemma applicant_sm_step [simp]:
  "applicant (mrp_sm_step now sm ev) = applicant_next ev (applicant sm)"
  by (auto simp: sm_simps Let_def)

lemma pending_tx_sm_step [simp]:
  "pending_tx (mrp_sm_step now sm ev) = applicant_tx ev (applicant sm) (pending_tx sm)"
  by (auto simp: sm_simps Let_def)

lemma registrar_sm_step [simp]:
  "registrar (mrp_sm_step now sm ev) = registrar (mrp_registrar_step now sm ev)"
  "leave_timer_us (mrp_sm_step now sm ev) = leave_timer_us (mrp_registrar_step now sm ev)"
  by (auto simp: sm_simps Let_def)

lemma applicant_step_fields [simp]:
  "applicant (mrp_applicant_step sm ev) = applicant_next ev (applicant sm)"
  "pending_tx (mrp_applicant_step sm ev) = applicant_tx ev (applicant sm) (pending_tx sm)"
  "registrar (mrp_applicant_step sm ev) = registrar sm"
  "leave_timer_us (mrp_applicant_step sm ev) = leave_timer_us sm"
  by (simp_all add: mrp_applicant_step_def)

lemma registrar_step_fields [simp]:
  "applicant (mrp_registrar_step now sm ev) = applicant sm"
  "pending_tx (mrp_registrar_step now sm ev) = pending_tx sm"
  by (auto simp: mrp_registrar_step_def Let_def)

text \<open>The events that register a peer, and those that start its LeaveTimer.\<close>

fun mrp_registering :: "mrp_event_e \<Rightarrow> bool" where
  "mrp_registering mrp_event_r_new = True"
| "mrp_registering mrp_event_r_join_in = True"
| "mrp_registering mrp_event_r_join_mt = True"
| "mrp_registering mrp_event_r_in = True"
| "mrp_registering _ = False"

fun mrp_leaving :: "mrp_event_e \<Rightarrow> bool" where
  "mrp_leaving mrp_event_r_lv = True"
| "mrp_leaving mrp_event_r_la = True"
| "mrp_leaving _ = False"

lemma registrar_of_step:
  "registrar (mrp_registrar_step now sm ev) =
     (if mrp_registering ev then mrp_registrar_in
      else if mrp_leaving ev \<and> registrar sm \<noteq> mrp_registrar_mt then mrp_registrar_lv
      else if ev = mrp_event_leave_timer \<and> registrar sm = mrp_registrar_lv then mrp_registrar_mt
      else registrar sm)"
  by (cases ev; cases "registrar sm") (simp_all add: mrp_registrar_step_def Let_def)

lemma leave_timer_of_step:
  "leave_timer_us (mrp_registrar_step now sm ev) =
     (if mrp_registering ev then 0
      else if mrp_leaving ev \<and> registrar sm \<noteq> mrp_registrar_mt then now + MRP_LEAVE_TIMER_US
      else if ev = mrp_event_leave_timer \<and> registrar sm = mrp_registrar_lv then 0
      else leave_timer_us sm)"
  by (cases ev; cases "registrar sm") (simp_all add: mrp_registrar_step_def Let_def)

section \<open>Runs of one attribute\<close>

text \<open>A run feeds a list of timed events to the pair of machines.\<close>

definition mrp_run :: "(int \<times> mrp_event_e) list \<Rightarrow> mrp_sm_state_t \<Rightarrow> mrp_sm_state_t" where
  "mrp_run evs sm = fold (\<lambda>(now, ev) s. mrp_sm_step now s ev) evs sm"

lemma mrp_run_Nil [simp]: "mrp_run [] sm = sm"
  by (simp add: mrp_run_def)

lemma mrp_run_Cons [simp]: "mrp_run ((now, ev) # evs) sm = mrp_run evs (mrp_sm_step now sm ev)"
  by (simp add: mrp_run_def)

text \<open>The service a participant offers its application: a declaration stands from a New or
  Join request until the next Leave request, whatever peers and timers do.\<close>

fun mrp_service :: "mrp_event_e \<Rightarrow> bool \<Rightarrow> bool" where
  "mrp_service mrp_event_new _ = True"
| "mrp_service mrp_event_join _ = True"
| "mrp_service mrp_event_lv _ = False"
| "mrp_service _ d = d"

lemma declaring_step:
  "mrp_applicant_declaring (applicant_next ev s) = mrp_service ev (mrp_applicant_declaring s)"
  by (cases ev; cases s) (simp_all add: sm_simps)


text \<open>The Registrar: in LV exactly while its LeaveTimer runs.\<close>

definition sm_wf :: "mrp_sm_state_t \<Rightarrow> bool" where
  "sm_wf sm \<longleftrightarrow> 0 \<le> leave_timer_us sm
     \<and> (registrar sm = mrp_registrar_lv \<longleftrightarrow> leave_timer_us sm \<noteq> 0)"

lemma sm_wf_idle [intro, simp]: "sm_wf mrp_sm_idle_state"
  by (simp add: sm_wf_def mrp_sm_idle_state_def mrp_sm_zero_def)

lemma sm_wf_applicant_step [simp]: "sm_wf (mrp_applicant_step sm ev) = sm_wf sm"
  by (simp add: sm_wf_def)

lemma sm_wf_registrar_step: "\<lbrakk>sm_wf sm; 0 \<le> now\<rbrakk> \<Longrightarrow> sm_wf (mrp_registrar_step now sm ev)"
  by (auto simp: sm_wf_def registrar_of_step leave_timer_of_step MRP_LEAVE_TIMER_US_def
      split: if_splits)

lemma sm_wf_step: "\<lbrakk>sm_wf sm; 0 \<le> now\<rbrakk> \<Longrightarrow> sm_wf (mrp_sm_step now sm ev)"
  by (simp add: mrp_sm_step_def sm_wf_registrar_step)

lemma sm_wf_reset [simp]: "sm_wf (mrp_sm_reset_for_new_value sm)"
  by (simp add: sm_wf_def mrp_sm_reset_for_new_value_def)

lemma sm_wf_withdraw [simp]: "sm_wf (mrp_withdraw_step lite sm) = sm_wf sm"
  by (simp add: sm_wf_def mrp_withdraw_step_def Let_def)

lemma sm_wf_run: "\<lbrakk>sm_wf sm; \<forall>e \<in> set evs. 0 \<le> fst e\<rbrakk> \<Longrightarrow> sm_wf (mrp_run evs sm)"
  by (induction evs arbitrary: sm) (auto simp: sm_wf_step)



section \<open>Transmission opportunities\<close>

text \<open>One JoinTimer expiry: step the Applicant, read the action, clear it.  This is what the
  flush functions do with each entry; the value returned is the wire event, if any.\<close>

definition mrp_tx_opportunity :: "mrp_event_e \<Rightarrow> mrp_sm_state_t \<Rightarrow> mrp_sm_state_t \<times> int option" where
  "mrp_tx_opportunity ev sm =
     (let sm' = mrp_applicant_step sm ev;
          pe = mrp_resolve_3pe (pending_tx sm') (registrar sm')
      in (sm'\<lparr> pending_tx := mrp_tx_none \<rparr>, if pe < 0 then None else Some pe))"

fun mrp_tx_sequence :: "nat \<Rightarrow> mrp_sm_state_t \<Rightarrow> int option list" where
  "mrp_tx_sequence 0 sm = []"
| "mrp_tx_sequence (Suc n) sm =
     (case mrp_tx_opportunity mrp_event_tx sm of (sm', pe) \<Rightarrow> pe # mrp_tx_sequence n sm')"

lemma tx_opportunity_quiet:
  "\<lbrakk>\<not> mrp_applicant_will_send (applicant sm); pending_tx sm = mrp_tx_none\<rbrakk> \<Longrightarrow>
     snd (mrp_tx_opportunity mrp_event_tx sm) = None
   \<and> \<not> mrp_applicant_will_send (applicant (fst (mrp_tx_opportunity mrp_event_tx sm)))
   \<and> pending_tx (fst (mrp_tx_opportunity mrp_event_tx sm)) = mrp_tx_none"
  by (cases "applicant sm")
    (simp_all add: mrp_tx_opportunity_def mrp_resolve_3pe_def mrp_applicant_will_send_def
      sm_simps Let_def)

lemma tx_sequence_quiet:
  "\<lbrakk>\<not> mrp_applicant_will_send (applicant sm); pending_tx sm = mrp_tx_none\<rbrakk> \<Longrightarrow>
     mrp_tx_sequence n sm = replicate n None"
proof (induction n arbitrary: sm)
  case (Suc n)
  then show ?case
    using tx_opportunity_quiet [of sm] by (auto simp: split_def)
qed simp

lemma tx_sequence_QA:
  "\<lbrakk>applicant sm = mrp_applicant_qa; pending_tx sm = mrp_tx_none\<rbrakk> \<Longrightarrow>
     mrp_tx_sequence n sm = replicate n None"
  by (rule tx_sequence_quiet) (simp_all add: mrp_applicant_will_send_def)

lemma tx_sequence_VO:
  "\<lbrakk>applicant sm = mrp_applicant_vo; pending_tx sm = mrp_tx_none\<rbrakk> \<Longrightarrow>
     mrp_tx_sequence n sm = replicate n None"
  by (rule tx_sequence_quiet) (simp_all add: mrp_applicant_will_send_def)

text \<open>The messages a request costs.  With no peer event in between, a New is sent twice
  and then nothing more, a LeaveAll makes a quiet declaration send two Joins (JoinIn when the
  peer is registered, JoinMt otherwise), and a withdrawal sends one Leave.\<close>

theorem transmissions_of_a_request:
  assumes "pending_tx sm = mrp_tx_none"
  shows "mrp_tx_sequence (2 + n) (mrp_applicant_step sm mrp_event_new)
           = [Some 0, Some 0] @ replicate n None
     \<and> (applicant sm = mrp_applicant_qa \<longrightarrow>
         mrp_tx_sequence (2 + n) (mrp_applicant_step sm mrp_event_r_la)
           = replicate 2 (Some (if registrar sm = mrp_registrar_in then 1 else 3))
             @ replicate n None)
     \<and> (applicant sm \<in> {mrp_applicant_aa, mrp_applicant_qa} \<longrightarrow>
         mrp_tx_sequence (1 + n) (mrp_applicant_step sm mrp_event_lv)
           = Some 5 # replicate n None)"
  using assms tx_sequence_QA tx_sequence_VO
  by (auto simp: mrp_tx_opportunity_def mrp_resolve_3pe_def sm_simps Let_def numeral_2_eq_2)

theorem transmissions_of_a_request_witness:
  "mrp_tx_sequence (2 + 1) (mrp_applicant_step
       (mrp_sm_idle_state\<lparr> applicant := mrp_applicant_qa \<rparr>) mrp_event_r_la)
     = replicate 2 (Some 3) @ replicate 1 None"
proof -
  have "pending_tx (mrp_sm_idle_state\<lparr> applicant := mrp_applicant_qa \<rparr>) = mrp_tx_none"
    by (simp add: mrp_sm_idle_state_def)
  from transmissions_of_a_request [OF this, of 1]
  show ?thesis by (simp del: mrp_tx_sequence.simps replicate.simps replicate_Suc add: mrp_sm_idle_state_def)
qed

section \<open>Wire events\<close>

text \<open>What a peer's machine is driven with when an action goes out as the first event of a
  three-packed octet.\<close>

definition mrp_wire_event :: "mrp_tx_action_e \<Rightarrow> mrp_registrar_state_e \<Rightarrow> mrp_event_e" where
  "mrp_wire_event action reg =
     mrp_3pe_to_event (fst (three_pe_to_int (int_to_3pe (mrp_resolve_3pe action reg) 0 0)))"

text \<open>The event the peer decodes is the one the Applicant asked for: New as New, Join as
  JoinIn or JoinMt after the sender's Registrar, Leave as Leave; only these four ever go out.\<close>

theorem wire_event_roundtrip:
  "action \<noteq> mrp_tx_none \<Longrightarrow>
   mrp_wire_event action reg =
     (if action = mrp_tx_new then mrp_event_r_new
      else if action = mrp_tx_leave then mrp_event_r_lv
      else if reg = mrp_registrar_in then mrp_event_r_join_in else mrp_event_r_join_mt)"
  by (cases action)
    (simp_all add: mrp_wire_event_def mrp_resolve_3pe_def three_pe_first attr_event_value_def
      mrp_3pe_to_event_def)

theorem wire_event_roundtrip_witness:
  "mrp_wire_event mrp_tx_join mrp_registrar_lv = mrp_event_r_join_mt"
  using wire_event_roundtrip [of mrp_tx_join mrp_registrar_lv] by simp

section \<open>A declaration and its registration across a link\<close>

text \<open>
  Two participants on a link that loses nothing: the station declares an attribute, the peer
  registers it.  The labels of a run are the local requests at the station, its transmission
  opportunities (with or without a LeaveAll), its periodic timer, the peer's LeaveAll (a
  station on Wi-Fi also ages its own Registrars, a wired port does not), the expiry of the
  peer's LeaveTimer, and a Lv or empty event the peer itself sends.
\<close>

record mrp_link =
  station :: mrp_sm_state_t
  peer :: mrp_sm_state_t

definition mrp_deliver :: "int \<Rightarrow> mrp_event_e \<Rightarrow> mrp_link \<Rightarrow> mrp_link" where
  "mrp_deliver now ev l =
     (let st = mrp_applicant_step (station l) ev; action = pending_tx st in
      l\<lparr> station := st\<lparr> pending_tx := mrp_tx_none \<rparr>,
         peer := (if action = mrp_tx_none then peer l
                  else mrp_sm_step now (peer l) (mrp_wire_event action (registrar st))) \<rparr>)"

inductive mrp_link_step :: "mrp_link \<Rightarrow> mrp_link \<Rightarrow> bool" where
  local_request: "ev \<in> {mrp_event_new, mrp_event_join, mrp_event_lv} \<Longrightarrow>
     mrp_link_step l (l\<lparr> station := mrp_applicant_step (station l) ev \<rparr>)"
| periodic: "mrp_link_step l (l\<lparr> station := mrp_applicant_step (station l) mrp_event_periodic \<rparr>)"
| transmit: "ev \<in> {mrp_event_tx, mrp_event_tx_la} \<Longrightarrow> mrp_link_step l (mrp_deliver now ev l)"
| leave_all: "mrp_link_step l (l\<lparr> station := mrp_sm_step now (station l) mrp_event_r_la,
     peer := (if wifi_station \<and> registrar (peer l) = mrp_registrar_in
              then mrp_registrar_step now (peer l) mrp_event_r_la else peer l) \<rparr>)"
| peer_event: "ev \<in> {mrp_event_r_lv, mrp_event_r_mt, mrp_event_r_in, mrp_event_r_new} \<Longrightarrow>
     mrp_link_step l (l\<lparr> station := mrp_sm_step now (station l) ev \<rparr>)"
| peer_timer: "mrp_link_step l (l\<lparr> peer := mrp_sm_step now (peer l) mrp_event_leave_timer \<rparr>)"

inductive mrp_link_reach :: "mrp_link \<Rightarrow> bool" where
  start: "mrp_link_reach \<lparr> station = mrp_sm_idle_state, peer = mrp_sm_idle_state \<rparr>"
| step: "\<lbrakk>mrp_link_reach l; mrp_link_step l l'\<rbrakk> \<Longrightarrow> mrp_link_reach l'"

text \<open>The states whose last message is still standing at the peer.\<close>

definition applicant_announced :: "mrp_applicant_state_e \<Rightarrow> bool" where
  "applicant_announced a \<longleftrightarrow> a \<in> {mrp_applicant_an, mrp_applicant_aa, mrp_applicant_qa}"

definition mrp_link_inv :: "mrp_link \<Rightarrow> bool" where
  "mrp_link_inv l \<longleftrightarrow> pending_tx (station l) = mrp_tx_none
     \<and> applicant (station l) \<notin> {mrp_applicant_ao, mrp_applicant_qo, mrp_applicant_ap, mrp_applicant_qp}
     \<and> (applicant_announced (applicant (station l)) \<longrightarrow> registrar (peer l) = mrp_registrar_in)"

lemma mrp_wire_events:
  "mrp_registering (mrp_wire_event mrp_tx_new reg)" "mrp_registering (mrp_wire_event mrp_tx_join reg)"
  "mrp_wire_event mrp_tx_leave reg = mrp_event_r_lv"
  by (simp_all add: mrp_wire_event_def mrp_resolve_3pe_def three_pe_first attr_event_value_def
      mrp_3pe_to_event_def)

lemma mrp_deliver_fields:
  "applicant (station (mrp_deliver now ev l)) = applicant_next ev (applicant (station l))"
  "pending_tx (station (mrp_deliver now ev l)) = mrp_tx_none"
  "registrar (peer (mrp_deliver now ev l)) =
     (case applicant_tx ev (applicant (station l)) (pending_tx (station l)) of
        mrp_tx_none \<Rightarrow> registrar (peer l)
      | mrp_tx_leave \<Rightarrow> registrar (mrp_registrar_step now (peer l) mrp_event_r_lv)
      | _ \<Rightarrow> mrp_registrar_in)"
  by (cases "applicant_tx ev (applicant (station l)) (pending_tx (station l))";
      simp add: mrp_deliver_def Let_def registrar_of_step mrp_wire_events)+

lemma mrp_link_inv_deliver:
  assumes "mrp_link_inv l" and "ev \<in> {mrp_event_tx, mrp_event_tx_la}"
  shows "mrp_link_inv (mrp_deliver now ev l)"
proof -
  from assms(2) have "ev = mrp_event_tx \<or> ev = mrp_event_tx_la" by simp
  with assms(1) show ?thesis
    unfolding mrp_link_inv_def mrp_deliver_fields applicant_announced_def
    by (elim disjE; cases "applicant (station l)")
      (simp_all add: applicant_on_tx_def applicant_action_def)
qed

lemma mrp_link_inv_step:
  assumes "mrp_link_step l l'" and "mrp_link_inv l"
  shows "mrp_link_inv l'"
  using assms
proof (cases rule: mrp_link_step.cases)
  case (transmit ev now)
  with assms show ?thesis by (simp add: mrp_link_inv_deliver)
next
  case (local_request ev)
  with assms show ?thesis
    by (cases "applicant (station l)") (auto simp: mrp_link_inv_def applicant_announced_def)
next
  case periodic
  with assms show ?thesis
    by (cases "applicant (station l)") (auto simp: mrp_link_inv_def applicant_announced_def)
next
  case (leave_all now wifi_station)
  with assms show ?thesis
    by (cases "applicant (station l)")
      (auto simp: mrp_link_inv_def applicant_announced_def applicant_on_leave_def)
next
  case (peer_event ev now)
  with assms show ?thesis
    by (cases "applicant (station l)")
      (auto simp: mrp_link_inv_def applicant_announced_def applicant_on_leave_def split: if_splits)
next
  case (peer_timer now)
  with assms show ?thesis
    by (auto simp: mrp_link_inv_def registrar_of_step)
qed

lemma mrp_link_inv_reach: "mrp_link_reach l \<Longrightarrow> mrp_link_inv l"
  by (induction rule: mrp_link_reach.induct)
    (auto simp: mrp_link_inv_step, simp add: mrp_link_inv_def mrp_sm_idle_state_def
      mrp_sm_zero_def applicant_announced_def)



section \<open>The passive states are mute\<close>

text \<open>Once a peer's JoinIn has moved a waiting declaration to a passive state (VP to AP to
  QP), the declaration is never transmitted again until a LeaveAll, a Leave or a new request:
  \<open>mrp_applicant_step\<close> has no \<open>tx!\<close> row for AP, where IEEE 802.1Q Table 10-3 sends a Join
  and goes to QA.\<close>

theorem passive_never_sends:
  assumes "applicant sm \<in> {mrp_applicant_ap, mrp_applicant_qp}" and "pending_tx sm = mrp_tx_none"
    and "\<forall>e \<in> set evs. snd e \<notin> {mrp_event_new, mrp_event_lv, mrp_event_r_lv, mrp_event_r_la}"
  shows "mrp_applicant_declaring (applicant (mrp_run evs sm))
       \<and> pending_tx (mrp_run evs sm) = mrp_tx_none"
proof -
  have "applicant (mrp_run evs sm) \<in> {mrp_applicant_ap, mrp_applicant_qp}
      \<and> pending_tx (mrp_run evs sm) = mrp_tx_none"
    using assms
  proof (induction evs arbitrary: sm)
    case (Cons e evs)
    obtain now ev where e: "e = (now, ev)" by (cases e)
    have "applicant (mrp_sm_step now sm ev) \<in> {mrp_applicant_ap, mrp_applicant_qp}"
      "pending_tx (mrp_sm_step now sm ev) = mrp_tx_none"
      using Cons.prems e by (cases ev; auto simp: sm_simps)+
    with Cons e show ?case by simp
  qed simp
  then show ?thesis by auto
qed

theorem passive_never_sends_witness:
  "pending_tx (mrp_run (replicate 3 (0, mrp_event_tx))
     (mrp_sm_step 0 (mrp_sm_idle_state\<lparr> applicant := mrp_applicant_vp \<rparr>) mrp_event_r_join_in))
     = mrp_tx_none"
  using passive_never_sends
    [of "mrp_sm_step 0 (mrp_sm_idle_state\<lparr> applicant := mrp_applicant_vp \<rparr>) mrp_event_r_join_in"
        "replicate 3 (0, mrp_event_tx)"]
  by (simp add: mrp_sm_idle_state_def)

end
