(* ===== verification/Msrp_Types.thy ===== *)
theory Msrp_Types
  imports Mrp_Sm Bridge
begin

text \<open>
  The data of MSRP and MVRP: attribute enumerations and wire structures of \<open>mrp.h\<close>, the
  table entries of \<open>mrp.c\<close> section 6, the parts of the stream and port records of \<open>avb.h\<close>
  that MRP reads and writes, and the state of the stack that all MRP operations share.

  A bit field is a word of its width, so equality of two records is \<open>memcmp\<close> of the
  structures.  The union \<open>msrp_talker_message_u\<close> is one record with the fields of both forms:
  which form is meant is always known from the attribute type, and the code never reads a
  field of the other form.  Of the event arrays only the element the code fills is kept.
\<close>

section \<open>Enumerations\<close>

datatype msrp_attr_type_t =
    msrp_attr_type_none | msrp_attr_type_talker_advertise | msrp_attr_type_talker_failed
  | msrp_attr_type_listener | msrp_attr_type_domain

fun msrp_attr_type_code :: "msrp_attr_type_t \<Rightarrow> u8" where
  "msrp_attr_type_code msrp_attr_type_none = 0"
| "msrp_attr_type_code msrp_attr_type_talker_advertise = 1"
| "msrp_attr_type_code msrp_attr_type_talker_failed = 2"
| "msrp_attr_type_code msrp_attr_type_listener = 3"
| "msrp_attr_type_code msrp_attr_type_domain = 4"

datatype msrp_listener_event_t =
    msrp_listener_event_ignore | msrp_listener_event_asking_failed
  | msrp_listener_event_ready | msrp_listener_event_ready_failed

fun msrp_listener_event_code :: "msrp_listener_event_t \<Rightarrow> 2 word" where
  "msrp_listener_event_code msrp_listener_event_ignore = 0"
| "msrp_listener_event_code msrp_listener_event_asking_failed = 1"
| "msrp_listener_event_code msrp_listener_event_ready = 2"
| "msrp_listener_event_code msrp_listener_event_ready_failed = 3"

definition msrp_listener_event_of :: "2 word \<Rightarrow> msrp_listener_event_t" where
  "msrp_listener_event_of w =
     (if w = 0 then msrp_listener_event_ignore
      else if w = 1 then msrp_listener_event_asking_failed
      else if w = 2 then msrp_listener_event_ready
      else msrp_listener_event_ready_failed)"

text \<open>The events of \<open>mrp_attr_event_t\<close> the code names, and two of the failure codes.\<close>

definition mrp_attr_event_new :: int where "mrp_attr_event_new = 0"
definition mrp_attr_event_lv :: int where "mrp_attr_event_lv = 5"
definition insufficient_bandwidth :: u8 where "insufficient_bandwidth = 1"
definition insufficient_bandwidth_for_traffic_class :: u8 where
  "insufficient_bandwidth_for_traffic_class = 3"

datatype avb_port_medium_e = avb_port_medium_eth_hwts | avb_port_medium_wifi_ftm
datatype avb_port_type_e = avb_port_type_primary | avb_port_type_failover | avb_port_type_bridged
datatype avb_port_wifi_mode_e =
  avb_port_wifi_mode_sta | avb_port_wifi_mode_ap | avb_port_wifi_mode_none

section \<open>Wire structures\<close>

record msrp_attr_header_s =
  ah_attr_type :: u8
  ah_attr_len :: u8
  ah_attr_list_len :: octets
  ah_vechead_padding :: "5 word"
  ah_vechead_leaveall :: "3 word"
  ah_vechead_num_vals :: u8

record talker_adv_info_s =
  ti_stream_id :: octets
  ti_stream_dest_addr :: octets
  ti_vlan_id :: octets
  ti_tspec_max_frame_size :: octets
  ti_tspec_max_frame_interval :: octets
  ti_reserved :: "4 word"
  ti_rank :: "1 word"
  ti_priority :: "3 word"
  ti_accumulated_latency :: octets

record msrp_talker_message_u =
  tm_header :: msrp_attr_header_s
  tm_info :: talker_adv_info_s
  tm_failure_bridge_id :: octets
  tm_failure_code :: u8
  tm_event :: u8

record mrp_4pe_event_s =
  pe4_event1 :: "2 word"
  pe4_event2 :: "2 word"
  pe4_event3 :: "2 word"
  pe4_event4 :: "2 word"

record msrp_listener_message_s =
  lm_header :: msrp_attr_header_s
  lm_stream_id :: octets
  lm_event :: u8
  lm_declaration :: mrp_4pe_event_s

record msrp_domain_message_s =
  dm_header :: msrp_attr_header_s
  dm_sr_class_id :: u8
  dm_sr_class_priority :: u8
  dm_sr_class_vid :: octets
  dm_event :: u8

record mrp_attr_header_s =
  mh_attr_type :: u8
  mh_attr_len :: u8
  mh_vechead_padding :: "5 word"
  mh_vechead_leaveall :: "3 word"
  mh_vechead_num_vals :: u8

record mvrp_vlan_id_message_s =
  vm_protocol_ver :: u8
  vm_header :: mrp_attr_header_s
  vm_vlan_id :: octets
  vm_event :: u8

text \<open>What \<open>memset(0)\<close> leaves of each structure.\<close>

definition msrp_attr_header_zero :: msrp_attr_header_s where
  "msrp_attr_header_zero = \<lparr> ah_attr_type = 0, ah_attr_len = 0, ah_attr_list_len = zeros 2,
     ah_vechead_padding = 0, ah_vechead_leaveall = 0, ah_vechead_num_vals = 0 \<rparr>"

definition talker_adv_info_zero :: talker_adv_info_s where
  "talker_adv_info_zero = \<lparr> ti_stream_id = zeros 8, ti_stream_dest_addr = zeros 6,
     ti_vlan_id = zeros 2, ti_tspec_max_frame_size = zeros 2, ti_tspec_max_frame_interval = zeros 2,
     ti_reserved = 0, ti_rank = 0, ti_priority = 0, ti_accumulated_latency = zeros 4 \<rparr>"

definition msrp_talker_message_zero :: msrp_talker_message_u where
  "msrp_talker_message_zero = \<lparr> tm_header = msrp_attr_header_zero, tm_info = talker_adv_info_zero,
     tm_failure_bridge_id = zeros 8, tm_failure_code = 0, tm_event = 0 \<rparr>"

definition mrp_4pe_zero :: mrp_4pe_event_s where
  "mrp_4pe_zero = \<lparr> pe4_event1 = 0, pe4_event2 = 0, pe4_event3 = 0, pe4_event4 = 0 \<rparr>"

definition msrp_listener_message_zero :: msrp_listener_message_s where
  "msrp_listener_message_zero = \<lparr> lm_header = msrp_attr_header_zero, lm_stream_id = zeros 8,
     lm_event = 0, lm_declaration = mrp_4pe_zero \<rparr>"

definition msrp_domain_message_zero :: msrp_domain_message_s where
  "msrp_domain_message_zero = \<lparr> dm_header = msrp_attr_header_zero, dm_sr_class_id = 0,
     dm_sr_class_priority = 0, dm_sr_class_vid = zeros 2, dm_event = 0 \<rparr>"

section \<open>Table entries\<close>

text \<open>\<open>admitted_bps\<close> and \<open>admitted_class\<close> are indexed by port.  The two fields that only
  keep a log line from repeating are left out.\<close>

record msrp_talker_entry_t =
  te_valid :: bool
  te_attr_type :: msrp_attr_type_t
  te_wire :: msrp_talker_message_u
  te_sm :: mrp_sm_state_t
  last_propagated_priority :: u8
  last_propagated_mfs :: u16
  last_propagated_mfi :: u16
  admitted_bps :: "int \<Rightarrow> u32"
  admitted_class :: "int \<Rightarrow> int"
  redeclare_after_us :: int
  holdoff_leaveall_base :: u32
  withdrawn_us :: int
  declare_held :: bool
  te_last_refresh_us :: int
  te_lite_next_tx_us :: int
  te_src_mac :: octets
  locally_originated :: bool

record msrp_listener_entry_t =
  le_valid :: bool
  le_wire :: msrp_listener_message_s
  decl_event :: msrp_listener_event_t
  peer_decl :: msrp_listener_event_t
  peer_mac :: octets
  le_sm :: mrp_sm_state_t
  le_last_refresh_us :: int
  le_lite_next_tx_us :: int

record msrp_domain_entry_t =
  de_valid :: bool
  de_wire :: msrp_domain_message_s
  de_sm :: mrp_sm_state_t

record mvrp_vlan_entry_t =
  ve_valid :: bool
  ve_vlan_id :: octets
  ve_sm :: mrp_sm_state_t

record msrp_lite_refusal_entry_t =
  re_valid :: bool
  re_listener_mac :: octets
  re_wire :: msrp_talker_message_u
  re_sm :: mrp_sm_state_t
  re_lite_next_tx_us :: int

definition talker_entry_zero :: msrp_talker_entry_t where
  "talker_entry_zero = \<lparr> te_valid = False, te_attr_type = msrp_attr_type_none,
     te_wire = msrp_talker_message_zero, te_sm = mrp_sm_zero,
     last_propagated_priority = 0, last_propagated_mfs = 0, last_propagated_mfi = 0,
     admitted_bps = (\<lambda>_. 0), admitted_class = (\<lambda>_. 0),
     redeclare_after_us = 0, holdoff_leaveall_base = 0, withdrawn_us = 0, declare_held = False,
     te_last_refresh_us = 0, te_lite_next_tx_us = 0, te_src_mac = zeros 6,
     locally_originated = False \<rparr>"

definition listener_entry_zero :: msrp_listener_entry_t where
  "listener_entry_zero = \<lparr> le_valid = False, le_wire = msrp_listener_message_zero,
     decl_event = msrp_listener_event_ignore, peer_decl = msrp_listener_event_ignore,
     peer_mac = zeros 6, le_sm = mrp_sm_zero, le_last_refresh_us = 0, le_lite_next_tx_us = 0 \<rparr>"

definition domain_entry_zero :: msrp_domain_entry_t where
  "domain_entry_zero = \<lparr> de_valid = False, de_wire = msrp_domain_message_zero, de_sm = mrp_sm_zero \<rparr>"

definition vlan_entry_zero :: mvrp_vlan_entry_t where
  "vlan_entry_zero = \<lparr> ve_valid = False, ve_vlan_id = zeros 2, ve_sm = mrp_sm_zero \<rparr>"

definition refusal_entry_zero :: msrp_lite_refusal_entry_t where
  "refusal_entry_zero = \<lparr> re_valid = False, re_listener_mac = zeros 6,
     re_wire = msrp_talker_message_zero, re_sm = mrp_sm_zero, re_lite_next_tx_us = 0 \<rparr>"

section \<open>Streams and ports\<close>

text \<open>The count of unicast destinations is the length of \<open>tx_da\<close>; the time of the last fast connect
  is kept in milliseconds, 0 for none.  Latency, the statistics and the flags that are only
  reported are left out.\<close>

record connected_listener_s =
  cl_mac_addr :: octets
  cl_identity_id :: octets
  cl_identity_uid :: octets
  msrp_ready :: bool
  msrp_ready_live :: bool
  asking_failed_since_us :: int
  acmp_connected :: bool
  asking_failed :: bool
  last_seen_us :: int
  lite_order :: u32
  lite_refused :: bool
  lite_admitted :: bool
  lite_hold_until_us :: int

definition connected_listener_zero :: connected_listener_s where
  "connected_listener_zero = \<lparr> cl_mac_addr = zeros 6, cl_identity_id = zeros 8,
     cl_identity_uid = zeros 2, msrp_ready = False, msrp_ready_live = False,
     asking_failed_since_us = 0, acmp_connected = False, asking_failed = False, last_seen_us = 0,
     lite_order = 0, lite_refused = False, lite_admitted = False, lite_hold_until_us = 0 \<rparr>"

record avb_talker_stream_s =
  ts_stream_id :: octets
  ts_stream_dest_addr :: octets
  connection_count :: octets
  stop_streaming :: bool
  streaming :: bool
  connected_listeners :: "connected_listener_s list"
  ts_class_b :: bool
  ts_vlan_id :: octets
  ts_stream_format :: octets
  stream_id_gen :: nat
  stream_id_retired_us :: "int list"
  tx_da_seq :: u32
  tx_da :: "octets list"
  lite_declared_multicast :: bool
  lite_tx_multicast :: bool
  lite_multicast_admitted :: bool
  lite_multicast_tx_at_us :: int
  lite_start_retry_us :: int
  presentation_time_offset_ns :: u32

record avb_listener_stream_s =
  ls_stream_id :: octets
  ls_class_b :: bool
  ls_msrp_accumulated_latency :: octets
  ls_msrp_failure_code :: octets
  ls_connected :: bool
  talker_id :: octets
  talker_uid :: octets
  controller_id :: octets
  ls_stream_dest_addr :: octets
  ls_vlan_id :: octets
  ls_stream_format :: octets
  pending_connection :: bool
  provisional :: bool
  last_fast_connect_ns :: int
  streaming_wait :: bool
  demote_ref_us :: int

definition listener_stream_zero :: avb_listener_stream_s where
  "listener_stream_zero = \<lparr> ls_stream_id = zeros 8, ls_class_b = False,
     ls_msrp_accumulated_latency = zeros 4, ls_msrp_failure_code = zeros 2, ls_connected = False,
     talker_id = zeros 8, talker_uid = zeros 2, controller_id = zeros 8, ls_stream_dest_addr = zeros 6,
     ls_vlan_id = zeros 2, ls_stream_format = zeros 8, pending_connection = False, provisional = False,
     last_fast_connect_ns = 0, streaming_wait = False, demote_ref_us = 0 \<rparr>"

record avb_listener_s =
  known_entity_id :: octets
  known_mac_addr :: octets

record aem_msrp_mapping_s =
  map_priority :: u8
  map_vlan_id :: octets

record avb_port_s =
  port_medium :: avb_port_medium_e
  port_type :: avb_port_type_e
  port_wifi_mode :: avb_port_wifi_mode_e
  link_speed_mbps :: u32
  port_mac_addr :: octets
  mrp_join_timer_us :: int
  mrp_leaveall_timer_us :: int
  mrp_periodic_timer_us :: int
  mrp_leaveall_tx_pending :: bool

end
