(* ===== verification/Admission.thy ===== *)
theory Admission
  imports Msrp_Types
begin

text \<open>
  Bandwidth admission of the bridge (\<open>mrp.c\<close> section 8 and the accounting helpers of section
  6): one counter for each port and SR class, a cap of 75 % of the link rate, and the record each
  talker entry keeps of what it holds on every egress port.  The locale \<open>bandwidth_ledger\<close> is
  the contract the accounting helpers rely on; the counters of the code implement it.
\<close>

section \<open>Counters\<close>

record avb_admission_class_s =
  adm_link_rate_bps :: u32
  adm_admitted_bps :: u32
  adm_cap_bps :: u32

record admission_state =
  s_admission :: "int \<Rightarrow> int \<Rightarrow> avb_admission_class_s"
  s_fqtss :: fqtss_state

text \<open>\<open>link_rate * 3u / 4u\<close>.\<close>

definition adm_cap_of :: "u32 \<Rightarrow> u32" where
  "adm_cap_of link_rate = link_rate * 3 div 4"

definition avb_srp_admission_init :: "nat \<Rightarrow> (int \<Rightarrow> u32) \<Rightarrow> admission_state \<Rightarrow> admission_state" where
  "avb_srp_admission_init num_ports mbps_of a =
     a\<lparr> s_admission := (\<lambda>p c.
          if 0 \<le> p \<and> p < int num_ports \<and> 0 \<le> c \<and> c < AVB_SR_CLASS_COUNT
          then let link_rate = mbps_of p * 1000000
               in \<lparr> adm_link_rate_bps = link_rate, adm_admitted_bps = 0,
                    adm_cap_bps = adm_cap_of link_rate \<rparr>
          else s_admission a p c) \<rparr>"

definition avb_srp_admission_link_rate_bps :: "nat \<Rightarrow> int \<Rightarrow> admission_state \<Rightarrow> u32" where
  "avb_srp_admission_link_rate_bps num_ports port_index a =
     (if port_index < 0 \<or> port_index \<ge> int num_ports then 0
      else adm_link_rate_bps (s_admission a port_index 0))"

definition avb_srp_admission_set_link_speed ::
  "nat \<Rightarrow> int \<Rightarrow> u32 \<Rightarrow> admission_state \<Rightarrow> admission_state" where
  "avb_srp_admission_set_link_speed num_ports port_index link_mbps a =
     (if port_index < 0 \<or> port_index \<ge> int num_ports then a
      else let link_rate = link_mbps * 1000000
           in a\<lparr> s_admission := (\<lambda>p c. if p = port_index \<and> 0 \<le> c \<and> c < AVB_SR_CLASS_COUNT
                then (s_admission a p c)\<lparr> adm_link_rate_bps := link_rate,
                                          adm_cap_bps := adm_cap_of link_rate \<rparr>
                else s_admission a p c) \<rparr>)"

definition admission_set ::
  "nat \<Rightarrow> int \<Rightarrow> int \<Rightarrow> u32 \<Rightarrow> admission_state \<Rightarrow> admission_state" where
  "admission_set num_ports p c bps a =
     a\<lparr> s_admission := (\<lambda>q d. if q = p \<and> d = c
                              then (s_admission a p c)\<lparr> adm_admitted_bps := bps \<rparr>
                              else s_admission a q d),
        s_fqtss := snd (avb_fqtss_set_idle_slope num_ports p c (uint bps) (s_fqtss a)) \<rparr>"

definition avb_srp_admission_try_admit ::
  "nat \<Rightarrow> int \<Rightarrow> int \<Rightarrow> u32 \<Rightarrow> admission_state \<Rightarrow> int \<times> admission_state" where
  "avb_srp_admission_try_admit num_ports port_index cls request_bps a =
     (if port_index < 0 \<or> port_index \<ge> int num_ports then (-1, a)
      else if cls < 0 \<or> cls \<ge> AVB_SR_CLASS_COUNT then (-1, a)
      else let e = s_admission a port_index cls in
        if adm_cap_bps e = 0 then (-2, a)
        else if adm_admitted_bps e + request_bps > adm_cap_bps e then (-2, a)
        else (0, admission_set num_ports port_index cls (adm_admitted_bps e + request_bps) a))"

definition avb_srp_admission_release ::
  "nat \<Rightarrow> int \<Rightarrow> int \<Rightarrow> u32 \<Rightarrow> admission_state \<Rightarrow> admission_state" where
  "avb_srp_admission_release num_ports port_index cls request_bps a =
     (if port_index < 0 \<or> port_index \<ge> int num_ports then a
      else if cls < 0 \<or> cls \<ge> AVB_SR_CLASS_COUNT then a
      else let e = s_admission a port_index cls in
        admission_set num_ports port_index cls
          (if adm_admitted_bps e > request_bps then adm_admitted_bps e - request_bps else 0) a)"

section \<open>The accounting helpers of the MAP\<close>

text \<open>Both helpers take the admission operations as arguments, as the code takes them as
  external functions; \<open>msrp_release_admission\<close> and \<open>msrp_update_admission\<close> are the code's.\<close>

definition release_admission_with ::
  "(int \<Rightarrow> int \<Rightarrow> u32 \<Rightarrow> 's \<Rightarrow> 's) \<Rightarrow> int \<Rightarrow> msrp_talker_entry_t \<times> 's \<Rightarrow> msrp_talker_entry_t \<times> 's" where
  "release_admission_with release port = (\<lambda>(entry, s).
     if admitted_bps entry port = 0 then (entry, s)
     else (entry\<lparr> admitted_bps := (admitted_bps entry)(port := 0) \<rparr>,
           release port (admitted_class entry port) (admitted_bps entry port) s))"

definition update_admission_with ::
  "(int \<Rightarrow> int \<Rightarrow> u32 \<Rightarrow> 's \<Rightarrow> int \<times> 's) \<Rightarrow> (int \<Rightarrow> int \<Rightarrow> u32 \<Rightarrow> 's \<Rightarrow> 's) \<Rightarrow>
     int \<Rightarrow> int \<Rightarrow> u32 \<Rightarrow> msrp_talker_entry_t \<times> 's \<Rightarrow> int \<times> (msrp_talker_entry_t \<times> 's)" where
  "update_admission_with try_admit release port cls bps = (\<lambda>(entry, s).
     if admitted_bps entry port = bps \<and> bps \<noteq> 0 \<and> admitted_class entry port = cls
     then (0, (entry, s))
     else case release_admission_with release port (entry, s) of
       (entry, s) \<Rightarrow> (case try_admit port cls bps s of
         (result, s) \<Rightarrow>
           if result = 0
           then (0, (entry\<lparr> admitted_bps := (admitted_bps entry)(port := bps),
                            admitted_class := (admitted_class entry)(port := cls) \<rparr>, s))
           else (result, (entry, s))))"

definition msrp_release_admission ::
  "nat \<Rightarrow> int \<Rightarrow> msrp_talker_entry_t \<times> admission_state \<Rightarrow> msrp_talker_entry_t \<times> admission_state" where
  "msrp_release_admission num_ports = release_admission_with (avb_srp_admission_release num_ports)"

definition msrp_update_admission ::
  "nat \<Rightarrow> int \<Rightarrow> int \<Rightarrow> u32 \<Rightarrow> msrp_talker_entry_t \<times> admission_state \<Rightarrow>
     int \<times> (msrp_talker_entry_t \<times> admission_state)" where
  "msrp_update_admission num_ports =
     update_admission_with (avb_srp_admission_try_admit num_ports) (avb_srp_admission_release num_ports)"

section \<open>The ledger contract\<close>

text \<open>What an entry holds of a port and class.\<close>

definition entry_share :: "msrp_talker_entry_t \<Rightarrow> int \<Rightarrow> int \<Rightarrow> nat" where
  "entry_share e p c = (if admitted_class e p = c then unat (admitted_bps e p) else 0)"

locale bandwidth_ledger =
  fixes try_admit :: "int \<Rightarrow> int \<Rightarrow> u32 \<Rightarrow> 's \<Rightarrow> int \<times> 's"
    and release :: "int \<Rightarrow> int \<Rightarrow> u32 \<Rightarrow> 's \<Rightarrow> 's"
    and admitted :: "'s \<Rightarrow> int \<Rightarrow> int \<Rightarrow> nat"
    and cap :: "'s \<Rightarrow> int \<Rightarrow> int \<Rightarrow> nat"
    and account :: "int \<Rightarrow> int \<Rightarrow> bool"
  assumes admit_ok:
    "\<lbrakk>try_admit p c r s = (0, s'); cap s p c + unat r < 2 ^ 32;
        admitted s p c \<le> cap s p c\<rbrakk> \<Longrightarrow>
       admitted s' = (admitted s)(p := (admitted s p)(c := admitted s p c + unat r))
     \<and> cap s' = cap s \<and> account p c \<and> admitted s p c + unat r \<le> cap s p c"
    and admit_refused: "\<lbrakk>try_admit p c r s = (v, s'); v \<noteq> 0\<rbrakk> \<Longrightarrow> s' = s"
    and admit_fits: "\<lbrakk>account p c; 0 < cap s p c; admitted s p c + unat r \<le> cap s p c\<rbrakk> \<Longrightarrow>
       fst (try_admit p c r s) = 0"
    and release_ok: "account p c \<Longrightarrow>
       admitted (release p c r s) = (admitted s)(p := (admitted s p)(c := admitted s p c - unat r))
     \<and> cap (release p c r s) = cap s"
begin

text \<open>An entry that holds something holds it on an account, and no more than the account.\<close>

definition entry_backed :: "msrp_talker_entry_t \<Rightarrow> 's \<Rightarrow> bool" where
  "entry_backed e s \<longleftrightarrow> (\<forall>p. admitted_bps e p \<noteq> 0 \<longrightarrow>
     account p (admitted_class e p) \<and> unat (admitted_bps e p) \<le> admitted s p (admitted_class e p))"

definition within_cap :: "'s \<Rightarrow> bool" where
  "within_cap s \<longleftrightarrow> (\<forall>p c. account p c \<longrightarrow> admitted s p c \<le> cap s p c)"

text \<open>What all the other entries hold.\<close>

definition others :: "msrp_talker_entry_t \<Rightarrow> 's \<Rightarrow> int \<Rightarrow> int \<Rightarrow> nat" where
  "others e s p c = admitted s p c - entry_share e p c"

lemma share_le: "entry_backed e s \<Longrightarrow> entry_share e p c \<le> admitted s p c"
  by (cases "admitted_bps e p = 0") (auto simp: entry_backed_def entry_share_def)

lemma release_spec:
  assumes "entry_backed e s" and "release_admission_with release p (e, s) = (e', s')"
  shows "entry_backed e' s' \<and> others e' s' = others e s \<and> cap s' = cap s
       \<and> admitted_bps e' p = 0 \<and> (\<forall>q. q \<noteq> p \<longrightarrow> admitted_bps e' q = admitted_bps e q)
       \<and> admitted_class e' = admitted_class e
       \<and> (\<forall>q d. admitted s' q d \<le> admitted s q d)"
proof (cases "admitted_bps e p = 0")
  case True
  with assms show ?thesis by (simp add: release_admission_with_def)
next
  case False
  let ?c = "admitted_class e p"
  have acc: "account p ?c" "unat (admitted_bps e p) \<le> admitted s p ?c"
    using assms(1) False by (auto simp: entry_backed_def)
  have e': "e' = e\<lparr> admitted_bps := (admitted_bps e)(p := 0) \<rparr>"
    and s': "s' = release p ?c (admitted_bps e p) s"
    using assms(2) False by (auto simp: release_admission_with_def)
  have adm: "admitted s' = (admitted s)(p := (admitted s p)(?c := admitted s p ?c - unat (admitted_bps e p)))"
    and cap: "cap s' = cap s"
    using release_ok [OF acc(1)] s' by auto
  have "others e' s' q d = others e s q d" for q d
    by (auto simp: others_def adm e' entry_share_def)
  moreover have "entry_backed e' s'"
    using assms(1) by (auto simp: entry_backed_def adm e')
  ultimately show ?thesis
    by (auto simp: e' adm cap)
qed

lemma within_cap_release:
  "\<lbrakk>within_cap s; entry_backed e s; release_admission_with release p (e, s) = (e', s')\<rbrakk> \<Longrightarrow>
     within_cap s'"
  using release_spec [of e s p e' s'] unfolding within_cap_def by (metis le_trans)

lemma update_spec:
  assumes "entry_backed e s" and "within_cap s" and "account p c" and "cap s p c + unat bps < 2 ^ 32"
    and "update_admission_with try_admit release p c bps (e, s) = (v, (e', s'))"
  shows "entry_backed e' s' \<and> within_cap s' \<and> others e' s' = others e s \<and> cap s' = cap s
       \<and> (v = 0 \<longrightarrow> admitted_bps e' p = bps \<and> (bps \<noteq> 0 \<longrightarrow> admitted_class e' p = c))
       \<and> (v \<noteq> 0 \<longrightarrow> admitted_bps e' p = 0)
       \<and> (\<forall>q. q \<noteq> p \<longrightarrow> admitted_bps e' q = admitted_bps e q)"
proof (cases "admitted_bps e p = bps \<and> bps \<noteq> 0 \<and> admitted_class e p = c")
  case True
  with assms show ?thesis by (simp add: update_admission_with_def)
next
  case False
  obtain e1 s1 where r: "release_admission_with release p (e, s) = (e1, s1)"
    by (cases "release_admission_with release p (e, s)")
  note rel = release_spec [OF assms(1) r] and wc = within_cap_release [OF assms(2,1) r]
  obtain w s2 where t: "try_admit p c bps s1 = (w, s2)" by (cases "try_admit p c bps s1")
  show ?thesis
  proof (cases "w = 0")
    case False
    with t have "s2 = s1" using admit_refused by blast
    with False assms(5) \<open>\<not> (_ \<and> _)\<close> r t
    have "v = w" "e' = e1" "s' = s1" by (auto simp: update_admission_with_def)
    with False rel wc show ?thesis by simp
  next
    case True
    from assms(5) \<open>\<not> (_ \<and> _)\<close> r t True
    have v: "v = 0" "s' = s2" "e' = e1\<lparr> admitted_bps := (admitted_bps e1)(p := bps),
        admitted_class := (admitted_class e1)(p := c) \<rparr>"
      by (auto simp: update_admission_with_def)
    have le: "admitted s1 p c \<le> cap s1 p c" using wc assms(3) by (simp add: within_cap_def)
    have sane: "cap s1 p c + unat bps < 2 ^ 32" using rel assms(4) by simp
    from admit_ok [OF _ sane le, of s2] t True
    have adm: "admitted s2 = (admitted s1)(p := (admitted s1 p)(c := admitted s1 p c + unat bps))"
      and cap: "cap s2 = cap s1" and fit: "admitted s1 p c + unat bps \<le> cap s1 p c"
      by auto
    have z: "admitted_bps e1 p = 0" using rel by blast
    have "others e' s' q d = others e1 s1 q d" for q d
      using z by (auto simp: others_def v adm entry_share_def)
    then have "others e' s' = others e1 s1" by blast
    moreover have "entry_backed e1 s1" using rel by blast
    with z assms(3) have "entry_backed e' s'"
      by (auto simp: entry_backed_def v adm intro: trans_le_add1)
    moreover have "within_cap s'"
      using wc fit by (auto simp: within_cap_def v adm cap)
    ultimately show ?thesis using rel v cap by auto
  qed
qed

text \<open>A refresh with an unchanged request changes nothing.\<close>

lemma update_refresh:
  "\<lbrakk>admitted_bps e p = bps; bps \<noteq> 0; admitted_class e p = c\<rbrakk> \<Longrightarrow>
     update_admission_with try_admit release p c bps (e, s) = (0, (e, s))"
  by (simp add: update_admission_with_def)

end

section \<open>The counters of the code are such a ledger\<close>

definition adm_account :: "nat \<Rightarrow> int \<Rightarrow> int \<Rightarrow> bool" where
  "adm_account num_ports p c \<longleftrightarrow> 0 \<le> p \<and> p < int num_ports \<and> 0 \<le> c \<and> c < AVB_SR_CLASS_COUNT"

definition adm_admitted :: "admission_state \<Rightarrow> int \<Rightarrow> int \<Rightarrow> nat" where
  "adm_admitted a p c = unat (adm_admitted_bps (s_admission a p c))"

definition adm_cap :: "admission_state \<Rightarrow> int \<Rightarrow> int \<Rightarrow> nat" where
  "adm_cap a p c = unat (adm_cap_bps (s_admission a p c))"

lemma adm_set:
  "adm_admitted (admission_set n p c b a) = (adm_admitted a)(p := (adm_admitted a p)(c := unat b))"
  "adm_cap (admission_set n p c b a) = adm_cap a"
  by (auto simp: admission_set_def adm_admitted_def adm_cap_def fun_eq_iff)

lemma unat_plus_less: "unat (x :: u32) + unat y < 2 ^ 32 \<Longrightarrow> unat (x + y) = unat x + unat y"
  by (simp add: unat_word_ariths)

lemma unat_plus_le: "unat (x + y :: u32) \<le> unat x + unat y"
  by (simp add: unat_word_ariths)

lemma unat_minus_le: "y < x \<Longrightarrow> unat (x - y :: u32) = unat x - unat y"
  by (simp add: unat_sub order.strict_implies_order)

interpretation adm: bandwidth_ledger "avb_srp_admission_try_admit n" "avb_srp_admission_release n"
  adm_admitted adm_cap "adm_account n" for n
proof
  fix p c :: int and r :: u32 and s s' :: admission_state
  assume t: "avb_srp_admission_try_admit n p c r s = (0, s')"
    and m: "adm_cap s p c + unat r < 2 ^ 32" and le: "adm_admitted s p c \<le> adm_cap s p c"
  let ?e = "s_admission s p c"
  have nw: "unat (adm_admitted_bps ?e + r) = adm_admitted s p c + unat r"
    using m le by (simp add: adm_admitted_def unat_plus_less)
  have s': "s' = admission_set n p c (adm_admitted_bps ?e + r) s" "adm_account n p c"
    "adm_admitted_bps ?e + r \<le> adm_cap_bps ?e"
    using t by (auto simp: avb_srp_admission_try_admit_def adm_account_def Let_def not_less
        split: if_splits)
  then show "adm_admitted s' = (adm_admitted s)
       (p := (adm_admitted s p)(c := adm_admitted s p c + unat r)) \<and>
       adm_cap s' = adm_cap s \<and> adm_account n p c \<and> adm_admitted s p c + unat r \<le> adm_cap s p c"
    using nw by (simp add: adm_set adm_cap_def word_le_nat_alt)
next
  fix p c :: int and r :: u32 and s s' :: admission_state and v :: int
  assume "avb_srp_admission_try_admit n p c r s = (v, s')" "v \<noteq> 0"
  then show "s' = s"
    by (auto simp: avb_srp_admission_try_admit_def Let_def split: if_splits)
next
  fix p c :: int and r :: u32 and s :: admission_state
  assume a: "adm_account n p c" "0 < adm_cap s p c" "adm_admitted s p c + unat r \<le> adm_cap s p c"
  have "unat (adm_admitted_bps (s_admission s p c) + r) \<le> unat (adm_cap_bps (s_admission s p c))"
    using a(3) unat_plus_le [of "adm_admitted_bps (s_admission s p c)" r]
    by (simp add: adm_admitted_def adm_cap_def)
  then show "fst (avb_srp_admission_try_admit n p c r s) = 0"
    using a(1,2) by (auto simp: avb_srp_admission_try_admit_def adm_account_def adm_cap_def Let_def
        word_less_nat_alt)
next
  fix p c :: int and r :: u32 and s :: admission_state
  assume "adm_account n p c"
  then show "adm_admitted (avb_srp_admission_release n p c r s) = (adm_admitted s)
       (p := (adm_admitted s p)(c := adm_admitted s p c - unat r)) \<and>
       adm_cap (avb_srp_admission_release n p c r s) = adm_cap s"
    by (auto simp: avb_srp_admission_release_def adm_account_def Let_def adm_set adm_admitted_def
        unat_minus_le not_less word_le_nat_alt)
qed

section \<open>Any sequence of accounting operations\<close>

datatype adm_op =
    adm_update nat int int u32
  | adm_release nat int

fun adm_op_ok :: "nat \<Rightarrow> nat \<Rightarrow> adm_op \<Rightarrow> bool" where
  "adm_op_ok n m (adm_update i p c bps) \<longleftrightarrow> i < m \<and> adm_account n p c \<and> unat bps < 3 * 2 ^ 30"
| "adm_op_ok n m (adm_release i p) \<longleftrightarrow> i < m"

fun adm_op_step ::
  "nat \<Rightarrow> adm_op \<Rightarrow> msrp_talker_entry_t list \<times> admission_state \<Rightarrow>
     msrp_talker_entry_t list \<times> admission_state" where
  "adm_op_step n (adm_update i p c bps) (es, a) =
     (case msrp_update_admission n p c bps (es ! i, a) of (_, (e, a')) \<Rightarrow> (es[i := e], a'))"
| "adm_op_step n (adm_release i p) (es, a) =
     (case msrp_release_admission n p (es ! i, a) of (e, a') \<Rightarrow> (es[i := e], a'))"

definition adm_balanced :: "nat \<Rightarrow> msrp_talker_entry_t list \<times> admission_state \<Rightarrow> bool" where
  "adm_balanced n = (\<lambda>(es, a).
     (\<forall>e \<in> set es. \<forall>p. admitted_bps e p \<noteq> 0 \<longrightarrow> adm_account n p (admitted_class e p))
   \<and> (\<forall>p c. adm_account n p c \<longrightarrow> adm_admitted a p c = (\<Sum>e\<leftarrow>es. entry_share e p c)
        \<and> adm_admitted a p c \<le> adm_cap a p c \<and> adm_cap a p c < 2 ^ 30))"

lemma adm_balancedD:
  assumes "adm_balanced n (es, a)" and "adm_account n p c"
  shows "adm_admitted a p c = (\<Sum>e\<leftarrow>es. entry_share e p c)"
    and "adm_admitted a p c \<le> adm_cap a p c" and "adm_cap a p c < 2 ^ 30"
  using assms unfolding adm_balanced_def by blast+

lemma sum_list_update_nat:
  "i < length xs \<Longrightarrow> (\<Sum>x\<leftarrow>xs[i := y]. f x) + f (xs ! i) = (\<Sum>x\<leftarrow>xs. f x) + (f y :: nat)"
  by (induction xs arbitrary: i) (auto split: nat.split)

lemma adm_balanced_entry:
  assumes "adm_balanced n (es, a)" and "i < length es"
  shows "adm.entry_backed n (es ! i) a" and "adm.within_cap n a"
    and "adm_account n p c \<Longrightarrow> adm.others (es ! i) a p c + entry_share (es ! i) p c
           = (\<Sum>e\<leftarrow>es. entry_share e p c)"
proof -
  have share: "entry_share (es ! i) p c \<le> adm_admitted a p c" if "adm_account n p c" for p c
  proof -
    have "entry_share (es ! i) p c \<le> (\<Sum>e\<leftarrow>es. entry_share e p c)"
      using assms(2) by (intro member_le_sum_list) auto
    with assms(1) that show ?thesis by (simp add: adm_balanced_def)
  qed
  have acc: "admitted_bps (es ! i) p \<noteq> 0 \<Longrightarrow> adm_account n p (admitted_class (es ! i) p)" for p
    using assms by (auto simp: adm_balanced_def)
  show "adm.entry_backed n (es ! i) a"
    unfolding adm.entry_backed_def
  proof (intro allI impI conjI)
    fix p assume "admitted_bps (es ! i) p \<noteq> 0"
    then show a: "adm_account n p (admitted_class (es ! i) p)" by (rule acc)
    from share [OF this]
    show "unat (admitted_bps (es ! i) p) \<le> adm_admitted a p (admitted_class (es ! i) p)"
      by (simp add: entry_share_def)
  qed
  show "adm.within_cap n a"
    using adm_balancedD(2) [OF assms(1)] by (simp add: adm.within_cap_def)
  show "adm_account n p c \<Longrightarrow> adm.others (es ! i) a p c + entry_share (es ! i) p c
           = (\<Sum>e\<leftarrow>es. entry_share e p c)"
    using share [of p c] assms(1) by (simp add: adm.others_def adm_balanced_def)
qed

lemma adm_balanced_update:
  assumes "adm_balanced n (es, a)" and "i < length es"
    and "adm.entry_backed n e a'" and "adm.within_cap n a'"
    and "adm.others e a' = adm.others (es ! i) a" and "adm_cap a' = adm_cap a"
  shows "adm_balanced n (es[i := e], a')"
proof -
  have "adm_admitted a' p c = (\<Sum>e\<leftarrow>es[i := e]. entry_share e p c)" if "adm_account n p c" for p c
  proof -
    have "adm_admitted a' p c = adm.others e a' p c + entry_share e p c"
      using adm.share_le [OF assms(3)] by (simp add: adm.others_def)
    also have "\<dots> + entry_share (es ! i) p c = (\<Sum>e\<leftarrow>es. entry_share e p c) + entry_share e p c"
      using adm_balanced_entry(3) [OF assms(1,2) that] by (simp add: assms(5))
    finally show ?thesis
      using sum_list_update_nat [OF assms(2), of "\<lambda>e. entry_share e p c" e] by simp
  qed
  moreover have "\<forall>x \<in> set (es[i := e]). \<forall>p. admitted_bps x p \<noteq> 0 \<longrightarrow>
      adm_account n p (admitted_class x p)"
    using assms(1,3) set_update_subset_insert [of es i e]
    by (auto simp: adm_balanced_def adm.entry_backed_def)
  ultimately show ?thesis
    using assms(1,4,6) by (auto simp: adm_balanced_def adm.within_cap_def)
qed

lemma adm_balanced_step:
  assumes "adm_balanced n (es, a)" and "adm_op_ok n (length es) op"
  shows "adm_balanced n (adm_op_step n op (es, a)) \<and> length (fst (adm_op_step n op (es, a))) = length es"
proof (cases op)
  case (adm_update i p c bps)
  obtain v e a' where u: "msrp_update_admission n p c bps (es ! i, a) = (v, (e, a'))"
    by (cases "msrp_update_admission n p c bps (es ! i, a)") auto
  have i: "i < length es" and pc: "adm_account n p c" and b: "unat bps < 3 * 2 ^ 30"
    using assms(2) adm_update by auto
  note ent = adm_balanced_entry [OF assms(1) i]
  have "adm_cap a p c + unat bps < 2 ^ 32"
  proof -
    have "adm_cap a p c < 2 ^ 30" using assms(1) pc by (auto simp: adm_balanced_def)
    with b show ?thesis by simp
  qed
  from adm.update_spec [OF ent(1,2) pc this u [unfolded msrp_update_admission_def]]
  have "adm_balanced n (es[i := e], a')"
    using adm_balanced_update [OF assms(1) i] by blast
  with u adm_update show ?thesis by simp
next
  case (adm_release i p)
  obtain e a' where r: "msrp_release_admission n p (es ! i, a) = (e, a')"
    by (cases "msrp_release_admission n p (es ! i, a)") auto
  have i: "i < length es" using assms(2) adm_release by auto
  note ent = adm_balanced_entry [OF assms(1) i]
  from adm.release_spec [OF ent(1) r [unfolded msrp_release_admission_def]]
    adm.within_cap_release [OF ent(2,1) r [unfolded msrp_release_admission_def]]
  have "adm_balanced n (es[i := e], a')"
    using adm_balanced_update [OF assms(1) i] by blast
  with r adm_release show ?thesis by simp
qed

lemma adm_balanced_run:
  assumes "adm_balanced n (es, a)" and "\<forall>op \<in> set ops. adm_op_ok n (length es) op"
  shows "adm_balanced n (fold (adm_op_step n) ops (es, a))"
  using assms
proof (induction ops arbitrary: es a)
  case (Cons op ops)
  obtain es' a' where s: "adm_op_step n op (es, a) = (es', a')"
    by (cases "adm_op_step n op (es, a)")
  from adm_balanced_step [OF Cons.prems(1), of op] Cons.prems(2) s
  have "adm_balanced n (es', a')" "length es' = length es" by auto
  with Cons s show ?case by simp
qed simp

lemma cap_less: "unat (adm_cap_of x) < 2 ^ 30"
proof -
  have "unat (adm_cap_of x) = unat (x * 3) div 4" by (simp add: adm_cap_of_def unat_div)
  moreover have "unat (x * 3) < 2 ^ 32" using unsigned_less [of "x * 3"] by simp
  ultimately show ?thesis by simp
qed

lemma sum_list_zero_shares:
  "\<forall>e \<in> set es. \<forall>p. admitted_bps e p = 0 \<Longrightarrow> (\<Sum>e\<leftarrow>es. entry_share e p c) = 0"
proof -
  assume a: "\<forall>e \<in> set es. \<forall>p. admitted_bps e p = 0"
  have "map (\<lambda>e. entry_share e p c) es = map (\<lambda>_. 0) es"
    by (rule map_cong [OF refl]) (use a in \<open>simp add: entry_share_def\<close>)
  then show ?thesis by (simp only: sum_list_0)
qed

lemma adm_balanced_init:
  assumes "\<forall>e \<in> set es. \<forall>p. admitted_bps e p = 0"
  shows "adm_balanced n (es, avb_srp_admission_init n mbps a)"
proof -
  let ?a = "avb_srp_admission_init n mbps a"
  have "adm_admitted ?a p c = 0 \<and> adm_cap ?a p c < 2 ^ 30" if "adm_account n p c" for p c
    using that cap_less [of "mbps p * 1000000"]
    by (simp add: adm_admitted_def adm_cap_def avb_srp_admission_init_def adm_account_def Let_def)
  then show ?thesis
    using assms sum_list_zero_shares [OF assms] by (simp add: adm_balanced_def)
qed


definition adm_example_ops :: "adm_op list" where
  "adm_example_ops = [adm_update 0 1 1 13632000, adm_update 0 1 1 13632000,
     adm_update 1 1 1 50000000, adm_update 2 1 1 100000000, adm_release 2 1,
     adm_update 0 1 1 20000000, adm_update 0 1 0 30000000]"


lemma unat_uminus_pos: "0 < (m :: u32) \<Longrightarrow> unat (- m) + unat m = 2 ^ 32"
proof -
  assume "0 < m"
  then have "0 < unat m" "unat m < 2 ^ 32" using unsigned_less [of m] by (simp_all add: word_less_nat_alt)
  moreover have "(unat (- m) + unat m) mod 2 ^ 32 = 0"
    using unat_word_ariths(1) [of "- m" m] by simp
  moreover have "unat (- m) < 2 ^ 32" using unsigned_less [of "- m"] by simp
  ultimately obtain q where q: "unat (- m) + unat m = 2 ^ 32 * q" "0 < unat m" "unat m < 2 ^ 32"
    "unat (- m) < 2 ^ 32"
    by (metis mod_0_imp_dvd dvdE)
  then have "q \<noteq> 0" "q < 2" by (auto intro: ccontr)
  then have "q = 1" by simp
  with q show ?thesis by simp
qed

text \<open>The admission test adds the request in 32 bits: a request of 2 to the 32 minus what is
  admitted wraps to zero, is admitted whatever the cap, and leaves the counter at zero.\<close>

theorem admission_wraps:
  assumes "adm_account n p c" and "0 < adm_cap_bps (s_admission a p c)"
    and "0 < adm_admitted_bps (s_admission a p c)"
  shows "\<exists>request a'. unat request + adm_admitted a p c = 2 ^ 32
     \<and> avb_srp_admission_try_admit n p c request a = (0, a') \<and> adm_admitted a' p c = 0"
proof -
  let ?m = "adm_admitted_bps (s_admission a p c)"
  have "unat (- ?m) + unat ?m = 2 ^ 32"
    using assms(3) by (simp add: unat_uminus_pos)
  then show ?thesis
    using assms
    by (intro exI [of _ "- ?m"])
      (auto simp: avb_srp_admission_try_admit_def adm_account_def adm_set adm_admitted_def
        Let_def admission_set_def)
qed

theorem admission_wraps_witness:
  "\<exists>request a'. avb_srp_admission_try_admit 1 0 0 request
      (snd (avb_srp_admission_try_admit 1 0 0 700000000
        (avb_srp_admission_init 1 (\<lambda>_. 1000) undefined))) = (0, a')
     \<and> adm_admitted a' 0 0 = 0"
proof -
  let ?a = "snd (avb_srp_admission_try_admit 1 0 0 700000000
        (avb_srp_admission_init 1 (\<lambda>_. 1000) undefined))"
  have "adm_account 1 0 0" "0 < adm_cap_bps (s_admission ?a 0 0)"
    "0 < adm_admitted_bps (s_admission ?a 0 0)"
    by (simp_all add: adm_account_def AVB_SR_CLASS_COUNT_def avb_srp_admission_try_admit_def
        avb_srp_admission_init_def admission_set_def adm_cap_of_def Let_def)
  from admission_wraps [OF this] show ?thesis by blast
qed

end
