(* ===== verification/Tables.thy ===== *)
theory Tables
  imports Msrp_Types
begin

text \<open>
  The fixed-size attribute tables of MSRP and MVRP.  All four are searched and filled by the
  same scans (\<open>msrp_talker_find_or_insert\<close>, \<open>msrp_listener_find_or_insert\<close>,
  \<open>msrp_domain_find_or_insert\<close>, \<open>mvrp_vlan_find_or_insert\<close>): the slot of the attribute, else
  the first free slot, else (talkers and listeners) the first slot whose attribute holds no
  state.  The locale \<open>attribute_table\<close> states what such a table needs and proves what its users
  rely on; it is interpreted for each of the four.
\<close>

section \<open>Scans\<close>

definition slot_find :: "('e \<Rightarrow> bool) \<Rightarrow> 'e list \<Rightarrow> nat option" where
  "slot_find P xs = first_index (\<lambda>i. P (xs ! i)) (length xs)"

definition table_find_or_insert ::
  "('e \<Rightarrow> bool) \<Rightarrow> ('e \<Rightarrow> bool) \<Rightarrow> ('e \<Rightarrow> bool) \<Rightarrow> 'e \<Rightarrow> 'e list \<Rightarrow> nat option \<times> 'e list" where
  "table_find_or_insert wanted valid evictable fresh xs =
     (case slot_find wanted xs of
        Some i \<Rightarrow> (Some i, xs)
      | None \<Rightarrow>
        (case slot_find (\<lambda>e. \<not> valid e) xs of
           Some i \<Rightarrow> (Some i, xs[i := fresh])
         | None \<Rightarrow>
           (case slot_find evictable xs of
              Some i \<Rightarrow> (Some i, xs[i := fresh])
            | None \<Rightarrow> (None, xs))))"

lemma slot_find_SomeD:
  assumes "slot_find P xs = Some i"
  shows "i < length xs" and "P (xs ! i)" and "j < i \<Longrightarrow> \<not> P (xs ! j)"
proof -
  note f = first_index_SomeD [OF assms [unfolded slot_find_def]]
  show "i < length xs" and "P (xs ! i)" by (fact f)+
  show "j < i \<Longrightarrow> \<not> P (xs ! j)" by (rule f(3) [rule_format])
qed

lemma slot_find_None: "slot_find P xs = None \<longleftrightarrow> (\<forall>i < length xs. \<not> P (xs ! i))"
  by (simp add: slot_find_def first_index_None)

lemma slot_find_unique:
  "\<lbrakk>i < length xs; P (xs ! i); \<And>j. \<lbrakk>j < length xs; P (xs ! j)\<rbrakk> \<Longrightarrow> j = i\<rbrakk> \<Longrightarrow>
     slot_find P xs = Some i"
  unfolding slot_find_def by (rule first_index_SomeI) (assumption, assumption, metis less_irrefl less_trans)

section \<open>Tables keyed by an attribute\<close>

locale attribute_table =
  fixes valid :: "'e \<Rightarrow> bool"
    and key :: "'e \<Rightarrow> 'k"
    and evictable :: "'e \<Rightarrow> bool"
    and fresh :: "'k \<Rightarrow> 'e"
  assumes fresh_valid: "valid (fresh k)"
    and fresh_key: "key (fresh k) = k"
begin

definition lookup :: "'k \<Rightarrow> 'e list \<Rightarrow> nat option" where
  "lookup k xs = slot_find (\<lambda>e. valid e \<and> key e = k) xs"

definition enter :: "'k \<Rightarrow> 'e list \<Rightarrow> nat option \<times> 'e list" where
  "enter k xs = table_find_or_insert (\<lambda>e. valid e \<and> key e = k) valid evictable (fresh k) xs"

text \<open>No attribute has two entries.\<close>

definition keys_unique :: "'e list \<Rightarrow> bool" where
  "keys_unique xs \<longleftrightarrow> (\<forall>i j. i < length xs \<and> j < length xs \<and> valid (xs ! i) \<and> valid (xs ! j)
     \<and> key (xs ! i) = key (xs ! j) \<longrightarrow> i = j)"

lemma enter_cases:
  obtains (found) i where "enter k xs = (Some i, xs)" "lookup k xs = Some i"
  | (free) i where "enter k xs = (Some i, xs[i := fresh k])" "i < length xs" "\<not> valid (xs ! i)"
      "lookup k xs = None"
  | (evicted) i where "enter k xs = (Some i, xs[i := fresh k])" "i < length xs"
      "evictable (xs ! i)" "lookup k xs = None" "\<forall>j < length xs. valid (xs ! j)"
  | (full) "enter k xs = (None, xs)" "lookup k xs = None"
      "\<forall>j < length xs. valid (xs ! j) \<and> \<not> evictable (xs ! j)"
proof -
  consider (a) i where "lookup k xs = Some i"
    | (b) i where "lookup k xs = None" "slot_find (\<lambda>e. \<not> valid e) xs = Some i"
    | (c) i where "lookup k xs = None" "slot_find (\<lambda>e. \<not> valid e) xs = None"
        "slot_find evictable xs = Some i"
    | (d) "lookup k xs = None" "slot_find (\<lambda>e. \<not> valid e) xs = None" "slot_find evictable xs = None"
    by (metis not_Some_eq)
  then show ?thesis
  proof cases
    case a
    with found show ?thesis by (simp add: enter_def lookup_def table_find_or_insert_def)
  next
    case b
    with free slot_find_SomeD [OF b(2)] show ?thesis
      by (simp add: enter_def lookup_def table_find_or_insert_def)
  next
    case c
    have e: "enter k xs = (Some i, xs[i := fresh k])"
      using c by (simp add: enter_def lookup_def table_find_or_insert_def)
    have v: "\<forall>j < length xs. valid (xs ! j)" using c(2) by (simp add: slot_find_None)
    show ?thesis by (rule evicted [OF e slot_find_SomeD(1,2) [OF c(3)] c(1) v])
  next
    case d
    have e: "enter k xs = (None, xs)"
      using d by (simp add: enter_def lookup_def table_find_or_insert_def)
    have "\<forall>j < length xs. valid (xs ! j) \<and> \<not> evictable (xs ! j)"
      using d(2,3) by (simp add: slot_find_None)
    then show ?thesis by (rule full [OF e d(1)])
  qed
qed

lemma lookup_SomeD: "lookup k xs = Some i \<Longrightarrow> i < length xs \<and> valid (xs ! i) \<and> key (xs ! i) = k"
  using slot_find_SomeD [of _ xs i] unfolding lookup_def by blast

lemma lookup_NoneD: "\<lbrakk>lookup k xs = None; i < length xs; valid (xs ! i)\<rbrakk> \<Longrightarrow> key (xs ! i) \<noteq> k"
  by (auto simp: lookup_def slot_find_None)

lemma lookup_fresh:
  "\<lbrakk>lookup k xs = None; i < length xs\<rbrakk> \<Longrightarrow> lookup k (xs[i := fresh k]) = Some i"
  unfolding lookup_def
  by (rule slot_find_unique)
    (auto simp: fresh_valid fresh_key slot_find_None nth_list_update split: if_splits)

lemma length_enter: "length (snd (enter k xs)) = length xs"
  by (cases rule: enter_cases [of k xs]) auto

text \<open>An entered attribute is found in the slot it was given.\<close>

lemma enter_finds: "enter k xs = (Some i, ys) \<Longrightarrow> lookup k ys = Some i"
  by (cases rule: enter_cases [of k xs]) (auto simp: lookup_fresh)

lemma enter_keys_unique: "keys_unique xs \<Longrightarrow> keys_unique (snd (enter k xs))"
proof (cases rule: enter_cases [of k xs])
  case (free i)
  assume "keys_unique xs"
  with free lookup_NoneD [OF free(4)] show ?thesis
    by (auto simp: keys_unique_def nth_list_update fresh_key fresh_valid)
next
  case (evicted i)
  assume "keys_unique xs"
  with evicted lookup_NoneD [OF evicted(4)] show ?thesis
    by (auto simp: keys_unique_def nth_list_update fresh_key fresh_valid)
qed auto

text \<open>An entry that cannot be evicted survives every insertion, with its content.\<close>

lemma enter_keeps:
  "\<lbrakk>j < length xs; valid (xs ! j); \<not> evictable (xs ! j)\<rbrakk> \<Longrightarrow> snd (enter k xs) ! j = xs ! j"
  by (cases rule: enter_cases [of k xs]) (auto simp: nth_list_update)

text \<open>An attribute is turned away only when every slot holds state.\<close>

lemma enter_full:
  "fst (enter k xs) = None \<longleftrightarrow>
     lookup k xs = None \<and> (\<forall>j < length xs. valid (xs ! j) \<and> \<not> evictable (xs ! j))"
proof (cases rule: enter_cases [of k xs])
  case (free i)
  then show ?thesis by auto
next
  case (evicted i)
  then show ?thesis by auto
qed auto

text \<open>An operation on an entry that keeps its attribute does not move it.\<close>

lemma lookup_upd_at:
  assumes "\<And>e. valid (f e) = valid e \<and> key (f e) = key e"
  shows "lookup k (upd_at i f xs) = lookup k xs"
proof -
  have "(valid (upd_at i f xs ! j) \<and> key (upd_at i f xs ! j) = k) = (valid (xs ! j) \<and> key (xs ! j) = k)"
    if "j < length xs" for j
    using that assms by (simp add: nth_upd_at)
  then show ?thesis
    unfolding lookup_def slot_find_def by (auto intro!: first_index_cong)
qed

lemma enter_existing: "lookup k xs = Some i \<Longrightarrow> enter k xs = (Some i, xs)"
  by (cases rule: enter_cases [of k xs]) auto

end

section \<open>The four tables\<close>

definition talker_key :: "msrp_talker_entry_t \<Rightarrow> octets \<times> msrp_attr_type_t" where
  "talker_key e = (ti_stream_id (tm_info (te_wire e)), te_attr_type e)"

definition talker_evictable :: "msrp_talker_entry_t \<Rightarrow> bool" where
  "talker_evictable e \<longleftrightarrow> mrp_sm_idle (te_sm e) \<and> redeclare_after_us e = 0"

definition talker_fresh :: "octets \<times> msrp_attr_type_t \<Rightarrow> msrp_talker_entry_t" where
  "talker_fresh = (\<lambda>(stream_id, attr_type). talker_entry_zero
     \<lparr> te_valid := True, te_attr_type := attr_type,
       te_wire := msrp_talker_message_zero\<lparr> tm_info := talker_adv_info_zero\<lparr> ti_stream_id := stream_id \<rparr> \<rparr>,
       te_sm := mrp_sm_idle_state \<rparr>)"

definition listener_key :: "msrp_listener_entry_t \<Rightarrow> octets" where
  "listener_key e = lm_stream_id (le_wire e)"

definition listener_evictable :: "msrp_listener_entry_t \<Rightarrow> bool" where
  "listener_evictable e \<longleftrightarrow> mrp_sm_idle (le_sm e)"

definition listener_fresh :: "octets \<Rightarrow> msrp_listener_entry_t" where
  "listener_fresh stream_id = listener_entry_zero
     \<lparr> le_valid := True, le_wire := msrp_listener_message_zero\<lparr> lm_stream_id := stream_id \<rparr>,
       le_sm := mrp_sm_idle_state \<rparr>"

definition domain_key :: "msrp_domain_entry_t \<Rightarrow> u8" where
  "domain_key e = dm_sr_class_id (de_wire e)"

definition domain_fresh :: "u8 \<Rightarrow> msrp_domain_entry_t" where
  "domain_fresh sr_class_id = domain_entry_zero
     \<lparr> de_valid := True, de_wire := msrp_domain_message_zero\<lparr> dm_sr_class_id := sr_class_id \<rparr>,
       de_sm := mrp_sm_idle_state \<rparr>"

definition vlan_fresh :: "octets \<Rightarrow> mvrp_vlan_entry_t" where
  "vlan_fresh vlan_id = vlan_entry_zero
     \<lparr> ve_valid := True, ve_vlan_id := vlan_id, ve_sm := mrp_sm_idle_state \<rparr>"

interpretation talkers: attribute_table te_valid talker_key talker_evictable talker_fresh
  by unfold_locales (auto simp: talker_fresh_def talker_key_def msrp_talker_message_zero_def
      talker_adv_info_zero_def split: prod.split)

interpretation listeners: attribute_table le_valid listener_key listener_evictable listener_fresh
  by unfold_locales (auto simp: listener_fresh_def listener_key_def)

interpretation domains: attribute_table de_valid domain_key "\<lambda>_. False" domain_fresh
  by unfold_locales (auto simp: domain_fresh_def domain_key_def)

interpretation vlans: attribute_table ve_valid ve_vlan_id "\<lambda>_. False" vlan_fresh
  by unfold_locales (auto simp: vlan_fresh_def)

end
