(* ===== verification/Msrp_State.thy ===== *)
theory Msrp_State
  imports Admission Tables
begin

text \<open>
  The state MRP works on: the fields of \<open>avb_state_s\<close> it reads and writes and the static tables
  of \<open>mrp.c\<close>, one record passed through every operation.  The build's \<open>CONFIG_ESP_AVB_*\<close>
  switches are the record \<open>avb_build\<close>; the clock is the field \<open>now_us\<close> (the time a handler
  runs at, constant within it); \<open>esp_random\<close> is a stream of words with a read position; whether
  the operating system can start a stream's task is \<open>stream_out_ok\<close>, the access point's address
  the Wi-Fi driver reports is \<open>ap_bssid\<close>.  Frames handed to the
  network are collected in \<open>tx_log\<close>.  A C pointer into a table is an index into it.
\<close>

section \<open>State\<close>

record avb_build =
  NUM_PORTS :: nat
  ROLE_BRIDGE :: bool
  ATDECC :: bool
  WIFI_UNICAST_STREAMS :: bool
  WIFI_DELIVERABLE_FRAMES :: "u32 option"
  ENDPOINT_WIRELESS :: bool
  LITE_UNICAST_FANOUT :: nat
  NEW_STREAM_ID_ON_GROW :: bool

record avb_wifi_ucast_entry_t =
  uc_valid :: bool
  uc_da :: octets
  uc_sta :: octets
  uc_stream_id :: octets

record avb_wifi_restore_entry_t =
  rs_valid :: bool
  rs_stream_id :: octets
  rs_da :: octets

record avb_wifi_admission_t =
  wa_valid :: bool
  wa_wanted :: bool
  wa_refused :: bool
  wa_refusal_declared :: bool
  wa_stream_id :: octets
  wa_frames_per_s :: u32
  wa_bps :: u32

record wifi_tables =
  s_ucast :: "avb_wifi_ucast_entry_t list"
  s_ucast_idx :: "u8 list"
  s_restore_tbl :: "avb_wifi_restore_entry_t list"
  s_wifi_admission :: "avb_wifi_admission_t list"
  s_wifi_frames_committed :: u32
  s_wifi_admission_port :: int

text \<open>A frame sent: an MSRP or MVRP PDU on a port, or an AVB Lite CVU message with its
  destination (\<open>None\<close> for broadcast), sequence number, command type and payload.\<close>

datatype tx_frame =
    tx_msrp int octets
  | tx_mvrp int octets
  | tx_cvu "octets option" u16 u8 octets

record avb_state =
  build :: avb_build
  now_us :: int
  esp_random :: "nat \<Rightarrow> u32"
  random_pos :: nat
  stream_out_ok :: "nat \<Rightarrow> bool"
  config_talker :: bool
  avb_lite :: bool
  lite_escalation_allowed :: bool
  s_lite_order_seq :: u32
  ap_bssid :: "octets option"
  s_bssid :: "octets option"
  s_mrp_lite :: bool
  milan_compliant :: bool
  allow_class_a_over_wifi :: bool
  bridge :: bridge_conf
  port :: "int \<Rightarrow> avb_port_s"
  input_streams :: "avb_listener_stream_s list"
  output_streams :: "avb_talker_stream_s list"
  known_listeners :: "avb_listener_s list"
  msrp_mappings :: "aem_msrp_mapping_s list"
  s_msrp_talkers :: "int \<Rightarrow> msrp_talker_entry_t list"
  s_msrp_listeners :: "int \<Rightarrow> msrp_listener_entry_t list"
  s_msrp_domains :: "int \<Rightarrow> msrp_domain_entry_t list"
  s_mvrp_vlans :: "int \<Rightarrow> mvrp_vlan_entry_t list"
  s_lite_refusals :: "msrp_lite_refusal_entry_t list"
  s_talker_leaveall_count :: "int \<Rightarrow> u32"
  s_talker_leaveall_us :: "int \<Rightarrow> int"
  admission :: admission_state
  wifi :: wifi_tables
  s_cvu_seq_id :: u16
  tx_log :: "tx_frame list"

abbreviation ports :: "avb_state \<Rightarrow> nat" where
  "ports s \<equiv> NUM_PORTS (build s)"

text \<open>Table sizes of \<open>mrp.c\<close> (\<open>avb.h\<close> for the connection limits).\<close>

definition MSRP_TALKER_TABLE_SIZE :: "avb_build \<Rightarrow> nat" where
  "MSRP_TALKER_TABLE_SIZE b = (if ROLE_BRIDGE b then 20 else 32)"

definition MSRP_LISTENER_TABLE_SIZE :: "avb_build \<Rightarrow> nat" where
  "MSRP_LISTENER_TABLE_SIZE b = (if ROLE_BRIDGE b then 10 + 2 else 32)"

definition MSRP_DOMAIN_TABLE_SIZE :: nat where "MSRP_DOMAIN_TABLE_SIZE = 2"
definition MVRP_VLAN_TABLE_SIZE :: nat where "MVRP_VLAN_TABLE_SIZE = 4"
definition AVB_MAX_NUM_CONNECTED_LISTENERS :: nat where "AVB_MAX_NUM_CONNECTED_LISTENERS = 10"
definition MSRP_LITE_REFUSAL_TABLE_SIZE :: nat where "MSRP_LITE_REFUSAL_TABLE_SIZE = 2 * 10"

definition valid_port :: "avb_state \<Rightarrow> int \<Rightarrow> bool" where
  "valid_port s p \<longleftrightarrow> 0 \<le> p \<and> p < int (ports s)"

section \<open>Slots\<close>

definition talker :: "avb_state \<Rightarrow> int \<Rightarrow> nat \<Rightarrow> msrp_talker_entry_t" where
  "talker s p i = s_msrp_talkers s p ! i"

definition listener :: "avb_state \<Rightarrow> int \<Rightarrow> nat \<Rightarrow> msrp_listener_entry_t" where
  "listener s p i = s_msrp_listeners s p ! i"

definition domain :: "avb_state \<Rightarrow> int \<Rightarrow> nat \<Rightarrow> msrp_domain_entry_t" where
  "domain s p i = s_msrp_domains s p ! i"

definition vlan :: "avb_state \<Rightarrow> int \<Rightarrow> nat \<Rightarrow> mvrp_vlan_entry_t" where
  "vlan s p i = s_mvrp_vlans s p ! i"

definition upd_talker ::
  "int \<Rightarrow> nat \<Rightarrow> (msrp_talker_entry_t \<Rightarrow> msrp_talker_entry_t) \<Rightarrow> avb_state \<Rightarrow> avb_state" where
  "upd_talker p i f s =
     s\<lparr> s_msrp_talkers := (s_msrp_talkers s)(p := upd_at i f (s_msrp_talkers s p)) \<rparr>"

definition upd_listener ::
  "int \<Rightarrow> nat \<Rightarrow> (msrp_listener_entry_t \<Rightarrow> msrp_listener_entry_t) \<Rightarrow> avb_state \<Rightarrow> avb_state" where
  "upd_listener p i f s =
     s\<lparr> s_msrp_listeners := (s_msrp_listeners s)(p := upd_at i f (s_msrp_listeners s p)) \<rparr>"

definition upd_domain ::
  "int \<Rightarrow> nat \<Rightarrow> (msrp_domain_entry_t \<Rightarrow> msrp_domain_entry_t) \<Rightarrow> avb_state \<Rightarrow> avb_state" where
  "upd_domain p i f s =
     s\<lparr> s_msrp_domains := (s_msrp_domains s)(p := upd_at i f (s_msrp_domains s p)) \<rparr>"

definition upd_vlan ::
  "int \<Rightarrow> nat \<Rightarrow> (mvrp_vlan_entry_t \<Rightarrow> mvrp_vlan_entry_t) \<Rightarrow> avb_state \<Rightarrow> avb_state" where
  "upd_vlan p i f s =
     s\<lparr> s_mvrp_vlans := (s_mvrp_vlans s)(p := upd_at i f (s_mvrp_vlans s p)) \<rparr>"

definition upd_refusal ::
  "nat \<Rightarrow> (msrp_lite_refusal_entry_t \<Rightarrow> msrp_lite_refusal_entry_t) \<Rightarrow> avb_state \<Rightarrow> avb_state" where
  "upd_refusal i f s = s\<lparr> s_lite_refusals := upd_at i f (s_lite_refusals s) \<rparr>"

definition upd_port :: "int \<Rightarrow> (avb_port_s \<Rightarrow> avb_port_s) \<Rightarrow> avb_state \<Rightarrow> avb_state" where
  "upd_port p f s = s\<lparr> port := (port s)(p := f (port s p)) \<rparr>"

definition upd_output ::
  "nat \<Rightarrow> (avb_talker_stream_s \<Rightarrow> avb_talker_stream_s) \<Rightarrow> avb_state \<Rightarrow> avb_state" where
  "upd_output i f s = s\<lparr> output_streams := upd_at i f (output_streams s) \<rparr>"

definition upd_input ::
  "nat \<Rightarrow> (avb_listener_stream_s \<Rightarrow> avb_listener_stream_s) \<Rightarrow> avb_state \<Rightarrow> avb_state" where
  "upd_input i f s = s\<lparr> input_streams := upd_at i f (input_streams s) \<rparr>"

section \<open>Find and insert\<close>

definition msrp_talker_find :: "int \<Rightarrow> octets \<Rightarrow> msrp_attr_type_t \<Rightarrow> avb_state \<Rightarrow> nat option" where
  "msrp_talker_find p stream_id attr_type s =
     (if \<not> valid_port s p then None
      else slot_find (\<lambda>e. te_valid e \<and> te_attr_type e = attr_type
             \<and> ti_stream_id (tm_info (te_wire e)) = stream_id) (s_msrp_talkers s p))"

definition msrp_talker_find_or_insert ::
  "int \<Rightarrow> octets \<Rightarrow> msrp_attr_type_t \<Rightarrow> avb_state \<Rightarrow> nat option \<times> avb_state" where
  "msrp_talker_find_or_insert p stream_id attr_type s =
     (if \<not> valid_port s p then (None, s)
      else case table_find_or_insert
             (\<lambda>e. te_valid e \<and> te_attr_type e = attr_type
                \<and> ti_stream_id (tm_info (te_wire e)) = stream_id)
             te_valid talker_evictable (talker_fresh (stream_id, attr_type)) (s_msrp_talkers s p) of
        (r, t) \<Rightarrow> (r, s\<lparr> s_msrp_talkers := (s_msrp_talkers s)(p := t) \<rparr>))"

definition msrp_listener_find :: "int \<Rightarrow> octets \<Rightarrow> avb_state \<Rightarrow> nat option" where
  "msrp_listener_find p stream_id s =
     (if \<not> valid_port s p then None
      else slot_find (\<lambda>e. le_valid e \<and> lm_stream_id (le_wire e) = stream_id) (s_msrp_listeners s p))"

definition msrp_listener_find_or_insert ::
  "int \<Rightarrow> octets \<Rightarrow> avb_state \<Rightarrow> nat option \<times> avb_state" where
  "msrp_listener_find_or_insert p stream_id s =
     (if \<not> valid_port s p then (None, s)
      else case table_find_or_insert (\<lambda>e. le_valid e \<and> lm_stream_id (le_wire e) = stream_id)
             le_valid listener_evictable (listener_fresh stream_id) (s_msrp_listeners s p) of
        (r, t) \<Rightarrow> (r, s\<lparr> s_msrp_listeners := (s_msrp_listeners s)(p := t) \<rparr>))"

definition msrp_domain_find_or_insert :: "int \<Rightarrow> u8 \<Rightarrow> avb_state \<Rightarrow> nat option \<times> avb_state" where
  "msrp_domain_find_or_insert p sr_class_id s =
     (if \<not> valid_port s p then (None, s)
      else case table_find_or_insert (\<lambda>e. de_valid e \<and> dm_sr_class_id (de_wire e) = sr_class_id)
             de_valid (\<lambda>_. False) (domain_fresh sr_class_id) (s_msrp_domains s p) of
        (r, t) \<Rightarrow> (r, s\<lparr> s_msrp_domains := (s_msrp_domains s)(p := t) \<rparr>))"

definition mvrp_vlan_find :: "int \<Rightarrow> octets \<Rightarrow> avb_state \<Rightarrow> nat option" where
  "mvrp_vlan_find p vlan_id s =
     (if \<not> valid_port s p then None
      else slot_find (\<lambda>e. ve_valid e \<and> ve_vlan_id e = vlan_id) (s_mvrp_vlans s p))"

definition mvrp_vlan_find_or_insert :: "int \<Rightarrow> octets \<Rightarrow> avb_state \<Rightarrow> nat option \<times> avb_state" where
  "mvrp_vlan_find_or_insert p vlan_id s =
     (if \<not> valid_port s p then (None, s)
      else case table_find_or_insert (\<lambda>e. ve_valid e \<and> ve_vlan_id e = vlan_id)
             ve_valid (\<lambda>_. False) (vlan_fresh vlan_id) (s_mvrp_vlans s p) of
        (r, t) \<Rightarrow> (r, s\<lparr> s_mvrp_vlans := (s_mvrp_vlans s)(p := t) \<rparr>))"

section \<open>Queries of the registrars\<close>

definition mrp_talker_advertise_active :: "int \<Rightarrow> octets \<Rightarrow> avb_state \<Rightarrow> bool" where
  "mrp_talker_advertise_active p stream_id s =
     (case msrp_talker_find p stream_id msrp_attr_type_talker_advertise s of
        None \<Rightarrow> False
      | Some i \<Rightarrow> registrar (te_sm (talker s p i)) = mrp_registrar_in
               \<or> registrar (te_sm (talker s p i)) = mrp_registrar_lv)"

text \<open>MaxFrameSize and MaxIntervalFrames of the registered Talker Advertise, if any.\<close>

definition mrp_talker_advertise_tspec :: "int \<Rightarrow> octets \<Rightarrow> avb_state \<Rightarrow> (u16 \<times> u16) option" where
  "mrp_talker_advertise_tspec p stream_id s =
     (if \<not> mrp_talker_advertise_active p stream_id s then None
      else case msrp_talker_find p stream_id msrp_attr_type_talker_advertise s of
        None \<Rightarrow> None
      | Some i \<Rightarrow> let info = tm_info (te_wire (talker s p i)) in
          Some (ucast (octets_to_uint (ti_tspec_max_frame_size info) 2),
                ucast (octets_to_uint (ti_tspec_max_frame_interval info) 2)))"

definition mrp_talker_advertise_held_off :: "int \<Rightarrow> octets \<Rightarrow> avb_state \<Rightarrow> bool" where
  "mrp_talker_advertise_held_off p stream_id s =
     (case msrp_talker_find p stream_id msrp_attr_type_talker_advertise s of
        None \<Rightarrow> False
      | Some i \<Rightarrow> redeclare_after_us (talker s p i) \<noteq> 0)"

text \<open>The failure code of an active Talker Failed registration.\<close>

definition mrp_talker_failed_active :: "int \<Rightarrow> octets \<Rightarrow> avb_state \<Rightarrow> u8 option" where
  "mrp_talker_failed_active p stream_id s =
     (case msrp_talker_find p stream_id msrp_attr_type_talker_failed s of
        None \<Rightarrow> None
      | Some i \<Rightarrow> let r = registrar (te_sm (talker s p i)) in
          if r \<noteq> mrp_registrar_in \<and> (s_mrp_lite s \<or> r \<noteq> mrp_registrar_lv) then None
          else Some (tm_failure_code (te_wire (talker s p i))))"

section \<open>Timers and transmission\<close>

definition MRP_JOIN_TIMER_US :: int where "MRP_JOIN_TIMER_US = 200 * 1000"
definition MRP_LEAVEALL_TIMER_US :: int where "MRP_LEAVEALL_TIMER_US = 10 * 1000 * 1000"
definition MRP_PERIODIC_TIMER_US :: int where "MRP_PERIODIC_TIMER_US = 1 * 1000 * 1000"
definition MRP_LEAVEALL_TIMER_WIFI_US :: int where "MRP_LEAVEALL_TIMER_WIFI_US = 30 * 1000 * 1000"
definition MRP_LEAVEALL_JITTER_WIFI_US :: int where "MRP_LEAVEALL_JITTER_WIFI_US = 30 * 1000 * 1000"

definition draw_random :: "avb_state \<Rightarrow> u32 \<times> avb_state" where
  "draw_random s = (esp_random s (random_pos s), s\<lparr> random_pos := Suc (random_pos s) \<rparr>)"

definition mrp_leaveall_next_expiry_us :: "avb_port_s \<Rightarrow> bool \<Rightarrow> avb_state \<Rightarrow> int \<times> avb_state" where
  "mrp_leaveall_next_expiry_us p lite s =
     (let wifi = port_medium p = avb_port_medium_wifi_ftm \<and> \<not> lite;
          base = (if wifi then MRP_LEAVEALL_TIMER_WIFI_US else MRP_LEAVEALL_TIMER_US);
          jitter_span = (if wifi then MRP_LEAVEALL_JITTER_WIFI_US else 5 * 1000 * 1000)
      in case draw_random s of (r, s) \<Rightarrow> (now_us s + base + uint r mod jitter_span, s))"

definition mrp_join_next_expiry_us :: "avb_state \<Rightarrow> int \<times> avb_state" where
  "mrp_join_next_expiry_us s =
     (case draw_random s of (r, s) \<Rightarrow> (now_us s + uint r mod MRP_JOIN_TIMER_US, s))"

definition mrp_port_init :: "int \<Rightarrow> avb_state \<Rightarrow> avb_state" where
  "mrp_port_init p s =
     (if \<not> valid_port s p then s
      else case mrp_leaveall_next_expiry_us (port s p) (avb_lite s) s of
        (leaveall, s) \<Rightarrow>
          upd_port p (\<lambda>q. q\<lparr> mrp_join_timer_us := 0, mrp_leaveall_timer_us := leaveall,
            mrp_periodic_timer_us := now_us s + MRP_PERIODIC_TIMER_US,
            mrp_leaveall_tx_pending := False \<rparr>) s)"

definition mrp_port_arm_join_timer :: "int \<Rightarrow> avb_state \<Rightarrow> avb_state" where
  "mrp_port_arm_join_timer p s =
     (if \<not> valid_port s p then s
      else if mrp_join_timer_us (port s p) = 0
      then (case mrp_join_next_expiry_us s of
              (t, s) \<Rightarrow> upd_port p (\<lambda>q. q\<lparr> mrp_join_timer_us := t \<rparr>) s)
      else s)"

text \<open>One attribute to the wire.  \<open>attr\<close> is the attribute structure as octets; the octets after
  its events are the two EndMarks, which come from the zeroed buffer.  With AVB Lite the
  attribute goes out as a CVU message instead, and Domain attributes not at all.\<close>

definition avb_send_cvu_srp_attr :: "octets \<Rightarrow> nat \<Rightarrow> octets option \<Rightarrow> avb_state \<Rightarrow> avb_state" where
  "avb_send_cvu_srp_attr attr attr_list_len dest s =
     (let attr_size = 4 + attr_list_len - 2;
          payload = take attr_size attr @ zeros 2
      in s\<lparr> s_cvu_seq_id := s_cvu_seq_id s + 1,
            tx_log := tx_log s @ [tx_cvu dest (s_cvu_seq_id s) (hd attr) payload] \<rparr>)"

definition mrp_send_attr :: "int \<Rightarrow> octets \<Rightarrow> nat \<Rightarrow> octets option \<Rightarrow> avb_state \<Rightarrow> avb_state" where
  "mrp_send_attr p attr attr_list_len cvu_dest s =
     (let attr_size = 4 + attr_list_len - 2 in
      if ATDECC (build s) \<and> avb_lite s
      then (if hd attr = msrp_attr_type_code msrp_attr_type_domain then s
            else avb_send_cvu_srp_attr attr attr_list_len cvu_dest s)
      else
        let msg_len = 5 + attr_list_len + 2;
            msrp_msg = 0 # take attr_size attr @ zeros (msg_len - 1 - attr_size)
        in s\<lparr> tx_log := tx_log s @ [tx_msrp p msrp_msg] \<rparr>)"

section \<open>Streams\<close>

text \<open>\<open>avb_start_stream_out\<close> up to the point where the stream runs: it refuses a running stream
  and one with no destination address, and a bridge has none.  Preparing the packets and
  creating the task is the environment's answer \<open>stream_out_ok\<close>.\<close>

definition avb_start_stream_out :: "nat \<Rightarrow> avb_state \<Rightarrow> avb_state" where
  "avb_start_stream_out i s =
     (if ROLE_BRIDGE (build s) then s
      else if streaming (output_streams s ! i) then s
      else if ts_stream_dest_addr (output_streams s ! i) = zeros 6 then s
      else if \<not> stream_out_ok s i then s
      else upd_output i (\<lambda>t. t\<lparr> stop_streaming := False, streaming := True \<rparr>) s)"

definition avb_stop_stream_out :: "nat \<Rightarrow> avb_state \<Rightarrow> avb_state" where
  "avb_stop_stream_out i s =
     (if ROLE_BRIDGE (build s) then s
      else upd_output i (\<lambda>t. t\<lparr> stop_streaming := True, streaming := False \<rparr>) s)"

end
