(* ===== verification/Msrp_Wire.thy ===== *)
theory Msrp_Wire
  imports Msrp_Types
begin

text \<open>
  The wire form of MSRP attributes (IEEE 802.1Q 35.2.2.8): the octets of the packed structures of
  \<open>mrp.h\<close>, the reading of a FirstValue back into them, FirstValue lengths and the increment of
  packed values.  Bit fields fill an octet from its low end, as the target's compiler lays them out.
\<close>

section \<open>Structures to octets\<close>

definition msrp_header_octets :: "msrp_attr_header_s \<Rightarrow> octets" where
  "msrp_header_octets h = [ah_attr_type h, ah_attr_len h] @ ah_attr_list_len h
     @ [push_bit 5 (ucast (ah_vechead_leaveall h)) OR ucast (ah_vechead_padding h),
        ah_vechead_num_vals h]"

definition talker_info_octets :: "talker_adv_info_s \<Rightarrow> octets" where
  "talker_info_octets i = ti_stream_id i @ ti_stream_dest_addr i @ ti_vlan_id i
     @ ti_tspec_max_frame_size i @ ti_tspec_max_frame_interval i
     @ [push_bit 5 (ucast (ti_priority i)) OR push_bit 4 (ucast (ti_rank i)) OR ucast (ti_reserved i)]
     @ ti_accumulated_latency i"

definition msrp_talker_octets :: "msrp_attr_type_t \<Rightarrow> msrp_talker_message_u \<Rightarrow> octets" where
  "msrp_talker_octets attr_type m =
     msrp_header_octets (tm_header m) @ talker_info_octets (tm_info m)
     @ (if attr_type = msrp_attr_type_talker_advertise then []
        else tm_failure_bridge_id m @ [tm_failure_code m])
     @ [tm_event m]"

definition mrp_4pe_octet :: "mrp_4pe_event_s \<Rightarrow> u8" where
  "mrp_4pe_octet d = push_bit 6 (ucast (pe4_event1 d)) OR push_bit 4 (ucast (pe4_event2 d))
     OR push_bit 2 (ucast (pe4_event3 d)) OR ucast (pe4_event4 d)"

definition msrp_listener_octets :: "msrp_listener_message_s \<Rightarrow> octets" where
  "msrp_listener_octets m = msrp_header_octets (lm_header m) @ lm_stream_id m
     @ [lm_event m, mrp_4pe_octet (lm_declaration m)]"

definition msrp_domain_octets :: "msrp_domain_message_s \<Rightarrow> octets" where
  "msrp_domain_octets m = msrp_header_octets (dm_header m)
     @ [dm_sr_class_id m, dm_sr_class_priority m] @ dm_sr_class_vid m @ [dm_event m]"

section \<open>Octets to structures\<close>

definition talker_info_of :: "octets \<Rightarrow> talker_adv_info_s" where
  "talker_info_of fv =
     \<lparr> ti_stream_id = take 8 fv, ti_stream_dest_addr = take 6 (drop 8 fv),
       ti_vlan_id = take 2 (drop 14 fv), ti_tspec_max_frame_size = take 2 (drop 16 fv),
       ti_tspec_max_frame_interval = take 2 (drop 18 fv),
       ti_reserved = ucast (fv ! 20), ti_rank = ucast (drop_bit 4 (fv ! 20)),
       ti_priority = ucast (drop_bit 5 (fv ! 20)),
       ti_accumulated_latency = take 4 (drop 21 fv) \<rparr>"

text \<open>The first four octets of a message, in the header of a rebuilt structure.\<close>

definition msrp_header_of :: "octets \<Rightarrow> msrp_attr_header_s" where
  "msrp_header_of raw = msrp_attr_header_zero
     \<lparr> ah_attr_type := raw ! 0, ah_attr_len := raw ! 1, ah_attr_list_len := take 2 (drop 2 raw),
       ah_vechead_num_vals := 1 \<rparr>"

section \<open>FirstValues\<close>

definition msrp_first_value_len :: "u8 \<Rightarrow> int" where
  "msrp_first_value_len attr_type =
     (if attr_type = msrp_attr_type_code msrp_attr_type_talker_advertise then 25
      else if attr_type = msrp_attr_type_code msrp_attr_type_talker_failed then 34
      else if attr_type = msrp_attr_type_code msrp_attr_type_listener then 8
      else if attr_type = msrp_attr_type_code msrp_attr_type_domain then 4
      else -1)"

text \<open>\<open>msrp_be_add\<close>: the loop runs from the last octet up while something is left to add.\<close>

fun msrp_be_add_from :: "nat \<Rightarrow> octets \<Rightarrow> u32 \<Rightarrow> octets" where
  "msrp_be_add_from 0 buf add = buf"
| "msrp_be_add_from (Suc i) buf add =
     (if add = 0 then buf
      else let s = ucast (buf ! i) + (add AND 0xFF)
           in msrp_be_add_from i (buf[i := ucast s]) (drop_bit 8 add + drop_bit 8 s))"

definition msrp_be_add :: "octets \<Rightarrow> nat \<Rightarrow> u32 \<Rightarrow> octets" where
  "msrp_be_add buf len add = msrp_be_add_from len buf add"

section \<open>Well-formed structures\<close>

definition info_wf :: "talker_adv_info_s \<Rightarrow> bool" where
  "info_wf i \<longleftrightarrow> length (ti_stream_id i) = 8 \<and> length (ti_stream_dest_addr i) = 6
     \<and> length (ti_vlan_id i) = 2 \<and> length (ti_tspec_max_frame_size i) = 2
     \<and> length (ti_tspec_max_frame_interval i) = 2 \<and> length (ti_accumulated_latency i) = 4"

lemma length_talker_info_octets: "info_wf i \<Longrightarrow> length (talker_info_octets i) = 25"
  by (simp add: info_wf_def talker_info_octets_def)

lemma prio_octet:
  fixes p :: "3 word" and r :: "1 word" and v :: "4 word"
  defines "b \<equiv> (push_bit 5 (ucast p) OR push_bit 4 (ucast r) OR ucast v :: u8)"
  shows "ucast b = v" and "ucast (drop_bit 4 b) = r" and "ucast (drop_bit 5 b) = p"
proof -
  have o: "\<not> bit v k" if "4 \<le> k" for k using that bit_imp_le_length [of v k] by fastforce
  have q: "\<not> bit r k" if "1 \<le> k" for k using that bit_imp_le_length [of r k] by fastforce
  show "ucast b = v" "ucast (drop_bit 4 b) = r" "ucast (drop_bit 5 b) = p"
    unfolding b_def
    by (rule bit_eqI; auto simp: bit_simps o q)+
qed

lemma talker_info_roundtrip: "info_wf i \<Longrightarrow> talker_info_of (talker_info_octets i @ rest) = i"
proof -
  assume wf: "info_wf i"
  let ?a = "ti_stream_id i @ ti_stream_dest_addr i @ ti_vlan_id i @ ti_tspec_max_frame_size i
     @ ti_tspec_max_frame_interval i"
  let ?x = "push_bit 5 (ucast (ti_priority i)) OR push_bit 4 (ucast (ti_rank i)) OR ucast (ti_reserved i)"
  have "length ?a = 20" using wf by (simp add: info_wf_def)
  moreover have "talker_info_octets i @ rest = ?a @ ?x # (ti_accumulated_latency i @ rest)"
    by (simp add: talker_info_octets_def)
  ultimately have "(talker_info_octets i @ rest) ! 20 = ?x"
    by (metis nth_append_length)
  then have p: "ucast ((talker_info_octets i @ rest) ! 20) = ti_reserved i"
    "ucast (drop_bit 4 ((talker_info_octets i @ rest) ! 20)) = ti_rank i"
    "ucast (drop_bit 5 ((talker_info_octets i @ rest) ! 20)) = ti_priority i"
    by (simp_all only: prio_octet)
  show ?thesis
    unfolding talker_info_of_def p using wf
    by (simp add: info_wf_def talker_info_octets_def)
qed

text \<open>Big-endian value of a field.\<close>

fun be_val :: "octets \<Rightarrow> nat" where
  "be_val [] = 0"
| "be_val (b # bs) = unat b * 256 ^ length bs + be_val bs"

lemma be_val_snoc: "be_val (bs @ [b]) = 256 * be_val bs + unat b"
  by (induction bs) (simp_all add: algebra_simps)

lemma be_val_less: "be_val bs < 256 ^ length bs"
proof (induction bs)
  case (Cons b bs)
  define P where "P = (256 :: nat) ^ length bs"
  have "unat b * P \<le> 255 * P"
    by (rule mult_right_mono) (use unat_u8_less [of b] in simp_all)
  then have "unat b * P + be_val bs < 256 * P" using Cons P_def by linarith
  then show ?case by (simp add: P_def)
qed simp

lemma mod_scale:
  fixes a N u :: nat
  assumes "u < 256" and "0 < N"
  shows "256 * (a mod N) + u = (256 * a + u) mod (256 * N)"
proof -
  have "256 * a + u = (256 * (a mod N) + u) + 256 * N * (a div N)"
    using mult_div_mod_eq [of N a] by (metis add.assoc add.commute add_mult_distrib2 mult.assoc)
  moreover have "256 * (a mod N) + u < 256 * N"
    using assms mod_less_divisor [of N a] by linarith
  ultimately show ?thesis by (metis mod_mult_self2 mod_less)
qed

lemma be_add_carry:
  fixes b :: u8 and add :: u32
  defines "s \<equiv> ucast b + (add AND 0xFF) :: u32"
  shows "256 * unat (drop_bit 8 add + drop_bit 8 s) + unat (ucast s :: u8) = unat b + unat add"
proof -
  have m: "(0xFF :: u32) = mask 8" by (simp add: mask_eq_exp_minus_1)
  have a: "unat (add AND 0xFF) = unat add mod 256"
    unfolding m by (simp add: take_bit_eq_mask [symmetric] unsigned_take_bit_eq take_bit_eq_mod unat_mod)
  have b: "unat b < 256" using unat_u8_less [of b] by simp
  have ub: "unat (ucast b :: u32) = unat b"
    using b by (simp add: unsigned_ucast_eq take_bit_nat_eq_self)
  have "unat add mod 256 < 256" by simp
  then have s: "unat s = unat b + unat add mod 256"
    unfolding s_def using a ub b by (simp add: unat_word_ariths)
  have d: "unat (drop_bit 8 add) = unat add div 256" "unat (drop_bit 8 s) = unat s div 256"
    by (simp_all add: drop_bit_eq_div unat_div)
  have "unat add < 2 ^ 32" using unat_u32_less [of add] by simp
  moreover have "unat s div 256 \<le> 1" using s b by simp
  ultimately have c: "unat (drop_bit 8 add + drop_bit 8 s) = unat add div 256 + unat s div 256"
    using d by (simp add: unat_word_ariths)
  have u: "unat (ucast s :: u8) = unat s mod 256"
    by (simp add: unsigned_ucast_eq take_bit_eq_mod)
  have "256 * (unat s div 256) + unat s mod 256 = unat s" by simp
  moreover have "256 * (unat add div 256) + unat add mod 256 = unat add" by simp
  ultimately show ?thesis
    unfolding c u distrib_left using s by linarith
qed

lemma be_add_from_spec:
  "i \<le> length buf \<Longrightarrow>
     length (msrp_be_add_from i buf add) = length buf
   \<and> drop i (msrp_be_add_from i buf add) = drop i buf
   \<and> be_val (take i (msrp_be_add_from i buf add)) = (be_val (take i buf) + unat add) mod 256 ^ i"
proof (induction i arbitrary: buf add)
  case (Suc i)
  show ?case
  proof (cases "add = 0")
    case True
    have "be_val (take (Suc i) buf) < 256 ^ Suc i"
      using be_val_less [of "take (Suc i) buf"] Suc.prems by (simp add: min_absorb2 del: power_Suc)
    then show ?thesis using True by (simp del: power_Suc)
  next
    case False
    define s where "s = ucast (buf ! i) + (add AND 0xFF)"
    define c where "c = drop_bit 8 add + drop_bit 8 s"
    define r where "r = msrp_be_add_from i (buf[i := ucast s]) c"
    have i: "i < length buf" using Suc.prems by simp
    have r: "msrp_be_add_from (Suc i) buf add = r"
      using False by (simp add: r_def c_def s_def Let_def)
    from Suc.IH [of "buf[i := ucast s]" c] i
    have ih: "length r = length buf" "drop i r = drop i (buf[i := ucast s])"
      "be_val (take i r) = (be_val (take i buf) + unat c) mod 256 ^ i"
      by (simp_all add: r_def)
    have ri: "r ! i = ucast s"
      using arg_cong [OF ih(2), of hd] i ih(1) by (simp add: hd_drop_conv_nth)
    have "drop (Suc i) r = drop (Suc i) (buf[i := ucast s])"
      using arg_cong [OF ih(2), of tl] by (simp add: tl_drop drop_Suc)
    then have d: "drop (Suc i) r = drop (Suc i) buf" by simp
    have "be_val (take (Suc i) r) = 256 * ((be_val (take i buf) + unat c) mod 256 ^ i) + unat (ucast s :: u8)"
      using i ih(1,3) ri by (simp add: take_Suc_conv_app_nth be_val_snoc)
    also have "\<dots> = (256 * (be_val (take i buf) + unat c) + unat (ucast s :: u8)) mod 256 ^ Suc i"
    proof -
      have "unat (ucast s :: u8) < 256" by (rule unat_u8_less)
      then show ?thesis
        by (simp only: mod_scale [of _ "256 ^ i"] power_Suc zero_less_power zero_less_numeral)
    qed
    also have "\<dots> = (be_val (take (Suc i) buf) + unat add) mod 256 ^ Suc i"
      using be_add_carry [where b = "buf ! i" and add = add] i
      by (simp add: c_def s_def take_Suc_conv_app_nth be_val_snoc distrib_left add.assoc)
    finally show ?thesis using r d ih(1) by simp
  qed
qed simp

text \<open>\<open>msrp_be_add\<close> adds to a big-endian field modulo its size: the value after it is the
  value before plus the increment, and no octet outside the field changes.\<close>

theorem be_add_adds:
  "length buf = n \<Longrightarrow>
     be_val (msrp_be_add buf n add) = (be_val buf + unat add) mod 256 ^ n
   \<and> length (msrp_be_add buf n add) = n"
  using be_add_from_spec [of n buf add] by (auto simp: msrp_be_add_def)

theorem be_add_adds_witness:
  "be_val (msrp_be_add [0, 0xFF, 0xFE] 3 5) = 0x10003"
  using be_add_adds [of "[0, 0xFF, 0xFE]" 3 5] by simp

end
