(* ===== verification/Msrp_Decl.thy ===== *)
theory Msrp_Decl
  imports Msrp_State Msrp_Wire
begin

text \<open>
  Local declarations (\<open>mrp.c\<close> section 6b): declaring, changing and withdrawing talker, listener
  and domain attributes, the quarantine of a talker whose value changed, and the held
  declarations released at its end.
\<close>

section \<open>Building values\<close>

definition AVB_LITE_PCP :: "3 word" where "AVB_LITE_PCP = 5"

text \<open>The send time after a local event: now, when the event left the Applicant due to send.\<close>

definition mrp_lite_note_local ::
  "int \<Rightarrow> mrp_sm_state_t \<Rightarrow> mrp_applicant_state_e \<Rightarrow> int \<Rightarrow> int" where
  "mrp_lite_note_local now sm before next_tx_us =
     (if applicant sm \<noteq> before \<and> mrp_applicant_will_send (applicant sm) then now else next_tx_us)"

definition mrp_own_failure_bridge_id :: "avb_state \<Rightarrow> octets" where
  "mrp_own_failure_bridge_id s =
     (let mac = port_mac_addr (port s 0) in
      if avb_lite s then [0, 0] @ take 6 mac
      else [mac ! 0, mac ! 1, mac ! 2, 0xff, 0xfe, mac ! 3, mac ! 4, mac ! 5])"

definition mrp_build_talker_info ::
  "avb_state \<Rightarrow> talker_adv_info_s \<Rightarrow> octets \<Rightarrow> octets \<Rightarrow> octets \<Rightarrow> u16 \<Rightarrow> u16 \<Rightarrow> bool \<Rightarrow> talker_adv_info_s" where
  "mrp_build_talker_info s info stream_id stream_dest_addr vlan_id max_frame_size
     max_interval_frames class_b =
     (let mapping_index = (if class_b then 1 else 0);
          mapping_index = (if mapping_index \<ge> length (msrp_mappings s) then 0 else mapping_index)
      in info\<lparr> ti_stream_id := stream_id, ti_stream_dest_addr := stream_dest_addr,
           ti_vlan_id := vlan_id,
           ti_tspec_max_frame_size := int_to_octets (ucast max_frame_size) 2,
           ti_tspec_max_frame_interval :=
             int_to_octets (if max_interval_frames \<noteq> 0 then ucast max_interval_frames else 1) 2,
           ti_priority := (if avb_lite s then AVB_LITE_PCP
                           else ucast (map_priority (msrp_mappings s ! mapping_index))),
           ti_rank := 1,
           ti_accumulated_latency := int_to_octets 15000 4 \<rparr>)"

text \<open>The header of an outgoing talker attribute.\<close>

definition talker_header ::
  "msrp_attr_type_t \<Rightarrow> bool \<Rightarrow> msrp_attr_header_s \<Rightarrow> msrp_attr_header_s" where
  "talker_header attr_type leaveall h =
     (let failed = attr_type \<noteq> msrp_attr_type_talker_advertise in
      h\<lparr> ah_attr_type := msrp_attr_type_code (if failed then msrp_attr_type_talker_failed
                                              else msrp_attr_type_talker_advertise),
         ah_attr_len := (if failed then 34 else 25),
         ah_attr_list_len := int_to_octets (if failed then 39 else 30) 2,
         ah_vechead_leaveall := (if leaveall then 1 else 0),
         ah_vechead_num_vals := 1 \<rparr>)"

definition talker_list_len :: "msrp_attr_type_t \<Rightarrow> nat" where
  "talker_list_len attr_type = (if attr_type = msrp_attr_type_talker_advertise then 30 else 39)"

definition mrp_tx_talker_value_leave :: "int \<Rightarrow> nat \<Rightarrow> avb_state \<Rightarrow> avb_state" where
  "mrp_tx_talker_value_leave p i s =
     (let e = talker s p i;
          msg = (te_wire e)\<lparr> tm_header := talker_header (te_attr_type e) False (tm_header (te_wire e)),
                             tm_event := int_to_3pe mrp_attr_event_lv 0 0 \<rparr>
      in mrp_send_attr p (msrp_talker_octets (te_attr_type e) msg) (talker_list_len (te_attr_type e))
           None s)"

section \<open>Value changes\<close>

definition MSRP_VALUE_CHANGE_HOLDOFF_US :: "avb_build \<Rightarrow> int" where
  "MSRP_VALUE_CHANGE_HOLDOFF_US b = (if ROLE_BRIDGE b then 1500 * 1000 else 32 * 1000 * 1000)"

definition MSRP_VALUE_SHRINK_HOLDOFF_US :: int where
  "MSRP_VALUE_SHRINK_HOLDOFF_US = 1500 * 1000"

definition MSRP_VALUE_CHANGE_LEAVEALLS :: u32 where "MSRP_VALUE_CHANGE_LEAVEALLS = 2"

definition mrp_talker_value_shrinks :: "talker_adv_info_s \<Rightarrow> talker_adv_info_s \<Rightarrow> bool" where
  "mrp_talker_value_shrinks old_info new_info \<longleftrightarrow>
     old_info\<lparr> ti_tspec_max_frame_size := zeros 2, ti_tspec_max_frame_interval := zeros 2 \<rparr>
       = new_info\<lparr> ti_tspec_max_frame_size := zeros 2, ti_tspec_max_frame_interval := zeros 2 \<rparr>
   \<and> octets_to_uint (ti_tspec_max_frame_size new_info) 2
       \<le> octets_to_uint (ti_tspec_max_frame_size old_info) 2
   \<and> octets_to_uint (ti_tspec_max_frame_interval new_info) 2
       \<le> octets_to_uint (ti_tspec_max_frame_interval old_info) 2"

definition mrp_value_change_holdoff_over ::
  "int \<Rightarrow> msrp_talker_entry_t \<Rightarrow> int \<Rightarrow> avb_state \<Rightarrow> bool" where
  "mrp_value_change_holdoff_over p e now s \<longleftrightarrow>
     now \<ge> redeclare_after_us e
   \<or> (\<not> ROLE_BRIDGE (build s)
      \<and> s_talker_leaveall_count s p - holdoff_leaveall_base e \<ge> MSRP_VALUE_CHANGE_LEAVEALLS
      \<and> now - s_talker_leaveall_us s p \<ge> MRP_LEAVE_TIMER_US)"

definition mrp_talker_candidate ::
  "avb_state \<Rightarrow> msrp_talker_entry_t \<Rightarrow> octets \<Rightarrow> octets \<Rightarrow> octets \<Rightarrow> u16 \<Rightarrow> u16 \<Rightarrow> bool \<Rightarrow> msrp_talker_message_u" where
  "mrp_talker_candidate s e stream_id stream_dest_addr vlan_id mfs mfi class_b =
     (let info = mrp_build_talker_info s talker_adv_info_zero stream_id stream_dest_addr vlan_id
                   mfs mfi class_b
      in msrp_talker_message_zero\<lparr> tm_info := info\<lparr> ti_accumulated_latency :=
           ti_accumulated_latency (tm_info (te_wire e)) \<rparr> \<rparr>)"

definition mrp_talker_advertise_change_waits ::
  "avb_state \<Rightarrow> int \<Rightarrow> octets \<Rightarrow> octets \<Rightarrow> octets \<Rightarrow> u16 \<Rightarrow> u16 \<Rightarrow> bool \<Rightarrow> bool" where
  "mrp_talker_advertise_change_waits s p stream_id stream_dest_addr vlan_id mfs mfi class_b =
     (case msrp_talker_find p stream_id msrp_attr_type_talker_advertise s of
        None \<Rightarrow> False
      | Some i \<Rightarrow>
          let e = talker s p i; old = tm_info (te_wire e) in
          if redeclare_after_us e \<noteq> 0 \<or> ti_stream_dest_addr old = zeros 6 then False
          else let fresh = tm_info (mrp_talker_candidate s e stream_id stream_dest_addr vlan_id
                                     mfs mfi class_b)
               in old \<noteq> fresh \<and> \<not> mrp_talker_value_shrinks old fresh)"

definition mrp_talker_forget :: "int \<Rightarrow> octets \<Rightarrow> avb_state \<Rightarrow> bool \<times> avb_state" where
  "mrp_talker_forget p stream_id s =
     (let a = msrp_talker_find p stream_id msrp_attr_type_talker_advertise s;
          f = msrp_talker_find p stream_id msrp_attr_type_talker_failed s;
          held = (\<lambda>r. case r of None \<Rightarrow> False | Some i \<Rightarrow> \<not> mrp_sm_idle (te_sm (talker s p i)));
          clear = (\<lambda>r s. case r of None \<Rightarrow> s
                           | Some i \<Rightarrow> upd_talker p i (\<lambda>_. talker_entry_zero) s)
      in if held a \<or> held f then (False, s) else (True, clear f (clear a s)))"

definition mrp_talker_end_holdoff :: "int \<Rightarrow> nat \<Rightarrow> avb_state \<Rightarrow> avb_state" where
  "mrp_talker_end_holdoff p i s =
     upd_talker p i (\<lambda>e. e\<lparr> redeclare_after_us := 0, declare_held := False \<rparr>) s"

section \<open>Declaring talkers\<close>

text \<open>The local declare event of a talker entry, with the AVB Lite send time.\<close>

definition talker_declare_step ::
  "int \<Rightarrow> mrp_applicant_state_e \<Rightarrow> msrp_talker_entry_t \<Rightarrow> msrp_talker_entry_t" where
  "talker_declare_step now before e =
     (let sm = mrp_applicant_step (te_sm e) (mrp_declare_event (te_sm e)) in
      e\<lparr> te_sm := sm,
         te_lite_next_tx_us := mrp_lite_note_local now sm before (te_lite_next_tx_us e) \<rparr>)"

text \<open>The part of \<open>mrp_declare_talker_advertise\<close> that takes a changed value into entry \<open>i\<close>:
  at once in AVB Lite; otherwise, when an old value is out, two Leaves for it and a quarantine.\<close>

definition talker_change_value :: "int \<Rightarrow> nat \<Rightarrow> msrp_talker_message_u \<Rightarrow> avb_state \<Rightarrow> avb_state" where
  "talker_change_value p i fresh s =
     (let e = talker s p i; now = now_us s in
      if avb_lite s \<and> tm_info (te_wire e) \<noteq> tm_info fresh then
        upd_talker p i (\<lambda>e. e\<lparr> te_sm := mrp_sm_reset_for_new_value (te_sm e),
          redeclare_after_us := 0, declare_held := False, te_wire := fresh,
          te_lite_next_tx_us := now \<rparr>) s
      else if tm_info (te_wire e) \<noteq> tm_info fresh then
        let s = (if ti_stream_dest_addr (tm_info (te_wire e)) \<noteq> zeros 6 then
                   let s = mrp_tx_talker_value_leave p i (mrp_tx_talker_value_leave p i s);
                       shrinks = mrp_talker_value_shrinks (tm_info (te_wire e)) (tm_info fresh);
                       holdoff_us = (if shrinks then MSRP_VALUE_SHRINK_HOLDOFF_US
                                     else MSRP_VALUE_CHANGE_HOLDOFF_US (build s))
                   in upd_talker p i (\<lambda>e. e\<lparr> withdrawn_us := now,
                        redeclare_after_us := now + holdoff_us,
                        holdoff_leaveall_base := s_talker_leaveall_count s p \<rparr>) s
                 else s)
        in upd_talker p i (\<lambda>e. e\<lparr> te_sm := mrp_sm_reset_for_new_value (te_sm e),
             te_wire := fresh \<rparr>) s
      else s)"

definition mrp_declare_talker_advertise ::
  "int \<Rightarrow> octets \<Rightarrow> octets \<Rightarrow> octets \<Rightarrow> u16 \<Rightarrow> u16 \<Rightarrow> bool \<Rightarrow> avb_state \<Rightarrow> avb_state" where
  "mrp_declare_talker_advertise p stream_id stream_dest_addr vlan_id mfs mfi class_b s =
     (case msrp_talker_find_or_insert p stream_id msrp_attr_type_talker_advertise s of
        (None, s) \<Rightarrow> s
      | (Some i, s) \<Rightarrow>
          let s = upd_talker p i (\<lambda>e. e\<lparr> locally_originated := True \<rparr>) s;
              fresh = mrp_talker_candidate s (talker s p i) stream_id stream_dest_addr vlan_id
                        mfs mfi class_b;
              before = applicant (te_sm (talker s p i));
              s = talker_change_value p i fresh s;
              e = talker s p i
          in if redeclare_after_us e \<noteq> 0 \<and> \<not> mrp_value_change_holdoff_over p e (now_us s) s
             then upd_talker p i (\<lambda>e. e\<lparr> declare_held := True \<rparr>) s
             else
               let s = (if redeclare_after_us e \<noteq> 0 then mrp_talker_end_holdoff p i s else s);
                   s = upd_talker p i (\<lambda>e. talker_declare_step (now_us s) before (e\<lparr> te_wire := fresh \<rparr>)) s
               in mrp_port_arm_join_timer p s)"

definition talker_release_slot :: "int \<Rightarrow> int \<Rightarrow> nat \<Rightarrow> bool \<times> avb_state \<Rightarrow> bool \<times> avb_state" where
  "talker_release_slot p now i = (\<lambda>(released, s).
     let e = talker s p i in
     if \<not> te_valid e \<or> \<not> declare_held e \<or> redeclare_after_us e = 0
        \<or> \<not> mrp_value_change_holdoff_over p e now s
     then (released, s)
     else let s = mrp_talker_end_holdoff p i s
          in (True, upd_talker p i (\<lambda>e. talker_declare_step (now_us s) (applicant (te_sm e)) e) s))"

definition mrp_talker_release_held :: "int \<Rightarrow> int \<Rightarrow> avb_state \<Rightarrow> bool \<times> avb_state" where
  "mrp_talker_release_held p now s =
     (case foreach (length (s_msrp_talkers s p)) (talker_release_slot p now) (False, s) of
        (released, s) \<Rightarrow> (released, if released then mrp_port_arm_join_timer p s else s))"

definition mrp_declare_talker_failed ::
  "int \<Rightarrow> octets \<Rightarrow> octets \<Rightarrow> octets \<Rightarrow> u16 \<Rightarrow> u16 \<Rightarrow> u8 \<Rightarrow> bool \<Rightarrow> octets option \<Rightarrow> avb_state \<Rightarrow> avb_state" where
  "mrp_declare_talker_failed p stream_id stream_dest_addr vlan_id mfs mfi failure_code class_b
     src_bridge_id s =
     (case msrp_talker_find_or_insert p stream_id msrp_attr_type_talker_failed s of
        (None, s) \<Rightarrow> s
      | (Some i, s) \<Rightarrow>
          let before = applicant (te_sm (talker s p i));
              info = mrp_build_talker_info s talker_adv_info_zero stream_id stream_dest_addr vlan_id
                       mfs mfi class_b;
              wire = msrp_talker_message_zero\<lparr> tm_info := info, tm_failure_code := failure_code,
                tm_failure_bridge_id := (case src_bridge_id of
                    Some b \<Rightarrow> b | None \<Rightarrow> mrp_own_failure_bridge_id s) \<rparr>;
              s = upd_talker p i (\<lambda>e. talker_declare_step (now_us s) before
                    (e\<lparr> locally_originated := True, te_wire := wire \<rparr>)) s
          in mrp_port_arm_join_timer p s)"

section \<open>Declaring listeners and domains\<close>

definition listener_declare_step ::
  "bool \<Rightarrow> int \<Rightarrow> msrp_listener_event_t \<Rightarrow> msrp_listener_entry_t \<Rightarrow> msrp_listener_entry_t" where
  "listener_declare_step lite now decl e =
     (let before = applicant (le_sm e);
          decl_changed = (decl_event e \<noteq> decl);
          event = mrp_declare_event (le_sm e);
          event = (if \<not> lite \<and> decl_changed \<and> event = mrp_event_join then mrp_event_new else event);
          sm = mrp_applicant_step (le_sm e) event;
          e = e\<lparr> decl_event := decl, le_sm := sm \<rparr>
      in if lite \<and> decl_changed \<and> applicant sm \<in>
              {mrp_applicant_qa, mrp_applicant_aa, mrp_applicant_ap, mrp_applicant_qp}
         then let sm = sm\<lparr> applicant := mrp_applicant_vp \<rparr> in
           e\<lparr> le_sm := sm, le_lite_next_tx_us :=
                mrp_lite_note_local now sm mrp_applicant_qa (le_lite_next_tx_us e) \<rparr>
         else if lite \<and> decl_changed \<and> applicant sm = mrp_applicant_an
         then let sm = sm\<lparr> applicant := mrp_applicant_vn \<rparr> in
           e\<lparr> le_sm := sm, le_lite_next_tx_us := mrp_lite_note_local now sm before now \<rparr>
         else e\<lparr> le_lite_next_tx_us := mrp_lite_note_local now sm before (le_lite_next_tx_us e) \<rparr>)"

definition mrp_declare_listener ::
  "int \<Rightarrow> octets \<Rightarrow> msrp_listener_event_t \<Rightarrow> avb_state \<Rightarrow> avb_state" where
  "mrp_declare_listener p stream_id decl s =
     (case msrp_listener_find_or_insert p stream_id s of
        (None, s) \<Rightarrow> s
      | (Some i, s) \<Rightarrow>
          mrp_port_arm_join_timer p
            (upd_listener p i (listener_declare_step (avb_lite s) (now_us s) decl) s))"

definition mrp_declare_domain :: "int \<Rightarrow> u8 \<Rightarrow> u8 \<Rightarrow> octets \<Rightarrow> avb_state \<Rightarrow> avb_state" where
  "mrp_declare_domain p sr_class_id sr_class_priority sr_class_vid s =
     (case msrp_domain_find_or_insert p sr_class_id s of
        (None, s) \<Rightarrow> s
      | (Some i, s) \<Rightarrow>
          mrp_port_arm_join_timer p
            (upd_domain p i (\<lambda>e. e\<lparr> de_wire := (de_wire e)\<lparr> dm_sr_class_id := sr_class_id,
                 dm_sr_class_priority := sr_class_priority, dm_sr_class_vid := sr_class_vid \<rparr>,
               de_sm := mrp_applicant_step (de_sm e) (mrp_declare_event (de_sm e)) \<rparr>) s))"

section \<open>Withdrawing\<close>

definition talker_withdraw_step :: "bool \<Rightarrow> int \<Rightarrow> msrp_talker_entry_t \<Rightarrow> msrp_talker_entry_t" where
  "talker_withdraw_step lite now e =
     (let sm = mrp_withdraw_step lite (te_sm e) in
      e\<lparr> te_sm := sm, te_lite_next_tx_us :=
           mrp_lite_note_local now sm (applicant (te_sm e)) (te_lite_next_tx_us e) \<rparr>)"

definition mrp_withdraw_talker :: "int \<Rightarrow> octets \<Rightarrow> avb_state \<Rightarrow> avb_state" where
  "mrp_withdraw_talker p stream_id s =
     (let a = msrp_talker_find p stream_id msrp_attr_type_talker_advertise s;
          s = (case a of None \<Rightarrow> s
               | Some i \<Rightarrow> upd_talker p i (\<lambda>e. talker_withdraw_step (s_mrp_lite s) (now_us s)
                             (e\<lparr> declare_held := False \<rparr>)) s);
          f = msrp_talker_find p stream_id msrp_attr_type_talker_failed s;
          s = (case f of None \<Rightarrow> s
               | Some i \<Rightarrow> upd_talker p i (talker_withdraw_step (s_mrp_lite s) (now_us s)) s)
      in if a \<noteq> None \<or> f \<noteq> None then mrp_port_arm_join_timer p s else s)"

definition mrp_withdraw_listener :: "int \<Rightarrow> octets \<Rightarrow> avb_state \<Rightarrow> avb_state" where
  "mrp_withdraw_listener p stream_id s =
     (case msrp_listener_find p stream_id s of
        None \<Rightarrow> s
      | Some i \<Rightarrow>
          mrp_port_arm_join_timer p
            (upd_listener p i (\<lambda>e. let sm = mrp_withdraw_step (s_mrp_lite s) (le_sm e) in
               e\<lparr> le_sm := sm, le_lite_next_tx_us :=
                    mrp_lite_note_local (now_us s) sm (applicant (le_sm e)) (le_lite_next_tx_us e) \<rparr>) s))"

section \<open>MVRP declarations\<close>

definition mrp_declare_vlan :: "int \<Rightarrow> octets \<Rightarrow> avb_state \<Rightarrow> avb_state" where
  "mrp_declare_vlan p vlan_id s =
     (if \<not> valid_port s p then s
      else case mvrp_vlan_find_or_insert p vlan_id s of
        (None, s) \<Rightarrow> s
      | (Some i, s) \<Rightarrow>
          mrp_port_arm_join_timer p
            (upd_vlan p i (\<lambda>e. e\<lparr> ve_sm := mrp_applicant_step (ve_sm e) (mrp_declare_event (ve_sm e)) \<rparr>) s))"

definition mrp_withdraw_vlan :: "int \<Rightarrow> octets \<Rightarrow> avb_state \<Rightarrow> avb_state" where
  "mrp_withdraw_vlan p vlan_id s =
     (case mvrp_vlan_find p vlan_id s of
        None \<Rightarrow> s
      | Some i \<Rightarrow>
          mrp_port_arm_join_timer p
            (upd_vlan p i (\<lambda>e. e\<lparr> ve_sm := mrp_applicant_step (ve_sm e) mrp_event_lv \<rparr>) s))"

end
