(* ===== verification/Msrp_Tx.thy ===== *)
theory Msrp_Tx
  imports Msrp_Decl
begin

text \<open>
  Transmission (\<open>mrp.c\<close> sections 6c, 6d and the sending half of 7): the flush of a port when its
  JoinTimer expires, one MRPDU per attribute with the LeaveAll on the first of each type, and the
  AVB Lite schedule with its unicast refusals.
\<close>

section \<open>One attribute\<close>

definition mrp_tx_flush_talker :: "int \<Rightarrow> nat \<Rightarrow> bool \<Rightarrow> avb_state \<Rightarrow> avb_state" where
  "mrp_tx_flush_talker p i leaveall s =
     (let e = talker s p i;
          pe = mrp_resolve_3pe (pending_tx (te_sm e)) (registrar (te_sm e))
      in if pe < 0 then s
         else let msg = (te_wire e)
                \<lparr> tm_header := talker_header (te_attr_type e) leaveall (tm_header (te_wire e)),
                  tm_event := int_to_3pe pe 0 0 \<rparr>
              in mrp_send_attr p (msrp_talker_octets (te_attr_type e) msg)
                   (talker_list_len (te_attr_type e)) None s)"

definition listener_cvu_dest :: "int \<Rightarrow> octets \<Rightarrow> avb_state \<Rightarrow> octets option" where
  "listener_cvu_dest p stream_id s =
     (let src = (\<lambda>r. case r of None \<Rightarrow> None
                    | Some j \<Rightarrow> if te_src_mac (talker s p j) = zeros 6 then None
                               else Some (te_src_mac (talker s p j)));
          t = src (msrp_talker_find p stream_id msrp_attr_type_talker_advertise s)
      in if t = None
         then src (msrp_talker_find p stream_id msrp_attr_type_talker_failed s) else t)"

definition mrp_tx_flush_listener :: "int \<Rightarrow> nat \<Rightarrow> bool \<Rightarrow> avb_state \<Rightarrow> avb_state" where
  "mrp_tx_flush_listener p i leaveall s =
     (let e = listener s p i;
          pe = mrp_resolve_3pe (pending_tx (le_sm e)) (registrar (le_sm e))
      in if pe < 0 then s
         else let msg = (le_wire e)
                \<lparr> lm_header := (lm_header (le_wire e))
                    \<lparr> ah_attr_type := msrp_attr_type_code msrp_attr_type_listener,
                      ah_attr_len := 8, ah_attr_list_len := int_to_octets 14 2,
                      ah_vechead_leaveall := (if leaveall then 1 else 0),
                      ah_vechead_num_vals := 1 \<rparr>,
                  lm_event := int_to_3pe pe 0 0,
                  lm_declaration := \<lparr> pe4_event1 = msrp_listener_event_code (decl_event e),
                    pe4_event2 = 0, pe4_event3 = 0, pe4_event4 = 0 \<rparr> \<rparr>
              in mrp_send_attr p (msrp_listener_octets msg) 14
                   (listener_cvu_dest p (lm_stream_id (le_wire e)) s) s)"

definition mrp_tx_flush_domain :: "int \<Rightarrow> nat \<Rightarrow> bool \<Rightarrow> avb_state \<Rightarrow> avb_state" where
  "mrp_tx_flush_domain p i leaveall s =
     (let e = domain s p i;
          pe = mrp_resolve_3pe (pending_tx (de_sm e)) (registrar (de_sm e))
      in if pe < 0 then s
         else let msg = (de_wire e)
                \<lparr> dm_header := (dm_header (de_wire e))
                    \<lparr> ah_attr_type := msrp_attr_type_code msrp_attr_type_domain,
                      ah_attr_len := 4, ah_attr_list_len := int_to_octets 9 2,
                      ah_vechead_leaveall := (if leaveall then 1 else 0),
                      ah_vechead_num_vals := 1 \<rparr>,
                  dm_event := int_to_3pe pe 0 0 \<rparr>
              in mrp_send_attr p (msrp_domain_octets msg) 9 None s)"

text \<open>\<open>mvrp_tx_emit\<close>: the protocol version, the attribute header, the VLAN, one event octet
  and the two EndMarks.\<close>

definition mvrp_tx_emit :: "int \<Rightarrow> nat \<Rightarrow> bool \<Rightarrow> avb_state \<Rightarrow> avb_state" where
  "mvrp_tx_emit p i leaveall s =
     (let e = vlan s p i;
          pe = mrp_resolve_3pe (pending_tx (ve_sm e)) (registrar (ve_sm e))
      in if pe < 0 then s
         else s\<lparr> tx_log := tx_log s @ [tx_mvrp p
                  ([0, 1, 2, (if leaveall then 0x20 else 0), 1] @ ve_vlan_id e
                   @ [int_to_3pe pe 0 0] @ zeros 4)] \<rparr>)"

section \<open>The flush of a port\<close>

definition attr_type_bit :: "msrp_attr_type_t \<Rightarrow> u8" where
  "attr_type_bit attr_type = push_bit (unat (msrp_attr_type_code attr_type)) 1"

text \<open>One iteration of each loop; the first component is \<open>leaveall_types\<close>, the attribute types
  whose LeaveAll has not been sent yet.\<close>

definition flush_talker_slot :: "mrp_event_e \<Rightarrow> int \<Rightarrow> nat \<Rightarrow> u8 \<times> avb_state \<Rightarrow> u8 \<times> avb_state" where
  "flush_talker_slot tx_ev p i = (\<lambda>(types, s).
     if \<not> te_valid (talker s p i) then (types, s)
     else
       let s = upd_talker p i (\<lambda>e. e\<lparr> te_sm := mrp_applicant_step (te_sm e) tx_ev \<rparr>) s;
           e = talker s p i
       in if pending_tx (te_sm e) = mrp_tx_none then (types, s)
          else let bit = attr_type_bit (te_attr_type e);
                   s = mrp_tx_flush_talker p i (types AND bit \<noteq> 0) s
               in (types AND NOT bit,
                   upd_talker p i (\<lambda>e. e\<lparr> te_sm := (te_sm e)\<lparr> pending_tx := mrp_tx_none \<rparr> \<rparr>) s))"

definition flush_listener_slot :: "mrp_event_e \<Rightarrow> int \<Rightarrow> nat \<Rightarrow> u8 \<times> avb_state \<Rightarrow> u8 \<times> avb_state" where
  "flush_listener_slot tx_ev p i = (\<lambda>(types, s).
     if \<not> le_valid (listener s p i) then (types, s)
     else
       let s = upd_listener p i (\<lambda>e. e\<lparr> le_sm := mrp_applicant_step (le_sm e) tx_ev \<rparr>) s;
           e = listener s p i
       in if pending_tx (le_sm e) = mrp_tx_none then (types, s)
          else let bit = attr_type_bit msrp_attr_type_listener;
                   s = mrp_tx_flush_listener p i (types AND bit \<noteq> 0) s
               in (types AND NOT bit,
                   upd_listener p i (\<lambda>e. e\<lparr> le_sm := (le_sm e)\<lparr> pending_tx := mrp_tx_none \<rparr> \<rparr>) s))"

definition flush_domain_slot :: "mrp_event_e \<Rightarrow> int \<Rightarrow> nat \<Rightarrow> u8 \<times> avb_state \<Rightarrow> u8 \<times> avb_state" where
  "flush_domain_slot tx_ev p i = (\<lambda>(types, s).
     if \<not> de_valid (domain s p i) then (types, s)
     else
       let s = upd_domain p i (\<lambda>e. e\<lparr> de_sm := mrp_applicant_step (de_sm e) tx_ev \<rparr>) s;
           e = domain s p i
       in if pending_tx (de_sm e) = mrp_tx_none then (types, s)
          else let bit = attr_type_bit msrp_attr_type_domain;
                   s = mrp_tx_flush_domain p i (types AND bit \<noteq> 0) s
               in (types AND NOT bit,
                   upd_domain p i (\<lambda>e. e\<lparr> de_sm := (de_sm e)\<lparr> pending_tx := mrp_tx_none \<rparr> \<rparr>) s))"

definition flush_vlan_slot :: "mrp_event_e \<Rightarrow> int \<Rightarrow> nat \<Rightarrow> bool \<times> avb_state \<Rightarrow> bool \<times> avb_state" where
  "flush_vlan_slot tx_ev p i = (\<lambda>(leaveall, s).
     if \<not> ve_valid (vlan s p i) then (leaveall, s)
     else
       let s = upd_vlan p i (\<lambda>e. e\<lparr> ve_sm := mrp_applicant_step (ve_sm e) tx_ev \<rparr>) s;
           e = vlan s p i
       in if pending_tx (ve_sm e) = mrp_tx_none then (leaveall, s)
          else (False, upd_vlan p i (\<lambda>e. e\<lparr> ve_sm := (ve_sm e)\<lparr> pending_tx := mrp_tx_none \<rparr> \<rparr>)
                         (mvrp_tx_emit p i leaveall s)))"

definition mrp_tx_flush_mvrp :: "int \<Rightarrow> bool \<Rightarrow> mrp_event_e \<Rightarrow> avb_state \<Rightarrow> avb_state" where
  "mrp_tx_flush_mvrp p leaveall tx_ev s =
     snd (foreach (length (s_mvrp_vlans s p)) (flush_vlan_slot tx_ev p) (leaveall, s))"

definition mrp_tx_flush_port :: "int \<Rightarrow> avb_state \<Rightarrow> avb_state" where
  "mrp_tx_flush_port p s =
     (if \<not> valid_port s p then s
      else
        let leaveall = mrp_leaveall_tx_pending (port s p);
            tx_ev = (if leaveall then mrp_event_tx_la else mrp_event_tx);
            lite = avb_lite s;
            x = (if leaveall then 0xFF else 0, s);
            x = (if lite then x else foreach (length (s_msrp_talkers s p)) (flush_talker_slot tx_ev p) x);
            x = (if lite then x else foreach (length (s_msrp_listeners s p)) (flush_listener_slot tx_ev p) x);
            x = foreach (length (s_msrp_domains s p)) (flush_domain_slot tx_ev p) x;
            s = mrp_tx_flush_mvrp p leaveall tx_ev (snd x)
        in upd_port p (\<lambda>q. q\<lparr> mrp_leaveall_tx_pending := False \<rparr>) s)"

section \<open>AVB Lite\<close>

definition MRP_LITE_JOIN_TIME_US :: int where "MRP_LITE_JOIN_TIME_US = 200 * 1000"

text \<open>Returns whether the Applicant produced a send, with the new machine and send time.\<close>

definition mrp_lite_entry_due ::
  "mrp_sm_state_t \<Rightarrow> int \<Rightarrow> int \<Rightarrow> bool \<times> mrp_sm_state_t \<times> int" where
  "mrp_lite_entry_due sm next_tx_us now =
     (if \<not> mrp_applicant_will_send (applicant sm) \<or> now < next_tx_us
      then (False, sm, next_tx_us)
      else let sm = mrp_applicant_step sm mrp_event_tx
           in (pending_tx sm \<noteq> mrp_tx_none, sm, now + MRP_LITE_JOIN_TIME_US))"

definition mrp_tx_flush_refusal :: "int \<Rightarrow> nat \<Rightarrow> avb_state \<Rightarrow> avb_state" where
  "mrp_tx_flush_refusal p i s =
     (let e = s_lite_refusals s ! i;
          pe = mrp_resolve_3pe (pending_tx (re_sm e)) (registrar (re_sm e))
      in if pe < 0 then s
         else let msg = (re_wire e)
                \<lparr> tm_header := talker_header msrp_attr_type_talker_failed False (tm_header (re_wire e)),
                  tm_event := int_to_3pe pe 0 0 \<rparr>
              in mrp_send_attr p (msrp_talker_octets msrp_attr_type_talker_failed msg) 39
                   (Some (re_listener_mac e)) s)"

definition lite_talker_slot :: "int \<Rightarrow> int \<Rightarrow> nat \<Rightarrow> bool \<times> avb_state \<Rightarrow> bool \<times> avb_state" where
  "lite_talker_slot p now i = (\<lambda>(sent, s).
     let e = talker s p i in
     if \<not> te_valid e then (sent, s)
     else case mrp_lite_entry_due (te_sm e) (te_lite_next_tx_us e) now of (due, sm, next) \<Rightarrow>
       let s = upd_talker p i (\<lambda>e. e\<lparr> te_sm := sm, te_lite_next_tx_us := next \<rparr>) s;
           s = (if due then mrp_tx_flush_talker p i False s else s)
       in (sent \<or> due, upd_talker p i (\<lambda>e. e\<lparr> te_sm := (te_sm e)\<lparr> pending_tx := mrp_tx_none \<rparr> \<rparr>) s))"

definition lite_listener_slot :: "int \<Rightarrow> int \<Rightarrow> nat \<Rightarrow> bool \<times> avb_state \<Rightarrow> bool \<times> avb_state" where
  "lite_listener_slot p now i = (\<lambda>(sent, s).
     let e = listener s p i in
     if \<not> le_valid e then (sent, s)
     else case mrp_lite_entry_due (le_sm e) (le_lite_next_tx_us e) now of (due, sm, next) \<Rightarrow>
       let s = upd_listener p i (\<lambda>e. e\<lparr> le_sm := sm, le_lite_next_tx_us := next \<rparr>) s;
           s = (if due then mrp_tx_flush_listener p i False s else s)
       in (sent \<or> due, upd_listener p i (\<lambda>e. e\<lparr> le_sm := (le_sm e)\<lparr> pending_tx := mrp_tx_none \<rparr> \<rparr>) s))"

definition lite_refusal_slot :: "int \<Rightarrow> int \<Rightarrow> nat \<Rightarrow> bool \<times> avb_state \<Rightarrow> bool \<times> avb_state" where
  "lite_refusal_slot p now i = (\<lambda>(sent, s).
     let e = s_lite_refusals s ! i in
     if \<not> re_valid e then (sent, s)
     else case mrp_lite_entry_due (re_sm e) (re_lite_next_tx_us e) now of (due, sm, next) \<Rightarrow>
       let s = upd_refusal i (\<lambda>e. e\<lparr> re_sm := sm, re_lite_next_tx_us := next \<rparr>) s;
           s = (if due then mrp_tx_flush_refusal p i s else s);
           s = upd_refusal i (\<lambda>e. e\<lparr> re_sm := (re_sm e)\<lparr> pending_tx := mrp_tx_none \<rparr> \<rparr>) s;
           a = applicant (re_sm (s_lite_refusals s ! i))
       in (sent \<or> due, if \<not> mrp_applicant_declaring a \<and> a \<noteq> mrp_applicant_la
                       then upd_refusal i (\<lambda>e. e\<lparr> re_valid := False \<rparr>) s else s))"

definition mrp_lite_flush :: "int \<Rightarrow> int \<Rightarrow> avb_state \<Rightarrow> bool \<times> avb_state" where
  "mrp_lite_flush p now s =
     (let x = foreach (length (s_msrp_talkers s p)) (lite_talker_slot p now) (False, s);
          x = foreach (length (s_msrp_listeners s p)) (lite_listener_slot p now) x
      in if p \<noteq> 0 then x
         else foreach (length (s_lite_refusals s)) (lite_refusal_slot p now) x)"

definition mrp_lite_redeclare_sm :: "int \<Rightarrow> mrp_sm_state_t \<Rightarrow> int \<Rightarrow> mrp_sm_state_t \<times> int" where
  "mrp_lite_redeclare_sm now sm next_tx_us =
     (if \<not> mrp_applicant_declaring (applicant sm) then (sm, next_tx_us)
      else let sm' = mrp_applicant_step sm mrp_event_r_la
           in (sm', if applicant sm' \<noteq> applicant sm \<and> mrp_applicant_will_send (applicant sm')
                    then now else next_tx_us))"

definition mrp_lite_redeclare_all :: "int \<Rightarrow> int \<Rightarrow> avb_state \<Rightarrow> avb_state" where
  "mrp_lite_redeclare_all p now s =
     (if \<not> valid_port s p then s
      else
        let s = s\<lparr> s_msrp_talkers := (s_msrp_talkers s)(p := map (\<lambda>e.
                  if te_valid e \<and> locally_originated e
                  then case mrp_lite_redeclare_sm now (te_sm e) (te_lite_next_tx_us e) of
                    (sm, t) \<Rightarrow> e\<lparr> te_sm := sm, te_lite_next_tx_us := t \<rparr>
                  else e) (s_msrp_talkers s p)) \<rparr>;
            s = s\<lparr> s_msrp_listeners := (s_msrp_listeners s)(p := map (\<lambda>e.
                  if le_valid e
                  then case mrp_lite_redeclare_sm now (le_sm e) (le_lite_next_tx_us e) of
                    (sm, t) \<Rightarrow> e\<lparr> le_sm := sm, le_lite_next_tx_us := t \<rparr>
                  else e) (s_msrp_listeners s p)) \<rparr>
        in if p \<noteq> 0 then s
           else s\<lparr> s_lite_refusals := map (\<lambda>e.
                  if re_valid e
                  then case mrp_lite_redeclare_sm now (re_sm e) (re_lite_next_tx_us e) of
                    (sm, t) \<Rightarrow> e\<lparr> re_sm := sm, re_lite_next_tx_us := t \<rparr>
                  else e) (s_lite_refusals s) \<rparr>)"

definition mrp_lite_enter :: "int \<Rightarrow> avb_state \<Rightarrow> avb_state" where
  "mrp_lite_enter p s = (let s = s\<lparr> s_mrp_lite := True \<rparr> in mrp_lite_redeclare_all p (now_us s) s)"

definition mrp_lite_exit :: "avb_state \<Rightarrow> avb_state" where
  "mrp_lite_exit s = s\<lparr> s_mrp_lite := False,
     s_lite_refusals := replicate (length (s_lite_refusals s)) refusal_entry_zero \<rparr>"

section \<open>Refusals\<close>

definition mrp_lite_refusal_find :: "octets \<Rightarrow> octets \<Rightarrow> avb_state \<Rightarrow> nat option" where
  "mrp_lite_refusal_find stream_id listener_mac s =
     slot_find (\<lambda>e. re_valid e \<and> ti_stream_id (tm_info (re_wire e)) = stream_id
        \<and> re_listener_mac e = listener_mac) (s_lite_refusals s)"

text \<open>The first loop of \<open>mrp_lite_sync_refusals\<close>: refusals no longer wanted are withdrawn.\<close>

definition refusal_withdraw ::
  "bool \<Rightarrow> int \<Rightarrow> octets \<Rightarrow> octets list \<Rightarrow> msrp_lite_refusal_entry_t \<Rightarrow> msrp_lite_refusal_entry_t" where
  "refusal_withdraw lite now stream_id refused_macs e =
     (if \<not> re_valid e \<or> ti_stream_id (tm_info (re_wire e)) \<noteq> stream_id
         \<or> re_listener_mac e \<in> set refused_macs
         \<or> \<not> mrp_applicant_declaring (applicant (re_sm e))
      then e
      else let sm = mrp_withdraw_step lite (re_sm e)
           in e\<lparr> re_sm := sm, re_lite_next_tx_us :=
                mrp_lite_note_local now sm (applicant (re_sm e)) (re_lite_next_tx_us e) \<rparr>)"

definition refusal_declare_step :: "int \<Rightarrow> msrp_lite_refusal_entry_t \<Rightarrow> msrp_lite_refusal_entry_t" where
  "refusal_declare_step now e =
     (let before = applicant (re_sm e);
          sm = mrp_applicant_step (re_sm e) (mrp_declare_event (re_sm e))
      in e\<lparr> re_sm := sm, re_lite_next_tx_us :=
           (if applicant sm \<noteq> before \<or> applicant sm = mrp_applicant_vn then now
            else re_lite_next_tx_us e) \<rparr>)"

text \<open>One iteration of its second loop: the refusal of one listener is entered, renewed with a
  changed value, or left alone.\<close>

definition refusal_sync_one ::
  "octets \<Rightarrow> msrp_talker_message_u \<Rightarrow> octets \<Rightarrow> avb_state \<Rightarrow> avb_state" where
  "refusal_sync_one stream_id candidate mac s =
     (case mrp_lite_refusal_find stream_id mac s of
        None \<Rightarrow>
          (case slot_find (\<lambda>e. \<not> re_valid e) (s_lite_refusals s) of
             None \<Rightarrow> s
           | Some i \<Rightarrow> upd_refusal i (\<lambda>_. refusal_declare_step (now_us s)
               (refusal_entry_zero\<lparr> re_valid := True, re_listener_mac := mac,
                  re_sm := mrp_sm_idle_state, re_wire := candidate \<rparr>)) s)
      | Some i \<Rightarrow>
          let e = s_lite_refusals s ! i in
          if tm_info (re_wire e) \<noteq> tm_info candidate
             \<or> tm_failure_code (re_wire e) \<noteq> tm_failure_code candidate
          then upd_refusal i (\<lambda>e. refusal_declare_step (now_us s)
                 (e\<lparr> re_sm := mrp_sm_reset_for_new_value (re_sm e), re_wire := candidate \<rparr>)) s
          else if mrp_applicant_declaring (applicant (re_sm e)) then s
          else upd_refusal i (refusal_declare_step (now_us s)) s)"

definition mrp_lite_sync_refusals ::
  "octets \<Rightarrow> (octets \<times> u8) list \<Rightarrow> octets \<Rightarrow> octets \<Rightarrow> u16 \<Rightarrow> u16 \<Rightarrow> bool \<Rightarrow> avb_state \<Rightarrow> avb_state" where
  "mrp_lite_sync_refusals stream_id refused declared_da vlan_id mfs mfi class_b s =
     (let s = s\<lparr> s_lite_refusals := map (refusal_withdraw (s_mrp_lite s) (now_us s) stream_id
                   (map fst refused)) (s_lite_refusals s) \<rparr>
      in fold (\<lambda>(mac, failure_code) s.
           refusal_sync_one stream_id
             (msrp_talker_message_zero\<lparr>
                tm_info := mrp_build_talker_info s talker_adv_info_zero stream_id declared_da vlan_id
                             mfs mfi class_b,
                tm_failure_code := failure_code,
                tm_failure_bridge_id := mrp_own_failure_bridge_id s \<rparr>) mac s) refused s)"

end
