(* ===== verification/Msrp_Map.thy ===== *)
theory Msrp_Map
  imports Msrp_Tx
begin

text \<open>
  What follows from a registration (\<open>mrp.c\<close> section 6a): the bookkeeping of an end station's
  streams, and the bridge's MAP, which propagates talkers with admission control and merges
  listeners (IEEE 802.1Q 35.2.4).  The listener declaration rules are those of \<open>avb.c\<close>.
\<close>

section \<open>The listener declaration of an input stream\<close>

definition avb_tspec_copy_bps :: "u16 \<Rightarrow> u16 \<Rightarrow> bool \<Rightarrow> u32 \<Rightarrow> u64" where
  "avb_tspec_copy_bps max_frame_size max_interval_frames class_b overhead_octets =
     (let intervals = (if class_b then 4000 else 8000)
      in (ucast max_frame_size + ucast overhead_octets) * ucast max_interval_frames * intervals * 8)"

definition AVB_TSPEC_OVERHEAD_OCTETS :: u32 where "AVB_TSPEC_OVERHEAD_OCTETS = 42"

definition avb_input_stream_decl_event :: "avb_state \<Rightarrow> avb_listener_stream_s \<Rightarrow> msrp_listener_event_t" where
  "avb_input_stream_decl_event s st =
     (case mrp_talker_failed_active 0 (ls_stream_id st) s of
        Some failure_code \<Rightarrow>
          if failure_code \<noteq> 0 then msrp_listener_event_ready_failed
          else if ls_connected st \<and> mrp_talker_advertise_active 0 (ls_stream_id st) s
          then msrp_listener_event_ready else msrp_listener_event_asking_failed
      | None \<Rightarrow>
          if ls_connected st \<and> mrp_talker_advertise_active 0 (ls_stream_id st) s
          then msrp_listener_event_ready else msrp_listener_event_asking_failed)"

text \<open>What an input stream takes of the link by its talker's TSpec.\<close>

definition input_stream_bps :: "avb_state \<Rightarrow> avb_listener_stream_s \<Rightarrow> u64" where
  "input_stream_bps s st =
     (case mrp_talker_advertise_tspec 0 (ls_stream_id st) s of
        None \<Rightarrow> 0
      | Some (mfs, mfi) \<Rightarrow> avb_tspec_copy_bps mfs (if mfi \<noteq> 0 then mfi else 1) (ls_class_b st)
                           AVB_TSPEC_OVERHEAD_OCTETS)"

function avb_listener_decl_event :: "avb_state \<Rightarrow> nat \<Rightarrow> msrp_listener_event_t" where
  "avb_listener_decl_event s index =
     (let decl = avb_input_stream_decl_event s (input_streams s ! index) in
      if \<not> avb_lite s then decl
      else if decl = msrp_listener_event_ready_failed then msrp_listener_event_asking_failed
      else if decl \<noteq> msrp_listener_event_ready then decl
      else
        let budget_bps = ucast (link_speed_mbps (port s 0)) * 1000000 * 3 div 4;
            ready_bps = sum_list (map (\<lambda>j.
              if j = index then input_stream_bps s (input_streams s ! j)
              else if avb_listener_decl_event s j \<noteq> msrp_listener_event_ready then 0
              else input_stream_bps s (input_streams s ! j))
              [0..<min (Suc index) (length (input_streams s))])
        in if ready_bps > budget_bps then msrp_listener_event_asking_failed else decl)"
  by pat_completeness auto
termination
  by (relation "measure snd") auto

declare avb_listener_decl_event.simps [simp del]

section \<open>Connected listeners of an output stream\<close>

definition connected_count :: "avb_talker_stream_s \<Rightarrow> nat" where
  "connected_count st = unat (ucast (octets_to_uint (connection_count st) 2) :: u16)"

definition find_connected_listener :: "avb_talker_stream_s \<Rightarrow> octets \<Rightarrow> nat option" where
  "find_connected_listener st mac =
     first_index (\<lambda>i. cl_mac_addr (connected_listeners st ! i) = mac)
       (min (connected_count st) AVB_MAX_NUM_CONNECTED_LISTENERS)"

definition find_connected_listener_by_entity :: "avb_talker_stream_s \<Rightarrow> octets \<Rightarrow> nat option" where
  "find_connected_listener_by_entity st entity_id =
     (if entity_id = zeros 8 then None
      else first_index (\<lambda>i. cl_identity_id (connected_listeners st ! i) = entity_id)
             (min (connected_count st) AVB_MAX_NUM_CONNECTED_LISTENERS))"

definition upd_connected ::
  "nat \<Rightarrow> (connected_listener_s \<Rightarrow> connected_listener_s) \<Rightarrow> avb_talker_stream_s \<Rightarrow> avb_talker_stream_s" where
  "upd_connected i f st = st\<lparr> connected_listeners := upd_at i f (connected_listeners st) \<rparr>"

definition add_connected_listener ::
  "avb_talker_stream_s \<Rightarrow> octets \<Rightarrow> nat option \<times> avb_talker_stream_s" where
  "add_connected_listener st mac =
     (let count = connected_count st in
      if count \<ge> AVB_MAX_NUM_CONNECTED_LISTENERS then (None, st)
      else (Some count,
            (upd_connected count (\<lambda>c. c\<lparr> cl_mac_addr := mac \<rparr>) st)
              \<lparr> connection_count := int_to_octets (of_nat (count + 1)) 2 \<rparr>))"

text \<open>The scan of the known listener entities at a MAC address: the row of the first one that
  already has a connection, else how many there are and the last of them.\<close>

fun scan_listener_entities ::
  "avb_talker_stream_s \<Rightarrow> octets \<Rightarrow> avb_listener_s list \<Rightarrow> nat \<Rightarrow> avb_listener_s option \<Rightarrow>
     nat option \<times> nat \<times> avb_listener_s option" where
  "scan_listener_entities st mac [] n sole = (None, n, sole)"
| "scan_listener_entities st mac (l # ls) n sole =
     (if known_mac_addr l \<noteq> mac then scan_listener_entities st mac ls n sole
      else case find_connected_listener_by_entity st (known_entity_id l) of
        Some idx \<Rightarrow> (Some idx, n, sole)
      | None \<Rightarrow> scan_listener_entities st mac ls (n + 1) (Some l))"

definition find_or_add_msrp_listener ::
  "avb_state \<Rightarrow> avb_talker_stream_s \<Rightarrow> octets \<Rightarrow> nat option \<times> avb_talker_stream_s" where
  "find_or_add_msrp_listener s st mac =
     (case find_connected_listener st mac of
        Some idx \<Rightarrow> (Some idx, st)
      | None \<Rightarrow>
        (case (if ATDECC (build s) then scan_listener_entities st mac (known_listeners s) 0 None
               else (None, 0, None)) of
           (Some idx, _, _) \<Rightarrow> (Some idx, upd_connected idx (\<lambda>c. c\<lparr> cl_mac_addr := mac \<rparr>) st)
         | (None, entities_at_mac, sole) \<Rightarrow>
           (case add_connected_listener st mac of
              (None, st) \<Rightarrow> (None, st)
            | (Some idx, st) \<Rightarrow>
                (Some idx,
                 if entities_at_mac = 1
                 then upd_connected idx (\<lambda>c. c\<lparr> cl_identity_id := known_entity_id (the sole),
                        cl_identity_uid := zeros 2 \<rparr>) st
                 else st))))"

definition any_listener_ready :: "avb_talker_stream_s \<Rightarrow> bool" where
  "any_listener_ready st \<longleftrightarrow>
     first_index (\<lambda>i. msrp_ready (connected_listeners st ! i))
       (min (connected_count st) AVB_MAX_NUM_CONNECTED_LISTENERS) \<noteq> None"

definition any_listener_acmp_connected :: "avb_talker_stream_s \<Rightarrow> bool" where
  "any_listener_acmp_connected st \<longleftrightarrow>
     first_index (\<lambda>i. acmp_connected (connected_listeners st ! i))
       (min (connected_count st) AVB_MAX_NUM_CONNECTED_LISTENERS) \<noteq> None"

definition avb_remove_talker_listener_by_index :: "nat \<Rightarrow> avb_talker_stream_s \<Rightarrow> avb_talker_stream_s" where
  "avb_remove_talker_listener_by_index idx st =
     (let count = min (connected_count st) AVB_MAX_NUM_CONNECTED_LISTENERS in
      if idx \<ge> count then st
      else st\<lparr> connected_listeners := (fold (\<lambda>i l. l[i := l ! (i + 1)]) [idx..<count - 1]
                 (connected_listeners st))[count - 1 := connected_listener_zero],
               connection_count := int_to_octets (of_nat (count - 1)) 2 \<rparr>)"

section \<open>Latency\<close>

definition avb_port_forwarding_latency_ns :: "avb_port_s \<Rightarrow> u32" where
  "avb_port_forwarding_latency_ns p =
     (if port_medium p = avb_port_medium_wifi_ftm then 500000 + 30000
      else 12000000 div (if link_speed_mbps p \<noteq> 0 then link_speed_mbps p else 100) + 30000)"

definition mrp_patch_egress_accumulated_latency ::
  "int \<Rightarrow> octets \<Rightarrow> msrp_attr_type_t \<Rightarrow> u32 \<Rightarrow> avb_state \<Rightarrow> avb_state" where
  "mrp_patch_egress_accumulated_latency p stream_id attr_type total_ns s =
     (case msrp_talker_find p stream_id attr_type s of
        None \<Rightarrow> s
      | Some i \<Rightarrow> upd_talker p i (\<lambda>e. e\<lparr> te_wire := (te_wire e)\<lparr> tm_info := (tm_info (te_wire e))
                    \<lparr> ti_accumulated_latency := int_to_octets (ucast total_ns) 4 \<rparr> \<rparr> \<rparr>) s)"

definition mrp_set_talker_latency :: "int \<Rightarrow> octets \<Rightarrow> avb_state \<Rightarrow> avb_state" where
  "mrp_set_talker_latency p stream_id s =
     mrp_patch_egress_accumulated_latency p stream_id msrp_attr_type_talker_advertise
       (if port_medium (port s p) = avb_port_medium_wifi_ftm
        then avb_port_forwarding_latency_ns (port s p) else 15000) s"

section \<open>Talkers at an end station\<close>

definition failure_mirror ::
  "avb_state \<Rightarrow> int \<Rightarrow> bool \<Rightarrow> msrp_talker_message_u \<Rightarrow> mrp_reg_transition_e \<Rightarrow> octets \<Rightarrow> octets" where
  "failure_mirror s p is_failed wire tr code =
     (let code = (if is_failed then [tm_failure_code wire, 0]
                  else if \<not> avb_lite s
                       \<or> mrp_talker_failed_active p (ti_stream_id (tm_info wire)) s = None
                  then [0, 0] else code)
      in if tr = mrp_reg_transition_deregister \<and> is_failed then [0, 0] else code)"

definition talker_endpoint_update ::
  "int \<Rightarrow> msrp_attr_type_t \<Rightarrow> msrp_talker_message_u \<Rightarrow> mrp_reg_transition_e \<Rightarrow> avb_state \<Rightarrow> avb_state" where
  "talker_endpoint_update p attr_type wire tr s =
     (let info = tm_info wire; is_failed = (attr_type = msrp_attr_type_talker_failed) in
      if ti_stream_id info = zeros 8 then s
      else case slot_find (\<lambda>st. ls_stream_id st = ti_stream_id info) (input_streams s) of
        None \<Rightarrow> s
      | Some i \<Rightarrow>
          let s = upd_input i (\<lambda>st. st\<lparr> ls_msrp_accumulated_latency := ti_accumulated_latency info,
                    ls_msrp_failure_code := failure_mirror s p is_failed wire tr
                                              (ls_msrp_failure_code st) \<rparr>) s
          in if \<not> ROLE_BRIDGE (build s) \<and> tr \<noteq> mrp_reg_transition_none
                \<and> ls_connected (input_streams s ! i)
             then mrp_declare_listener p (ls_stream_id (input_streams s ! i))
                    (avb_listener_decl_event s i) s
             else s)"

section \<open>Propagation of talkers\<close>

definition msrp_wifi_class_a_allowed :: "avb_state \<Rightarrow> bool" where
  "msrp_wifi_class_a_allowed s =
     (case WIFI_DELIVERABLE_FRAMES (build s) of
        None \<Rightarrow> False
      | Some frames \<Rightarrow> allow_class_a_over_wifi s \<and> frames \<ge> 12000)"

definition msrp_wifi_admission_refused :: "octets \<Rightarrow> avb_state \<Rightarrow> bool" where
  "msrp_wifi_admission_refused stream_id s \<longleftrightarrow>
     slot_find (\<lambda>a. wa_valid a \<and> wa_refused a \<and> wa_stream_id a = stream_id)
       (s_wifi_admission (wifi s)) \<noteq> None"

text \<open>The bandwidth of a TSpec, in the 32 bits of the code.\<close>

definition map_request_bps :: "u16 \<Rightarrow> u16 \<Rightarrow> int \<Rightarrow> u32" where
  "map_request_bps mfs mfi cls =
     (ucast mfs + 42) * ucast mfi * (if cls = AVB_SR_CLASS_A then 8000 else 4000) * 8"

definition on_ingress_admission ::
  "int \<Rightarrow> nat option \<Rightarrow> (msrp_talker_entry_t \<times> admission_state \<Rightarrow> 'a \<times> (msrp_talker_entry_t \<times> admission_state))
     \<Rightarrow> 'a \<Rightarrow> avb_state \<Rightarrow> 'a \<times> avb_state" where
  "on_ingress_admission p ingress f none s =
     (case ingress of
        None \<Rightarrow> (none, s)
      | Some i \<Rightarrow> (case f (talker s p i, admission s) of
          (r, (e, a)) \<Rightarrow> (r, upd_talker p i (\<lambda>_. e) (s\<lparr> admission := a \<rparr>))))"

definition map_release :: "int \<Rightarrow> nat option \<Rightarrow> int \<Rightarrow> avb_state \<Rightarrow> avb_state" where
  "map_release p ingress y s =
     snd (on_ingress_admission p ingress (\<lambda>x. ((), msrp_release_admission (ports s) y x)) () s)"

definition map_update :: "int \<Rightarrow> nat option \<Rightarrow> int \<Rightarrow> int \<Rightarrow> u32 \<Rightarrow> avb_state \<Rightarrow> int \<times> avb_state" where
  "map_update p ingress y cls bps s =
     on_ingress_admission p ingress (msrp_update_admission (ports s) y cls bps) (-1) s"

text \<open>Declare toward port \<open>y\<close> and put the accumulated latency into the entry.\<close>

definition map_declare_failed ::
  "int \<Rightarrow> talker_adv_info_s \<Rightarrow> u8 \<Rightarrow> octets option \<Rightarrow> u32 \<Rightarrow> avb_state \<Rightarrow> avb_state" where
  "map_declare_failed y info code bridge_id latency s =
     mrp_patch_egress_accumulated_latency y (ti_stream_id info) msrp_attr_type_talker_failed latency
       (mrp_declare_talker_failed y (ti_stream_id info) (ti_stream_dest_addr info) (ti_vlan_id info)
          (ucast (octets_to_uint (ti_tspec_max_frame_size info) 2))
          (ucast (octets_to_uint (ti_tspec_max_frame_interval info) 2))
          code (ti_priority info \<noteq> 3) bridge_id s)"

definition map_declare_advertise :: "int \<Rightarrow> talker_adv_info_s \<Rightarrow> u32 \<Rightarrow> avb_state \<Rightarrow> avb_state" where
  "map_declare_advertise y info latency s =
     mrp_patch_egress_accumulated_latency y (ti_stream_id info) msrp_attr_type_talker_advertise latency
       (mrp_declare_talker_advertise y (ti_stream_id info) (ti_stream_dest_addr info) (ti_vlan_id info)
          (ucast (octets_to_uint (ti_tspec_max_frame_size info) 2))
          (ucast (octets_to_uint (ti_tspec_max_frame_interval info) 2))
          (ti_priority info \<noteq> 3) s)"

definition map_talker_declare ::
  "int \<Rightarrow> bool \<Rightarrow> msrp_talker_message_u \<Rightarrow> nat option \<Rightarrow> int \<Rightarrow> avb_state \<Rightarrow> avb_state" where
  "map_talker_declare p is_failed wire ingress y s =
     (let info = tm_info wire;
          mfs = ucast (octets_to_uint (ti_tspec_max_frame_size info) 2);
          mfi = ucast (octets_to_uint (ti_tspec_max_frame_interval info) 2);
          cls = (if ti_priority info = 3 then AVB_SR_CLASS_A else AVB_SR_CLASS_B);
          wifi_egress = (port_medium (port s y) = avb_port_medium_wifi_ftm);
          latency = ucast (octets_to_uint (ti_accumulated_latency info) 4)
                    + avb_port_forwarding_latency_ns (port s y)
      in if is_failed then
           map_declare_failed y info (tm_failure_code wire) (Some (tm_failure_bridge_id wire)) latency s
         else if wifi_egress \<and> cls = AVB_SR_CLASS_A \<and> \<not> msrp_wifi_class_a_allowed s then
           map_declare_failed y info insufficient_bandwidth_for_traffic_class None latency
             (map_release p ingress y s)
         else if WIFI_UNICAST_STREAMS (build s) \<and> wifi_egress then
           (if msrp_wifi_admission_refused (ti_stream_id info) s
            then map_declare_failed y info insufficient_bandwidth None latency s
            else map_declare_advertise y info latency s)
         else (case map_update p ingress y cls (map_request_bps mfs mfi cls) s of
           (adm, s) \<Rightarrow>
             if adm = 0 then map_declare_advertise y info latency s
             else map_declare_failed y info insufficient_bandwidth_for_traffic_class None latency s))"

text \<open>What a talker event asks of the MAP: release the reservation, withdraw, declare; nothing
  at all on a steady-state reception.\<close>

definition map_talker_decision ::
  "mrp_reg_transition_e \<Rightarrow> bool \<Rightarrow> u8 \<Rightarrow> u16 \<Rightarrow> u16 \<Rightarrow> u8 \<Rightarrow> u16 \<Rightarrow> u16 \<Rightarrow> (bool \<times> bool \<times> bool) option" where
  "map_talker_decision tr is_failed old_priority old_mfs old_mfi new_priority mfs mfi =
     (case tr of
        mrp_reg_transition_register \<Rightarrow> Some (False, False, True)
      | mrp_reg_transition_deregister \<Rightarrow> Some (old_priority \<noteq> 0 \<and> \<not> is_failed, True, False)
      | mrp_reg_transition_none \<Rightarrow>
          let priority_changed = (old_priority \<noteq> 0 \<and> old_priority \<noteq> new_priority);
              tspec_changed = (old_priority \<noteq> 0 \<and> \<not> is_failed \<and> (old_mfs \<noteq> mfs \<or> old_mfi \<noteq> mfi))
          in if priority_changed \<or> tspec_changed then Some (\<not> is_failed, True, True) else None)"

definition map_talker_port ::
  "int \<Rightarrow> bool \<Rightarrow> msrp_talker_message_u \<Rightarrow> nat option \<Rightarrow> bool \<times> bool \<times> bool \<Rightarrow> nat \<Rightarrow> avb_state \<Rightarrow> avb_state" where
  "map_talker_port p is_failed wire ingress = (\<lambda>(do_release, do_withdraw, do_declare) y s.
     if int y = p \<or> port_type (port s (int y)) \<noteq> avb_port_type_bridged then s
     else
       let s = (if do_release then map_release p ingress (int y) s else s);
           s = (if do_withdraw then mrp_withdraw_talker (int y) (ti_stream_id (tm_info wire)) s else s)
       in if do_declare then map_talker_declare p is_failed wire ingress (int y) s else s)"

definition map_talker ::
  "int \<Rightarrow> msrp_attr_type_t \<Rightarrow> msrp_talker_message_u \<Rightarrow> mrp_reg_transition_e \<Rightarrow> avb_state \<Rightarrow> avb_state" where
  "map_talker p attr_type wire tr s =
     (if port_type (port s p) \<noteq> avb_port_type_bridged then s
      else
        let info = tm_info wire;
            mfs = ucast (octets_to_uint (ti_tspec_max_frame_size info) 2);
            mfi = ucast (octets_to_uint (ti_tspec_max_frame_interval info) 2);
            is_failed = (attr_type = msrp_attr_type_talker_failed);
            ingress = msrp_talker_find p (ti_stream_id info) attr_type s;
            (old_priority, old_mfs, old_mfi) =
              (case ingress of None \<Rightarrow> (0, 0, 0)
               | Some i \<Rightarrow> (last_propagated_priority (talker s p i), last_propagated_mfs (talker s p i),
                           last_propagated_mfi (talker s p i)))
        in case map_talker_decision tr is_failed old_priority old_mfs old_mfi
                  (ucast (ti_priority info)) mfs mfi of
             None \<Rightarrow> s
           | Some (do_release, do_withdraw, do_declare) \<Rightarrow>
               let s = foreach (ports s)
                         (map_talker_port p is_failed wire ingress (do_release, do_withdraw, do_declare)) s
               in case ingress of
                    None \<Rightarrow> s
                  | Some i \<Rightarrow>
                      if do_declare
                      then upd_talker p i (\<lambda>e. e\<lparr> last_propagated_priority := ucast (ti_priority info),
                             last_propagated_mfs := mfs, last_propagated_mfi := mfi \<rparr>) s
                      else if do_withdraw
                      then upd_talker p i (\<lambda>e. e\<lparr> last_propagated_priority := 0,
                             last_propagated_mfs := 0, last_propagated_mfi := 0 \<rparr>) s
                      else s)"

definition mrp_on_talker_registrar_change ::
  "int \<Rightarrow> msrp_attr_type_t \<Rightarrow> msrp_talker_message_u \<Rightarrow> mrp_reg_transition_e \<Rightarrow> avb_state \<Rightarrow> avb_state" where
  "mrp_on_talker_registrar_change p attr_type wire tr s =
     (let s = talker_endpoint_update p attr_type wire tr s
      in if ROLE_BRIDGE (build s) then map_talker p attr_type wire tr s else s)"

section \<open>Propagation of listeners\<close>

text \<open>The declaration of the listeners behind one port, when its Registrar holds one; with the
  Wi-Fi re-addressing, those behind the Wi-Fi port cannot be served a refused stream.\<close>

definition merge_peer_decl :: "int \<Rightarrow> octets \<Rightarrow> avb_state \<Rightarrow> msrp_listener_event_t option" where
  "merge_peer_decl p stream_id s =
     (case msrp_listener_find p stream_id s of
        None \<Rightarrow> None
      | Some i \<Rightarrow>
          let e = listener s p i in
          if registrar (le_sm e) \<noteq> mrp_registrar_in then None
          else if WIFI_UNICAST_STREAMS (build s) \<and> p = s_wifi_admission_port (wifi s)
                  \<and> peer_decl e \<noteq> msrp_listener_event_ignore \<and> msrp_wifi_admission_refused stream_id s
          then Some msrp_listener_event_asking_failed
          else Some (peer_decl e))"

definition msrp_merge_listener_decls ::
  "int \<Rightarrow> octets \<Rightarrow> avb_state \<Rightarrow> msrp_listener_event_t option" where
  "msrp_merge_listener_decls exclude_port stream_id s =
     (let (any_ready, any_asking, any_ready_failed) =
        foreach (ports s) (\<lambda>p (r, a, f).
          if int p = exclude_port then (r, a, f)
          else case merge_peer_decl (int p) stream_id s of
              None \<Rightarrow> (r, a, f)
            | Some decl \<Rightarrow> (r \<or> decl = msrp_listener_event_ready,
                           a \<or> decl = msrp_listener_event_asking_failed,
                           f \<or> decl = msrp_listener_event_ready_failed)) (False, False, False)
      in if \<not> any_ready \<and> \<not> any_asking \<and> \<not> any_ready_failed then None
         else if any_ready_failed \<or> (any_ready \<and> any_asking)
         then Some msrp_listener_event_ready_failed
         else if any_ready then Some msrp_listener_event_ready
         else Some msrp_listener_event_asking_failed)"

definition propagate_listener_to :: "int \<Rightarrow> octets \<Rightarrow> nat \<Rightarrow> avb_state \<Rightarrow> avb_state" where
  "propagate_listener_to p stream_id y s =
     (if int y = p \<or> port_type (port s (int y)) \<noteq> avb_port_type_bridged then s
      else
        let egress = msrp_listener_find (int y) stream_id s;
            currently_declaring = (case egress of None \<Rightarrow> False
              | Some i \<Rightarrow> applicant (le_sm (listener s (int y) i)) \<noteq> mrp_applicant_vo)
        in case msrp_merge_listener_decls (int y) stream_id s of
             None \<Rightarrow> if currently_declaring then mrp_withdraw_listener (int y) stream_id s else s
           | Some merged \<Rightarrow>
               if \<not> currently_declaring \<or> decl_event (listener s (int y) (the egress)) \<noteq> merged
               then mrp_declare_listener (int y) stream_id merged s else s)"

definition msrp_propagate_listener :: "int \<Rightarrow> octets \<Rightarrow> avb_state \<Rightarrow> avb_state" where
  "msrp_propagate_listener p stream_id s =
     foreach (ports s) (propagate_listener_to p stream_id) s"

section \<open>Listeners of an end station's own streams\<close>

definition MSRP_ASKING_FAILED_HOLDDOWN_US :: int where
  "MSRP_ASKING_FAILED_HOLDDOWN_US = 10 * 1000 * 1000"

definition listener_should_stop :: "avb_state \<Rightarrow> nat \<Rightarrow> bool" where
  "listener_should_stop s i \<longleftrightarrow>
     (let st = output_streams s ! i in
      \<not> any_listener_ready st \<or> (\<not> milan_compliant s \<and> \<not> any_listener_acmp_connected st))"

definition listener_unready :: "connected_listener_s \<Rightarrow> connected_listener_s" where
  "listener_unready c = c\<lparr> msrp_ready := False, asking_failed := False \<rparr>"

text \<open>The row of a listener that left: its readiness goes, and the row with it unless ACMP
  connected it.\<close>

definition listener_row_leave :: "nat \<Rightarrow> avb_talker_stream_s \<Rightarrow> avb_talker_stream_s" where
  "listener_row_leave lidx st =
     (let st = upd_connected lidx listener_unready st in
      if acmp_connected (connected_listeners st ! lidx) then st
      else avb_remove_talker_listener_by_index lidx st)"

text \<open>The whole registration aged out.\<close>

definition listener_aged_out :: "nat \<Rightarrow> mrp_reg_transition_e \<Rightarrow> avb_state \<Rightarrow> avb_state" where
  "listener_aged_out i tr s =
     (if tr = mrp_reg_transition_deregister \<and> \<not> avb_lite s then
        let count = min (connected_count (output_streams s ! i)) AVB_MAX_NUM_CONNECTED_LISTENERS;
            s = upd_output i (fold listener_row_leave (rev [0..<count])) s
        in if listener_should_stop s i \<and> streaming (output_streams s ! i)
           then avb_stop_stream_out i s else s
      else s)"

text \<open>AVB Lite: one listener's own Leave.\<close>

definition listener_left :: "nat \<Rightarrow> octets \<Rightarrow> avb_state \<Rightarrow> avb_state" where
  "listener_left i src s =
     (case find_connected_listener (output_streams s ! i) src of
        None \<Rightarrow> s
      | Some lidx \<Rightarrow>
          let s = upd_output i (listener_row_leave lidx) s
          in if listener_should_stop s i \<and> streaming (output_streams s ! i) \<and> \<not> avb_lite s
             then avb_stop_stream_out i s else s)"

definition listener_ready ::
  "nat \<Rightarrow> bool \<Rightarrow> octets \<Rightarrow> avb_state \<Rightarrow> avb_state" where
  "listener_ready i ready_failed src s =
     (case find_or_add_msrp_listener s (output_streams s ! i) src of
        (None, st) \<Rightarrow> upd_output i (\<lambda>_. st) s
      | (Some lidx, st) \<Rightarrow>
          let st = upd_connected lidx (\<lambda>c. c\<lparr> last_seen_us := now_us s, msrp_ready := True,
                     msrp_ready_live := True, asking_failed_since_us := 0,
                     asking_failed := ready_failed \<rparr>) st;
              s = upd_output i (\<lambda>_. st) s;
              row = connected_listeners st ! lidx;
              should_start = (if milan_compliant s then msrp_ready row else acmp_connected row)
          in if should_start \<and> \<not> streaming st \<and> \<not> avb_lite s then avb_start_stream_out i s else s)"

definition listener_asking_failed :: "nat \<Rightarrow> octets \<Rightarrow> avb_state \<Rightarrow> avb_state" where
  "listener_asking_failed i src s =
     (case find_or_add_msrp_listener s (output_streams s ! i) src of
        (None, st) \<Rightarrow> upd_output i (\<lambda>_. st) s
      | (Some lidx, st) \<Rightarrow>
          let now = now_us s;
              st = upd_connected lidx (\<lambda>c. c\<lparr> last_seen_us := now, asking_failed := True \<rparr>) st;
              row = connected_listeners st ! lidx
          in if \<not> msrp_ready_live row then upd_output i (\<lambda>_. st) s
             else if asking_failed_since_us row = 0 then
               upd_output i (\<lambda>_. upd_connected lidx (\<lambda>c. c\<lparr> asking_failed_since_us := now \<rparr>) st) s
             else if now - asking_failed_since_us row > MSRP_ASKING_FAILED_HOLDDOWN_US then
               let s = upd_output i (\<lambda>_. upd_connected lidx (\<lambda>c. c\<lparr> msrp_ready := False,
                         msrp_ready_live := False, asking_failed_since_us := 0 \<rparr>) st) s
               in if listener_should_stop s i \<and> streaming (output_streams s ! i) \<and> \<not> avb_lite s
                  then avb_stop_stream_out i s else s
             else upd_output i (\<lambda>_. st) s)"

text \<open>Only the first output stream with the declared stream ID is looked at.\<close>

definition listener_endpoint_update ::
  "msrp_listener_message_s \<Rightarrow> mrp_reg_transition_e \<Rightarrow> octets option \<Rightarrow> avb_state \<Rightarrow> avb_state" where
  "listener_endpoint_update wire tr src_addr s =
     (let decl = msrp_listener_event_of (pe4_event1 (lm_declaration wire));
          attr_event = fst (three_pe_to_int (lm_event wire))
      in case slot_find (\<lambda>st. ts_stream_id st = lm_stream_id wire) (output_streams s) of
           None \<Rightarrow> s
         | Some i \<Rightarrow>
           (case src_addr of
              None \<Rightarrow> listener_aged_out i tr s
            | Some src \<Rightarrow>
                if attr_event = mrp_attr_event_lv \<and> \<not> avb_lite s then s
                else if attr_event = mrp_attr_event_lv then listener_left i src s
                else if decl = msrp_listener_event_ready \<or> decl = msrp_listener_event_ready_failed
                then listener_ready i (decl = msrp_listener_event_ready_failed) src s
                else if decl = msrp_listener_event_asking_failed then listener_asking_failed i src s
                else s))"

definition mrp_on_listener_registrar_change ::
  "int \<Rightarrow> msrp_listener_message_s \<Rightarrow> mrp_reg_transition_e \<Rightarrow> bool \<Rightarrow> octets option \<Rightarrow> avb_state \<Rightarrow> avb_state" where
  "mrp_on_listener_registrar_change p wire tr peer_decl_changed src_addr s =
     (let s = listener_endpoint_update wire tr src_addr s
      in if \<not> ROLE_BRIDGE (build s) \<or> (tr = mrp_reg_transition_none \<and> \<not> peer_decl_changed)
            \<or> port_type (port s p) \<noteq> avb_port_type_bridged
         then s else msrp_propagate_listener p (lm_stream_id wire) s)"

section \<open>Propagation of domains and VLANs\<close>

definition mrp_on_domain_registrar_change ::
  "int \<Rightarrow> msrp_domain_message_s \<Rightarrow> mrp_reg_transition_e \<Rightarrow> avb_state \<Rightarrow> avb_state" where
  "mrp_on_domain_registrar_change p wire tr s =
     (if \<not> ROLE_BRIDGE (build s) \<or> tr = mrp_reg_transition_none
         \<or> port_type (port s p) \<noteq> avb_port_type_bridged
      then s
      else foreach (ports s) (\<lambda>y s.
        if int y = p \<or> port_type (port s (int y)) \<noteq> avb_port_type_bridged
           \<or> tr = mrp_reg_transition_deregister
        then s
        else mrp_declare_domain (int y) (dm_sr_class_id wire) (dm_sr_class_priority wire)
               (dm_sr_class_vid wire) s) s)"

definition mrp_on_vlan_registrar_change ::
  "int \<Rightarrow> octets \<Rightarrow> mrp_reg_transition_e \<Rightarrow> avb_state \<Rightarrow> avb_state" where
  "mrp_on_vlan_registrar_change p vlan_id tr s =
     (if \<not> ROLE_BRIDGE (build s) \<or> port_type (port s p) \<noteq> avb_port_type_bridged then s
      else foreach (ports s) (\<lambda>y s.
        if int y = p \<or> port_type (port s (int y)) \<noteq> avb_port_type_bridged then s
        else if tr = mrp_reg_transition_register then mrp_declare_vlan (int y) vlan_id s
        else mrp_withdraw_vlan (int y) vlan_id s) s)"

end
