(* ===== verification/Wifi_Streams.thy ===== *)
theory Wifi_Streams
  imports Msrp_Map
begin

text \<open>
  Streams over the Wi-Fi port of a bridge (\<open>mrp.c\<close>, \<open>CONFIG_ESP_AVB_WIFI_UNICAST_STREAMS\<close>): the
  re-addressing tables the data plane reads, rebuilt on every declaration change, and the admission
  of streams by frames a second and by bandwidth.  The write-back of a rebuilt table is a list of
  single stores, so that what a reader can see in the middle of it can be stated.
\<close>

section \<open>Lookups of the data plane\<close>

definition msrp_wifi_ucast_lookup_da :: "octets \<Rightarrow> wifi_tables \<Rightarrow> octets option" where
  "msrp_wifi_ucast_lookup_da da w =
     (let i = s_ucast_idx w ! unat (da ! 5) in
      if i = 0 then None
      else let e = s_ucast w ! (unat i - 1)
           in if \<not> uc_valid e \<or> uc_da e \<noteq> take 6 da then None else Some (uc_sta e))"

definition msrp_wifi_ucast_lookup_stream :: "octets \<Rightarrow> wifi_tables \<Rightarrow> octets option" where
  "msrp_wifi_ucast_lookup_stream stream_id w =
     map_option (\<lambda>i. rs_da (s_restore_tbl w ! i))
       (slot_find (\<lambda>r. rs_valid r \<and> rs_stream_id r = stream_id) (s_restore_tbl w))"

section \<open>Building the tables\<close>

definition ucast_entry_zero :: avb_wifi_ucast_entry_t where
  "ucast_entry_zero = \<lparr> uc_valid = False, uc_da = zeros 6, uc_sta = zeros 6, uc_stream_id = zeros 8 \<rparr>"

definition restore_entry_zero :: avb_wifi_restore_entry_t where
  "restore_entry_zero = \<lparr> rs_valid = False, rs_stream_id = zeros 8, rs_da = zeros 6 \<rparr>"

definition group_addressed :: "octets \<Rightarrow> bool" where
  "group_addressed da \<longleftrightarrow> (da ! 0) AND 1 \<noteq> 0"

definition ucast_restore_of :: "msrp_talker_entry_t \<Rightarrow> avb_wifi_restore_entry_t" where
  "ucast_restore_of te =
     (let info = tm_info (te_wire te) in
      if \<not> te_valid te \<or> \<not> group_addressed (ti_stream_dest_addr info) then restore_entry_zero
      else \<lparr> rs_valid = True, rs_stream_id = ti_stream_id info, rs_da = ti_stream_dest_addr info \<rparr>)"

text \<open>The destination address of a stream: the first talker entry with its ID, port by port.\<close>

definition ucast_find_da :: "octets \<Rightarrow> avb_state \<Rightarrow> octets option" where
  "ucast_find_da stream_id s =
     foreach (ports s) (\<lambda>p da.
       if da \<noteq> None then da
       else map_option (\<lambda>ti. ti_stream_dest_addr (tm_info (te_wire (talker s (int p) ti))))
         (slot_find (\<lambda>te. te_valid te \<and> ti_stream_id (tm_info (te_wire te)) = stream_id)
            (s_msrp_talkers s (int p)))) None"

text \<open>The entry a listener registration asks for, if it can be served.\<close>

definition ucast_entry_of :: "avb_state \<Rightarrow> msrp_listener_entry_t \<Rightarrow> avb_wifi_ucast_entry_t option" where
  "ucast_entry_of s le =
     (let stream_id = lm_stream_id (le_wire le) in
      if \<not> le_valid le
         \<or> (peer_decl le \<noteq> msrp_listener_event_ready \<and> peer_decl le \<noteq> msrp_listener_event_ready_failed)
         \<or> (ROLE_BRIDGE (build s) \<and> msrp_wifi_admission_refused stream_id s)
         \<or> peer_mac le = zeros 6
      then None
      else case ucast_find_da stream_id s of
          None \<Rightarrow> None
        | Some da \<Rightarrow> if \<not> group_addressed da then None
            else Some \<lparr> uc_valid = True, uc_da = da, uc_sta = peer_mac le, uc_stream_id = stream_id \<rparr>)"

definition ucast_table_of :: "avb_state \<Rightarrow> int \<Rightarrow> avb_wifi_ucast_entry_t list" where
  "ucast_table_of s wifi_port =
     (let es = take (MSRP_LISTENER_TABLE_SIZE (build s))
                 (List.map_filter (ucast_entry_of s) (s_msrp_listeners s wifi_port))
      in es @ replicate (MSRP_LISTENER_TABLE_SIZE (build s) - length es) ucast_entry_zero)"

text \<open>The index by the last octet of the address: slot number plus one, the last writer wins.\<close>

definition ucast_index_of :: "avb_wifi_ucast_entry_t list \<Rightarrow> u8 list" where
  "ucast_index_of t =
     foreach (length t) (\<lambda>n idx. if uc_valid (t ! n)
       then idx[unat (uc_da (t ! n) ! 5) := of_nat (n + 1)] else idx) (replicate 256 0)"

section \<open>The write-back\<close>

datatype wifi_store =
    st_restore_valid nat bool
  | st_restore_stream nat octets
  | st_restore_da nat octets
  | st_ucast_valid nat bool
  | st_ucast_da nat octets
  | st_ucast_sta nat octets
  | st_ucast_stream nat octets
  | st_ucast_idx nat u8

fun wifi_store_step :: "wifi_store \<Rightarrow> wifi_tables \<Rightarrow> wifi_tables" where
  "wifi_store_step (st_restore_valid i v) w =
     w\<lparr> s_restore_tbl := upd_at i (\<lambda>e. e\<lparr> rs_valid := v \<rparr>) (s_restore_tbl w) \<rparr>"
| "wifi_store_step (st_restore_stream i x) w =
     w\<lparr> s_restore_tbl := upd_at i (\<lambda>e. e\<lparr> rs_stream_id := x \<rparr>) (s_restore_tbl w) \<rparr>"
| "wifi_store_step (st_restore_da i x) w =
     w\<lparr> s_restore_tbl := upd_at i (\<lambda>e. e\<lparr> rs_da := x \<rparr>) (s_restore_tbl w) \<rparr>"
| "wifi_store_step (st_ucast_valid i v) w =
     w\<lparr> s_ucast := upd_at i (\<lambda>e. e\<lparr> uc_valid := v \<rparr>) (s_ucast w) \<rparr>"
| "wifi_store_step (st_ucast_da i x) w =
     w\<lparr> s_ucast := upd_at i (\<lambda>e. e\<lparr> uc_da := x \<rparr>) (s_ucast w) \<rparr>"
| "wifi_store_step (st_ucast_sta i x) w =
     w\<lparr> s_ucast := upd_at i (\<lambda>e. e\<lparr> uc_sta := x \<rparr>) (s_ucast w) \<rparr>"
| "wifi_store_step (st_ucast_stream i x) w =
     w\<lparr> s_ucast := upd_at i (\<lambda>e. e\<lparr> uc_stream_id := x \<rparr>) (s_ucast w) \<rparr>"
| "wifi_store_step (st_ucast_idx i x) w = w\<lparr> s_ucast_idx := (s_ucast_idx w)[i := x] \<rparr>"

definition restore_stores :: "avb_wifi_restore_entry_t list \<Rightarrow> avb_wifi_restore_entry_t list \<Rightarrow> wifi_store list" where
  "restore_stores old next = concat (map (\<lambda>i. if old ! i = next ! i then []
     else [st_restore_valid i False, st_restore_stream i (rs_stream_id (next ! i)),
           st_restore_da i (rs_da (next ! i)), st_restore_valid i (rs_valid (next ! i))])
     [0..<length old])"

definition ucast_stores :: "avb_wifi_ucast_entry_t list \<Rightarrow> avb_wifi_ucast_entry_t list \<Rightarrow> wifi_store list" where
  "ucast_stores old next = concat (map (\<lambda>i. if old ! i = next ! i then []
     else [st_ucast_valid i False, st_ucast_da i (uc_da (next ! i)), st_ucast_sta i (uc_sta (next ! i)),
           st_ucast_stream i (uc_stream_id (next ! i)), st_ucast_valid i (uc_valid (next ! i))])
     [0..<length old])"

definition idx_stores :: "u8 list \<Rightarrow> u8 list \<Rightarrow> wifi_store list" where
  "idx_stores old next = concat (map (\<lambda>i. if old ! i = next ! i then [] else [st_ucast_idx i (next ! i)])
     [0..<256])"

definition next_restore :: "int \<Rightarrow> avb_state \<Rightarrow> avb_wifi_restore_entry_t list" where
  "next_restore wifi_port s =
     (if valid_port s wifi_port then map ucast_restore_of (s_msrp_talkers s wifi_port)
      else replicate (MSRP_TALKER_TABLE_SIZE (build s)) restore_entry_zero)"

definition next_ucast :: "int \<Rightarrow> avb_state \<Rightarrow> avb_wifi_ucast_entry_t list" where
  "next_ucast wifi_port s =
     (if valid_port s wifi_port then ucast_table_of s wifi_port
      else replicate (MSRP_LISTENER_TABLE_SIZE (build s)) ucast_entry_zero)"

definition ucast_refresh_stores :: "int \<Rightarrow> avb_state \<Rightarrow> wifi_store list" where
  "ucast_refresh_stores wifi_port s =
     restore_stores (s_restore_tbl (wifi s)) (next_restore wifi_port s)
     @ ucast_stores (s_ucast (wifi s)) (next_ucast wifi_port s)
     @ idx_stores (s_ucast_idx (wifi s)) (ucast_index_of (next_ucast wifi_port s))"

definition msrp_wifi_ucast_refresh :: "int \<Rightarrow> avb_state \<Rightarrow> avb_state" where
  "msrp_wifi_ucast_refresh wifi_port s =
     s\<lparr> wifi := fold wifi_store_step (ucast_refresh_stores wifi_port s) (wifi s) \<rparr>"

section \<open>Admission on the Wi-Fi port\<close>

definition msrp_wifi_port_of :: "avb_state \<Rightarrow> int" where
  "msrp_wifi_port_of s =
     (case first_index (\<lambda>i. port_medium (port s (int i)) = avb_port_medium_wifi_ftm) (ports s) of
        None \<Rightarrow> -1 | Some i \<Rightarrow> int i)"

definition msrp_wifi_frame_budget :: "avb_build \<Rightarrow> u32" where
  "msrp_wifi_frame_budget b = (case WIFI_DELIVERABLE_FRAMES b of None \<Rightarrow> 0 | Some f \<Rightarrow> f * 3 div 4)"

text \<open>The port and slot of the registered Talker Advertise of a stream elsewhere.\<close>

definition msrp_wifi_upstream_talker :: "int \<Rightarrow> octets \<Rightarrow> avb_state \<Rightarrow> msrp_talker_entry_t option" where
  "msrp_wifi_upstream_talker wifi_port stream_id s =
     (case first_index (\<lambda>p. int p \<noteq> wifi_port \<and> mrp_talker_advertise_active (int p) stream_id s)
             (ports s) of
        None \<Rightarrow> None
      | Some p \<Rightarrow> map_option (talker s (int p))
          (msrp_talker_find (int p) stream_id msrp_attr_type_talker_advertise s))"

definition msrp_wifi_admission_declare ::
  "int \<Rightarrow> msrp_talker_entry_t \<Rightarrow> bool \<Rightarrow> avb_state \<Rightarrow> avb_state" where
  "msrp_wifi_admission_declare wifi_port te refused s =
     (let info = tm_info (te_wire te);
          latency = ucast (octets_to_uint (ti_accumulated_latency info) 4)
                    + avb_port_forwarding_latency_ns (port s wifi_port);
          s = mrp_withdraw_talker wifi_port (ti_stream_id info) s
      in if refused then map_declare_failed wifi_port info insufficient_bandwidth None latency s
         else map_declare_advertise wifi_port info latency s)"

definition wifi_admission_zero :: avb_wifi_admission_t where
  "wifi_admission_zero = \<lparr> wa_valid = False, wa_wanted = False, wa_refused = False,
     wa_refusal_declared = False, wa_stream_id = zeros 8, wa_frames_per_s = 0, wa_bps = 0 \<rparr>"

text \<open>The cost of a listener's stream by its talker: frames and bits a second.\<close>

definition wifi_admission_cost :: "talker_adv_info_s \<Rightarrow> u32 \<times> u32" where
  "wifi_admission_cost info =
     (let mfs = ucast (octets_to_uint (ti_tspec_max_frame_size info) 2);
          mfi = ucast (octets_to_uint (ti_tspec_max_frame_interval info) 2);
          mfi = (if mfi = 0 then 1 else mfi);
          intervals = (if ti_priority info = 3 then 8000 else 4000)
      in (mfi * intervals, (mfs + 42) * mfi * intervals * 8))"

definition wifi_admission_enter ::
  "octets \<Rightarrow> u32 \<times> u32 \<Rightarrow> avb_wifi_admission_t list \<Rightarrow> avb_wifi_admission_t list" where
  "wifi_admission_enter stream_id cost as =
     (let put = (\<lambda>a. a\<lparr> wa_wanted := True, wa_frames_per_s := fst cost, wa_bps := snd cost \<rparr>)
      in case slot_find (\<lambda>a. wa_valid a \<and> wa_stream_id a = stream_id) as of
           Some i \<Rightarrow> upd_at i put as
         | None \<Rightarrow>
           (case slot_find (\<lambda>a. \<not> wa_valid a) as of
              None \<Rightarrow> as
            | Some i \<Rightarrow> as[i := put (wifi_admission_zero\<lparr> wa_stream_id := stream_id,
                          wa_valid := True, wa_refused := True \<rparr>)]))"

text \<open>The first loop: the streams the stations want, with their cost.\<close>

definition wifi_admission_collect ::
  "int \<Rightarrow> avb_state \<Rightarrow> avb_wifi_admission_t list \<Rightarrow> avb_wifi_admission_t list" where
  "wifi_admission_collect wifi_port s as =
     fold (\<lambda>le as.
       if \<not> le_valid le \<or> peer_decl le = msrp_listener_event_ignore
          \<or> (registrar (le_sm le) \<noteq> mrp_registrar_in \<and> registrar (le_sm le) \<noteq> mrp_registrar_lv)
       then as
       else case msrp_wifi_upstream_talker wifi_port (lm_stream_id (le_wire le)) s of
           None \<Rightarrow> as
         | Some te \<Rightarrow>
             let info = tm_info (te_wire te) in
             if ti_priority info = 3 \<and> \<not> msrp_wifi_class_a_allowed s then as
             else wifi_admission_enter (lm_stream_id (le_wire le)) (wifi_admission_cost info) as)
       (s_msrp_listeners s wifi_port) (map (\<lambda>a. a\<lparr> wa_wanted := False \<rparr>) as)"

definition upd_admission ::
  "nat \<Rightarrow> (avb_wifi_admission_t \<Rightarrow> avb_wifi_admission_t) \<Rightarrow> avb_state \<Rightarrow> avb_state" where
  "upd_admission i f s =
     s\<lparr> wifi := (wifi s)\<lparr> s_wifi_admission := upd_at i f (s_wifi_admission (wifi s)) \<rparr> \<rparr>"

text \<open>The loop that decides slot \<open>i\<close>, with the sums so far and whether anything was decided.\<close>

definition wifi_admission_decide ::
  "int \<Rightarrow> u32 \<Rightarrow> u64 \<Rightarrow> nat \<Rightarrow> (u32 \<times> u64 \<times> bool) \<times> avb_state \<Rightarrow> (u32 \<times> u64 \<times> bool) \<times> avb_state" where
  "wifi_admission_decide wifi_port budget cap_bps i = (\<lambda>((frames, bps, decided), s).
     let a = s_wifi_admission (wifi s) ! i; sid = wa_stream_id a in
     if \<not> wa_valid a then ((frames, bps, decided), s)
     else
       let te = msrp_wifi_upstream_talker wifi_port sid s in
       if \<not> wa_wanted a then
         let s = (if wa_refusal_declared a \<and> te \<noteq> None
                  then msrp_wifi_admission_declare wifi_port (the te) False s else s)
         in ((frames, bps, decided), upd_admission i (\<lambda>a. a\<lparr> wa_valid := False \<rparr>) s)
       else if \<not> wa_refused a \<or> te = None then ((frames, bps, decided), s)
       else if frames + wa_frames_per_s a \<le> budget \<and> bps + ucast (wa_bps a) \<le> cap_bps then
         let s = upd_admission i (\<lambda>a. a\<lparr> wa_refused := False \<rparr>) s;
             s = (if wa_refusal_declared a
                  then msrp_wifi_admission_declare wifi_port (the te) False s else s);
             s = upd_admission i (\<lambda>a. a\<lparr> wa_refusal_declared := False \<rparr>) s
         in ((frames + wa_frames_per_s a, bps + ucast (wa_bps a), True),
             msrp_propagate_listener wifi_port sid s)
       else if \<not> wa_refusal_declared a then
         let s = msrp_wifi_admission_declare wifi_port (the te) True s;
             s = upd_admission i (\<lambda>a. a\<lparr> wa_refusal_declared := True \<rparr>) s
         in ((frames, bps, True), msrp_propagate_listener wifi_port sid s)
       else ((frames, bps, decided), s))"

definition msrp_wifi_admission_update :: "int \<Rightarrow> avb_state \<Rightarrow> avb_state" where
  "msrp_wifi_admission_update wifi_port s =
     (if wifi_port < 0 then s
      else
        let s = s\<lparr> wifi := (wifi s)\<lparr> s_wifi_admission_port := wifi_port,
                    s_wifi_admission := wifi_admission_collect wifi_port s (s_wifi_admission (wifi s)) \<rparr> \<rparr>;
            budget = msrp_wifi_frame_budget (build s);
            cap_bps = ucast (avb_srp_admission_link_rate_bps (ports s) wifi_port (admission s)) * 3 div 4;
            kept = filter (\<lambda>a. wa_valid a \<and> wa_wanted a \<and> \<not> wa_refused a) (s_wifi_admission (wifi s));
            start = (sum_list (map wa_frames_per_s kept), sum_list (map (\<lambda>a. ucast (wa_bps a)) kept), False)
        in case foreach (length (s_wifi_admission (wifi s)))
                  (wifi_admission_decide wifi_port budget cap_bps) (start, s) of
             ((frames, _, decided), s) \<Rightarrow>
               let s = s\<lparr> wifi := (wifi s)\<lparr> s_wifi_frames_committed := frames \<rparr> \<rparr>
               in if decided then msrp_wifi_ucast_refresh wifi_port s else s)"

end
