(* ===== verification/Msrp_Rx.thy ===== *)
theory Msrp_Rx
  imports Wifi_Streams
begin

text \<open>
  Reception (\<open>mrp.c\<close> section 6 and the receiving half of 7): the walk over an MSRP PDU, the
  registration of each attribute value it carries, LeaveAll, the CVU wrapper of AVB Lite, and MVRP.

  The walk does not depend on what its values do to the state, except that AVB Lite ignores a
  LeaveAll.  It is therefore one function from the octets to the list of what to process, in
  order, and a second one that processes it.
\<close>

section \<open>LeaveAll\<close>

definition sm_self_leave :: "int \<Rightarrow> mrp_sm_state_t \<Rightarrow> mrp_sm_state_t" where
  "sm_self_leave now sm =
     (if registrar sm = mrp_registrar_in
      then (mrp_registrar_step now sm mrp_event_r_la)\<lparr> leave_timer_us := now + 10 * 1000 * 1000 \<rparr>
      else sm)"

definition mrp_station_self_leaveall :: "int \<Rightarrow> avb_state \<Rightarrow> avb_state" where
  "mrp_station_self_leaveall p s =
     (let f = sm_self_leave (now_us s) in
      s\<lparr> s_msrp_talkers := (s_msrp_talkers s)(p := map (\<lambda>e.
           if te_valid e then e\<lparr> te_sm := f (te_sm e) \<rparr> else e) (s_msrp_talkers s p)),
         s_msrp_listeners := (s_msrp_listeners s)(p := map (\<lambda>e.
           if le_valid e then e\<lparr> le_sm := f (le_sm e) \<rparr> else e) (s_msrp_listeners s p)),
         s_msrp_domains := (s_msrp_domains s)(p := map (\<lambda>e.
           if de_valid e then e\<lparr> de_sm := f (de_sm e) \<rparr> else e) (s_msrp_domains s p)) \<rparr>)"

definition msrp_dispatch_leaveall :: "int \<Rightarrow> msrp_attr_type_t \<Rightarrow> avb_state \<Rightarrow> avb_state" where
  "msrp_dispatch_leaveall p attr_type s =
     (let f = (\<lambda>sm. mrp_sm_step (now_us s) sm mrp_event_r_la) in
      case attr_type of
        msrp_attr_type_none \<Rightarrow> s
      | msrp_attr_type_listener \<Rightarrow>
          s\<lparr> s_msrp_listeners := (s_msrp_listeners s)(p := map (\<lambda>e.
               if le_valid e then e\<lparr> le_sm := f (le_sm e) \<rparr> else e) (s_msrp_listeners s p)) \<rparr>
      | msrp_attr_type_domain \<Rightarrow>
          s\<lparr> s_msrp_domains := (s_msrp_domains s)(p := map (\<lambda>e.
               if de_valid e then e\<lparr> de_sm := f (de_sm e) \<rparr> else e) (s_msrp_domains s p)) \<rparr>
      | _ \<Rightarrow>
          let s = (if attr_type = msrp_attr_type_talker_advertise
                   then s\<lparr> s_talker_leaveall_count := (s_talker_leaveall_count s)
                             (p := s_talker_leaveall_count s p + 1),
                           s_talker_leaveall_us := (s_talker_leaveall_us s)(p := now_us s) \<rparr>
                   else s)
          in s\<lparr> s_msrp_talkers := (s_msrp_talkers s)(p := map (\<lambda>e.
                  if te_valid e \<and> te_attr_type e = attr_type
                  then e\<lparr> te_sm := f (te_sm e) \<rparr> else e) (s_msrp_talkers s p)) \<rparr>)"

section \<open>One attribute value\<close>

text \<open>The event octet of a talker message sits behind the Failed fields in a Talker Failed;
  the rebuilt structure keeps it in one place.\<close>

definition msrp_rx_talker_attr ::
  "int \<Rightarrow> msrp_attr_type_t \<Rightarrow> msrp_talker_message_u \<Rightarrow> octets option \<Rightarrow> avb_state \<Rightarrow>
     mrp_reg_transition_e \<times> avb_state" where
  "msrp_rx_talker_attr p attr_type wire src_addr s =
     (case msrp_talker_find_or_insert p (ti_stream_id (tm_info wire)) attr_type s of
        (None, s) \<Rightarrow> (mrp_reg_transition_none, s)
      | (Some i, s) \<Rightarrow>
          let s = upd_talker p i (\<lambda>e. e\<lparr>
                    te_wire := (if locally_originated e then te_wire e else wire),
                    te_last_refresh_us := now_us s,
                    te_src_mac := (case src_addr of None \<Rightarrow> te_src_mac e | Some m \<Rightarrow> m) \<rparr>) s;
              (e1, e2, e3) = three_pe_to_int (tm_event wire);
              before = registrar (te_sm (talker s p i));
              s = upd_talker p i (\<lambda>e. e\<lparr> te_sm :=
                    mrp_sm_step (now_us s) (te_sm e) (mrp_3pe_to_event e1) \<rparr>) s;
              after = registrar (te_sm (talker s p i));
              trans = mrp_reg_transition before after
          in if \<not> avb_lite s \<and> (after = mrp_registrar_in \<or> after = mrp_registrar_lv) then
               let twin_type = (if attr_type = msrp_attr_type_talker_failed
                                then msrp_attr_type_talker_advertise
                                else msrp_attr_type_talker_failed)
               in case msrp_talker_find p (ti_stream_id (tm_info wire)) twin_type s of
                    None \<Rightarrow> (trans, s)
                  | Some j \<Rightarrow>
                      if registrar (te_sm (talker s p j)) = mrp_registrar_mt then (trans, s)
                      else
                        let s = mrp_on_talker_registrar_change p twin_type (te_wire (talker s p j))
                                  mrp_reg_transition_deregister s
                        in (trans, upd_talker p j (\<lambda>e. e\<lparr> te_sm :=
                              (te_sm e)\<lparr> registrar := mrp_registrar_mt \<rparr> \<rparr>) s)
             else (trans, s))"

text \<open>Returns the Registrar transition and whether the peer's declaration changed.\<close>

definition msrp_rx_listener_attr ::
  "int \<Rightarrow> msrp_listener_message_s \<Rightarrow> octets option \<Rightarrow> avb_state \<Rightarrow>
     mrp_reg_transition_e \<times> bool \<times> avb_state" where
  "msrp_rx_listener_attr p wire src_addr s =
     (case msrp_listener_find_or_insert p (lm_stream_id wire) s of
        (None, s) \<Rightarrow> (mrp_reg_transition_none, False, s)
      | (Some i, s) \<Rightarrow>
          let e = listener s p i;
              (e1, e2, e3) = three_pe_to_int (lm_event wire);
              sm = mrp_sm_step (now_us s) (le_sm e) (mrp_3pe_to_event e1);
              new_peer_decl = msrp_listener_event_of (pe4_event1 (lm_declaration wire));
              s = upd_listener p i (\<lambda>e. e\<lparr> le_wire := wire,
                    peer_mac := (case src_addr of None \<Rightarrow> peer_mac e | Some m \<Rightarrow> m),
                    le_last_refresh_us := now_us s, le_sm := sm, peer_decl := new_peer_decl \<rparr>) s
          in (mrp_reg_transition (registrar (le_sm e)) (registrar sm), new_peer_decl \<noteq> peer_decl e, s))"

definition msrp_rx_domain_attr ::
  "int \<Rightarrow> msrp_domain_message_s \<Rightarrow> avb_state \<Rightarrow> mrp_reg_transition_e \<times> avb_state" where
  "msrp_rx_domain_attr p wire s =
     (case msrp_domain_find_or_insert p (dm_sr_class_id wire) s of
        (None, s) \<Rightarrow> (mrp_reg_transition_none, s)
      | (Some i, s) \<Rightarrow>
          let e = domain s p i;
              (e1, e2, e3) = three_pe_to_int (dm_event wire);
              sm = mrp_sm_step (now_us s) (de_sm e) (mrp_3pe_to_event e1)
          in (mrp_reg_transition (registrar (de_sm e)) (registrar sm),
              upd_domain p i (\<lambda>e. e\<lparr> de_wire := wire, de_sm := sm \<rparr>) s))"

section \<open>The walk over a PDU\<close>

text \<open>What the walk finds: a LeaveAll of an attribute type, and the rebuilt values.\<close>

datatype rx_item =
    rx_leaveall u8
  | rx_talker msrp_attr_type_t msrp_talker_message_u
  | rx_listener msrp_listener_message_s
  | rx_domain msrp_domain_message_s

definition AVB_MAX_MSG_LEN :: nat where "AVB_MAX_MSG_LEN = 600"
definition MSRP_RX_MAX_VALUES :: nat where "MSRP_RX_MAX_VALUES = 64"

definition pe3_at :: "octets \<Rightarrow> nat \<Rightarrow> int" where
  "pe3_at pe3 v =
     (case three_pe_to_int (pe3 ! (v div 3)) of
        (e1, e2, e3) \<Rightarrow> if v mod 3 = 0 then e1 else if v mod 3 = 1 then e2 else e3)"

definition pe4_at :: "octets \<Rightarrow> nat \<Rightarrow> 2 word" where
  "pe4_at pe4 v = ucast (drop_bit (6 - 2 * (v mod 4)) (pe4 ! (v div 4)) AND 3)"

text \<open>Value \<open>v\<close> of a vector: \<open>hdr\<close> the message from its header on, \<open>fv\<close> from the FirstValue
  on, \<open>pe3\<close> and \<open>pe4\<close> from the event vectors on.\<close>

definition rx_value ::
  "u8 \<Rightarrow> octets \<Rightarrow> octets \<Rightarrow> octets \<Rightarrow> octets \<Rightarrow> nat \<Rightarrow> rx_item list" where
  "rx_value attr_type hdr fv pe3 pe4 v =
     (let ev = int_to_3pe (pe3_at pe3 v) 0 0; add = of_nat v in
      if attr_type = msrp_attr_type_code msrp_attr_type_domain then
        (if v > 0 then []
         else [rx_domain (msrp_domain_message_zero\<lparr> dm_header := msrp_header_of hdr,
                 dm_sr_class_id := fv ! 0, dm_sr_class_priority := fv ! 1,
                 dm_sr_class_vid := take 2 (drop 2 fv), dm_event := ev \<rparr>)])
      else if attr_type = msrp_attr_type_code msrp_attr_type_talker_advertise
           \<or> attr_type = msrp_attr_type_code msrp_attr_type_talker_failed then
        let is_failed = (attr_type = msrp_attr_type_code msrp_attr_type_talker_failed);
            info = talker_info_of fv;
            info = info\<lparr> ti_stream_id := msrp_be_add (ti_stream_id info) 8 add,
                         ti_stream_dest_addr := msrp_be_add (ti_stream_dest_addr info) 6 add \<rparr>;
            wire = msrp_talker_message_zero\<lparr> tm_header := msrp_header_of hdr, tm_info := info,
                     tm_event := ev \<rparr>
        in [rx_talker (if is_failed then msrp_attr_type_talker_failed else msrp_attr_type_talker_advertise)
              (if is_failed then wire\<lparr> tm_failure_bridge_id := take 8 (drop 25 fv),
                                      tm_failure_code := fv ! 33 \<rparr> else wire)]
      else
        [rx_listener (msrp_listener_message_zero\<lparr> lm_header := msrp_header_of hdr,
           lm_stream_id := msrp_be_add (take 8 fv) 8 add, lm_event := ev,
           lm_declaration := mrp_4pe_zero\<lparr> pe4_event1 := pe4_at pe4 v \<rparr> \<rparr>)])"

text \<open>The vectors of one AttributeList; \<open>types\<close> is the bit mask of the attribute types whose
  LeaveAll has been processed.\<close>

function rx_vectors ::
  "u8 \<Rightarrow> octets \<Rightarrow> octets \<Rightarrow> nat \<Rightarrow> nat \<Rightarrow> nat \<Rightarrow> u8 \<Rightarrow> rx_item list \<times> u8" where
  "rx_vectors attr_type hdr raw list_end fv_len voff types =
     (if voff + 2 > list_end then ([], types)
      else
        let vh = unat (raw ! voff) * 256 + unat (raw ! (voff + 1)) in
        if vh = 0 then ([], types)
        else
          let leaveall = (vh div 0x2000 mod 2 = 1);
              num_vals = vh mod 0x2000;
              n3 = (num_vals + 2) div 3;
              n4 = (if attr_type = msrp_attr_type_code msrp_attr_type_listener
                    then (num_vals + 3) div 4 else 0);
              vec_len = 2 + fv_len + n3 + n4
          in if voff + vec_len > list_end then ([], types)
             else
               let bit = push_bit (unat attr_type) 1 :: u8;
                   la = (leaveall \<and> attr_type < 8 \<and> types AND bit = 0);
                   types' = (if la then types OR bit else types);
                   fv = drop (voff + 2) raw;
                   pe3 = drop fv_len fv;
                   pe4 = drop n3 pe3;
                   values = concat (map (rx_value attr_type hdr fv pe3 pe4)
                              [0..<min num_vals MSRP_RX_MAX_VALUES]);
                   (rest, types'') = rx_vectors attr_type hdr raw list_end fv_len (voff + vec_len) types'
               in ((if la then [rx_leaveall attr_type] else []) @ values @ rest, types''))"
  by pat_completeness auto
termination
proof (relation "measure (\<lambda>(_, _, _, list_end, _, voff, _). list_end - voff)", goal_cases)
  case (2 attr_type hdr raw list_end fv_len voff types vh leaveall num_vals n3 n4 vec_len)
  then have "voff < voff + vec_len" "voff + vec_len \<le> list_end" by linarith+
  then show ?case by simp
qed simp

function rx_messages :: "octets \<Rightarrow> nat \<Rightarrow> nat \<Rightarrow> u8 \<Rightarrow> rx_item list" where
  "rx_messages raw raw_len offset types =
     (if offset + 4 > raw_len then []
      else
        let attr_type = raw ! offset in
        if attr_type = msrp_attr_type_code msrp_attr_type_none then []
        else
          let list_len = unat (raw ! (offset + 2)) * 256 + unat (raw ! (offset + 3));
              list_end = offset + 4 + list_len
          in if list_end > raw_len then []
             else if msrp_first_value_len attr_type < 0 then rx_messages raw raw_len list_end types
             else
               (case rx_vectors attr_type (drop offset raw) raw list_end
                       (nat (msrp_first_value_len attr_type)) (offset + 4) types of
                  (items, types') \<Rightarrow> items @ rx_messages raw raw_len list_end types'))"
  by pat_completeness auto
termination
  by (relation "measure (\<lambda>(_, raw_len, offset, _). raw_len - offset)") auto

declare rx_vectors.simps [simp del] rx_messages.simps [simp del]

definition rx_raw_len :: "nat \<Rightarrow> nat" where
  "rx_raw_len len = min (if len > 1 then len - 1 else 0) (AVB_MAX_MSG_LEN - 1)"

definition msrp_rx_items :: "octets \<Rightarrow> nat \<Rightarrow> rx_item list" where
  "msrp_rx_items raw len = rx_messages raw (rx_raw_len len) 0 0"

section \<open>Processing\<close>

definition msrp_wifi_follow_up :: "avb_state \<Rightarrow> avb_state" where
  "msrp_wifi_follow_up s =
     (if WIFI_UNICAST_STREAMS (build s) then
        let s = msrp_wifi_ucast_refresh (msrp_wifi_port_of s) s
        in if ROLE_BRIDGE (build s) then msrp_wifi_admission_update (msrp_wifi_port_of s) s else s
      else s)"

fun attr_type_of :: "u8 \<Rightarrow> msrp_attr_type_t" where
  "attr_type_of c =
     (if c = 1 then msrp_attr_type_talker_advertise else if c = 2 then msrp_attr_type_talker_failed
      else if c = 3 then msrp_attr_type_listener else if c = 4 then msrp_attr_type_domain
      else msrp_attr_type_none)"

fun rx_process :: "int \<Rightarrow> octets \<Rightarrow> rx_item \<Rightarrow> avb_state \<Rightarrow> avb_state" where
  "rx_process p src (rx_leaveall attr_type) s =
     (if avb_lite s then s
      else mrp_port_arm_join_timer p (msrp_dispatch_leaveall p (attr_type_of attr_type) s))"
| "rx_process p src (rx_talker attr_type wire) s =
     (case msrp_rx_talker_attr p attr_type wire (Some src) s of
        (tr, s) \<Rightarrow> msrp_wifi_follow_up (mrp_on_talker_registrar_change p attr_type wire tr s))"
| "rx_process p src (rx_listener wire) s =
     (case msrp_rx_listener_attr p wire (Some src) s of
        (tr, changed, s) \<Rightarrow>
          msrp_wifi_follow_up (mrp_on_listener_registrar_change p wire tr changed (Some src) s))"
| "rx_process p src (rx_domain wire) s =
     (case msrp_rx_domain_attr p wire s of
        (tr, s) \<Rightarrow> mrp_on_domain_registrar_change p wire tr s)"

definition mrp_rx_msrp :: "int \<Rightarrow> octets \<Rightarrow> nat \<Rightarrow> octets \<Rightarrow> avb_state \<Rightarrow> avb_state" where
  "mrp_rx_msrp p messages_raw len src s =
     (if \<not> valid_port s p then s
      else fold (rx_process p src) (msrp_rx_items messages_raw len) s)"

text \<open>The AVB Lite wrapper: one attribute in an AECP vendor unique message, behind the 29 octets
  of \<open>aecp_cvu_common_s\<close>.  The length is the one its control data length field gives.\<close>

definition avb_aecp_msg_len :: "octets \<Rightarrow> u16" where
  "avb_aecp_msg_len msg = 12 + (push_bit 8 (ucast (msg ! 2 AND 7)) OR ucast (msg ! 3))"

definition CVU_COMMON_SIZE :: nat where "CVU_COMMON_SIZE = 29"

definition avb_process_aecp_cmd_cvu_srp :: "octets \<Rightarrow> octets \<Rightarrow> avb_state \<Rightarrow> avb_state" where
  "avb_process_aecp_cmd_cvu_srp msg src s =
     (let msg_len = unat (avb_aecp_msg_len msg) in
      if msg_len < CVU_COMMON_SIZE + 6 then s
      else
        let payload = drop CVU_COMMON_SIZE msg;
            attr_size = unat (octets_to_uint (take 2 (drop 2 payload)) 2) + 4;
            max_attr = msg_len - CVU_COMMON_SIZE
        in if attr_size < 6 \<or> attr_size > max_attr \<or> attr_size > 200 then s
           else if payload ! 0 \<in> {msrp_attr_type_code msrp_attr_type_talker_advertise,
                    msrp_attr_type_code msrp_attr_type_talker_failed,
                    msrp_attr_type_code msrp_attr_type_listener}
           then mrp_rx_msrp 0 (take attr_size payload @ zeros (200 - attr_size)) (attr_size + 1) src s
           else s)"

section \<open>MVRP\<close>

definition mvrp_dispatch_leaveall :: "int \<Rightarrow> avb_state \<Rightarrow> avb_state" where
  "mvrp_dispatch_leaveall p s =
     s\<lparr> s_mvrp_vlans := (s_mvrp_vlans s)(p := map (\<lambda>e.
          if ve_valid e then e\<lparr> ve_sm := mrp_sm_step (now_us s) (ve_sm e) mrp_event_r_la \<rparr> else e)
          (s_mvrp_vlans s p)) \<rparr>"

definition mrp_rx_mvrp :: "int \<Rightarrow> mvrp_vlan_id_message_s \<Rightarrow> avb_state \<Rightarrow> avb_state" where
  "mrp_rx_mvrp p msg s =
     (if \<not> valid_port s p \<or> mh_attr_type (vm_header msg) \<noteq> 1 then s
      else
        let s = (if mh_vechead_leaveall (vm_header msg) \<noteq> 0 then mvrp_dispatch_leaveall p s else s)
        in case mvrp_vlan_find_or_insert p (vm_vlan_id msg) s of
             (None, s) \<Rightarrow> s
           | (Some i, s) \<Rightarrow>
               let (e1, e2, e3) = three_pe_to_int (vm_event msg);
                   before = registrar (ve_sm (vlan s p i));
                   s = upd_vlan p i (\<lambda>e. e\<lparr> ve_sm :=
                         mrp_sm_step (now_us s) (ve_sm e) (mrp_3pe_to_event e1) \<rparr>) s;
                   tr = mrp_reg_transition before (registrar (ve_sm (vlan s p i)))
               in if tr \<noteq> mrp_reg_transition_none
                  then mrp_on_vlan_registrar_change p (vm_vlan_id msg) tr s else s)"

end
