(* ===== verification/Mrp_Tick.thy ===== *)
theory Mrp_Tick
  imports Msrp_Rx
begin

text \<open>
  The timers of a port (\<open>mrp.c\<close> sections 1b and 7): \<open>mrp_port_tick\<close> with the LeaveAll, periodic,
  join and leave timers, and the expiry of registrations nobody refreshes.
\<close>

section \<open>Periodic transmission\<close>

definition mrp_port_dispatch_periodic :: "int \<Rightarrow> avb_state \<Rightarrow> avb_state" where
  "mrp_port_dispatch_periodic p s =
     (if \<not> valid_port s p then s
      else
        let f = (\<lambda>sm. mrp_applicant_step sm mrp_event_periodic) in
        s\<lparr> s_msrp_talkers := (s_msrp_talkers s)(p := map (\<lambda>e.
             if te_valid e then e\<lparr> te_sm := f (te_sm e) \<rparr> else e) (s_msrp_talkers s p)),
           s_msrp_listeners := (s_msrp_listeners s)(p := map (\<lambda>e.
             if le_valid e then e\<lparr> le_sm := f (le_sm e) \<rparr> else e) (s_msrp_listeners s p)),
           s_msrp_domains := (s_msrp_domains s)(p := map (\<lambda>e.
             if de_valid e then e\<lparr> de_sm := f (de_sm e) \<rparr> else e) (s_msrp_domains s p)),
           s_mvrp_vlans := (s_mvrp_vlans s)(p := map (\<lambda>e.
             if ve_valid e then e\<lparr> ve_sm := f (ve_sm e) \<rparr> else e) (s_mvrp_vlans s p)) \<rparr>)"

section \<open>Leave timers\<close>

text \<open>The transition a LeaveTimer expiry is reported as: leaving to empty counts as a
  deregistration.\<close>

definition leave_transition :: "mrp_registrar_state_e \<Rightarrow> mrp_registrar_state_e \<Rightarrow> mrp_reg_transition_e" where
  "leave_transition before after =
     (if before = mrp_registrar_lv \<and> after = mrp_registrar_mt then mrp_reg_transition_deregister
      else mrp_reg_transition before after)"

definition leave_due :: "int \<Rightarrow> mrp_sm_state_t \<Rightarrow> bool" where
  "leave_due now sm \<longleftrightarrow> leave_timer_us sm \<noteq> 0 \<and> now \<ge> leave_timer_us sm"

definition leave_talker_slot :: "int \<Rightarrow> int \<Rightarrow> nat \<Rightarrow> bool \<times> avb_state \<Rightarrow> bool \<times> avb_state" where
  "leave_talker_slot p now i = (\<lambda>(fired, s).
     let e = talker s p i in
     if \<not> te_valid e \<or> \<not> leave_due now (te_sm e) then (fired, s)
     else
       let sm = mrp_sm_step (now_us s) (te_sm e) mrp_event_leave_timer;
           s = upd_talker p i (\<lambda>e. e\<lparr> te_sm := sm \<rparr>) s;
           tr = leave_transition (registrar (te_sm e)) (registrar sm)
       in (True, if tr \<noteq> mrp_reg_transition_none
                 then mrp_on_talker_registrar_change p (te_attr_type e) (te_wire e) tr s else s))"

definition MRP_CVU_IDLE_TIMEOUT_US :: int where "MRP_CVU_IDLE_TIMEOUT_US = 16 * 1000 * 1000"

definition lite_idle_talker_slot :: "int \<Rightarrow> int \<Rightarrow> nat \<Rightarrow> bool \<times> avb_state \<Rightarrow> bool \<times> avb_state" where
  "lite_idle_talker_slot p now i = (\<lambda>(fired, s).
     let e = talker s p i in
     if \<not> te_valid e \<or> registrar (te_sm e) \<noteq> mrp_registrar_in \<or> te_last_refresh_us e = 0
        \<or> now - te_last_refresh_us e \<le> MRP_CVU_IDLE_TIMEOUT_US
     then (fired, s)
     else
       let s = upd_talker p i (\<lambda>e. e\<lparr> te_sm := (te_sm e)\<lparr> registrar := mrp_registrar_mt \<rparr> \<rparr>) s
       in (True, mrp_on_talker_registrar_change p (te_attr_type e) (te_wire e)
                   mrp_reg_transition_deregister s))"

definition lite_idle_listener_slot :: "int \<Rightarrow> int \<Rightarrow> nat \<Rightarrow> bool \<times> avb_state \<Rightarrow> bool \<times> avb_state" where
  "lite_idle_listener_slot p now i = (\<lambda>(fired, s).
     let e = listener s p i in
     if \<not> le_valid e \<or> registrar (le_sm e) \<noteq> mrp_registrar_in \<or> le_last_refresh_us e = 0
        \<or> now - le_last_refresh_us e \<le> MRP_CVU_IDLE_TIMEOUT_US
     then (fired, s)
     else
       let s = upd_listener p i (\<lambda>e. e\<lparr> le_sm := (le_sm e)\<lparr> registrar := mrp_registrar_mt \<rparr> \<rparr>) s
       in (True, mrp_on_listener_registrar_change p (le_wire e)
                   mrp_reg_transition_deregister True None s))"

definition leave_listener_slot :: "int \<Rightarrow> int \<Rightarrow> nat \<Rightarrow> bool \<times> avb_state \<Rightarrow> bool \<times> avb_state" where
  "leave_listener_slot p now i = (\<lambda>(fired, s).
     let e = listener s p i in
     if \<not> le_valid e \<or> \<not> leave_due now (le_sm e) then (fired, s)
     else
       let sm = mrp_sm_step (now_us s) (le_sm e) mrp_event_leave_timer;
           s = upd_listener p i (\<lambda>e. e\<lparr> le_sm := sm \<rparr>) s;
           tr = leave_transition (registrar (le_sm e)) (registrar sm)
       in (True, if tr \<noteq> mrp_reg_transition_none
                 then mrp_on_listener_registrar_change p (le_wire e) tr True None s else s))"

text \<open>For a domain only the transition of the Registrar itself is reported.\<close>

definition leave_domain_slot :: "int \<Rightarrow> int \<Rightarrow> nat \<Rightarrow> bool \<times> avb_state \<Rightarrow> bool \<times> avb_state" where
  "leave_domain_slot p now i = (\<lambda>(fired, s).
     let e = domain s p i in
     if \<not> de_valid e \<or> \<not> leave_due now (de_sm e) then (fired, s)
     else
       let sm = mrp_sm_step (now_us s) (de_sm e) mrp_event_leave_timer;
           s = upd_domain p i (\<lambda>e. e\<lparr> de_sm := sm \<rparr>) s;
           tr = mrp_reg_transition (registrar (de_sm e)) (registrar sm)
       in (True, if tr \<noteq> mrp_reg_transition_none
                 then mrp_on_domain_registrar_change p (de_wire e) tr s else s))"

definition leave_vlan_slot :: "int \<Rightarrow> int \<Rightarrow> nat \<Rightarrow> bool \<times> avb_state \<Rightarrow> bool \<times> avb_state" where
  "leave_vlan_slot p now i = (\<lambda>(fired, s).
     let e = vlan s p i in
     if \<not> ve_valid e \<or> \<not> leave_due now (ve_sm e) then (fired, s)
     else (True, upd_vlan p i (\<lambda>e. e\<lparr> ve_sm :=
             mrp_sm_step (now_us s) (ve_sm e) mrp_event_leave_timer \<rparr>) s))"

definition mrp_port_dispatch_leave_timers :: "int \<Rightarrow> int \<Rightarrow> avb_state \<Rightarrow> bool \<times> avb_state" where
  "mrp_port_dispatch_leave_timers p now s =
     (if \<not> valid_port s p then (False, s)
      else
        let x = foreach (length (s_msrp_talkers s p)) (leave_talker_slot p now) (False, s);
            x = (if avb_lite s then
                   let x = foreach (length (s_msrp_talkers s p)) (lite_idle_talker_slot p now) x
                   in foreach (length (s_msrp_listeners s p)) (lite_idle_listener_slot p now) x
                 else x);
            x = foreach (length (s_msrp_listeners s p)) (leave_listener_slot p now) x;
            x = foreach (length (s_msrp_domains s p)) (leave_domain_slot p now) x
        in foreach (length (s_mvrp_vlans s p)) (leave_vlan_slot p now) x)"

section \<open>The tick\<close>

text \<open>\<open>sta_count\<close> is the number of stations associated with the access point.\<close>

definition tick_leaveall :: "int \<Rightarrow> nat \<Rightarrow> bool \<times> avb_state \<Rightarrow> bool \<times> avb_state" where
  "tick_leaveall p sta_count = (\<lambda>(fired, s).
     let q = port s p; now = now_us s in
     if mrp_leaveall_timer_us q \<noteq> 0 \<and> now \<ge> mrp_leaveall_timer_us q then
       let suppress = (ROLE_BRIDGE (build s) \<and> port_medium q = avb_port_medium_wifi_ftm
                       \<and> port_wifi_mode q = avb_port_wifi_mode_ap \<and> sta_count = 0);
           s = (if \<not> suppress \<and> avb_lite s then mrp_lite_redeclare_all p now s
                else if \<not> suppress then
                  let s = upd_port p (\<lambda>q. q\<lparr> mrp_leaveall_tx_pending := True \<rparr>) s
                  in if port_medium q = avb_port_medium_wifi_ftm
                        \<and> port_wifi_mode q = avb_port_wifi_mode_sta
                     then mrp_station_self_leaveall p s else s
                else s)
       in case mrp_leaveall_next_expiry_us (port s p) (avb_lite s) s of
            (t, s) \<Rightarrow> (True, upd_port p (\<lambda>q. q\<lparr> mrp_leaveall_timer_us := t \<rparr>) s)
     else (fired, s))"

definition tick_periodic :: "int \<Rightarrow> bool \<times> avb_state \<Rightarrow> bool \<times> avb_state" where
  "tick_periodic p = (\<lambda>(fired, s).
     let now = now_us s;
         restart = upd_port p (\<lambda>q. q\<lparr> mrp_periodic_timer_us := now + MRP_PERIODIC_TIMER_US \<rparr>)
     in if mrp_periodic_timer_us (port s p) \<noteq> 0 \<and> now \<ge> mrp_periodic_timer_us (port s p) then
          (if avb_lite s then (fired, restart s)
           else (True, mrp_port_arm_join_timer p (mrp_port_dispatch_periodic p (restart s))))
        else (fired, s))"

definition tick_join :: "int \<Rightarrow> bool \<times> avb_state \<Rightarrow> bool \<times> avb_state" where
  "tick_join p = (\<lambda>(fired, s).
     if mrp_join_timer_us (port s p) \<noteq> 0 \<and> now_us s \<ge> mrp_join_timer_us (port s p)
     then (True, mrp_tx_flush_port p (upd_port p (\<lambda>q. q\<lparr> mrp_join_timer_us := 0 \<rparr>) s))
     else (fired, s))"

text \<open>Run a pass that reports whether it did anything.\<close>

definition tick_pass :: "(avb_state \<Rightarrow> bool \<times> avb_state) \<Rightarrow> bool \<times> avb_state \<Rightarrow> bool \<times> avb_state" where
  "tick_pass f = (\<lambda>(fired, s). case f s of (r, s) \<Rightarrow> (fired \<or> r, s))"

definition mrp_port_tick :: "int \<Rightarrow> nat \<Rightarrow> avb_state \<Rightarrow> bool \<times> avb_state" where
  "mrp_port_tick p sta_count s =
     (if \<not> valid_port s p then (False, s)
      else
        let now = now_us s;
            x = tick_periodic p (tick_leaveall p sta_count (False, s));
            x = tick_pass (mrp_talker_release_held p now) x;
            x = tick_join p x;
            x = (if avb_lite (snd x) then tick_pass (mrp_lite_flush p now) x else x)
        in tick_pass (mrp_port_dispatch_leave_timers p now) x)"

end
