(* ===== verification/Tspec.thy ===== *)
theory Tspec
  imports Prelude
begin

text \<open>
  The traffic specification of an output stream (\<open>mrp.c\<close>: \<open>avb_compute_tspec_max_frame_size\<close>,
  \<open>avb_compute_tspec_max_interval_frames\<close>) and the sample rate codes it decodes (\<open>avb.c\<close>).
  A stream format is its eight octets; the fields of the three overlaid structures
  \<open>avtp_stream_format_s\<close> are read from them.
\<close>

section \<open>Sample rates\<close>

definition aaf_code_to_sample_rate :: "u8 \<Rightarrow> u32" where
  "aaf_code_to_sample_rate code =
     (if code = 1 then 8000 else if code = 2 then 16000 else if code = 10 then 24000
      else if code = 3 then 32000 else if code = 4 then 44100 else if code = 5 then 48000
      else if code = 6 then 88200 else if code = 7 then 96000 else if code = 8 then 176400
      else if code = 9 then 192000 else 48000)"

definition cip_sfc_to_sample_rate :: "u8 \<Rightarrow> u32" where
  "cip_sfc_to_sample_rate sfc =
     (if sfc = 0 then 32000 else if sfc = 1 then 44100 else if sfc = 2 then 48000
      else if sfc = 3 then 88200 else if sfc = 4 then 96000 else if sfc = 5 then 176400
      else if sfc = 6 then 192000 else 48000)"

section \<open>Fields of a stream format\<close>

definition fmt_subtype :: "octets \<Rightarrow> u8" where "fmt_subtype f = f ! 0 AND 0x7F"
definition aaf_sample_rate :: "octets \<Rightarrow> u8" where "aaf_sample_rate f = f ! 1 AND 0x0F"
definition aaf_bit_depth :: "octets \<Rightarrow> nat" where "aaf_bit_depth f = unat (f ! 3)"
definition aaf_channels :: "octets \<Rightarrow> nat" where
  "aaf_channels f = unat (f ! 4) * 4 + unat (drop_bit 6 (f ! 5))"
definition aaf_samples_per_frame :: "octets \<Rightarrow> nat" where
  "aaf_samples_per_frame f = unat (f ! 5 AND 0x3F) * 16 + unat (drop_bit 4 (f ! 6))"
definition am824_fdf_sfc :: "octets \<Rightarrow> u8" where "am824_fdf_sfc f = f ! 2 AND 7"
definition am824_dbs :: "octets \<Rightarrow> nat" where "am824_dbs f = unat (f ! 3)"

definition subtype_61883 :: u8 where "subtype_61883 = 0"
definition subtype_aaf :: u8 where "subtype_aaf = 2"
definition subtype_crf :: u8 where "subtype_crf = 4"

section \<open>TSpec\<close>

definition AVB_CRF_TS_PER_PDU :: nat where "AVB_CRF_TS_PER_PDU = 1"

definition class_interval_us :: "bool \<Rightarrow> nat" where
  "class_interval_us class_b = (if class_b then 250 else 125)"

definition class_intervals :: "bool \<Rightarrow> nat" where
  "class_intervals class_b = 1000000 div class_interval_us class_b"

text \<open>The samples of one interval, rounded up; an AAF format says how many a frame holds.\<close>

definition tspec_samples_per_packet :: "octets \<Rightarrow> bool \<Rightarrow> nat \<Rightarrow> nat" where
  "tspec_samples_per_packet f class_b sample_rate =
     (let n = (sample_rate + class_intervals class_b - 1) div class_intervals class_b
      in if fmt_subtype f \<noteq> subtype_61883 \<and> aaf_samples_per_frame f > 0
         then aaf_samples_per_frame f else n)"

definition avb_compute_tspec_max_frame_size :: "octets \<Rightarrow> bool \<Rightarrow> u16" where
  "avb_compute_tspec_max_frame_size f class_b =
     (if fmt_subtype f = subtype_crf then of_nat (20 + AVB_CRF_TS_PER_PDU * 8)
      else
        let am824 = (fmt_subtype f = subtype_61883);
            channels = (if am824 then am824_dbs f else aaf_channels f);
            bytes_per_sample = (if am824 then 4 else if aaf_bit_depth f = 24 then 4
                                else aaf_bit_depth f div 8);
            sample_rate = unat (if am824 then cip_sfc_to_sample_rate (am824_fdf_sfc f)
                                else aaf_code_to_sample_rate (aaf_sample_rate f));
            avtp_hdr = (if am824 then 24 + 8 else 24)
        in if channels = 0 \<or> sample_rate = 0 then 0
           else of_nat (avtp_hdr + tspec_samples_per_packet f class_b sample_rate * channels * bytes_per_sample))"

definition avb_compute_tspec_max_interval_frames :: "bool \<Rightarrow> octets \<Rightarrow> bool \<Rightarrow> u16" where
  "avb_compute_tspec_max_interval_frames wireless f class_b =
     (let frames =
        (if fmt_subtype f = subtype_aaf then
           let sample_rate = aaf_code_to_sample_rate (aaf_sample_rate f);
               format_spf = of_nat (aaf_samples_per_frame f) :: u32
           in if sample_rate \<noteq> 0 \<and> format_spf \<noteq> 0 then
                let class_samples = sample_rate * of_nat (class_interval_us class_b) div 1000000;
                    frames = (class_samples + format_spf - 1) div format_spf
                in if frames = 0 then 1 else frames
              else 1
         else 1);
        frames = (if wireless then frames * 2 else frames)
      in ucast frames)"

section \<open>What is reserved\<close>

lemma cip_rate_cases:
  "cip_sfc_to_sample_rate c \<in> {32000, 44100, 48000, 88200, 96000, 176400, 192000}"
  by (simp add: cip_sfc_to_sample_rate_def)

lemma aaf_rate_cases:
  "aaf_code_to_sample_rate c \<in>
     {8000, 16000, 24000, 32000, 44100, 48000, 88200, 96000, 176400, 192000}"
  by (simp add: aaf_code_to_sample_rate_def)

lemma cip_rate_bounds: "0 < unat (cip_sfc_to_sample_rate c) \<and> unat (cip_sfc_to_sample_rate c) \<le> 192000"
  using cip_rate_cases [of c] by auto

lemma intervals: "class_intervals class_b = (if class_b then 4000 else 8000)"
  by (simp add: class_intervals_def class_interval_us_def)

lemma interval_samples_bounds:
  assumes "0 < rate" and "rate \<le> 192000"
  shows "rate \<le> (rate + class_intervals b - 1) div class_intervals b * class_intervals b"
    and "(rate + class_intervals b - 1) div class_intervals b \<le> 48"
proof -
  have p: "0 < class_intervals b" "4000 \<le> class_intervals b" by (auto simp: intervals)
  let ?n = "(rate + class_intervals b - 1) div class_intervals b"
  have "rate + class_intervals b - 1 < class_intervals b * (?n + 1)"
    using p(1) by (simp add: div_mult_mod_eq [symmetric] dividend_less_times_div)
  then show "rate \<le> ?n * class_intervals b" using p by (simp add: algebra_simps)
  have "?n < 49" using p assms by (auto simp: intervals div_less_iff_less_mult split: if_splits)
  then show "?n \<le> 48" by simp
qed

text \<open>The frame size an IEC 61883-6 stream reserves never wraps its 16 bits and always holds
  the samples of one class interval: the reservation of one frame an interval carries the
  stream's full sample rate on every channel, also at 44.1 kHz and its multiples.\<close>

theorem am824_reservation_covers:
  "\<lbrakk>fmt_subtype f = subtype_61883; 0 < am824_dbs f\<rbrakk> \<Longrightarrow>
     unat (cip_sfc_to_sample_rate (am824_fdf_sfc f)) * am824_dbs f * 4
       \<le> (unat (avb_compute_tspec_max_frame_size f class_b) - 32) * class_intervals class_b
   \<and> 32 < unat (avb_compute_tspec_max_frame_size f class_b)"
proof -
  assume f: "fmt_subtype f = subtype_61883" "0 < am824_dbs f"
  define rate where "rate = unat (cip_sfc_to_sample_rate (am824_fdf_sfc f))"
  define n where "n = (rate + class_intervals class_b - 1) div class_intervals class_b"
  have r: "0 < rate" "rate \<le> 192000" using cip_rate_bounds by (auto simp: rate_def)
  note n = interval_samples_bounds [OF r, of class_b, folded n_def]
  have np: "0 < n" using n(1) r(1) by (cases n) auto
  have d: "am824_dbs f \<le> 255" using unat_u8_less [of "f ! 3"] by (simp add: am824_dbs_def)
  have "n * am824_dbs f \<le> 48 * 255" using n(2) d by (rule mult_le_mono)
  then have b: "32 + n * am824_dbs f * 4 < 65536" by simp
  have "avb_compute_tspec_max_frame_size f class_b = of_nat (32 + n * am824_dbs f * 4)"
    using f r unfolding avb_compute_tspec_max_frame_size_def
    by (simp add: subtype_61883_def subtype_crf_def tspec_samples_per_packet_def rate_def [symmetric] n_def)
  with b have u: "unat (avb_compute_tspec_max_frame_size f class_b) = 32 + n * am824_dbs f * 4"
    by (simp add: unat_of_nat del: of_nat_add of_nat_mult)
  have "rate * (am824_dbs f * 4) \<le> n * class_intervals class_b * (am824_dbs f * 4)"
    using n(1) by (rule mult_le_mono1)
  then show ?thesis using u np f(2) by (simp add: rate_def [symmetric] algebra_simps)
qed

definition example_am824 :: octets where
  "example_am824 = [0x00, 0xA0, 0x01, 0x08, 0x40, 0x00, 0x08, 0x00]"

theorem am824_reservation_covers_witness:
  "44100 * 8 * 4 \<le> (unat (avb_compute_tspec_max_frame_size example_am824 False) - 32) * (8000 :: nat)
   \<and> avb_compute_tspec_max_frame_size example_am824 False = 32 + 6 * 8 * 4"
  using am824_reservation_covers [of example_am824 False]
  by (simp add: example_am824_def fmt_subtype_def subtype_61883_def am824_dbs_def am824_fdf_sfc_def
      cip_sfc_to_sample_rate_def intervals avb_compute_tspec_max_frame_size_def subtype_crf_def
      tspec_samples_per_packet_def)

definition example_aaf_441 :: octets where
  "example_aaf_441 = [0x02, 0x04, 0x02, 0x20, 0x02, 0x00, 0x10, 0x00]"

text \<open>\<open>MaxIntervalFrames\<close> of an AAF stream is computed from the samples of an interval rounded
  down: a rate that is no multiple of the interval rate is reserved short.  At 44.1 kHz with one
  sample a frame, Class A reserves 40000 samples a second of the 44100 the stream sends.\<close>

theorem aaf_reservation_short:
  "aaf_code_to_sample_rate (aaf_sample_rate example_aaf_441) = 44100
   \<and> aaf_samples_per_frame example_aaf_441 = 1
   \<and> unat (avb_compute_tspec_max_interval_frames False example_aaf_441 False)
       * aaf_samples_per_frame example_aaf_441 * class_intervals False = 40000"
  by (simp add: example_aaf_441_def aaf_sample_rate_def aaf_code_to_sample_rate_def
      aaf_samples_per_frame_def avb_compute_tspec_max_interval_frames_def fmt_subtype_def
      subtype_aaf_def class_interval_us_def intervals)

end
