(* ===== verification/Src_Conv.thy ===== *)
theory Src_Conv
  imports Prelude
begin

text \<open>
  The sample-rate converter (\<open>avbsrc.c\<close>): the walk that pays a whole frame owed to the ratio over
  4096 outputs, the input history, and the conversion of a block of frames.  Positions and sums
  are integers: \<open>owed\<close> is clamped to four frames, and the products and sums of the filter fit
  the code's 64 and 32 bits for a table of unity gain.  The coefficient table, which the code
  builds in floating point, is the parameter \<open>table\<close>; an output between two walks does not
  read it.
\<close>

section \<open>State\<close>

definition AVB_SRC_TAPS :: nat where "AVB_SRC_TAPS = 16"
definition AVB_SRC_PHASES_LOG2 :: nat where "AVB_SRC_PHASES_LOG2 = 6"
definition AVB_SRC_SLOTS :: nat where "AVB_SRC_SLOTS = 2"
definition AVB_SRC_WALK_FRAMES :: int where "AVB_SRC_WALK_FRAMES = 4096"
definition SRC_ONE :: int where "SRC_ONE = 2 ^ 32"

record avb_src_pos_s =
  frac :: int
  owed :: int
  walk_step :: int
  walk_left :: int
  extra :: int

record avb_src_s =
  hist :: "int list list"
  hist_pos :: nat
  pos :: avb_src_pos_s
  walks :: nat

definition avb_src_zero :: avb_src_s where
  "avb_src_zero = \<lparr> hist = replicate AVB_SRC_SLOTS (replicate (2 * AVB_SRC_TAPS) 0), hist_pos = 0,
     pos = \<lparr> frac = 0, owed = 0, walk_step = 0, walk_left = 0, extra = 0 \<rparr>, walks = 0 \<rparr>"

section \<open>The position\<close>

definition src_clamp :: "int \<Rightarrow> int" where
  "src_clamp x = (if x > 4 * SRC_ONE then 4 * SRC_ONE else if x < - 4 * SRC_ONE then - 4 * SRC_ONE else x)"

text \<open>A walk of direction \<open>sign\<close> starts.\<close>

definition src_walk :: "int \<Rightarrow> avb_src_pos_s \<Rightarrow> avb_src_pos_s" where
  "src_walk d p = p\<lparr> walk_step := d * (SRC_ONE div AVB_SRC_WALK_FRAMES), walk_left := AVB_SRC_WALK_FRAMES \<rparr>"

definition src_next_step :: "avb_src_pos_s \<Rightarrow> int \<Rightarrow> int \<times> avb_src_pos_s" where
  "src_next_step p rate_q32 =
     (let p = p\<lparr> owed := src_clamp (owed p + rate_q32) \<rparr>;
          run = (\<lambda>p. (walk_step p, p\<lparr> walk_left := walk_left p - 1 \<rparr>))
      in if walk_left p \<noteq> 0 then run p
         else if owed p \<ge> SRC_ONE \<or> owed p \<le> - SRC_ONE then
           let d = (if owed p > 0 then 1 else -1)
           in run (src_walk d (p\<lparr> owed := owed p - d * SRC_ONE \<rparr>))
         else if extra p \<noteq> 0 then
           let d = (if extra p > 0 then 1 else -1)
           in run (src_walk d (p\<lparr> extra := extra p - d \<rparr>))
         else (0, p))"

definition src_advance :: "avb_src_pos_s \<Rightarrow> int \<Rightarrow> int \<times> avb_src_pos_s" where
  "src_advance p step =
     (let next = frac p + SRC_ONE + step
      in (next div SRC_ONE, p\<lparr> frac := next mod SRC_ONE \<rparr>))"

definition avb_src_owe :: "int \<Rightarrow> avb_src_s \<Rightarrow> avb_src_s" where
  "avb_src_owe frames src = src\<lparr> pos := (pos src)\<lparr> extra := extra (pos src) + frames \<rparr> \<rparr>"

text \<open>One output: the inputs it takes and the position after it.\<close>

definition src_output :: "int \<Rightarrow> avb_src_pos_s \<Rightarrow> int \<times> avb_src_pos_s" where
  "src_output rate_q32 p = (case src_next_step p rate_q32 of (step, p) \<Rightarrow> src_advance p step)"

fun src_outputs :: "nat \<Rightarrow> int \<Rightarrow> avb_src_pos_s \<Rightarrow> int \<times> avb_src_pos_s" where
  "src_outputs 0 rate p = (0, p)"
| "src_outputs (Suc n) rate p =
     (case src_output rate p of (k, p) \<Rightarrow> (case src_outputs n rate p of (m, p) \<Rightarrow> (k + m, p)))"

definition avb_src_inputs :: "avb_src_s \<Rightarrow> nat \<Rightarrow> int \<Rightarrow> int" where
  "avb_src_inputs src out_frames rate_q32 = fst (src_outputs out_frames rate_q32 (pos src))"

definition avb_src_rate_from_ppm_q8 :: "int \<Rightarrow> int" where
  "avb_src_rate_from_ppm_q8 ppm_q8 =
     - (sgn ppm_q8 * (\<bar>ppm_q8\<bar> * 16777216 div 1000000))"

section \<open>History\<close>

definition src_sample_of :: "octets \<Rightarrow> int" where
  "src_sample_of bytes =
     sint (push_bit 24 (ucast (bytes ! 0)) OR push_bit 16 (ucast (bytes ! 1))
           OR push_bit 8 (ucast (bytes ! 2)) :: u32)"

text \<open>Each sample is written twice, so that the newest \<open>AVB_SRC_TAPS\<close> are contiguous.\<close>

definition src_push :: "octets option \<Rightarrow> nat \<Rightarrow> avb_src_s \<Rightarrow> avb_src_s" where
  "src_push frame slots src =
     (let put = (\<lambda>slot. let sample = (case frame of None \<Rightarrow> 0
                          | Some f \<Rightarrow> src_sample_of (drop (slot * 4) f))
                 in (hist src ! slot)[hist_pos src := sample, hist_pos src + AVB_SRC_TAPS := sample])
      in src\<lparr> hist := map (\<lambda>slot. if slot < slots then put slot else hist src ! slot)
                        [0..<length (hist src)],
              hist_pos := (if hist_pos src + 1 = AVB_SRC_TAPS then 0 else hist_pos src + 1) \<rparr>)"

definition src_frame :: "octets \<Rightarrow> nat \<Rightarrow> nat \<Rightarrow> octets" where
  "src_frame buf frame_bytes k = take frame_bytes (drop (k * frame_bytes) buf)"

definition avb_src_prime :: "octets \<Rightarrow> nat \<Rightarrow> nat \<Rightarrow> avb_src_s \<Rightarrow> avb_src_s" where
  "avb_src_prime inp slots frame_bytes src =
     (let slots = min slots AVB_SRC_SLOTS;
          src = foreach AVB_SRC_TAPS (\<lambda>k. src_push (Some (src_frame inp frame_bytes k)) slots) src
      in src\<lparr> pos := (pos src)\<lparr> frac := 0, walk_left := 0 \<rparr> \<rparr>)"

section \<open>Conversion\<close>

definition mul_high :: "int \<Rightarrow> int \<Rightarrow> int" where
  "mul_high lhs rhs = lhs * rhs div 2 ^ 32"

text \<open>The 29-bit sum of one slot: the window's centre on an input, the filter between two.\<close>

definition src_acc :: "int list \<Rightarrow> avb_src_s \<Rightarrow> nat \<Rightarrow> int" where
  "src_acc table src slot =
     (let h = hist src ! slot; f = frac (pos src) in
      if f = 0 then h ! (hist_pos src + AVB_SRC_TAPS div 2 - 1) div 4
      else
        let phase = nat (f div 2 ^ (32 - AVB_SRC_PHASES_LOG2));
            between = (f * 2 ^ AVB_SRC_PHASES_LOG2) mod 2 ^ 32 div 2;
            row = (\<lambda>k. table ! (phase * AVB_SRC_TAPS + k))
        in sum_list (map (\<lambda>tap.
             mul_high (row tap + mul_high (row (tap + AVB_SRC_TAPS) - row tap) between * 2)
               (h ! (hist_pos src + tap))) [0..<AVB_SRC_TAPS]))"

definition src_sample_octets :: "int \<Rightarrow> octets" where
  "src_sample_octets acc =
     (let s = (acc + 32) div 64;
          s = (if s > 8388607 then 8388607 else if s < -8388608 then -8388608 else s)
      in [word_of_int (s div 2 ^ 16), word_of_int (s div 2 ^ 8), word_of_int s, 0])"

text \<open>One output frame; \<open>used\<close> counts the inputs taken from \<open>inp\<close>, of which there are
  \<open>in_frames\<close>; what is missing is silence.\<close>

definition src_run_frame ::
  "int list \<Rightarrow> octets \<Rightarrow> nat \<Rightarrow> int \<Rightarrow> nat \<Rightarrow> nat \<Rightarrow> nat \<times> avb_src_s \<Rightarrow> octets \<times> nat \<times> avb_src_s" where
  "src_run_frame table inp in_frames rate_q32 slots frame_bytes = (\<lambda>(used, src).
     let idle = (walk_left (pos src) = 0) in
     case src_next_step (pos src) rate_q32 of (step, p) \<Rightarrow>
     case src_advance p step of (k, p) \<Rightarrow>
     let src = src\<lparr> pos := p, walks := walks src + (if idle \<and> step \<noteq> 0 then 1 else 0) \<rparr>;
         src = foreach (nat k) (\<lambda>i. src_push
                 (if used + i < in_frames then Some (src_frame inp frame_bytes (used + i)) else None)
                 slots) src
     in (concat (map (\<lambda>slot. src_sample_octets (if slot < slots then src_acc table src slot else 0))
           [0..<frame_bytes div 4]), used + nat k, src))"

fun src_run_frames ::
  "nat \<Rightarrow> int list \<Rightarrow> octets \<Rightarrow> nat \<Rightarrow> int \<Rightarrow> nat \<Rightarrow> nat \<Rightarrow> nat \<times> avb_src_s \<Rightarrow> octets \<times> nat \<times> avb_src_s" where
  "src_run_frames 0 table inp in_frames rate slots fb (used, src) = ([], used, src)"
| "src_run_frames (Suc n) table inp in_frames rate slots fb (used, src) =
     (case src_run_frame table inp in_frames rate slots fb (used, src) of (out, used, src) \<Rightarrow>
      case src_run_frames n table inp in_frames rate slots fb (used, src) of (rest, used, src) \<Rightarrow>
        (out @ rest, used, src))"

text \<open>Returns the output buffer, the inputs taken and the converter.\<close>

definition avb_src_run ::
  "int list \<Rightarrow> octets \<Rightarrow> nat \<Rightarrow> nat \<Rightarrow> int \<Rightarrow> nat \<Rightarrow> nat \<Rightarrow> avb_src_s \<Rightarrow> octets \<times> nat \<times> avb_src_s" where
  "avb_src_run table inp in_frames out_frames rate_q32 slots frame_bytes src =
     src_run_frames out_frames table inp in_frames rate_q32 (min slots AVB_SRC_SLOTS) frame_bytes (0, src)"

section \<open>Account of the position\<close>

text \<open>What the position owes in all, and the invariant of a run whose ratios walks can
  follow: a walk is on its
  line, an idle position on an input, and the clamp is out of reach.\<close>

definition src_debt :: "avb_src_pos_s \<Rightarrow> int" where
  "src_debt p = frac p + owed p + extra p * SRC_ONE + walk_step p * walk_left p"

definition src_pos_inv :: "avb_src_pos_s \<Rightarrow> bool" where
  "src_pos_inv p \<longleftrightarrow> 0 \<le> walk_left p \<and> walk_left p < 4096
     \<and> (walk_left p \<noteq> 0 \<longrightarrow> walk_step p = 2 ^ 20 \<or> walk_step p = - (2 ^ 20))
     \<and> \<bar>owed p\<bar> \<le> SRC_ONE + 2 ^ 20 * (4096 - walk_left p)
     \<and> frac p = (- walk_step p * walk_left p) mod SRC_ONE"

lemma src_step_cases:
  assumes "\<bar>owed p + r\<bar> \<le> 4 * SRC_ONE"
  obtains (walking) "walk_left p \<noteq> 0"
      "src_next_step p r = (walk_step p, p\<lparr> owed := owed p + r, walk_left := walk_left p - 1 \<rparr>)"
  | (paid) d where "walk_left p = 0" "d = 1 \<or> d = -1" "\<bar>owed p + r - d * SRC_ONE\<bar> = \<bar>owed p + r\<bar> - SRC_ONE"
      "src_next_step p r = (d * 2 ^ 20, p\<lparr> owed := owed p + r - d * SRC_ONE,
         walk_step := d * 2 ^ 20, walk_left := 4095 \<rparr>)"
  | (extra) d where "walk_left p = 0" "d = 1 \<or> d = -1" "\<bar>owed p + r\<bar> < SRC_ONE"
      "\<bar>extra p - d\<bar> \<le> \<bar>extra p\<bar>"
      "src_next_step p r = (d * 2 ^ 20, p\<lparr> owed := owed p + r, extra := extra p - d,
         walk_step := d * 2 ^ 20, walk_left := 4095 \<rparr>)"
  | (idle) "walk_left p = 0" "\<bar>owed p + r\<bar> < SRC_ONE" "extra p = 0"
      "src_next_step p r = (0, p\<lparr> owed := owed p + r \<rparr>)"
proof -
  have c: "src_clamp (owed p + r) = owed p + r"
    using assms by (auto simp: src_clamp_def)
  note d = src_next_step_def Let_def c src_walk_def AVB_SRC_WALK_FRAMES_def SRC_ONE_def
  let ?o = "owed p + r"
  consider (a) "walk_left p \<noteq> 0"
    | (b) "walk_left p = 0" "SRC_ONE \<le> \<bar>?o\<bar>"
    | (c) "walk_left p = 0" "\<bar>?o\<bar> < SRC_ONE" "extra p \<noteq> 0"
    | (d) "walk_left p = 0" "\<bar>?o\<bar> < SRC_ONE" "extra p = 0" by linarith
  then show ?thesis
  proof cases
    case a
    then show ?thesis by (intro walking) (simp_all add: d)
  next
    case b
    show ?thesis
      by (rule paid [of "if ?o > 0 then 1 else -1"]) (use b in \<open>auto simp: d\<close>)
  next
    case c
    show ?thesis
      by (rule extra [of "if extra p > 0 then 1 else -1"]) (use c in \<open>auto simp: d\<close>)
  next
    case d: d
    show ?thesis by (rule idle) (use d in \<open>auto simp: src_next_step_def Let_def c SRC_ONE_def\<close>)
  qed
qed

lemma src_owed_bound:
  assumes "src_pos_inv p" and "\<bar>r\<bar> \<le> 2 ^ 20"
  shows "\<bar>owed p + r\<bar> \<le> 4 * SRC_ONE"
proof -
  have "\<bar>owed p\<bar> \<le> SRC_ONE + 2 ^ 20 * (4096 - walk_left p)" "0 \<le> walk_left p"
    using assms(1) by (simp_all add: src_pos_inv_def)
  then show ?thesis using assms(2) by (simp add: SRC_ONE_def)
qed

lemma src_output_account:
  assumes inv: "src_pos_inv p" and r: "\<bar>r\<bar> \<le> 2 ^ 20"
    and out: "src_output r p = (k, q)"
  shows "src_pos_inv q \<and> 0 \<le> k \<and> k * SRC_ONE + src_debt q = SRC_ONE + r + src_debt p
       \<and> \<bar>extra q\<bar> \<le> \<bar>extra p\<bar>"
proof -
  obtain step p1 where s: "src_next_step p r = (step, p1)" by (cases "src_next_step p r")
  define nx where "nx = frac p + SRC_ONE + step"
  have fp: "frac p1 = frac p" 
    by (cases rule: src_step_cases [OF src_owed_bound [OF inv r]]) (use s in auto)
  have k: "k = nx div SRC_ONE" "q = p1\<lparr> frac := nx mod SRC_ONE \<rparr>"
    using out by (auto simp: src_output_def s src_advance_def Let_def nx_def fp)
  have f: "0 \<le> frac p" using inv by (simp add: src_pos_inv_def SRC_ONE_def)
  have kf: "k * SRC_ONE + frac q = frac p + SRC_ONE + step"
    using div_mult_mod_eq [of nx SRC_ONE] by (simp add: k nx_def)
  have fq: "frac q = (frac p + step) mod SRC_ONE"
    by (simp add: k nx_def) (metis add.assoc add.commute mod_add_self2)
  have o: "\<bar>owed p\<bar> \<le> SRC_ONE + 2 ^ 20 * (4096 - walk_left p)" "0 \<le> walk_left p" "walk_left p < 4096"
    and fi: "frac p = (- walk_step p * walk_left p) mod SRC_ONE"
    and ws: "walk_left p \<noteq> 0 \<longrightarrow> walk_step p = 2 ^ 20 \<or> walk_step p = - (2 ^ 20)"
    using inv by (auto simp: src_pos_inv_def)
  have pos: "0 \<le> k" if "- SRC_ONE \<le> step"
    using that f by (simp add: k nx_def SRC_ONE_def)
  show ?thesis
  proof (cases rule: src_step_cases [OF src_owed_bound [OF inv r], case_names walking paid extra idle])
    case walking
    then have e: "step = walk_step p" "p1 = p\<lparr> owed := owed p + r, walk_left := walk_left p - 1 \<rparr>"
      using s by auto
    have "frac q = (- walk_step p * walk_left p + walk_step p) mod SRC_ONE"
      by (simp add: fq fi e mod_add_left_eq)
    moreover have "\<bar>owed p + r\<bar> \<le> SRC_ONE + 2 ^ 20 * (4096 - (walk_left p - 1))"
      using o(1) r by (simp add: algebra_simps)
    moreover have "- SRC_ONE \<le> step" using ws walking e by (auto simp: SRC_ONE_def)
    ultimately show ?thesis
      using kf walking(1) o ws pos
      by (auto simp: src_pos_inv_def src_debt_def k(2) e algebra_simps)
  next
    case (paid d)
    then have e: "step = d * 2 ^ 20" "p1 = p\<lparr> owed := owed p + r - d * SRC_ONE,
        walk_step := d * 2 ^ 20, walk_left := 4095 \<rparr>" using s by auto
    have "frac q = (d * 2 ^ 20) mod SRC_ONE" using paid(1) fi by (simp add: fq e)
    also have "\<dots> = (- (d * 2 ^ 20) * 4095) mod SRC_ONE"
      using paid(2) by (auto simp: SRC_ONE_def)
    finally have "frac q = (- (d * 2 ^ 20) * 4095) mod SRC_ONE" .
    moreover have "\<bar>owed p + r - d * SRC_ONE\<bar> \<le> SRC_ONE + 2 ^ 20"
      using paid(1,3) o(1) r by (simp add: SRC_ONE_def)
    moreover have "- SRC_ONE \<le> step" using paid(2) e by (auto simp: SRC_ONE_def)
    moreover have "k * SRC_ONE + frac q = SRC_ONE + d * 2 ^ 20"
      using kf paid(1) fi e by simp
    ultimately show ?thesis
      using paid(1,2) fi pos
      by (auto simp: src_pos_inv_def src_debt_def k(2) e SRC_ONE_def)
  next
    case (extra d)
    then have e: "step = d * 2 ^ 20" "p1 = p\<lparr> owed := owed p + r, extra := extra p - d,
        walk_step := d * 2 ^ 20, walk_left := 4095 \<rparr>" using s by auto
    have "frac q = (d * 2 ^ 20) mod SRC_ONE" using extra(1) fi by (simp add: fq e)
    also have "\<dots> = (- (d * 2 ^ 20) * 4095) mod SRC_ONE"
      using extra(2) by (auto simp: SRC_ONE_def)
    finally have "frac q = (- (d * 2 ^ 20) * 4095) mod SRC_ONE" .
    moreover have "- SRC_ONE \<le> step" using extra(2) e by (auto simp: SRC_ONE_def)
    moreover have "k * SRC_ONE + frac q = SRC_ONE + d * 2 ^ 20"
      using kf extra(1) fi e by simp
    ultimately show ?thesis
      using extra fi pos
      by (auto simp: src_pos_inv_def src_debt_def k(2) e SRC_ONE_def)
  next
    case idle
    then have e: "step = 0" "p1 = p\<lparr> owed := owed p + r \<rparr>" using s by auto
    then show ?thesis
      using idle kf fi pos fq
      by (auto simp: src_pos_inv_def src_debt_def k(2) SRC_ONE_def)
  qed
qed

lemma src_outputs_account:
  "\<lbrakk>src_pos_inv p; \<bar>r\<bar> \<le> 2 ^ 20; src_outputs n r p = (m, q)\<rbrakk> \<Longrightarrow>
     src_pos_inv q \<and> 0 \<le> m \<and> m * SRC_ONE + src_debt q = int n * (SRC_ONE + r) + src_debt p
   \<and> \<bar>extra q\<bar> \<le> \<bar>extra p\<bar>"
proof (induction n arbitrary: p m q)
  case (Suc n)
  obtain k p1 where a: "src_output r p = (k, p1)" by (cases "src_output r p")
  obtain l q1 where b: "src_outputs n r p1 = (l, q1)" by (cases "src_outputs n r p1")
  have e: "m = k + l" "q = q1" using Suc.prems(3) by (auto simp: a b)
  note one = src_output_account [OF Suc.prems(1,2) a]
  from Suc.IH [OF conjunct1 [OF one] Suc.prems(2) b] one show ?case
    by (auto simp: e algebra_simps)
qed simp

lemma src_debt_bound:
  assumes "src_pos_inv p"
  shows "\<bar>src_debt p - extra p * SRC_ONE\<bar> \<le> 3 * SRC_ONE"
proof -
  have w: "0 \<le> walk_left p" "walk_left p < 4096"
    "walk_left p \<noteq> 0 \<longrightarrow> walk_step p = 2 ^ 20 \<or> walk_step p = - (2 ^ 20)"
    "frac p = (- walk_step p * walk_left p) mod SRC_ONE"
    "\<bar>owed p\<bar> \<le> SRC_ONE + 2 ^ 20 * (4096 - walk_left p)"
    using assms(1) by (auto simp: src_pos_inv_def)
  have o: "\<bar>owed p\<bar> \<le> 2 * SRC_ONE" using w(1,5) by (simp add: SRC_ONE_def)
  have "0 \<le> frac p + walk_step p * walk_left p \<and> frac p + walk_step p * walk_left p \<le> SRC_ONE"
  proof (cases "walk_left p = 0")
    case True
    then show ?thesis using w(4) by (simp add: SRC_ONE_def)
  next
    case False
    with w(3) consider "walk_step p = 2 ^ 20" | "walk_step p = - (2 ^ 20)" by blast
    then show ?thesis
    proof cases
      case 1
      have "frac p = (- (2 ^ 20) * walk_left p + SRC_ONE) mod SRC_ONE" using w(4) 1 by simp
      also have "\<dots> = - (2 ^ 20) * walk_left p + SRC_ONE"
        by (rule mod_pos_pos_trivial) (use w False in \<open>simp_all add: SRC_ONE_def\<close>)
      finally show ?thesis using 1 by (simp add: SRC_ONE_def)
    next
      case 2
      have "frac p = 2 ^ 20 * walk_left p"
        using w 2 by (simp add: SRC_ONE_def)
      then show ?thesis using 2 by (simp add: SRC_ONE_def)
    qed
  qed
  with o show ?thesis unfolding src_debt_def by linarith
qed

text \<open>An idle converter that owes less than a frame, as one is after priming.\<close>

definition src_fresh :: "avb_src_pos_s \<Rightarrow> bool" where
  "src_fresh p \<longleftrightarrow> frac p = 0 \<and> walk_left p = 0 \<and> \<bar>owed p\<bar> < SRC_ONE \<and> extra p = 0"

lemma src_fresh_inv: "src_fresh p \<Longrightarrow> src_pos_inv p"
  by (auto simp: src_fresh_def src_pos_inv_def SRC_ONE_def)

text \<open>At every ratio a walk can follow (\<open>|rate_q32| \<le> 2^20\<close>, 244 ppm), the inputs a converter
  takes for \<open>n\<close> outputs stay within four frames of the exact \<open>n * (1 + rate_q32 / 2^32)\<close>, for
  every \<open>n\<close>: the walks lose and gain nothing in the long run.\<close>

theorem src_ratio_exact:
  "\<lbrakk>src_fresh (pos src); \<bar>rate_q32\<bar> \<le> 2 ^ 20\<rbrakk> \<Longrightarrow>
     \<bar>avb_src_inputs src n rate_q32 * 2 ^ 32 - int n * (2 ^ 32 + rate_q32)\<bar> \<le> 4 * 2 ^ 32"
proof -
  assume f: "src_fresh (pos src)" and r: "\<bar>rate_q32\<bar> \<le> 2 ^ 20"
  obtain m q where o: "src_outputs n rate_q32 (pos src) = (m, q)"
    by (cases "src_outputs n rate_q32 (pos src)")
  note a = src_outputs_account [OF src_fresh_inv [OF f] r o]
  have "extra q = 0" using a f by (auto simp: src_fresh_def)
  then have "\<bar>src_debt q\<bar> \<le> 3 * SRC_ONE"
    using src_debt_bound [of q] a by auto
  moreover have "\<bar>src_debt (pos src)\<bar> \<le> SRC_ONE"
    using f by (simp add: src_fresh_def src_debt_def)
  moreover have "m * SRC_ONE - int n * (SRC_ONE + rate_q32) = src_debt (pos src) - src_debt q"
    using a by linarith
  ultimately have "\<bar>m * SRC_ONE - int n * (SRC_ONE + rate_q32)\<bar> \<le> 4 * SRC_ONE" by linarith
  then show ?thesis by (simp add: avb_src_inputs_def o SRC_ONE_def)
qed

theorem src_ratio_exact_witness:
  "\<bar>avb_src_inputs avb_src_zero 48000 (2 ^ 20) * 2 ^ 32 - int 48000 * (2 ^ 32 + 2 ^ 20)\<bar> \<le> 4 * 2 ^ 32"
  by (rule src_ratio_exact) (simp_all add: src_fresh_def avb_src_zero_def SRC_ONE_def)

text \<open>Between two walks the output position is exactly on an input, so that the audio passes
  without the filter; a walk moves it by one frame in 4096 outputs.\<close>

theorem src_idle_on_input:
  "\<lbrakk>src_fresh p; \<bar>r\<bar> \<le> 2 ^ 20; src_outputs n r p = (m, q)\<rbrakk> \<Longrightarrow>
     (walk_left q = 0 \<longrightarrow> frac q = 0)
   \<and> (0 < walk_left q \<longrightarrow> frac q = 2 ^ 20 * (4096 - walk_left q) \<and> walk_step q = 2 ^ 20
                       \<or> frac q = 2 ^ 20 * walk_left q \<and> walk_step q = - (2 ^ 20))"
proof -
  assume a: "src_fresh p" "\<bar>r\<bar> \<le> 2 ^ 20" "src_outputs n r p = (m, q)"
  have "src_pos_inv q" using src_outputs_account [OF src_fresh_inv [OF a(1)] a(2,3)] by simp
  then have w: "0 \<le> walk_left q" "walk_left q < 4096"
    "walk_left q \<noteq> 0 \<longrightarrow> walk_step q = 2 ^ 20 \<or> walk_step q = - (2 ^ 20)"
    "frac q = (- walk_step q * walk_left q) mod SRC_ONE"
    by (auto simp: src_pos_inv_def)
  show ?thesis
  proof (cases "walk_left q = 0 \<or> walk_step q \<noteq> 2 ^ 20")
    case True
    with w show ?thesis by (auto simp: SRC_ONE_def)
  next
    case False
    then have "frac q = (- (2 ^ 20) * walk_left q + SRC_ONE) mod SRC_ONE" using w(4) by simp
    also have "\<dots> = - (2 ^ 20) * walk_left q + SRC_ONE"
      by (rule mod_pos_pos_trivial) (use w False in \<open>simp_all add: SRC_ONE_def\<close>)
    finally show ?thesis using False by (simp add: SRC_ONE_def algebra_simps)
  qed
qed

theorem src_idle_on_input_witness:
  "snd (src_outputs 4 0 ((pos avb_src_zero)\<lparr> owed := 0 \<rparr>)) = pos avb_src_zero
   \<and> frac (pos avb_src_zero) = 0"
  using src_idle_on_input [of "pos avb_src_zero" 0 4 "fst (src_outputs 4 0 (pos avb_src_zero))"
      "snd (src_outputs 4 0 (pos avb_src_zero))"]
  by (simp add: src_fresh_def avb_src_zero_def SRC_ONE_def numeral_eq_Suc src_output_def
      src_next_step_def src_advance_def src_clamp_def Let_def)

section \<open>Running\<close>

lemma src_push_pos [simp]: "pos (src_push f slots src) = pos src"
  by (simp add: src_push_def Let_def)

lemma foreach_src_push_pos [simp]: "pos (foreach k (\<lambda>i. src_push (g i) slots) src) = pos src"
  by (rule foreach_frame) simp

lemma src_run_frame_pos:
  assumes "src_run_frame table inp m rate slots fb (used, src) = (out, used', src')"
  shows "src_output rate (pos src) = (k, q) \<Longrightarrow> used' = used + nat k \<and> pos src' = q"
  using assms by (auto simp: src_run_frame_def src_output_def Let_def split: prod.splits)

lemma src_run_frames_used:
  "\<lbrakk>src_pos_inv (pos src); \<bar>rate\<bar> \<le> 2 ^ 20;
    src_run_frames n table inp m rate slots fb (used, src) = (out, used', src')\<rbrakk> \<Longrightarrow>
     int used' = int used + fst (src_outputs n rate (pos src))
   \<and> pos src' = snd (src_outputs n rate (pos src))"
proof (induction n arbitrary: used src out used' src')
  case (Suc n)
  obtain o1 u1 s1 where a: "src_run_frame table inp m rate slots fb (used, src) = (o1, u1, s1)"
    by (cases "src_run_frame table inp m rate slots fb (used, src)")
  obtain o2 u2 s2 where b: "src_run_frames n table inp m rate slots fb (u1, s1) = (o2, u2, s2)"
    by (cases "src_run_frames n table inp m rate slots fb (u1, s1)")
  obtain k q where o: "src_output rate (pos src) = (k, q)" by (cases "src_output rate (pos src)")
  obtain l r where l: "src_outputs n rate q = (l, r)" by (cases "src_outputs n rate q")
  have e: "used' = u2" "src' = s2" using Suc.prems(3) by (auto simp: a b)
  have s: "u1 = used + nat k" "pos s1 = q" using src_run_frame_pos [OF a o] by auto
  note acc = src_output_account [OF Suc.prems(1,2) o]
  have "src_pos_inv (pos s1)" using acc s by simp
  from Suc.IH [OF this Suc.prems(2) b] show ?case
    using acc by (simp add: e s o l)
qed simp

text \<open>A conversion takes exactly the inputs \<open>avb_src_inputs\<close> announced for it, which is never
  negative; so a caller that supplies that many never makes it play silence.\<close>

theorem src_run_takes_announced:
  "\<lbrakk>src_pos_inv (pos src); \<bar>rate_q32\<bar> \<le> 2 ^ 20;
    avb_src_run table inp in_frames n rate_q32 slots fb src = (out, used, src')\<rbrakk> \<Longrightarrow>
     int used = avb_src_inputs src n rate_q32 \<and> src_pos_inv (pos src')"
proof -
  assume a: "src_pos_inv (pos src)" "\<bar>rate_q32\<bar> \<le> 2 ^ 20"
    "avb_src_run table inp in_frames n rate_q32 slots fb src = (out, used, src')"
  obtain m q where q: "src_outputs n rate_q32 (pos src) = (m, q)"
    by (cases "src_outputs n rate_q32 (pos src)")
  from src_run_frames_used [OF a(1,2) a(3) [unfolded avb_src_run_def]]
    src_outputs_account [OF a(1,2) q]
  show ?thesis by (simp add: avb_src_inputs_def q)
qed

theorem src_run_takes_announced_witness:
  "fst (snd (avb_src_run [] (zeros 16) 2 2 0 1 8 avb_src_zero)) = 2"
proof -
  have i: "src_pos_inv (pos avb_src_zero)"
    by (rule src_fresh_inv) (simp add: src_fresh_def avb_src_zero_def SRC_ONE_def)
  have "avb_src_inputs avb_src_zero 2 0 = 2"
    by (simp add: avb_src_inputs_def avb_src_zero_def numeral_eq_Suc src_output_def src_next_step_def
        src_advance_def src_clamp_def SRC_ONE_def)
  with src_run_takes_announced [OF i, of 0 "[]" "zeros 16" 2 2 1 8
      "fst (avb_src_run [] (zeros 16) 2 2 0 1 8 avb_src_zero)"
      "fst (snd (avb_src_run [] (zeros 16) 2 2 0 1 8 avb_src_zero))"
      "snd (snd (avb_src_run [] (zeros 16) 2 2 0 1 8 avb_src_zero))"]
  show ?thesis by simp
qed

section \<open>Passing audio through\<close>

text \<open>A history is two slots of twice the taps, the second half repeating the first.\<close>

definition src_hist_ok :: "avb_src_s \<Rightarrow> bool" where
  "src_hist_ok src \<longleftrightarrow> hist_pos src < 16 \<and> length (hist src) = 2
     \<and> (\<forall>s < 2. length (hist src ! s) = 32 \<and> (\<forall>i < 16. hist src ! s ! (i + 16) = hist src ! s ! i))"

text \<open>The newest samples of a slot, oldest first.\<close>

definition src_window :: "avb_src_s \<Rightarrow> nat \<Rightarrow> int list" where
  "src_window src s = map (\<lambda>k. hist src ! s ! (hist_pos src + k)) [0..<16]"

definition src_in_sample :: "octets option \<Rightarrow> nat \<Rightarrow> int" where
  "src_in_sample f slot = (case f of None \<Rightarrow> 0 | Some x \<Rightarrow> src_sample_of (drop (slot * 4) x))"

lemma src_hist_mod:
  assumes "src_hist_ok src" and "s < 2" and "k < 16"
  shows "hist src ! s ! (hist_pos src + k) = hist src ! s ! ((hist_pos src + k) mod 16)"
proof (cases "hist_pos src + k < 16")
  case False
  have lt: "hist_pos src + k - 16 < 16" using assms unfolding src_hist_ok_def by linarith
  have m: "(hist_pos src + k) mod 16 = hist_pos src + k - 16"
    using False lt by (simp add: le_mod_geq)
  from lt have "hist src ! s ! (hist_pos src + k - 16 + 16) = hist src ! s ! (hist_pos src + k - 16)"
    using assms by (simp add: src_hist_ok_def)
  then show ?thesis using False m by simp
qed simp

lemma src_push_ok:
  assumes "src_hist_ok src"
  shows "src_hist_ok (src_push f slots src)"
  using assms by (auto simp: src_hist_ok_def src_push_def Let_def AVB_SRC_TAPS_def nth_list_update)

lemma src_push_window:
  assumes ok: "src_hist_ok src" and s: "s < slots" "s < 2"
  shows "src_window (src_push f slots src) s = tl (src_window src s) @ [src_in_sample f s]"
proof (rule nth_equalityI)
  show "length (src_window (src_push f slots src) s) = length (tl (src_window src s) @ [src_in_sample f s])"
    by (simp add: src_window_def)
  fix k
  assume "k < length (src_window (src_push f slots src) s)"
  then have k: "k < 16" by (simp add: src_window_def)
  let ?p = "hist_pos src" and ?h = "hist src ! s"
  have p: "?p < 16" and l: "length ?h = 32" "length (hist src) = 2"
    using ok s by (auto simp: src_hist_ok_def)
  have h: "hist (src_push f slots src) ! s
      = ?h[?p := src_in_sample f s, ?p + 16 := src_in_sample f s]"
    using s l by (simp add: src_push_def Let_def src_in_sample_def AVB_SRC_TAPS_def cong: option.case_cong)
  have q: "hist_pos (src_push f slots src) = (?p + 1) mod 16"
    using p by (simp add: src_push_def Let_def AVB_SRC_TAPS_def mod_if)
  have ok': "src_hist_ok (src_push f slots src)" by (rule src_push_ok [OF ok])
  have lhs: "src_window (src_push f slots src) s ! k
      = ?h[?p := src_in_sample f s, ?p + 16 := src_in_sample f s] ! ((?p + 1 + k) mod 16)"
    using src_hist_mod [OF ok' s(2) k] k
    by (simp add: src_window_def h q mod_add_left_eq)
  show "src_window (src_push f slots src) s ! k = (tl (src_window src s) @ [src_in_sample f s]) ! k"
  proof (cases "k = 15")
    case True
    then have "(?p + 1 + k) mod 16 = ?p" using p by simp
    then show ?thesis using True lhs l p
      by (simp add: src_window_def nth_append nth_list_update)
  next
    case False
    then have k': "k < 15" using k by simp
    then have "(?p + 1 + k) mod 16 \<noteq> ?p" using p by (auto simp: mod_if)
    moreover have "(?p + 1 + k) mod 16 < 16" by simp
    ultimately have "src_window (src_push f slots src) s ! k = ?h ! ((?p + (k + 1)) mod 16)"
      using lhs p by (simp add: nth_list_update add.assoc add.commute)
    also have "\<dots> = ?h ! (?p + (k + 1))"
      using src_hist_mod [OF ok s(2), of "k + 1"] k' by simp
    finally show ?thesis using k'
      by (simp add: src_window_def nth_append nth_tl del: upt_Suc)
  qed
qed

text \<open>A sample comes out of the 24-bit rounding as it went in.\<close>

lemma sample_bits:
  fixes b0 b1 b2 :: u8
  defines "w \<equiv> (push_bit 24 (ucast b0) OR push_bit 16 (ucast b1) OR push_bit 8 (ucast b2) :: u32)"
  shows "256 dvd sint w" and "word_of_int (sint w div 2 ^ 24) = b0"
    and "word_of_int (sint w div 2 ^ 16) = b1" and "word_of_int (sint w div 2 ^ 8) = b2"
proof -
  have b: "\<not> bit x n" if "8 \<le> n" for x :: u8 and n
    using that bit_imp_le_length [of x n] by fastforce
  have "take_bit 8 (sint w) = 0"
    by (rule bit_eqI) (auto simp: w_def bit_simps)
  then show "256 dvd sint w" by (simp add: take_bit_eq_0_iff)
  have w: "bit (sint w) n \<longleftrightarrow> bit w n" if "n < 32" for n
    using that by (auto simp: bit_sint_iff min_def not_less intro: le_antisym)
  have "bit (word_of_int (drop_bit k (sint w)) :: u8) n \<longleftrightarrow> n < 8 \<and> bit w (k + n)"
    if "k \<le> 24" for k n
    using that by (cases "n < 8") (simp_all add: bit_simps w)
  then show "word_of_int (sint w div 2 ^ 24) = b0" "word_of_int (sint w div 2 ^ 16) = b1"
    "word_of_int (sint w div 2 ^ 8) = b2"
    unfolding drop_bit_eq_div [symmetric]
    by (simp_all add: bit_eq_iff w_def bit_simps) (auto simp: b not_less dest: bit_imp_le_length)
qed

lemma sample_roundtrip: "src_sample_octets (src_sample_of f div 4) = [f ! 0, f ! 1, f ! 2, 0]"
proof -
  define x where "x = src_sample_of f"
  note b = sample_bits [of "f ! 0" "f ! 1" "f ! 2", folded src_sample_of_def x_def]
  obtain t where t: "x = 256 * t" using b(1) by blast
  have "- (2 ^ 31) \<le> x" "x < 2 ^ 31"
    using sint_greater_eq [where 'a = 32] sint_less [where 'a = 32]
    by (auto simp: x_def src_sample_of_def)
  then have r: "- 8388608 \<le> t" "t \<le> 8388607" using t by auto
  have d: "(x div 4 + 32) div 64 = t" by (simp add: t)
  have e: "t div 2 ^ 16 = x div 2 ^ 24" "t div 2 ^ 8 = x div 2 ^ 16" "t = x div 2 ^ 8"
    by (simp_all add: t)
  show ?thesis
    using r b(2-4) unfolding src_sample_octets_def Let_def x_def [symmetric] d
    by (simp add: e [symmetric] del: power_numeral) 
qed

lemma sample_zero: "src_sample_octets 0 = [0, 0, 0, 0]"
  by (simp add: src_sample_octets_def)

text \<open>The history holds the frames \<open>F j\<close> to \<open>F (j + 15)\<close>.\<close>

definition src_holds :: "(nat \<Rightarrow> octets) \<Rightarrow> nat \<Rightarrow> nat \<Rightarrow> avb_src_s \<Rightarrow> bool" where
  "src_holds F slots j src \<longleftrightarrow> src_hist_ok src
     \<and> (\<forall>s < slots. src_window src s = map (\<lambda>k. src_sample_of (drop (s * 4) (F (j + k)))) [0..<16])"

lemma src_holds_push:
  assumes "src_holds F slots j src" and "slots \<le> 2"
  shows "src_holds F slots (Suc j) (src_push (Some (F (j + 16))) slots src)"
proof -
  let ?g = "\<lambda>s j k. src_sample_of (drop (s * 4) (F (j + k)))"
  have sh: "tl (map (?g s j) [0..<16]) @ [?g s j 16] = map (?g s (Suc j)) [0..<16]" for s
    by (simp add: numeral_eq_Suc)
  show ?thesis unfolding src_holds_def
  proof (intro conjI allI impI)
    show "src_hist_ok (src_push (Some (F (j + 16))) slots src)"
      using assms(1) by (simp add: src_holds_def src_push_ok)
    fix s assume s: "s < slots"
    then have "src_window (src_push (Some (F (j + 16))) slots src) s
        = tl (map (?g s j) [0..<16]) @ [?g s j 16]"
      using assms src_push_window [of src s slots "Some (F (j + 16))"]
      by (simp add: src_holds_def src_in_sample_def)
    then show "src_window (src_push (Some (F (j + 16))) slots src) s = map (?g s (Suc j)) [0..<16]"
      by (simp only: sh)
  qed
qed

text \<open>A converter that neither walks nor starts a walk.\<close>

definition src_at_rest :: "int \<Rightarrow> avb_src_pos_s \<Rightarrow> bool" where
  "src_at_rest b p \<longleftrightarrow> frac p = 0 \<and> walk_left p = 0 \<and> extra p = 0 \<and> \<bar>owed p\<bar> \<le> b"

definition src_pass :: "nat \<Rightarrow> nat \<Rightarrow> octets \<Rightarrow> octets" where
  "src_pass slots fb f = concat (map (\<lambda>s. if s < slots then take 3 (drop (s * 4) f) @ [0] else zeros 4)
     [0..<fb div 4])"

lemma src_rest_step:
  assumes "src_at_rest b p" and "b + \<bar>r\<bar> < SRC_ONE"
  shows "src_next_step p r = (0, p\<lparr> owed := owed p + r \<rparr>)"
proof -
  have "\<bar>owed p + r\<bar> < SRC_ONE"
    using assms abs_triangle_ineq [of "owed p" r] unfolding src_at_rest_def by linarith
  then show ?thesis using assms(1)
    by (auto simp: src_next_step_def src_at_rest_def Let_def src_clamp_def)
qed

lemma src_pass_frame:
  assumes h: "src_holds F slots j src" and sl: "slots \<le> 2"
    and rest: "src_at_rest b (pos src)" "b + \<bar>rate\<bar> < SRC_ONE"
    and used: "used < m" and fr: "src_frame inp fb used = F (j + 16)"
    and run: "src_run_frame table inp m rate slots fb (used, src) = (out, used', src')"
    and len: "\<And>s k. s < slots \<Longrightarrow> s * 4 + 3 \<le> length (F k)"
  shows "out = src_pass slots fb (F (j + 8)) \<and> used' = Suc used
       \<and> src_holds F slots (Suc j) src' \<and> src_at_rest (b + \<bar>rate\<bar>) (pos src')"
proof -
  let ?p = "pos src"
  have st: "src_next_step ?p rate = (0, ?p\<lparr> owed := owed ?p + rate \<rparr>)"
    by (rule src_rest_step [OF rest])
  have ad: "src_advance (?p\<lparr> owed := owed ?p + rate \<rparr>) 0 = (1, ?p\<lparr> owed := owed ?p + rate \<rparr>)"
    using rest(1) by (simp add: src_advance_def src_at_rest_def SRC_ONE_def)
  define src0 where "src0 = src\<lparr> pos := ?p\<lparr> owed := owed ?p + rate \<rparr> \<rparr>"
  have "src_holds F slots j src0"
    using h by (simp add: src_holds_def src_hist_ok_def src_window_def src0_def)
  note h' = src_holds_push [OF this sl]
  define src1 where "src1 = src_push (Some (F (j + 16))) slots src0"
  have one: "foreach (Suc 0) g x = g 0 x" for g :: "nat \<Rightarrow> avb_src_s \<Rightarrow> avb_src_s" and x
    using foreach_Suc [of 0 g x] by simp
  have r: "out = concat (map (\<lambda>s. src_sample_octets (if s < slots then src_acc table src1 s else 0))
       [0..<fb div 4])" "used' = Suc used" "src' = src1"
    using run used fr by (auto simp: src_run_frame_def st ad one src1_def src0_def Let_def cong: if_cong)
  have f0: "frac (pos src1) = 0" using rest(1) by (simp add: src1_def src0_def src_at_rest_def)
  have acc: "src_sample_octets (src_acc table src1 s) = take 3 (drop (s * 4) (F (j + 8))) @ [0]"
    if s: "s < slots" for s
  proof -
    have "hist src1 ! s ! (hist_pos src1 + 7) = src_window src1 s ! 7" by (simp add: src_window_def)
    also have "\<dots> = src_sample_of (drop (s * 4) (F (j + 8)))"
      using h' s by (simp add: src_holds_def src1_def add.commute [of 8 j])
    finally have "src_sample_octets (src_acc table src1 s)
        = src_sample_octets (src_sample_of (drop (s * 4) (F (j + 8))) div 4)"
      by (simp add: src_acc_def f0 AVB_SRC_TAPS_def add.commute [of 7])
    moreover have "length (drop (s * 4) (F (j + 8))) \<ge> 3" using len [OF s, of "j + 8"] by simp
    ultimately show ?thesis
      by (simp add: sample_roundtrip numeral_3_eq_3 take_Suc_conv_app_nth numeral_2_eq_2)
  qed
  have z4: "zeros 4 = [0, 0, 0, 0]" by (simp add: numeral_eq_Suc)
  have "out = src_pass slots fb (F (j + 8))"
    unfolding r src_pass_def
    by (rule arg_cong [where f = concat], rule map_cong) (simp_all add: acc sample_zero z4)
  moreover have "src_at_rest (b + \<bar>rate\<bar>) (pos src')"
    using rest(1) abs_triangle_ineq [of "owed ?p" rate]
    by (auto simp: r src1_def src0_def src_at_rest_def)
  ultimately show ?thesis using h' r by (simp add: src1_def)
qed

lemma src_pass_frames:
  "\<lbrakk>src_holds F slots j src; slots \<le> 2; src_at_rest b (pos src); b + int n * \<bar>rate\<bar> < SRC_ONE;
    used + n \<le> m; \<And>k. k < n \<Longrightarrow> src_frame inp fb (used + k) = F (j + 16 + k);
    \<And>s k. s < slots \<Longrightarrow> s * 4 + 3 \<le> length (F k)\<rbrakk> \<Longrightarrow>
   fst (src_run_frames n table inp m rate slots fb (used, src))
     = concat (map (\<lambda>k. src_pass slots fb (F (j + 8 + k))) [0..<n])"
proof (induction n arbitrary: used src j b)
  case (Suc n)
  obtain o1 u1 s1 where a: "src_run_frame table inp m rate slots fb (used, src) = (o1, u1, s1)"
    by (cases "src_run_frame table inp m rate slots fb (used, src)")
  obtain o2 u2 s2 where c: "src_run_frames n table inp m rate slots fb (u1, s1) = (o2, u2, s2)"
    by (cases "src_run_frames n table inp m rate slots fb (u1, s1)")
  have q: "0 \<le> int n * \<bar>rate\<bar>" by simp
  have "int (Suc n) * \<bar>rate\<bar> = \<bar>rate\<bar> + int n * \<bar>rate\<bar>" by (simp add: distrib_right)
  with Suc.prems(4) q have b1: "b + \<bar>rate\<bar> < SRC_ONE" "b + \<bar>rate\<bar> + int n * \<bar>rate\<bar> < SRC_ONE"
    by linarith+
  have "used < m" using Suc.prems(5) by simp
  moreover have "src_frame inp fb used = F (j + 16)" using Suc.prems(6) [of 0] by simp
  ultimately have one: "o1 = src_pass slots fb (F (j + 8)) \<and> u1 = Suc used
       \<and> src_holds F slots (Suc j) s1 \<and> src_at_rest (b + \<bar>rate\<bar>) (pos s1)"
    using src_pass_frame [OF Suc.prems(1-3) b1(1) _ _ a] Suc.prems(7) by blast
  have "fst (src_run_frames n table inp m rate slots fb (Suc used, s1))
      = concat (map (\<lambda>k. src_pass slots fb (F (Suc j + 8 + k))) [0..<n])"
  proof (rule Suc.IH [of "Suc j" s1 "b + \<bar>rate\<bar>"])
    show "src_frame inp fb (Suc used + k) = F (Suc j + 16 + k)" if "k < n" for k
      using Suc.prems(6) [of "Suc k"] that by (simp add: add.assoc)
  qed (use one b1 Suc.prems in simp_all)
  then have "fst (src_run_frames (Suc n) table inp m rate slots fb (used, src))
      = src_pass slots fb (F (j + 8)) @ concat (map (\<lambda>k. src_pass slots fb (F (Suc j + 8 + k))) [0..<n])"
    using a one by (auto split: prod.splits)
  also have "\<dots> = concat (map (\<lambda>k. src_pass slots fb (F (j + 8 + k))) [0..<Suc n])"
    by (simp add: upt_conv_Cons map_Suc_upt [symmetric] comp_def ac_simps del: upt_Suc)
  finally show ?case .
qed simp

lemma src_frame_append:
  assumes "length buf = k * fb"
  shows "i < k \<Longrightarrow> src_frame (buf @ inp) fb i = src_frame buf fb i"
    and "src_frame (buf @ inp) fb (k + i) = src_frame inp fb i"
proof -
  assume "i < k"
  then have "i * fb + fb \<le> k * fb"
    using mult_le_mono1 [of "Suc i" k fb] by simp
  then show "src_frame (buf @ inp) fb i = src_frame buf fb i"
    using assms by (simp add: src_frame_def)
qed (use assms in \<open>simp add: src_frame_def distrib_right\<close>)

lemma src_window_push_zero:
  "\<lbrakk>src_hist_ok src; slots \<le> 2; n \<le> 16\<rbrakk> \<Longrightarrow>
     src_hist_ok (foreach n (\<lambda>k. src_push (Some (F k)) slots) src)
   \<and> (\<forall>s < slots. src_window (foreach n (\<lambda>k. src_push (Some (F k)) slots) src) s
        = drop n (src_window src s) @ map (\<lambda>k. src_sample_of (drop (s * 4) (F k))) [0..<n])"
proof (induction n)
  case (Suc n)
  let ?s = "foreach n (\<lambda>k. src_push (Some (F k)) slots) src"
  have ih: "src_hist_ok ?s" "\<forall>s < slots. src_window ?s s
        = drop n (src_window src s) @ map (\<lambda>k. src_sample_of (drop (s * 4) (F k))) [0..<n]"
    using Suc by simp_all
  have l: "length (src_window src s) = 16" for s by (simp add: src_window_def)
  show ?case
    using ih Suc.prems src_push_ok [OF ih(1)] src_push_window [OF ih(1)]
    by (auto simp: foreach_Suc src_in_sample_def tl_append2 tl_drop [symmetric] drop_Suc l)
qed (simp add: src_window_def)

text \<open>Bit-exact audio: after priming with 16 frames, and as long as the ratio's total stays
  under a frame, every output frame is the input eight frames back, octet for octet in each
  converted slot (its fourth octet and the other slots are zero); the filter is never used.\<close>

theorem src_passes_through:
  "\<lbrakk>length prime = 16 * fb; length inp = n * fb; slots \<le> 2; slots * 4 \<le> fb;
    int n * \<bar>rate\<bar> < 2 ^ 32\<rbrakk> \<Longrightarrow>
   fst (avb_src_run table inp n n rate slots fb (avb_src_prime prime slots fb avb_src_zero))
     = concat (map (\<lambda>k. src_pass slots fb (src_frame (prime @ inp) fb (k + 8))) [0..<n])"
proof -
  assume a: "length prime = 16 * fb" "length inp = n * fb" "slots \<le> 2" "slots * 4 \<le> fb"
    "int n * \<bar>rate\<bar> < 2 ^ 32"
  define F where "F k = (if k < 16 + n then src_frame (prime @ inp) fb k else zeros fb)" for k
  have fp: "src_frame prime fb k = F k" if "k < 16" for k
    using src_frame_append(1) [OF a(1) that] that by (simp add: F_def)
  have fi: "src_frame inp fb k = F (16 + k)" if "k < n" for k
    using src_frame_append(2) [OF a(1)] that by (simp add: F_def)
  have len: "length (F k) = fb" for k
  proof -
    have "k * fb + fb \<le> 16 * fb + n * fb" if "k < 16 + n"
      using mult_le_mono1 [of "Suc k" "16 + n" fb] that by (simp add: distrib_right)
    then show ?thesis using a by (auto simp: F_def src_frame_def)
  qed
  let ?z = avb_src_zero
  let ?s = "foreach 16 (\<lambda>k. src_push (Some (F k)) slots) ?z"
  have ok: "src_hist_ok ?z"
    by (simp add: avb_src_zero_def src_hist_ok_def AVB_SRC_SLOTS_def AVB_SRC_TAPS_def nth_append
        flip: replicate_add)
  have pr: "avb_src_prime prime slots fb ?z = ?s\<lparr> pos := (pos ?s)\<lparr> frac := 0, walk_left := 0 \<rparr> \<rparr>"
  proof -
    have "foreach 16 (\<lambda>k. src_push (Some (src_frame prime fb k)) slots) ?z = ?s"
      unfolding foreach_def by (rule fold_cong) (auto simp: fp)
    then show ?thesis using a(3)
      by (simp add: avb_src_prime_def AVB_SRC_TAPS_def AVB_SRC_SLOTS_def min_absorb1)
  qed
  have "src_holds F slots 0 ?s"
    using src_window_push_zero [OF ok a(3), of 16 F]
    by (simp add: src_holds_def src_window_def)
  then have h: "src_holds F slots 0 (avb_src_prime prime slots fb ?z)"
    by (simp add: pr src_holds_def src_hist_ok_def src_window_def)
  have rest: "src_at_rest 0 (pos (avb_src_prime prime slots fb ?z))"
    unfolding pr by (simp add: src_at_rest_def) (simp add: avb_src_zero_def)
  have l3: "s * 4 + 3 \<le> length (F k)" if "s < slots" for s k
    using that a(4) by (simp add: len)
  have "fst (avb_src_run table inp n n rate slots fb (avb_src_prime prime slots fb ?z))
      = concat (map (\<lambda>k. src_pass slots fb (F (0 + 8 + k))) [0..<n])"
    unfolding avb_src_run_def using a(3)
    by (simp only: min_absorb1 AVB_SRC_SLOTS_def)
      (rule src_pass_frames [OF h a(3) rest]; use a(5) fi l3 in \<open>simp add: SRC_ONE_def\<close>)
  also have "\<dots> = concat (map (\<lambda>k. src_pass slots fb (src_frame (prime @ inp) fb (k + 8))) [0..<n])"
    by (rule arg_cong [where f = concat], rule map_cong) (auto simp: F_def add.commute)
  finally show ?thesis .
qed

theorem src_passes_through_witness:
  "fst (avb_src_run [] [0, 0, 0, 9, 1, 2, 3, 9] 2 2 1 1 4
     (avb_src_prime (replicate 64 7) 1 4 avb_src_zero))
   = [7, 7, 7, 0, 7, 7, 7, 0]"
proof -
  have f: "src_frame (replicate 64 7 @ [0, 0, 0, 9, 1, 2, 3, 9]) 4 (k + 8) = [7, 7, 7, 7]"
    if "k < 2" for k
  proof -
    have "src_frame (replicate 64 7 @ [0, 0, 0, 9, 1, 2, 3, 9]) 4 (k + 8)
        = src_frame (replicate 64 7) 4 (k + 8)"
      by (rule src_frame_append(1) [of _ 16]) (use that in simp_all)
    also have "\<dots> = replicate 4 7" using that by (simp add: src_frame_def min_def)
    finally show ?thesis by (simp add: numeral_eq_Suc)
  qed
  show ?thesis
    by (subst src_passes_through)
      (simp_all add: upt_rec f [of 0, simplified] f [of 1, simplified] src_pass_def numeral_3_eq_3)
qed

end
