(* ===== verification/Unsol.thy ===== *)
theory Unsol
  imports Utils
begin

text \<open>
  Controllers registered for unsolicited notifications (\<open>atdecc_unsol.c\<close>; IEEE 1722.1-2021 7.5.2,
  Milan 5.4.2.21 and 5.4.5.4): registration, the availability check of silent controllers, the
  notifications with their sequence numbers, and the entity lock's expiry.  The array with its
  count is a list.  A frame handed to the network is recorded with its destination address.
\<close>

section \<open>State\<close>

definition AVB_MAX_UNSOL_CONTROLLERS :: nat where "AVB_MAX_UNSOL_CONTROLLERS = 16"
definition UNSOL_CHECK_MIN_US :: int where "UNSOL_CHECK_MIN_US = 30 * 1000000"
definition UNSOL_CHECK_SPAN_US :: int where "UNSOL_CHECK_SPAN_US = 30 * 1000000"
definition UNSOL_CHECK_SENDS :: nat where "UNSOL_CHECK_SENDS = 2"
definition UNSOL_REPLY_WIRED_US :: int where "UNSOL_REPLY_WIRED_US = 250000"
definition UNSOL_REPLY_WIFI_US :: int where "UNSOL_REPLY_WIFI_US = 1000000"
definition UNSOL_TIME_LIMIT_US :: int where "UNSOL_TIME_LIMIT_US = 300 * 1000000"
definition UNSOL_MAX_FRAME :: nat where "UNSOL_MAX_FRAME = 600"

datatype avb_unsol_kind_t = avb_unsol_kind_aem | avb_unsol_kind_mvu | avb_unsol_kind_vu

record avb_unsol_controller_s =
  uc_entity_id :: octets
  uc_mac_addr :: octets
  aem_seq_id :: u16
  mvu_seq_id :: u16
  vu_seq_id :: u16
  time_limited :: bool
  expires_us :: int
  check_due_us :: int
  reply_due_us :: int
  check_seq_id :: u16
  checks_sent :: nat

type_synonym unsol_frame = "octets \<times> octets"

record unsol_state =
  us_controllers :: "avb_unsol_controller_s list"
  us_random :: "nat \<Rightarrow> u32"
  us_random_pos :: nat
  us_milan :: bool
  us_wifi :: bool
  us_own_id :: octets
  aecp_seq_id :: u16
  us_locked :: bool
  us_locked_by :: octets
  us_lock_expires_us :: int
  us_sent :: "unsol_frame list"

section \<open>Frames\<close>

text \<open>The common part of an AECP message of \<open>len\<close> octets: header, target, controller, sequence
  number; and an AEM message with its command type and payload.\<close>

definition aecp_common_octets :: "u8 \<Rightarrow> nat \<Rightarrow> octets \<Rightarrow> octets \<Rightarrow> u16 \<Rightarrow> octets" where
  "aecp_common_octets msg_type len target controller seq =
     [0xFB, msg_type, of_nat ((len - 12) div 256) AND 7, of_nat (len - 12)]
     @ target @ controller @ int_to_octets (ucast seq) 2"

definition deregister_rsp :: "unsol_state \<Rightarrow> octets" where
  "deregister_rsp s = aecp_common_octets 1 24 (us_own_id s) (zeros 8) 0 @ [0, 0x25]"

definition unlock_rsp :: "unsol_state \<Rightarrow> octets" where
  "unlock_rsp s = aecp_common_octets 1 40 (us_own_id s) (zeros 8) 0 @ [0, 1] @ [0, 0, 0, 1] @ zeros 12"

definition check_cmd :: "unsol_state \<Rightarrow> octets \<Rightarrow> u16 \<Rightarrow> octets" where
  "check_cmd s target seq = aecp_common_octets 0 24 target (us_own_id s) seq @ [0, 3]"

text \<open>What \<open>avb_unsol_send_to\<close> writes into a response: the receiver's entity ID and sequence
  number, and the notification bit of the message kind.\<close>

definition notification_frame :: "octets \<Rightarrow> avb_unsol_kind_t \<Rightarrow> octets \<Rightarrow> u16 \<Rightarrow> octets" where
  "notification_frame rsp kind entity_id seq =
     (let f = take 12 rsp @ entity_id @ int_to_octets (ucast seq) 2 @ drop 22 rsp in
      case kind of avb_unsol_kind_aem \<Rightarrow> f[22 := f ! 22 OR 0x80]
      | avb_unsol_kind_mvu \<Rightarrow> f[28 := f ! 28 OR 0x80]
      | avb_unsol_kind_vu \<Rightarrow> f)"

section \<open>Operations\<close>

definition us_is :: "octets \<Rightarrow> octets \<Rightarrow> avb_unsol_controller_s \<Rightarrow> bool" where
  "us_is eid mac c \<longleftrightarrow> uc_entity_id c = eid \<and> uc_mac_addr c = mac"

definition avb_unsol_find :: "octets \<Rightarrow> octets \<Rightarrow> unsol_state \<Rightarrow> nat option" where
  "avb_unsol_find eid mac s =
     first_index (\<lambda>i. us_is eid mac (us_controllers s ! i)) (length (us_controllers s))"

definition avb_unsol_remove :: "nat \<Rightarrow> unsol_state \<Rightarrow> unsol_state" where
  "avb_unsol_remove i s =
     s\<lparr> us_controllers := take i (us_controllers s) @ drop (Suc i) (us_controllers s) \<rparr>"

definition upd_controller ::
  "nat \<Rightarrow> (avb_unsol_controller_s \<Rightarrow> avb_unsol_controller_s) \<Rightarrow> unsol_state \<Rightarrow> unsol_state" where
  "upd_controller i f s = s\<lparr> us_controllers := upd_at i f (us_controllers s) \<rparr>"

definition next_seq :: "avb_unsol_kind_t \<Rightarrow> avb_unsol_controller_s \<Rightarrow> u16" where
  "next_seq kind c = (case kind of avb_unsol_kind_aem \<Rightarrow> aem_seq_id c
     | avb_unsol_kind_mvu \<Rightarrow> mvu_seq_id c | avb_unsol_kind_vu \<Rightarrow> vu_seq_id c)"

definition count_seq :: "avb_unsol_kind_t \<Rightarrow> avb_unsol_controller_s \<Rightarrow> avb_unsol_controller_s" where
  "count_seq kind c = (case kind of
       avb_unsol_kind_aem \<Rightarrow> c\<lparr> aem_seq_id := aem_seq_id c + 1 \<rparr>
     | avb_unsol_kind_mvu \<Rightarrow> c\<lparr> mvu_seq_id := mvu_seq_id c + 1 \<rparr>
     | avb_unsol_kind_vu \<Rightarrow> c\<lparr> vu_seq_id := vu_seq_id c + 1 \<rparr>)"

definition avb_unsol_send_to :: "nat \<Rightarrow> octets \<Rightarrow> avb_unsol_kind_t \<Rightarrow> unsol_state \<Rightarrow> unsol_state" where
  "avb_unsol_send_to i rsp kind s =
     (if length rsp > UNSOL_MAX_FRAME then s
      else let c = us_controllers s ! i in
        (upd_controller i (count_seq kind) s)\<lparr> us_sent := us_sent s @
           [(uc_mac_addr c, notification_frame rsp kind (uc_entity_id c) (next_seq kind c))] \<rparr>)"

text \<open>\<open>requester\<close>: the controller whose own command caused the notification, with its address
  when that is to be matched too.\<close>

definition us_requester :: "(octets \<times> octets option) option \<Rightarrow> avb_unsol_controller_s \<Rightarrow> bool" where
  "us_requester requester c = (case requester of None \<Rightarrow> False
     | Some (eid, mac) \<Rightarrow> uc_entity_id c = eid
         \<and> (case mac of None \<Rightarrow> True | Some m \<Rightarrow> uc_mac_addr c = m))"

definition avb_unsol_notify ::
  "octets \<Rightarrow> avb_unsol_kind_t \<Rightarrow> (octets \<times> octets option) option \<Rightarrow> unsol_state \<Rightarrow> unsol_state" where
  "avb_unsol_notify rsp kind requester s =
     foreach (length (us_controllers s)) (\<lambda>i s.
       if us_requester requester (us_controllers s ! i) then s else avb_unsol_send_to i rsp kind s) s"

definition avb_unsol_send_deregister :: "nat \<Rightarrow> unsol_state \<Rightarrow> unsol_state" where
  "avb_unsol_send_deregister i s = avb_unsol_send_to i (deregister_rsp s) avb_unsol_kind_aem s"

definition avb_unsol_send_check :: "nat \<Rightarrow> int \<Rightarrow> unsol_state \<Rightarrow> unsol_state" where
  "avb_unsol_send_check i now s =
     (let c = us_controllers s ! i;
          s' = (if checks_sent c = 0 then s\<lparr> aecp_seq_id := aecp_seq_id s + 1 \<rparr> else s);
          c' = c\<lparr> check_seq_id := (if checks_sent c = 0 then aecp_seq_id s else check_seq_id c),
                 checks_sent := checks_sent c + 1,
                 reply_due_us := now + (if us_wifi s then UNSOL_REPLY_WIFI_US else UNSOL_REPLY_WIRED_US) \<rparr>
      in (upd_controller i (\<lambda>_. c') s')\<lparr> us_sent := us_sent s @
           [(uc_mac_addr c, check_cmd s (uc_entity_id c) (check_seq_id c'))] \<rparr>)"

definition avb_unsol_rearm :: "nat \<Rightarrow> int \<Rightarrow> unsol_state \<Rightarrow> unsol_state" where
  "avb_unsol_rearm i now s =
     (let delay = UNSOL_CHECK_MIN_US + uint (us_random s (us_random_pos s)) mod UNSOL_CHECK_SPAN_US
      in (upd_controller i (\<lambda>c. c\<lparr> check_due_us := now + delay, reply_due_us := 0, checks_sent := 0 \<rparr>) s)
           \<lparr> us_random_pos := us_random_pos s + 1 \<rparr>)"

definition unsol_fresh :: "octets \<Rightarrow> octets \<Rightarrow> avb_unsol_controller_s" where
  "unsol_fresh eid mac = \<lparr> uc_entity_id = eid, uc_mac_addr = mac, aem_seq_id = 0, mvu_seq_id = 0,
     vu_seq_id = 0, time_limited = False, expires_us = 0, check_due_us = 0, reply_due_us = 0,
     check_seq_id = 0, checks_sent = 0 \<rparr>"

text \<open>Returns whether the controller is registered (else \<open>NO_RESOURCES\<close>).\<close>

definition avb_unsol_register :: "octets \<Rightarrow> octets \<Rightarrow> bool \<Rightarrow> int \<Rightarrow> unsol_state \<Rightarrow> bool \<times> unsol_state" where
  "avb_unsol_register eid mac limited now s =
     (let refresh = (\<lambda>i s. avb_unsol_rearm i now (upd_controller i
            (\<lambda>c. c\<lparr> time_limited := limited, expires_us := now + UNSOL_TIME_LIMIT_US \<rparr>) s))
      in case avb_unsol_find eid mac s of
           Some i \<Rightarrow> (True, refresh i s)
         | None \<Rightarrow>
             if length (us_controllers s) \<ge> AVB_MAX_UNSOL_CONTROLLERS then
               (False, s\<lparr> us_controllers := map (\<lambda>c. if reply_due_us c = 0
                    then c\<lparr> check_due_us := now \<rparr> else c) (us_controllers s) \<rparr>)
             else (True, refresh (length (us_controllers s))
                     (s\<lparr> us_controllers := us_controllers s @ [unsol_fresh eid mac] \<rparr>)))"

definition avb_unsol_deregister :: "octets \<Rightarrow> octets \<Rightarrow> unsol_state \<Rightarrow> unsol_state" where
  "avb_unsol_deregister eid mac s =
     (case avb_unsol_find eid mac s of None \<Rightarrow> s | Some i \<Rightarrow> avb_unsol_remove i s)"

definition avb_unsol_heard :: "octets \<Rightarrow> octets \<Rightarrow> int \<Rightarrow> unsol_state \<Rightarrow> unsol_state" where
  "avb_unsol_heard eid mac now s =
     (case avb_unsol_find eid mac s of None \<Rightarrow> s | Some i \<Rightarrow> avb_unsol_rearm i now s)"

definition avb_unsol_controller_replied :: "octets \<Rightarrow> u16 \<Rightarrow> int \<Rightarrow> unsol_state \<Rightarrow> unsol_state" where
  "avb_unsol_controller_replied target seq now s =
     (case first_index (\<lambda>i. let c = us_controllers s ! i in
             reply_due_us c \<noteq> 0 \<and> check_seq_id c = seq \<and> uc_entity_id c = target)
           (length (us_controllers s)) of
        None \<Rightarrow> s | Some i \<Rightarrow> avb_unsol_rearm i now s)"

text \<open>One controller of the registrations' tick: whether it goes, after what was sent to it.\<close>

definition unsol_tick_one :: "int \<Rightarrow> nat \<Rightarrow> unsol_state \<Rightarrow> bool \<times> unsol_state" where
  "unsol_tick_one now i s =
     (let c = us_controllers s ! i; lapsed = (time_limited c \<and> now \<ge> expires_us c);
          (departed, s) =
            (if \<not> lapsed \<and> us_milan s then
               if reply_due_us c \<noteq> 0 then
                 if now \<ge> reply_due_us c then
                   if checks_sent c < UNSOL_CHECK_SENDS then (False, avb_unsol_send_check i now s)
                   else (True, s)
                 else (False, s)
               else if now \<ge> check_due_us c then (False, avb_unsol_send_check i now s)
               else (False, s)
             else (False, s))
      in (lapsed \<or> departed, s))"

text \<open>The loop, which does not advance over a removed entry; \<open>fuel\<close> bounds its iterations, of
  which there is one per controller.\<close>

fun unsol_tick_loop :: "nat \<Rightarrow> int \<Rightarrow> nat \<Rightarrow> unsol_state \<Rightarrow> unsol_state" where
  "unsol_tick_loop 0 now i s = s"
| "unsol_tick_loop (Suc fuel) now i s =
     (if i \<ge> length (us_controllers s) then s
      else case unsol_tick_one now i s of
        (True, s) \<Rightarrow> unsol_tick_loop fuel now i (avb_unsol_remove i (avb_unsol_send_deregister i s))
      | (False, s) \<Rightarrow> unsol_tick_loop fuel now (i + 1) s)"

definition avb_unsol_registrations_tick :: "int \<Rightarrow> unsol_state \<Rightarrow> unsol_state" where
  "avb_unsol_registrations_tick now s = unsol_tick_loop (length (us_controllers s)) now 0 s"

definition avb_unsol_lock_tick :: "int \<Rightarrow> unsol_state \<Rightarrow> unsol_state" where
  "avb_unsol_lock_tick now s =
     (if \<not> us_locked s \<or> now < us_lock_expires_us s then s
      else avb_unsol_notify (unlock_rsp s) avb_unsol_kind_aem None
             (s\<lparr> us_locked := False, us_locked_by := zeros 8 \<rparr>))"

text \<open>\<open>sent\<close> is the copy last sent; \<open>max_len\<close> the size of its buffer.\<close>

definition avb_unsol_send_changed ::
  "nat \<Rightarrow> octets option \<Rightarrow> octets \<Rightarrow> avb_unsol_kind_t \<Rightarrow> unsol_state \<Rightarrow> octets option \<times> unsol_state" where
  "avb_unsol_send_changed max_len sent rsp kind s =
     (if length rsp = 0 \<or> length rsp > max_len \<or> sent = Some rsp then (sent, s)
      else (Some rsp, if sent = None then s else avb_unsol_notify rsp kind None s))"

section \<open>Notifications\<close>

lemma controllers_send_to:
  "us_controllers (avb_unsol_send_to i rsp kind s) =
     (if length rsp > UNSOL_MAX_FRAME then us_controllers s
      else upd_at i (count_seq kind) (us_controllers s))"
  by (simp add: avb_unsol_send_to_def Let_def upd_controller_def)

lemma sent_send_to:
  "us_sent (avb_unsol_send_to i rsp kind s) =
     (if length rsp > UNSOL_MAX_FRAME then us_sent s
      else us_sent s @ [(uc_mac_addr (us_controllers s ! i), notification_frame rsp kind
             (uc_entity_id (us_controllers s ! i)) (next_seq kind (us_controllers s ! i)))])"
  by (simp add: avb_unsol_send_to_def Let_def upd_controller_def)

definition notified_frame :: "octets \<Rightarrow> avb_unsol_kind_t \<Rightarrow> avb_unsol_controller_s \<Rightarrow> unsol_frame" where
  "notified_frame rsp kind c =
     (uc_mac_addr c, notification_frame rsp kind (uc_entity_id c) (next_seq kind c))"

lemma notify_prefix:
  fixes r :: "(octets \<times> octets option) option" and kind :: avb_unsol_kind_t
  assumes "length rsp \<le> UNSOL_MAX_FRAME" and "n \<le> length (us_controllers s)"
  defines "t \<equiv> foreach n (\<lambda>i s. if us_requester r (us_controllers s ! i) then s
                       else avb_unsol_send_to i rsp kind s) s"
  shows "us_controllers t = map (\<lambda>c. if us_requester r c then c else count_seq kind c)
           (take n (us_controllers s)) @ drop n (us_controllers s)
       \<and> us_sent t = us_sent s @ map (notified_frame rsp kind)
           (filter (\<lambda>c. \<not> us_requester r c) (take n (us_controllers s)))"
  using assms(2) unfolding t_def
proof (induction n)
  case (Suc n)
  let ?cs = "us_controllers s" and ?g = "\<lambda>c. if us_requester r c then c else count_seq kind c"
  let ?f = "\<lambda>i s. if us_requester r (us_controllers s ! i) then s else avb_unsol_send_to i rsp kind s"
  have n: "n < length ?cs" using Suc.prems by simp
  have ih: "us_controllers (foreach n ?f s) = map ?g (take n ?cs) @ drop n ?cs"
    "us_sent (foreach n ?f s) = us_sent s @ map (notified_frame rsp kind)
       (filter (\<lambda>c. \<not> us_requester r c) (take n ?cs))"
    using Suc by simp_all
  have nth: "(map ?g (take n ?cs) @ drop n ?cs) ! n = ?cs ! n"
    using n by (simp add: nth_append)
  have d: "drop n ?cs = ?cs ! n # drop (Suc n) ?cs" using n by (simp add: Cons_nth_drop_Suc)
  have u: "upd_at n h (map ?g (take n ?cs) @ drop n ?cs)
      = map ?g (take n ?cs) @ h (?cs ! n) # drop (Suc n) ?cs" for h
    using n by (simp add: upd_at_def list_update_append nth_append d del: Cons_nth_drop_Suc)
  show ?case
    using n assms(1) by (simp add: foreach_Suc nth controllers_send_to sent_send_to ih(1) u
        take_Suc_conv_app_nth notified_frame_def ih(2) d [symmetric])
qed simp

text \<open>A notification goes once to every registered controller except the one whose command
  caused it, in the order they registered, each frame with that controller's next sequence
  number; every number that is used is counted, in the sequence of its kind alone, so none is
  skipped or repeated.\<close>

theorem notify_each_once:
  "length rsp \<le> UNSOL_MAX_FRAME \<Longrightarrow>
     us_sent (avb_unsol_notify rsp kind r s) = us_sent s @ map (notified_frame rsp kind)
       (filter (\<lambda>c. \<not> us_requester r c) (us_controllers s))
   \<and> us_controllers (avb_unsol_notify rsp kind r s)
       = map (\<lambda>c. if us_requester r c then c else count_seq kind c) (us_controllers s)
   \<and> (\<forall>k c. next_seq k (count_seq kind c) = next_seq k c + (if k = kind then 1 else 0))"
  using notify_prefix [of rsp "length (us_controllers s)" s r kind]
  by (auto simp: avb_unsol_notify_def next_seq_def count_seq_def split: avb_unsol_kind_t.split)

definition unsol_empty :: unsol_state where
  "unsol_empty = \<lparr> us_controllers = [], us_random = (\<lambda>n. of_nat (7 * n)), us_random_pos = 0,
     us_milan = True, us_wifi = False, us_own_id = replicate 8 0xE5, aecp_seq_id = 0,
     us_locked = False, us_locked_by = zeros 8, us_lock_expires_us = 0, us_sent = [] \<rparr>"

theorem notify_each_once_witness:
  "us_sent (avb_unsol_notify (zeros 24) avb_unsol_kind_vu (Some ([2], None))
      (unsol_empty\<lparr> us_controllers := [unsol_fresh [1] [11], unsol_fresh [2] [22]] \<rparr>))
   = [([11], zeros 12 @ [1] @ zeros 4)]"
  by (subst conjunct1 [OF notify_each_once])
    (simp_all add: UNSOL_MAX_FRAME_def unsol_empty_def us_requester_def unsol_fresh_def
      notified_frame_def notification_frame_def next_seq_def int_to_octets_def object_bytes_def
      reverse_octets_def foreach_def numeral_eq_Suc)

section \<open>Registrations\<close>

text \<open>What one tick does to one controller, up to the sequence number of a check.\<close>

definition us_strip :: "avb_unsol_controller_s \<Rightarrow> avb_unsol_controller_s" where
  "us_strip c = c\<lparr> check_seq_id := 0 \<rparr>"

definition us_gone :: "bool \<Rightarrow> int \<Rightarrow> avb_unsol_controller_s \<Rightarrow> bool" where
  "us_gone milan now c \<longleftrightarrow> (time_limited c \<and> now \<ge> expires_us c)
     \<or> (milan \<and> reply_due_us c \<noteq> 0 \<and> now \<ge> reply_due_us c \<and> checks_sent c \<ge> UNSOL_CHECK_SENDS)"

definition us_checked :: "bool \<Rightarrow> int \<Rightarrow> avb_unsol_controller_s \<Rightarrow> bool" where
  "us_checked milan now c \<longleftrightarrow> milan \<and> \<not> us_gone milan now c
     \<and> (if reply_due_us c \<noteq> 0 then now \<ge> reply_due_us c else now \<ge> check_due_us c)"

definition us_after :: "bool \<Rightarrow> bool \<Rightarrow> int \<Rightarrow> avb_unsol_controller_s \<Rightarrow> avb_unsol_controller_s" where
  "us_after milan wifi now c =
     (if us_checked milan now c then c\<lparr> checks_sent := checks_sent c + 1, reply_due_us :=
        now + (if wifi then UNSOL_REPLY_WIFI_US else UNSOL_REPLY_WIRED_US) \<rparr> else c)"

lemma tick_one:
  assumes "unsol_tick_one now i s = (gone, s')" and "i < length (us_controllers s)"
  shows "gone = us_gone (us_milan s) now (us_controllers s ! i)
       \<and> us_milan s' = us_milan s \<and> us_wifi s' = us_wifi s
       \<and> (\<exists>c. us_controllers s' = (us_controllers s)[i := c]
            \<and> us_strip c = us_strip (us_after (us_milan s) (us_wifi s) now (us_controllers s ! i)))"
proof -
  let ?c = "us_controllers s ! i"
  show ?thesis
  proof (cases "us_checked (us_milan s) now ?c")
    case True
    then have "gone = False" "s' = avb_unsol_send_check i now s" "\<not> us_gone (us_milan s) now ?c"
      using assms(1) by (auto simp: unsol_tick_one_def us_checked_def us_gone_def Let_def split: if_splits)
    then show ?thesis using True
      by (auto simp: avb_unsol_send_check_def Let_def upd_controller_def upd_at_def us_after_def us_strip_def)
  next
    case False
    then have "gone = us_gone (us_milan s) now ?c" "s' = s"
      using assms(1) by (auto simp: unsol_tick_one_def us_checked_def us_gone_def Let_def split: if_splits)
    then show ?thesis using False
      by (auto simp: us_after_def intro!: exI [of _ ?c])
  qed
qed

lemma send_deregister_frame [simp]:
  "us_milan (avb_unsol_send_deregister i s) = us_milan s"
  "us_wifi (avb_unsol_send_deregister i s) = us_wifi s"
  by (simp_all add: avb_unsol_send_deregister_def avb_unsol_send_to_def Let_def upd_controller_def)

lemma remove_after_deregister:
  "i < length (us_controllers s) \<Longrightarrow>
     us_controllers (avb_unsol_remove i (avb_unsol_send_deregister i s))
       = take i (us_controllers s) @ drop (Suc i) (us_controllers s)"
  by (simp add: avb_unsol_remove_def avb_unsol_send_deregister_def controllers_send_to upd_at_def
      take_update_cancel drop_update_cancel)

lemma tick_loop:
  "length (us_controllers s) - i \<le> fuel \<Longrightarrow> i \<le> length (us_controllers s) \<Longrightarrow>
     \<exists>r. us_controllers (unsol_tick_loop fuel now i s) = take i (us_controllers s) @ r
       \<and> map us_strip r = map (\<lambda>c. us_strip (us_after (us_milan s) (us_wifi s) now c))
           (filter (\<lambda>c. \<not> us_gone (us_milan s) now c) (drop i (us_controllers s)))"
proof (induction fuel arbitrary: i s)
  case (Suc fuel)
  let ?cs = "us_controllers s"
  show ?case
  proof (cases "i < length ?cs")
    case True
    obtain gone s' where one: "unsol_tick_one now i s = (gone, s')" by (cases "unsol_tick_one now i s")
    from tick_one [OF one True] obtain c where c: "gone = us_gone (us_milan s) now (?cs ! i)"
      "us_milan s' = us_milan s" "us_wifi s' = us_wifi s" "us_controllers s' = ?cs[i := c]"
      "us_strip c = us_strip (us_after (us_milan s) (us_wifi s) now (?cs ! i))" by auto
    have d: "drop i ?cs = ?cs ! i # drop (Suc i) ?cs" using True by (simp add: Cons_nth_drop_Suc)
    show ?thesis
    proof (cases gone)
      case g: True
      let ?t = "avb_unsol_remove i (avb_unsol_send_deregister i s')"
      have t: "us_controllers ?t = take i ?cs @ drop (Suc i) ?cs"
        using remove_after_deregister [of i s'] True by (simp add: c take_update_cancel drop_update_cancel)
      have m: "us_milan ?t = us_milan s" "us_wifi ?t = us_wifi s"
        by (simp_all add: avb_unsol_remove_def c)
      have "length (us_controllers ?t) - i \<le> fuel" "i \<le> length (us_controllers ?t)"
        using Suc.prems True by (simp_all add: t)
      from Suc.IH [OF this] show ?thesis
        using True g c(1) by (simp add: one t m d)
    next
      case g: False
      have "length (us_controllers s') - (i + 1) \<le> fuel" "i + 1 \<le> length (us_controllers s')"
        using Suc.prems True by (simp_all add: c)
      from Suc.IH [OF this] obtain r where r:
        "us_controllers (unsol_tick_loop fuel now (i + 1) s') = take (i + 1) (?cs[i := c]) @ r"
        "map us_strip r = map (\<lambda>c. us_strip (us_after (us_milan s) (us_wifi s) now c))
           (filter (\<lambda>c. \<not> us_gone (us_milan s) now c) (drop (i + 1) ?cs))"
        by (auto simp: c drop_update_cancel)
      then show ?thesis using True g c
        by (intro exI [of _ "c # r"]) (simp add: one d take_Suc_conv_app_nth)
    qed
  qed simp
qed simp

lemma registrations_tick:
  "map us_strip (us_controllers (avb_unsol_registrations_tick now s))
     = map (\<lambda>c. us_strip (us_after (us_milan s) (us_wifi s) now c))
         (filter (\<lambda>c. \<not> us_gone (us_milan s) now c) (us_controllers s))"
  using tick_loop [of s 0 "length (us_controllers s)" now]
  by (auto simp: avb_unsol_registrations_tick_def)

definition us_key :: "avb_unsol_controller_s \<Rightarrow> octets \<times> octets" where
  "us_key c = (uc_entity_id c, uc_mac_addr c)"

lemma key_strip: "us_key (us_strip c) = us_key c" "us_key (us_after m w n c) = us_key c"
  by (simp_all add: us_key_def us_strip_def us_after_def)

lemma registrations_tick_keys:
  "map us_key (us_controllers (avb_unsol_registrations_tick now s))
     = map us_key (filter (\<lambda>c. \<not> us_gone (us_milan s) now c) (us_controllers s))"
proof -
  have "map us_key (us_controllers (avb_unsol_registrations_tick now s))
      = map us_key (map us_strip (us_controllers (avb_unsol_registrations_tick now s)))"
    by (simp add: comp_def key_strip)
  also have "\<dots> = map us_key (filter (\<lambda>c. \<not> us_gone (us_milan s) now c) (us_controllers s))"
    unfolding registrations_tick by (simp add: comp_def key_strip)
  finally show ?thesis .
qed

text \<open>The registrations' tick looks at every controller exactly once although it removes
  entries while it walks: those that stay, in their order, are the ones that neither lapsed nor
  left both checks unanswered.\<close>

theorem registrations_tick_filters:
  "map us_key (us_controllers (avb_unsol_registrations_tick now s))
     = map us_key (filter (\<lambda>c. \<not> us_gone (us_milan s) now c) (us_controllers s))"
  by (rule registrations_tick_keys)


text \<open>The operations on the list, as the AECP handlers and the task call them.\<close>

datatype unsol_op =
    op_register octets octets bool int
  | op_deregister octets octets
  | op_heard octets octets int
  | op_replied octets u16 int
  | op_notify octets avb_unsol_kind_t "(octets \<times> octets option) option"
  | op_tick int
  | op_lock_tick int

fun unsol_step :: "unsol_op \<Rightarrow> unsol_state \<Rightarrow> unsol_state" where
  "unsol_step (op_register e m l t) s = snd (avb_unsol_register e m l t s)"
| "unsol_step (op_deregister e m) s = avb_unsol_deregister e m s"
| "unsol_step (op_heard e m t) s = avb_unsol_heard e m t s"
| "unsol_step (op_replied e q t) s = avb_unsol_controller_replied e q t s"
| "unsol_step (op_notify r k q) s = avb_unsol_notify r k q s"
| "unsol_step (op_tick t) s = avb_unsol_registrations_tick t s"
| "unsol_step (op_lock_tick t) s = avb_unsol_lock_tick t s"

definition us_keys :: "unsol_state \<Rightarrow> (octets \<times> octets) list" where
  "us_keys s = map us_key (us_controllers s)"

definition unsol_inv :: "unsol_state \<Rightarrow> bool" where
  "unsol_inv s \<longleftrightarrow> distinct (us_keys s) \<and> length (us_keys s) \<le> AVB_MAX_UNSOL_CONTROLLERS"

lemma keys_upd: "(\<And>c. us_key (f c) = us_key c) \<Longrightarrow> us_keys (upd_controller i f s) = us_keys s"
  by (auto simp: us_keys_def upd_controller_def nth_upd_at intro!: nth_equalityI)

lemma keys_rearm: "us_keys (avb_unsol_rearm i t s) = us_keys s"
proof -
  have "us_keys (avb_unsol_rearm i t s) = us_keys (upd_controller i (\<lambda>c. c\<lparr> check_due_us := t
      + (UNSOL_CHECK_MIN_US + uint (us_random s (us_random_pos s)) mod UNSOL_CHECK_SPAN_US),
      reply_due_us := 0, checks_sent := 0 \<rparr>) s)"
    by (simp add: avb_unsol_rearm_def Let_def us_keys_def)
  then show ?thesis by (simp add: keys_upd us_key_def)
qed

lemma keys_find_None:
  "avb_unsol_find e m s = None \<Longrightarrow> (e, m) \<notin> set (us_keys s)"
  by (auto simp: avb_unsol_find_def first_index_None us_is_def us_keys_def us_key_def in_set_conv_nth)

lemma keys_notify: "us_keys (avb_unsol_notify r k q s) = us_keys s"
proof -
  have "us_key (count_seq k c) = us_key c" for c
    by (cases k) (simp_all add: count_seq_def us_key_def)
  then have "us_keys (avb_unsol_send_to i r k t) = us_keys t" for i t
    using keys_upd [of "count_seq k" i t]
    by (simp add: us_keys_def controllers_send_to upd_controller_def)
  then show ?thesis
    unfolding avb_unsol_notify_def by (intro foreach_frame) simp
qed

lemma unsol_step_keys:
  assumes "unsol_inv s"
  shows "unsol_inv (unsol_step op s)"
proof (cases op)
  case (op_register e m l t)
  show ?thesis
  proof (cases "avb_unsol_find e m s")
    case None
    have k: "us_keys (s\<lparr> us_controllers := us_controllers s @ [unsol_fresh e m] \<rparr>) = us_keys s @ [(e, m)]"
      by (simp add: us_keys_def us_key_def unsol_fresh_def)
    have f: "us_keys (s\<lparr> us_controllers := map (\<lambda>c. if reply_due_us c = 0
                    then c\<lparr> check_due_us := t \<rparr> else c) (us_controllers s) \<rparr>) = us_keys s"
      by (simp add: us_keys_def us_key_def comp_def if_distrib cong: if_cong)
    show ?thesis
    proof (cases "length (us_controllers s) \<ge> AVB_MAX_UNSOL_CONTROLLERS")
      case True
      then show ?thesis using assms None
        by (simp add: op_register avb_unsol_register_def unsol_inv_def f)
    next
      case False
      then show ?thesis using assms None keys_find_None [OF None]
        by (simp add: op_register avb_unsol_register_def unsol_inv_def keys_rearm keys_upd us_key_def k)
          (simp add: us_keys_def)
    qed
  next
    case (Some i)
    with assms show ?thesis
      by (simp add: op_register avb_unsol_register_def unsol_inv_def keys_rearm keys_upd us_key_def)
  qed
next
  case (op_deregister e m)
  have "us_keys (avb_unsol_remove i s) = take i (us_keys s) @ drop (Suc i) (us_keys s)" for i
    by (simp add: us_keys_def avb_unsol_remove_def take_map drop_map)
  moreover have "distinct (take i xs @ drop (Suc i) xs)" if "distinct xs" for i and xs :: "(octets \<times> octets) list"
    using that by (meson distinct_append distinct_drop distinct_take set_take_disj_set_drop_if_distinct le_SucI order_refl)
  ultimately show ?thesis using assms
    by (auto simp: op_deregister avb_unsol_deregister_def unsol_inv_def simp del: distinct_append split: option.split)
next
  case (op_tick t)
  have k: "us_keys (avb_unsol_registrations_tick t s)
      = map us_key (filter (\<lambda>c. \<not> us_gone (us_milan s) t c) (us_controllers s))"
    using registrations_tick_keys by (simp add: us_keys_def)
  have "length (filter (\<lambda>c. \<not> us_gone (us_milan s) t c) (us_controllers s)) \<le> length (us_controllers s)"
    by simp
  with assms have "unsol_inv s" "length (us_keys s) \<le> AVB_MAX_UNSOL_CONTROLLERS"
      "distinct (map us_key (us_controllers s))"
    by (simp_all add: unsol_inv_def us_keys_def)
  then show ?thesis using \<open>length (filter _ _) \<le> _\<close>
    by (simp add: op_tick unsol_inv_def k distinct_map_filter)
      (use le_trans [OF length_filter_le] in \<open>simp add: us_keys_def\<close>)
next
  case (op_lock_tick t)
  with assms show ?thesis
    by (simp add: avb_unsol_lock_tick_def keys_notify unsol_inv_def us_keys_def [of "us_locked_update _ _"]
        us_keys_def [of "us_locked_by_update _ _"] us_keys_def [symmetric])
qed (use assms in \<open>auto simp: unsol_inv_def avb_unsol_heard_def avb_unsol_controller_replied_def
    keys_rearm keys_notify split: option.split\<close>)

text \<open>Whatever the controllers and the clock do, no controller is ever registered twice and
  at most sixteen are: every one of them gets each notification once.\<close>

theorem registrations_distinct:
  "unsol_inv (fold unsol_step ops (unsol_empty\<lparr> us_milan := milan, us_wifi := wifi \<rparr>))"
proof -
  have "unsol_inv s \<Longrightarrow> unsol_inv (fold unsol_step ops s)" for s
    by (induction ops arbitrary: s) (simp_all add: unsol_step_keys)
  then show ?thesis by (simp add: unsol_inv_def us_keys_def unsol_empty_def)
qed

lemma tick_frame [simp]:
  "us_milan (avb_unsol_registrations_tick now s) = us_milan s"
  "us_wifi (avb_unsol_registrations_tick now s) = us_wifi s"
proof -
  have "us_milan (unsol_tick_loop fuel now i s) = us_milan s
      \<and> us_wifi (unsol_tick_loop fuel now i s) = us_wifi s" for fuel i
  proof (induction fuel arbitrary: i s)
    case (Suc fuel)
    have one: "us_milan (snd (unsol_tick_one now i s)) = us_milan s
        \<and> us_wifi (snd (unsol_tick_one now i s)) = us_wifi s"
      by (simp add: unsol_tick_one_def avb_unsol_send_check_def upd_controller_def Let_def)
    then show ?case using Suc.IH
      by (auto simp: avb_unsol_remove_def split: prod.split bool.split)
  qed simp
  then show "us_milan (avb_unsol_registrations_tick now s) = us_milan s"
    "us_wifi (avb_unsol_registrations_tick now s) = us_wifi s"
    by (simp_all add: avb_unsol_registrations_tick_def)
qed

lemma tick_survivor:
  assumes "c' \<in> set (us_controllers (avb_unsol_registrations_tick now s))"
  obtains c where "c \<in> set (us_controllers s)" "\<not> us_gone (us_milan s) now c"
    "us_strip c' = us_strip (us_after (us_milan s) (us_wifi s) now c)"
proof -
  have "us_strip c' \<in> set (map us_strip (us_controllers (avb_unsol_registrations_tick now s)))"
    using assms by simp
  then show thesis unfolding registrations_tick by (auto intro: that)
qed

lemma strip_fields:
  "us_strip c = us_strip d \<Longrightarrow> us_key c = us_key d \<and> check_due_us c = check_due_us d
     \<and> reply_due_us c = reply_due_us d \<and> checks_sent c = checks_sent d"
  by (cases c; cases d) (simp add: us_strip_def us_key_def)

text \<open>A controller whose check is due, which answers neither check, is gone after the third tick.\<close>

lemma unanswered_gone:
  assumes due: "\<And>c. c \<in> set (us_controllers s) \<Longrightarrow> us_key c = k \<Longrightarrow>
                  check_due_us c \<le> t1 \<and> reply_due_us c = 0 \<and> checks_sent c = 0"
    and "us_milan s" "0 \<le> t1" "t1 + UNSOL_REPLY_WIFI_US \<le> t2" "t2 + UNSOL_REPLY_WIFI_US \<le> t3"
  shows "k \<notin> set (us_keys (avb_unsol_registrations_tick t3
            (avb_unsol_registrations_tick t2 (avb_unsol_registrations_tick t1 s))))"
proof
  assume "k \<in> set (us_keys (avb_unsol_registrations_tick t3
            (avb_unsol_registrations_tick t2 (avb_unsol_registrations_tick t1 s))))"
  then obtain c3 where 3: "us_key c3 = k" "c3 \<in> set (us_controllers (avb_unsol_registrations_tick t3
            (avb_unsol_registrations_tick t2 (avb_unsol_registrations_tick t1 s))))"
    by (auto simp: us_keys_def)
  let ?w = "if us_wifi s then UNSOL_REPLY_WIFI_US else UNSOL_REPLY_WIRED_US"
  have w: "0 < ?w" "?w \<le> UNSOL_REPLY_WIFI_US"
    by (simp_all add: UNSOL_REPLY_WIFI_US_def UNSOL_REPLY_WIRED_US_def)
  obtain c2 where 2: "c2 \<in> set (us_controllers (avb_unsol_registrations_tick t2
        (avb_unsol_registrations_tick t1 s)))" "\<not> us_gone True t3 c2"
      "us_strip c3 = us_strip (us_after True (us_wifi s) t3 c2)"
    using tick_survivor [OF 3(2)] assms(2) by auto
  obtain c1 where 1: "c1 \<in> set (us_controllers (avb_unsol_registrations_tick t1 s))"
      "\<not> us_gone True t2 c1" "us_strip c2 = us_strip (us_after True (us_wifi s) t2 c1)"
    using tick_survivor [OF 2(1)] assms(2) by auto
  obtain c where 0: "c \<in> set (us_controllers s)" "\<not> us_gone True t1 c"
      "us_strip c1 = us_strip (us_after True (us_wifi s) t1 c)"
    using tick_survivor [OF 1(1)] assms(2) by auto
  have key: "us_key c = k"
    using strip_fields [OF 0(3)] strip_fields [OF 1(3)] strip_fields [OF 2(3)] 3(1)
    by (simp add: key_strip)
  from due [OF 0(1) key] 0(2) strip_fields [OF 0(3)]
  have s1: "reply_due_us c1 = t1 + ?w" "checks_sent c1 = 1"
    by (auto simp: us_after_def us_checked_def)
  have "us_checked True t2 c1"
    using s1 1(2) w assms(3,4) by (auto simp: us_checked_def)
  with strip_fields [OF 1(3)] s1 have s2: "reply_due_us c2 = t2 + ?w" "checks_sent c2 = 2"
    by (simp_all add: us_after_def)
  show False using 2(2) s2 w assms(3-5) by (auto simp: us_gone_def UNSOL_CHECK_SENDS_def)
qed



end
