(* ===== verification/Boot.thy ===== *)
theory Boot
  imports Msrp_State
begin

text \<open>
  Concrete states: all memory zero, as at start-up, for any build, and a wired two-port bridge.
  The properties are applied at states built from them.
\<close>

definition port_zero :: avb_port_s where
  "port_zero = \<lparr> port_medium = avb_port_medium_eth_hwts, port_type = avb_port_type_bridged,
     port_wifi_mode = avb_port_wifi_mode_none, link_speed_mbps = 100, port_mac_addr = [2, 0, 0, 0, 0, 1],
     mrp_join_timer_us = 0, mrp_leaveall_timer_us = 0, mrp_periodic_timer_us = 0,
     mrp_leaveall_tx_pending = False \<rparr>"

definition ucast_memory_zero :: avb_wifi_ucast_entry_t where
  "ucast_memory_zero = \<lparr> uc_valid = False, uc_da = zeros 6, uc_sta = zeros 6, uc_stream_id = zeros 8 \<rparr>"

definition fqtss_class_zero :: fqtss_class_state_t where
  "fqtss_class_zero = \<lparr> idle_slope_bps = 0, fq_link_rate_bps = 0, credit_max_x256_bytes = 0,
     credit_min_x256_bytes = 0, credit_x256_bytes = 0, last_tick_us = 0, fq_queue = [] \<rparr>"

definition state_zero :: "avb_build \<Rightarrow> avb_state" where
  "state_zero b = \<lparr> build = b, now_us = 0, esp_random = (\<lambda>n. of_nat n), random_pos = 0,
     stream_out_ok = (\<lambda>_. True), config_talker = True, avb_lite = False,
     lite_escalation_allowed = False, s_lite_order_seq = 0, ap_bssid = None, s_bssid = None, s_mrp_lite = False, milan_compliant = False,
     allow_class_a_over_wifi = False,
     bridge = \<lparr> VLAN_PRIO_CLASS_A = 3, VLAN_PRIO_CLASS_B = 2, s_allow_class_a_over_wifi = False,
       s_wifi_ap_sta_count = 0 \<rparr>,
     port = (\<lambda>_. port_zero), input_streams = [], output_streams = [], known_listeners = [],
     msrp_mappings = [],
     s_msrp_talkers = (\<lambda>_. replicate (MSRP_TALKER_TABLE_SIZE b) talker_entry_zero),
     s_msrp_listeners = (\<lambda>_. replicate (MSRP_LISTENER_TABLE_SIZE b) listener_entry_zero),
     s_msrp_domains = (\<lambda>_. replicate MSRP_DOMAIN_TABLE_SIZE domain_entry_zero),
     s_mvrp_vlans = (\<lambda>_. replicate MVRP_VLAN_TABLE_SIZE vlan_entry_zero),
     s_lite_refusals = replicate MSRP_LITE_REFUSAL_TABLE_SIZE refusal_entry_zero,
     s_talker_leaveall_count = (\<lambda>_. 0), s_talker_leaveall_us = (\<lambda>_. 0),
     admission = \<lparr> s_admission = (\<lambda>_ _. \<lparr> adm_link_rate_bps = 100000000, adm_admitted_bps = 0,
         adm_cap_bps = 75000000 \<rparr>), s_fqtss = (\<lambda>_ _. fqtss_class_zero) \<rparr>,
     wifi = \<lparr> s_ucast = [], s_ucast_idx = [], s_restore_tbl = [], s_wifi_admission = [],
       s_wifi_frames_committed = 0, s_wifi_admission_port = -1 \<rparr>,
     s_cvu_seq_id = 0, tx_log = [] \<rparr>"

definition talker_stream_zero :: avb_talker_stream_s where
  "talker_stream_zero = \<lparr> ts_stream_id = zeros 8, ts_stream_dest_addr = zeros 6, connection_count = zeros 2,
     stop_streaming = False, streaming = False, connected_listeners = replicate 10 connected_listener_zero,
     ts_class_b = False, ts_vlan_id = zeros 2, ts_stream_format = zeros 8, stream_id_gen = 0,
     stream_id_retired_us = [0, 0, 0, 0], tx_da_seq = 0, tx_da = [], lite_declared_multicast = False,
     lite_tx_multicast = False, lite_multicast_admitted = False, lite_multicast_tx_at_us = 0,
     lite_start_retry_us = 0, presentation_time_offset_ns = 0 \<rparr>"

definition wired_bridge :: avb_build where
  "wired_bridge = \<lparr> NUM_PORTS = 2, ROLE_BRIDGE = True, ATDECC = True, WIFI_UNICAST_STREAMS = False,
     WIFI_DELIVERABLE_FRAMES = None, ENDPOINT_WIRELESS = False,
     LITE_UNICAST_FANOUT = 2, NEW_STREAM_ID_ON_GROW = True \<rparr>"

definition end_station :: avb_build where
  "end_station = \<lparr> NUM_PORTS = 1, ROLE_BRIDGE = False, ATDECC = True, WIFI_UNICAST_STREAMS = False,
     WIFI_DELIVERABLE_FRAMES = None, ENDPOINT_WIRELESS = False,
     LITE_UNICAST_FANOUT = 2, NEW_STREAM_ID_ON_GROW = True \<rparr>"

end
