(* ===== verification/Listener_Map.thy ===== *)
theory Listener_Map
  imports Msrp_Map Boot
begin

text \<open>
  What the bridge does with Listener declarations: the merge of section \<open>mrp.c\<close> 6a is a join of
  what the other ports declare, a change is declared on every other port, and where the code
  falls short of that.
\<close>

section \<open>The merge is a join\<close>

text \<open>The Listener declaration types of 802.1Q Table 35-15, ordered by what they can carry
  together; \<open>None\<close> is no declaration.\<close>

definition decl_live :: "msrp_listener_event_t option \<Rightarrow> msrp_listener_event_t option" where
  "decl_live d = (if d = Some msrp_listener_event_ignore then None else d)"

definition decl_join ::
  "msrp_listener_event_t option \<Rightarrow> msrp_listener_event_t option \<Rightarrow> msrp_listener_event_t option" where
  "decl_join a b = (if a = None then b else if b = None \<or> a = b then a
                    else Some msrp_listener_event_ready_failed)"

definition port_decl :: "int \<Rightarrow> octets \<Rightarrow> avb_state \<Rightarrow> nat \<Rightarrow> msrp_listener_event_t option" where
  "port_decl y stream_id s p =
     (if int p = y then None else decl_live (merge_peer_decl (int p) stream_id s))"

lemma decl_join_live [simp]:
  "decl_live (decl_join (decl_live a) (decl_live b)) = decl_join (decl_live a) (decl_live b)"
  by (simp add: decl_live_def decl_join_def)

text \<open>The three flags of the merge, read back.\<close>

definition decl_flags :: "bool \<times> bool \<times> bool \<Rightarrow> msrp_listener_event_t option" where
  "decl_flags = (\<lambda>(r, a, f).
     if \<not> r \<and> \<not> a \<and> \<not> f then None
     else if f \<or> (r \<and> a) then Some msrp_listener_event_ready_failed
     else if r then Some msrp_listener_event_ready
     else Some msrp_listener_event_asking_failed)"

lemma decl_flags_step:
  "decl_flags (r \<or> d = msrp_listener_event_ready, a \<or> d = msrp_listener_event_asking_failed,
               f \<or> d = msrp_listener_event_ready_failed)
     = decl_join (decl_flags (r, a, f)) (decl_live (Some d))"
  by (cases d) (auto simp: decl_flags_def decl_join_def decl_live_def)

lemma merge_is_fold:
  "msrp_merge_listener_decls y stream_id s
     = fold (\<lambda>p d. decl_join d (port_decl y stream_id s p)) [0..<ports s] None"
proof -
  let ?f = "\<lambda>p (r, a, f). if int p = y then (r, a, f)
          else case merge_peer_decl (int p) stream_id s of
              None \<Rightarrow> (r, a, f)
            | Some decl \<Rightarrow> (r \<or> decl = msrp_listener_event_ready,
                           a \<or> decl = msrp_listener_event_asking_failed,
                           f \<or> decl = msrp_listener_event_ready_failed)"
  have step: "decl_flags (?f p x) = decl_join (decl_flags x) (port_decl y stream_id s p)" for p x
    by (cases x) (auto simp: port_decl_def decl_flags_step decl_join_def decl_live_def split: option.split)
  have "decl_flags (foreach n ?f (False, False, False))
      = fold (\<lambda>p d. decl_join d (port_decl y stream_id s p)) [0..<n] None" for n
    by (induction n) (simp_all add: foreach_Suc step, simp add: decl_flags_def)
  then show ?thesis
    by (simp add: msrp_merge_listener_decls_def decl_flags_def split: prod.split)
qed

lemma decl_join_laws:
  "decl_join a (decl_join b c) = decl_join (decl_join a b) c"
  "decl_join a b = decl_join b a" "decl_join a a = a" "decl_join None a = a"
  by (auto simp: decl_join_def)


lemma fold_join_table:
  "fold (\<lambda>p d. decl_join d (g p)) xs None = None \<longleftrightarrow> {d. \<exists>p \<in> set xs. g p = Some d} = {}"
  "d \<noteq> msrp_listener_event_ready_failed \<Longrightarrow>
     fold (\<lambda>p d. decl_join d (g p)) xs None = Some d \<longleftrightarrow> {d. \<exists>p \<in> set xs. g p = Some d} = {d}"
proof -
  let ?r = "\<lambda>xs. fold (\<lambda>p d. decl_join d (g p)) xs None" and ?D = "\<lambda>xs. {d. \<exists>p \<in> set xs. g p = Some d}"
  have "(?r xs = None \<longleftrightarrow> ?D xs = {}) \<and>
      (\<forall>d. d \<noteq> msrp_listener_event_ready_failed \<longrightarrow> (?r xs = Some d \<longleftrightarrow> ?D xs = {d}))"
  proof (induction xs rule: rev_induct)
    case (snoc x xs)
    have D: "?D (xs @ [x]) = ?D xs \<union> set_option (g x)" by (auto simp: set_eq_iff)
    have r: "?r (xs @ [x]) = decl_join (?r xs) (g x)" by simp
    show ?case
    proof (cases "g x")
      case None
      then show ?thesis using snoc unfolding D r by (auto simp: decl_join_def)
    next
      case (Some e)
      then show ?thesis using snoc unfolding D r
        by (cases "?r xs") (auto simp: decl_join_def split: if_splits)
    qed
  qed simp
  then show "?r xs = None \<longleftrightarrow> ?D xs = {}"
    "d \<noteq> msrp_listener_event_ready_failed \<Longrightarrow> ?r xs = Some d \<longleftrightarrow> ?D xs = {d}" by auto
qed

text \<open>C4. The merge of the Listener declarations is the table of 802.1Q 35.2.4.4.3: with \<open>D\<close> the
  declaration types registered on the other ports, there is none when \<open>D\<close> is empty, the one type
  when all agree, and Ready Failed in every other case.\<close>

theorem merge_listener_table:
  "let D = {d. \<exists>p < ports s. int p \<noteq> y \<and> d \<noteq> msrp_listener_event_ignore
              \<and> merge_peer_decl (int p) stream_id s = Some d};
       m = msrp_merge_listener_decls y stream_id s
   in (m = None \<longleftrightarrow> D = {}) \<and>
      (\<forall>d. m = Some d \<longleftrightarrow> (if d = msrp_listener_event_ready_failed
              then D \<noteq> {} \<and> \<not> (\<exists>e. D = {e} \<and> e \<noteq> d) else D = {d}))"
proof -
  let ?g = "port_decl y stream_id s" and ?m = "msrp_merge_listener_decls y stream_id s"
  let ?D = "{d. \<exists>p \<in> set [0..<ports s]. ?g p = Some d}"
  have D: "?D = {d. \<exists>p < ports s. int p \<noteq> y \<and> d \<noteq> msrp_listener_event_ignore
              \<and> merge_peer_decl (int p) stream_id s = Some d}"
  proof -
    have "?g p = Some d \<longleftrightarrow> int p \<noteq> y \<and> d \<noteq> msrp_listener_event_ignore
        \<and> merge_peer_decl (int p) stream_id s = Some d" for p d
      by (auto simp: port_decl_def decl_live_def)
    then show ?thesis by auto
  qed
  have n: "?m = None \<longleftrightarrow> ?D = {}" and e: "\<And>d. d \<noteq> msrp_listener_event_ready_failed \<Longrightarrow> ?m = Some d \<longleftrightarrow> ?D = {d}"
    unfolding merge_is_fold by (rule fold_join_table, rule fold_join_table)
  have "?m = Some msrp_listener_event_ready_failed \<longleftrightarrow>
      ?m \<noteq> None \<and> (\<forall>d. d \<noteq> msrp_listener_event_ready_failed \<longrightarrow> ?m \<noteq> Some d)" by auto
  then have "?m = Some msrp_listener_event_ready_failed \<longleftrightarrow>
      ?D \<noteq> {} \<and> (\<forall>e. ?D \<noteq> {e} \<or> e = msrp_listener_event_ready_failed)"
    unfolding n using e by auto
  with n e show ?thesis unfolding D Let_def by auto
qed

section \<open>Propagation\<close>

lemma arm_join_timer_frame [frame_simps]:
  "s_msrp_listeners (mrp_port_arm_join_timer p s) = s_msrp_listeners s"
  "s_msrp_talkers (mrp_port_arm_join_timer p s) = s_msrp_talkers s"
  "build (mrp_port_arm_join_timer p s) = build s"
  "wifi (mrp_port_arm_join_timer p s) = wifi s"
  "avb_lite (mrp_port_arm_join_timer p s) = avb_lite s"
  "s_mrp_lite (mrp_port_arm_join_timer p s) = s_mrp_lite s"
  "port_type (port (mrp_port_arm_join_timer p s) q) = port_type (port s q)"
  by (simp_all add: mrp_port_arm_join_timer_def mrp_join_next_expiry_us_def draw_random_def upd_port_def)

lemma upd_listener_frame [frame_simps]:
  "build (upd_listener p i f s) = build s" "wifi (upd_listener p i f s) = wifi s"
  "port (upd_listener p i f s) = port s" "avb_lite (upd_listener p i f s) = avb_lite s"
  "s_mrp_lite (upd_listener p i f s) = s_mrp_lite s"
  by (simp_all add: upd_listener_def)

lemma listener_insert_frame [frame_simps]:
  "build (snd (msrp_listener_find_or_insert p k s)) = build s"
  "wifi (snd (msrp_listener_find_or_insert p k s)) = wifi s"
  "port (snd (msrp_listener_find_or_insert p k s)) = port s"
  "avb_lite (snd (msrp_listener_find_or_insert p k s)) = avb_lite s"
  "s_mrp_lite (snd (msrp_listener_find_or_insert p k s)) = s_mrp_lite s"
  by (simp_all add: msrp_listener_find_or_insert_def split: prod.split)

text \<open>The lookup of the code is the lookup of the table interface.\<close>

lemma listener_find_lookup:
  "msrp_listener_find p k s = (if valid_port s p then listeners.lookup k (s_msrp_listeners s p) else None)"
  by (simp add: msrp_listener_find_def listeners.lookup_def listener_key_def)

lemma listener_insert_enter:
  "msrp_listener_find_or_insert p k s =
     (if valid_port s p then case listeners.enter k (s_msrp_listeners s p) of
        (r, t) \<Rightarrow> (r, s\<lparr> s_msrp_listeners := (s_msrp_listeners s)(p := t) \<rparr>)
      else (None, s))"
  by (simp add: msrp_listener_find_or_insert_def listeners.enter_def listener_key_def)


lemma declare_step_keeps [simp]:
  "le_valid (listener_declare_step lite now d e) = le_valid e"
  "listener_key (listener_declare_step lite now d e) = listener_key e"
  "peer_decl (listener_declare_step lite now d e) = peer_decl e"
  "registrar (le_sm (listener_declare_step lite now d e)) = registrar (le_sm e)"
  "decl_event (listener_declare_step lite now d e) = d"
  by (simp_all add: listener_declare_step_def Let_def mrp_applicant_step_def listener_key_def)

lemma declare_step_declares:
  "mrp_applicant_declaring (applicant (le_sm (listener_declare_step lite now d e)))"
  by (cases "applicant (le_sm e)")
    (simp_all add: listener_declare_step_def Let_def mrp_applicant_step_def mrp_declare_event_def)

text \<open>The entry of a stream on a port, if it has one.\<close>

definition entry_of :: "octets \<Rightarrow> msrp_listener_entry_t list \<Rightarrow> msrp_listener_entry_t option" where
  "entry_of k xs = map_option (\<lambda>i. xs ! i) (listeners.lookup k xs)"

lemma entry_of_upd:
  assumes "\<And>e. le_valid (f e) = le_valid e \<and> listener_key (f e) = listener_key e"
    and "listeners.lookup k xs = Some i"
  shows "entry_of k (upd_at i f xs) = Some (f (xs ! i))"
  using listeners.lookup_SomeD [OF assms(2)] assms(2)
  by (simp add: entry_of_def listeners.lookup_upd_at [OF assms(1)])

lemma entry_of_enter:
  "listeners.enter k xs = (Some i, ys) \<Longrightarrow>
     listeners.lookup k ys = Some i \<and> ys ! i = (case entry_of k xs of Some e \<Rightarrow> e | None \<Rightarrow> listener_fresh k)"
  by (cases rule: listeners.enter_cases [of k xs])
    (auto simp: entry_of_def listeners.lookup_fresh)

definition with_declared ::
  "avb_state \<Rightarrow> octets \<Rightarrow> msrp_listener_event_t \<Rightarrow> msrp_listener_entry_t list \<Rightarrow> msrp_listener_entry_t option" where
  "with_declared s k d xs = (if fst (listeners.enter k xs) = None then entry_of k xs
     else Some (listener_declare_step (avb_lite s) (now_us s) d
            (case entry_of k xs of Some e \<Rightarrow> e | None \<Rightarrow> listener_fresh k)))"

lemma declare_listener_entry:
  "entry_of k (s_msrp_listeners (mrp_declare_listener p k d s) q) =
     (if q = p \<and> valid_port s p then with_declared s k d (s_msrp_listeners s p)
      else entry_of k (s_msrp_listeners s q))"
proof (cases "valid_port s p")
  case v: True
  show ?thesis
  proof (cases "listeners.enter k (s_msrp_listeners s p)")
    case (Pair r t)
    show ?thesis
    proof (cases r)
      case None
      then have "t = s_msrp_listeners s p"
        using Pair by (cases rule: listeners.enter_cases [of k "s_msrp_listeners s p"]) auto
      then show ?thesis using v Pair None
        by (simp add: mrp_declare_listener_def listener_insert_enter with_declared_def)
    next
      case (Some i)
      note e = entry_of_enter [OF Pair [unfolded Some]]
      have "entry_of k (upd_at i (listener_declare_step (avb_lite s) (now_us s) d) t)
          = Some (listener_declare_step (avb_lite s) (now_us s) d (t ! i))"
        by (rule entry_of_upd) (simp_all add: e)
      then show ?thesis using v Pair Some e
        by (simp add: mrp_declare_listener_def listener_insert_enter with_declared_def frame_simps)
          (simp add: upd_listener_def)
    qed
  qed
qed (simp add: mrp_declare_listener_def listener_insert_enter)

lemma withdraw_listener_entry:
  "entry_of k (s_msrp_listeners (mrp_withdraw_listener p k s) q) =
     (if q = p \<and> valid_port s p
      then map_option (\<lambda>e. e\<lparr> le_sm := mrp_withdraw_step (s_mrp_lite s) (le_sm e),
              le_lite_next_tx_us := mrp_lite_note_local (now_us s)
                (mrp_withdraw_step (s_mrp_lite s) (le_sm e)) (applicant (le_sm e)) (le_lite_next_tx_us e) \<rparr>)
             (entry_of k (s_msrp_listeners s p))
      else entry_of k (s_msrp_listeners s q))"
proof (cases "if valid_port s p then listeners.lookup k (s_msrp_listeners s p) else None")
  case None
  then show ?thesis
    by (auto simp: mrp_withdraw_listener_def listener_find_lookup entry_of_def split: if_splits)
next
  case (Some i)
  then have l: "listeners.lookup k (s_msrp_listeners s p) = Some i" "valid_port s p"
    by (simp_all split: if_splits)
  let ?f = "\<lambda>e. e\<lparr> le_sm := mrp_withdraw_step (s_mrp_lite s) (le_sm e),
              le_lite_next_tx_us := mrp_lite_note_local (now_us s)
                (mrp_withdraw_step (s_mrp_lite s) (le_sm e)) (applicant (le_sm e)) (le_lite_next_tx_us e) \<rparr>"
  have "entry_of k (upd_at i ?f (s_msrp_listeners s p)) = Some (?f (s_msrp_listeners s p ! i))"
    by (rule entry_of_upd [OF _ l(1)]) (simp add: listener_key_def)
  moreover have "entry_of k (s_msrp_listeners s p) = Some (s_msrp_listeners s p ! i)"
    by (simp add: entry_of_def l)
  ultimately show ?thesis using l
    by (simp add: mrp_withdraw_listener_def listener_find_lookup frame_simps Let_def)
      (simp add: upd_listener_def)
qed


lemma declare_listener_frame [frame_simps]:
  "build (mrp_declare_listener p k d s) = build s" "wifi (mrp_declare_listener p k d s) = wifi s"
  "port_type (port (mrp_declare_listener p k d s) q) = port_type (port s q)"
  by (auto simp: mrp_declare_listener_def frame_simps listener_insert_enter upd_listener_def split: option.split prod.split)

lemma withdraw_listener_frame [frame_simps]:
  "build (mrp_withdraw_listener p k s) = build s" "wifi (mrp_withdraw_listener p k s) = wifi s"
  "port_type (port (mrp_withdraw_listener p k s) q) = port_type (port s q)"
  by (simp_all add: mrp_withdraw_listener_def frame_simps split: option.split)

lemma declare_listener_enter:
  "q \<noteq> p \<Longrightarrow> listeners.enter k (s_msrp_listeners (mrp_declare_listener p k d s) q)
              = listeners.enter k (s_msrp_listeners s q)"
  by (auto simp: mrp_declare_listener_def frame_simps listener_insert_enter upd_listener_def
      split: option.split prod.split)

lemma withdraw_listener_enter:
  "q \<noteq> p \<Longrightarrow> listeners.enter k (s_msrp_listeners (mrp_withdraw_listener p k s) q)
              = listeners.enter k (s_msrp_listeners s q)"
  by (simp add: mrp_withdraw_listener_def frame_simps upd_listener_def split: option.split)

text \<open>What a port's peers declare, by the entry of the stream.\<close>

lemma merge_peer_entry:
  "merge_peer_decl q k s =
     (case if valid_port s q then entry_of k (s_msrp_listeners s q) else None of
        None \<Rightarrow> None
      | Some e \<Rightarrow> if registrar (le_sm e) \<noteq> mrp_registrar_in then None
          else if WIFI_UNICAST_STREAMS (build s) \<and> q = s_wifi_admission_port (wifi s)
                  \<and> peer_decl e \<noteq> msrp_listener_event_ignore \<and> msrp_wifi_admission_refused k s
          then Some msrp_listener_event_asking_failed
          else Some (peer_decl e))"
  by (simp add: merge_peer_decl_def listener_find_lookup entry_of_def listener_def Let_def split: option.split)

lemma merge_peer_cong:
  assumes "build t = build s" and "wifi t = wifi s"
    and "map_option (\<lambda>e. (registrar (le_sm e), peer_decl e)) (entry_of k (s_msrp_listeners t q))
       = map_option (\<lambda>e. (registrar (le_sm e), peer_decl e)) (entry_of k (s_msrp_listeners s q))
     \<or> entry_of k (s_msrp_listeners s q) = None
       \<and> (\<exists>e. entry_of k (s_msrp_listeners t q) = Some e \<and> registrar (le_sm e) \<noteq> mrp_registrar_in)"
  shows "merge_peer_decl q k t = merge_peer_decl q k s"
proof -
  have v: "valid_port t q = valid_port s q" and r: "msrp_wifi_admission_refused k t = msrp_wifi_admission_refused k s"
    by (simp_all add: valid_port_def msrp_wifi_admission_refused_def assms(1,2))
  show ?thesis
    unfolding merge_peer_entry v r assms(1,2) using assms(3)
    by (cases "entry_of k (s_msrp_listeners t q)"; cases "entry_of k (s_msrp_listeners s q)") simp_all
qed

lemma fresh_listener_mt [simp]: "registrar (le_sm (listener_fresh k)) = mrp_registrar_mt"
  by (simp add: listener_fresh_def mrp_sm_idle_state_def)

text \<open>A declaration or withdrawal changes nothing a merge reads.\<close>

lemma merge_peer_declare [simp]:
  "merge_peer_decl q k (mrp_declare_listener p k d s) = merge_peer_decl q k s"
proof (rule merge_peer_cong)
  show "map_option (\<lambda>e. (registrar (le_sm e), peer_decl e))
           (entry_of k (s_msrp_listeners (mrp_declare_listener p k d s) q))
       = map_option (\<lambda>e. (registrar (le_sm e), peer_decl e)) (entry_of k (s_msrp_listeners s q))
     \<or> entry_of k (s_msrp_listeners s q) = None
       \<and> (\<exists>e. entry_of k (s_msrp_listeners (mrp_declare_listener p k d s) q) = Some e
            \<and> registrar (le_sm e) \<noteq> mrp_registrar_in)"
    by (cases "entry_of k (s_msrp_listeners s p)")
      (auto simp: declare_listener_entry with_declared_def)
qed (simp_all add: frame_simps)

lemma merge_peer_withdraw [simp]:
  "merge_peer_decl q k (mrp_withdraw_listener p k s) = merge_peer_decl q k s"
proof (rule merge_peer_cong)
  have "registrar (mrp_withdraw_step lite sm) = registrar sm" for lite sm
    by (simp add: mrp_withdraw_step_def Let_def mrp_applicant_step_def)
  then show "map_option (\<lambda>e. (registrar (le_sm e), peer_decl e))
           (entry_of k (s_msrp_listeners (mrp_withdraw_listener p k s) q))
       = map_option (\<lambda>e. (registrar (le_sm e), peer_decl e)) (entry_of k (s_msrp_listeners s q))
     \<or> entry_of k (s_msrp_listeners s q) = None
       \<and> (\<exists>e. entry_of k (s_msrp_listeners (mrp_withdraw_listener p k s) q) = Some e
            \<and> registrar (le_sm e) \<noteq> mrp_registrar_in)"
    by (simp add: withdraw_listener_entry option.map_comp comp_def)
qed (simp_all add: frame_simps)

lemma merge_cong:
  "\<lbrakk>ports t = ports s; \<And>q. merge_peer_decl q k t = merge_peer_decl q k s\<rbrakk> \<Longrightarrow>
     msrp_merge_listener_decls y k t = msrp_merge_listener_decls y k s"
  by (simp add: merge_is_fold port_decl_def cong: if_cong)

text \<open>What a port declares for a stream.\<close>

definition declared_to :: "avb_state \<Rightarrow> int \<Rightarrow> octets \<Rightarrow> msrp_listener_event_t option" where
  "declared_to s y k = (case msrp_listener_find y k s of
       None \<Rightarrow> None
     | Some i \<Rightarrow> if mrp_applicant_declaring (applicant (le_sm (listener s y i)))
                 then Some (decl_event (listener s y i)) else None)"

text \<open>The port has a slot for the stream, and its Applicant is either done or declaring.\<close>

definition may_declare :: "avb_state \<Rightarrow> int \<Rightarrow> octets \<Rightarrow> bool" where
  "may_declare s y k \<longleftrightarrow> fst (msrp_listener_find_or_insert y k s) \<noteq> None
     \<and> (case msrp_listener_find y k s of None \<Rightarrow> True
        | Some i \<Rightarrow> let a = applicant (le_sm (listener s y i)) in
            a = mrp_applicant_vo \<or> mrp_applicant_declaring a)"

lemma declared_to_entry:
  "declared_to s y k = (case if valid_port s y then entry_of k (s_msrp_listeners s y) else None of
       None \<Rightarrow> None
     | Some e \<Rightarrow> if mrp_applicant_declaring (applicant (le_sm e)) then Some (decl_event e) else None)"
  by (simp add: declared_to_def listener_find_lookup entry_of_def listener_def split: option.split)

lemma may_declare_entry:
  "may_declare s y k \<longleftrightarrow> valid_port s y \<and> fst (listeners.enter k (s_msrp_listeners s y)) \<noteq> None
     \<and> (case entry_of k (s_msrp_listeners s y) of None \<Rightarrow> True
        | Some e \<Rightarrow> applicant (le_sm e) = mrp_applicant_vo \<or> mrp_applicant_declaring (applicant (le_sm e)))"
  by (auto simp: may_declare_def listener_find_lookup listener_insert_enter entry_of_def listener_def Let_def
      split: option.split prod.split)


text \<open>One port of the propagation.\<close>

lemma propagate_to_cases:
  obtains "propagate_listener_to p k j s = s"
  | "propagate_listener_to p k j s = mrp_withdraw_listener (int j) k s"
  | d where "propagate_listener_to p k j s = mrp_declare_listener (int j) k d s"
proof -
  have "propagate_listener_to p k j s = s
      \<or> propagate_listener_to p k j s = mrp_withdraw_listener (int j) k s
      \<or> (\<exists>d. propagate_listener_to p k j s = mrp_declare_listener (int j) k d s)"
    unfolding propagate_listener_to_def Let_def
    by (cases "msrp_merge_listener_decls (int j) k s") (simp_all only: option.case, auto)
  then show thesis using that by blast
qed

lemma propagate_to_frame [frame_simps]:
  "build (propagate_listener_to p k j s) = build s" "wifi (propagate_listener_to p k j s) = wifi s"
  "port_type (port (propagate_listener_to p k j s) q) = port_type (port s q)"
  by (rule propagate_to_cases [of p k j s]; simp add: frame_simps)+

lemma propagate_to_merge:
  "msrp_merge_listener_decls y k (propagate_listener_to p k j s) = msrp_merge_listener_decls y k s"
proof (rule merge_cong)
  show "merge_peer_decl q k (propagate_listener_to p k j s) = merge_peer_decl q k s" for q
    by (rule propagate_to_cases [of p k j s]) simp_all
qed (simp add: frame_simps)

lemma propagate_to_other:
  assumes "j \<noteq> y"
  shows "declared_to (propagate_listener_to p k j s) (int y) k = declared_to s (int y) k"
    and "may_declare (propagate_listener_to p k j s) (int y) k = may_declare s (int y) k"
  by (rule propagate_to_cases [of p k j s];
      simp add: declared_to_entry may_declare_entry declare_listener_entry withdraw_listener_entry
        valid_port_def frame_simps declare_listener_enter withdraw_listener_enter assms assms [symmetric])+

lemma withdraw_not_declaring:
  "\<not> mrp_applicant_declaring (applicant (mrp_withdraw_step lite sm))"
  by (cases "applicant sm") (simp_all add: mrp_withdraw_step_def Let_def mrp_applicant_step_def)

lemma declared_to_declare:
  "may_declare s y k \<Longrightarrow> declared_to (mrp_declare_listener y k d s) y k = Some d"
  by (auto simp: declared_to_entry declare_listener_entry may_declare_entry with_declared_def
      valid_port_def frame_simps declare_step_declares)

lemma declared_to_withdraw: "declared_to (mrp_withdraw_listener y k s) y k = None"
  by (auto simp: declared_to_entry withdraw_listener_entry valid_port_def frame_simps
      withdraw_not_declaring split: option.split)

lemma propagate_to_declares:
  assumes "int y \<noteq> p" and "port_type (port s (int y)) = avb_port_type_bridged"
    and "may_declare s (int y) k"
  shows "declared_to (propagate_listener_to p k y s) (int y) k = msrp_merge_listener_decls (int y) k s"
proof -
  let ?d = "declared_to s (int y) k" and ?m = "msrp_merge_listener_decls (int y) k s"
  define cur where "cur = (case msrp_listener_find (int y) k s of None \<Rightarrow> False
              | Some i \<Rightarrow> applicant (le_sm (listener s (int y) i)) \<noteq> mrp_applicant_vo)"
  have cur: "cur \<longleftrightarrow> ?d \<noteq> None"
    using assms(3) by (auto simp: cur_def declared_to_def may_declare_def Let_def split: option.splits)
  have ev: "cur \<Longrightarrow> ?d = Some (decl_event (listener s (int y) (the (msrp_listener_find (int y) k s))))"
    using assms(3) by (auto simp: cur_def declared_to_def may_declare_def Let_def split: option.splits)
  have "propagate_listener_to p k y s = (case ?m of
        None \<Rightarrow> if cur then mrp_withdraw_listener (int y) k s else s
      | Some d \<Rightarrow> if ?d \<noteq> Some d then mrp_declare_listener (int y) k d s else s)"
    unfolding propagate_listener_to_def Let_def cur_def [symmetric]
    using assms(1,2) cur ev by (cases cur) (auto split: option.split)
  then show ?thesis
    using cur declared_to_declare [OF assms(3)] declared_to_withdraw [of "int y" k s]
    by (auto split: option.split)
qed



definition demo_stream :: octets where
  "demo_stream = [2, 0, 0, 0, 0, 9, 0, 1]"

text \<open>A bridge behind whose port 1 a listener has registered Ready.\<close>

definition registered_listener :: "msrp_listener_entry_t" where
  "registered_listener = (listener_fresh demo_stream)\<lparr> peer_decl := msrp_listener_event_ready,
     le_sm := mrp_sm_idle_state\<lparr> registrar := mrp_registrar_in \<rparr> \<rparr>"

definition ready_behind_1 :: avb_state where
  "ready_behind_1 = (state_zero wired_bridge)\<lparr> s_msrp_listeners := (\<lambda>p.
     if p = 1 then registered_listener # replicate 11 listener_entry_zero
     else replicate 12 listener_entry_zero) \<rparr>"


section \<open>A listener that returns too soon\<close>

lemma propagate_to_listeners:
  "j \<noteq> y \<Longrightarrow> s_msrp_listeners (propagate_listener_to p k j s) (int y) = s_msrp_listeners s (int y)"
  by (rule propagate_to_cases [of p k j s])
    (auto simp: mrp_declare_listener_def mrp_withdraw_listener_def frame_simps listener_insert_enter
      upd_listener_def split: option.split prod.split)

text \<open>C6. While the Leave of an earlier withdrawal is still waiting for its transmit opportunity
  (Applicant LA), a listener that comes back with the type it had before is not declared again:
  the propagation leaves the egress port alone, and the opportunity then sends the Leave and
  leaves nothing declared, although a listener is registered.\<close>

theorem returning_listener_lost:
  assumes "y < ports s" and "int y \<noteq> p"
    and "msrp_listener_find (int y) k s = Some i"
    and "applicant (le_sm (listener s (int y) i)) = mrp_applicant_la"
    and "msrp_merge_listener_decls (int y) k s = Some (decl_event (listener s (int y) i))"
  shows "let s' = msrp_propagate_listener p k s;
             sm = mrp_sm_step now (le_sm (listener s' (int y) i)) mrp_event_tx
         in msrp_merge_listener_decls (int y) k s' \<noteq> None \<and> declared_to s' (int y) k = None
          \<and> applicant sm = mrp_applicant_vo \<and> pending_tx sm = mrp_tx_leave"
proof -
  let ?t = "\<lambda>n. foreach n (propagate_listener_to p k) s"
  have merge: "msrp_merge_listener_decls q k (?t n) = msrp_merge_listener_decls q k s" for n q
    by (rule foreach_frame) (rule propagate_to_merge)
  have build: "build (?t n) = build s" for n
    by (rule foreach_frame) (simp add: frame_simps)
  have find: "s_msrp_listeners t (int y) = s_msrp_listeners s (int y) \<Longrightarrow> build t = build s \<Longrightarrow>
      msrp_listener_find (int y) k t = Some i \<and> listener t (int y) i = listener s (int y) i" for t
    using assms(3) by (simp add: msrp_listener_find_def valid_port_def listener_def split: if_splits)
  have same: "s_msrp_listeners (?t n) (int y) = s_msrp_listeners s (int y)" for n
  proof (induction n)
    case (Suc n)
    then have "propagate_listener_to p k y (?t n) = ?t n"
      using find [OF Suc build] assms(4,5) merge [of "int y" n]
      by (simp add: propagate_listener_to_def)
    then show ?case using Suc
      by (cases "n = y") (simp_all add: foreach_Suc propagate_to_listeners)
  qed simp
  let ?s = "msrp_propagate_listener p k s"
  have "msrp_listener_find (int y) k ?s = Some i" "listener ?s (int y) i = listener s (int y) i"
    using find [OF same build] by (simp_all add: msrp_propagate_listener_def)
  then show ?thesis using assms(4,5) merge [of "int y" "ports s"]
    by (simp add: msrp_propagate_listener_def declared_to_def mrp_sm_step_def mrp_applicant_step_def
        mrp_registrar_step_def applicant_on_tx_def applicant_action_def Let_def)
qed


text \<open>Port 0 declared the listener behind port 1, sent it until quiet, and withdrew it again.\<close>

definition withdrawn_on_0 :: avb_state where
  "withdrawn_on_0 = (state_zero wired_bridge)\<lparr> s_msrp_listeners := (\<lambda>p.
     if p = 1 then registered_listener # replicate 11 listener_entry_zero
     else (listener_fresh demo_stream)\<lparr> decl_event := msrp_listener_event_ready,
            le_sm := mrp_withdraw_step False (mrp_sm_idle_state\<lparr> applicant := mrp_applicant_qa \<rparr>) \<rparr>
          # replicate 11 listener_entry_zero) \<rparr>"

theorem returning_listener_lost_witness:
  "msrp_merge_listener_decls 0 demo_stream (msrp_propagate_listener 1 demo_stream withdrawn_on_0) \<noteq> None
   \<and> declared_to (msrp_propagate_listener 1 demo_stream withdrawn_on_0) 0 demo_stream = None"
proof -
  have "msrp_listener_find (int 0) demo_stream withdrawn_on_0 = Some 0"
    "applicant (le_sm (listener withdrawn_on_0 (int 0) 0)) = mrp_applicant_la"
    "msrp_merge_listener_decls (int 0) demo_stream withdrawn_on_0
       = Some (decl_event (listener withdrawn_on_0 (int 0) 0))"
    "0 < ports withdrawn_on_0"
    by code_simp+
  then show ?thesis
    using returning_listener_lost [of 0 withdrawn_on_0 1 demo_stream 0] by (simp add: Let_def)
qed

end
