(* ===== verification/Msrp_Inv.thy ===== *)
theory Msrp_Inv
  imports Mrp_Tick Boot
begin

text \<open>
  The invariant of the attribute tables: no attribute has two entries, the tables keep their
  size, and a Talker Advertise in quarantine after a change of its value is not being declared.
  Every operation of MSRP and MVRP keeps it, so it holds in every state a node can reach.
\<close>

section \<open>Tables under updates\<close>

context attribute_table
begin

lemma keys_unique_update:
  "\<lbrakk>keys_unique xs; \<not> valid e \<or> valid (xs ! i) \<and> key e = key (xs ! i)\<rbrakk> \<Longrightarrow> keys_unique (xs[i := e])"
  unfolding keys_unique_def
  by (intro allI impI, elim conjE, case_tac "ia = i"; case_tac "j = i") (auto simp: nth_list_update)

lemma keys_unique_map:
  "\<lbrakk>keys_unique xs; \<And>e. valid (f e) = valid e \<and> key (f e) = key e\<rbrakk> \<Longrightarrow> keys_unique (map f xs)"
  by (auto simp: keys_unique_def)

lemma keys_unique_replicate: "\<not> valid e \<Longrightarrow> keys_unique (replicate n e)"
  by (auto simp: keys_unique_def)

end

section \<open>The invariant\<close>

definition talker_ok :: "msrp_talker_entry_t \<Rightarrow> bool" where
  "talker_ok e \<longleftrightarrow> (te_valid e \<and> redeclare_after_us e \<noteq> 0 \<longrightarrow>
     te_attr_type e = msrp_attr_type_talker_advertise \<and> \<not> mrp_applicant_declaring (applicant (te_sm e)))"

definition msrp_inv :: "avb_state \<Rightarrow> bool" where
  "msrp_inv s \<longleftrightarrow> (\<forall>p.
       talkers.keys_unique (s_msrp_talkers s p) \<and> (\<forall>e \<in> set (s_msrp_talkers s p). talker_ok e)
     \<and> listeners.keys_unique (s_msrp_listeners s p) \<and> domains.keys_unique (s_msrp_domains s p)
     \<and> vlans.keys_unique (s_mvrp_vlans s p)
     \<and> length (s_msrp_talkers s p) = MSRP_TALKER_TABLE_SIZE (build s)
     \<and> length (s_msrp_listeners s p) = MSRP_LISTENER_TABLE_SIZE (build s)
     \<and> length (s_msrp_domains s p) = MSRP_DOMAIN_TABLE_SIZE
     \<and> length (s_mvrp_vlans s p) = MVRP_VLAN_TABLE_SIZE)"

lemma keys_unique_zero:
  "talkers.keys_unique (replicate n talker_entry_zero)" "listeners.keys_unique (replicate n listener_entry_zero)"
  "domains.keys_unique (replicate n domain_entry_zero)" "vlans.keys_unique (replicate n vlan_entry_zero)"
  by (simp_all add: talkers.keys_unique_replicate listeners.keys_unique_replicate
      domains.keys_unique_replicate vlans.keys_unique_replicate talker_entry_zero_def
      listener_entry_zero_def domain_entry_zero_def vlan_entry_zero_def)

lemma talker_ok_zero: "talker_ok talker_entry_zero"
  by (simp add: talker_ok_def talker_entry_zero_def)

lemma msrp_inv_zero: "msrp_inv (state_zero b)"
  by (simp add: msrp_inv_def state_zero_def keys_unique_zero talker_ok_zero)

text \<open>Only the tables and the build matter.\<close>

lemma msrp_inv_cong:
  assumes "s_msrp_talkers t = s_msrp_talkers s" "s_msrp_listeners t = s_msrp_listeners s"
    "s_msrp_domains t = s_msrp_domains s" "s_mvrp_vlans t = s_mvrp_vlans s" "build t = build s"
  shows "msrp_inv t = msrp_inv s"
  by (simp add: msrp_inv_def assms)

lemma msrp_inv_fields [simp]:
  "msrp_inv (s\<lparr> now_us := x1 \<rparr>) = msrp_inv s" "msrp_inv (s\<lparr> random_pos := x2 \<rparr>) = msrp_inv s"
  "msrp_inv (s\<lparr> s_mrp_lite := x3 \<rparr>) = msrp_inv s" "msrp_inv (s\<lparr> input_streams := x4 \<rparr>) = msrp_inv s"
  "msrp_inv (s\<lparr> output_streams := x5 \<rparr>) = msrp_inv s" "msrp_inv (s\<lparr> s_lite_refusals := x6 \<rparr>) = msrp_inv s"
  "msrp_inv (s\<lparr> s_talker_leaveall_count := x7, s_talker_leaveall_us := x8 \<rparr>) = msrp_inv s"
  "msrp_inv (s\<lparr> admission := x9 \<rparr>) = msrp_inv s" "msrp_inv (s\<lparr> avb_lite := x13 \<rparr>) = msrp_inv s"
  "msrp_inv (s\<lparr> wifi := x10 \<rparr>) = msrp_inv s"
  "msrp_inv (s\<lparr> tx_log := x12 \<rparr>) = msrp_inv s" "msrp_inv (s\<lparr> s_cvu_seq_id := x15 \<rparr>) = msrp_inv s"
  "msrp_inv (s\<lparr> s_cvu_seq_id := x11, tx_log := x14 \<rparr>) = msrp_inv s"
  by (rule msrp_inv_cong; simp)+

lemma msrp_inv_upds [simp]:
  "msrp_inv (upd_port p f s) = msrp_inv s" "msrp_inv (upd_output i g s) = msrp_inv s"
  "msrp_inv (upd_input i h s) = msrp_inv s" "msrp_inv (upd_refusal i r s) = msrp_inv s"
  "msrp_inv (upd_admission i a s) = msrp_inv s"
  by (simp_all add: upd_port_def upd_output_def upd_input_def upd_refusal_def upd_admission_def msrp_inv_def)

section \<open>One entry\<close>

definition talker_step :: "msrp_talker_entry_t \<Rightarrow> msrp_talker_entry_t \<Rightarrow> bool" where
  "talker_step e e' \<longleftrightarrow> \<not> te_valid e'
     \<or> te_valid e \<and> talker_key e' = talker_key e \<and> (talker_ok e \<longrightarrow> talker_ok e')"

lemma inv_upd_talker:
  assumes "msrp_inv s" and "i < length (s_msrp_talkers s p) \<Longrightarrow> talker_step (talker s p i) (f (talker s p i))"
  shows "msrp_inv (upd_talker p i f s)"
proof (cases "i < length (s_msrp_talkers s p)")
  case True
  let ?xs = "s_msrp_talkers s p" and ?e = "f (s_msrp_talkers s p ! i)"
  have step: "talker_step (?xs ! i) ?e" using assms(2) True by (simp add: talker_def)
  have "talkers.keys_unique (?xs[i := ?e])"
    using assms(1) step by (intro talkers.keys_unique_update) (auto simp: msrp_inv_def talker_step_def)
  moreover have "talker_ok e" if "e \<in> set (?xs[i := ?e])" for e
  proof -
    have "\<forall>e \<in> set ?xs. talker_ok e" using assms(1) by (simp add: msrp_inv_def)
    moreover have "talker_ok ?e"
      using step \<open>\<forall>e \<in> set ?xs. talker_ok e\<close> nth_mem [OF True] by (auto simp: talker_step_def talker_ok_def)
    ultimately show ?thesis using that set_update_subset_insert [of ?xs i ?e] by auto
  qed
  ultimately show ?thesis
    using assms(1) by (auto simp: msrp_inv_def upd_talker_def upd_at_def)
next
  case False
  then have "upd_talker p i f s = s" by (simp add: upd_talker_def upd_at_def fun_upd_idem list_update_beyond)
  with assms(1) show ?thesis by simp
qed

lemma inv_upd_listener:
  assumes "msrp_inv s" and "\<And>e. le_valid (f e) \<Longrightarrow> le_valid e \<and> listener_key (f e) = listener_key e"
  shows "msrp_inv (upd_listener p i f s)"
proof -
  have "listeners.keys_unique (upd_at i f (s_msrp_listeners s p))"
    unfolding upd_at_def using assms by (intro listeners.keys_unique_update) (auto simp: msrp_inv_def)
  then show ?thesis using assms(1) by (auto simp: msrp_inv_def upd_listener_def)
qed

lemma inv_upd_domain:
  assumes "msrp_inv s" and "de_valid (f (domain s p i)) \<Longrightarrow>
      de_valid (domain s p i) \<and> domain_key (f (domain s p i)) = domain_key (domain s p i)"
  shows "msrp_inv (upd_domain p i f s)"
proof -
  have "domains.keys_unique (upd_at i f (s_msrp_domains s p))"
    unfolding upd_at_def using assms
    by (intro domains.keys_unique_update) (auto simp: msrp_inv_def domain_def)
  then show ?thesis using assms(1) by (auto simp: msrp_inv_def upd_domain_def)
qed

lemma inv_upd_vlan:
  assumes "msrp_inv s" and "\<And>e. ve_valid (f e) \<Longrightarrow> ve_valid e \<and> ve_vlan_id (f e) = ve_vlan_id e"
  shows "msrp_inv (upd_vlan p i f s)"
proof -
  have "vlans.keys_unique (upd_at i f (s_mvrp_vlans s p))"
    unfolding upd_at_def using assms by (intro vlans.keys_unique_update) (auto simp: msrp_inv_def)
  then show ?thesis using assms(1) by (auto simp: msrp_inv_def upd_vlan_def)
qed


section \<open>Events\<close>

lemma undeclared_next:
  "\<lbrakk>\<not> mrp_applicant_declaring a; ev \<noteq> mrp_event_new; ev \<noteq> mrp_event_join\<rbrakk> \<Longrightarrow>
     \<not> mrp_applicant_declaring (applicant_next ev a)"
  by (cases a; cases ev) (simp_all add: applicant_on_leave_def applicant_on_tx_def)

lemma received_event [simp]:
  "mrp_3pe_to_event e \<noteq> mrp_event_new" "mrp_3pe_to_event e \<noteq> mrp_event_join"
  by (simp_all add: mrp_3pe_to_event_def)

lemma undeclared_step:
  "\<lbrakk>mrp_applicant_declaring (applicant (mrp_sm_step now sm ev)); ev \<noteq> mrp_event_new; ev \<noteq> mrp_event_join\<rbrakk>
     \<Longrightarrow> mrp_applicant_declaring (applicant sm)"
  "\<lbrakk>mrp_applicant_declaring (applicant_next ev a); ev \<noteq> mrp_event_new; ev \<noteq> mrp_event_join\<rbrakk>
     \<Longrightarrow> mrp_applicant_declaring a"
  using undeclared_next by auto

lemma declaring_withdraw [simp]: "\<not> mrp_applicant_declaring (applicant (mrp_withdraw_step lite sm))"
  by (cases "applicant sm") (simp_all add: mrp_withdraw_step_def Let_def)

lemma declaring_reset [simp]: "\<not> mrp_applicant_declaring (applicant (mrp_sm_reset_for_new_value sm))"
  by (simp add: mrp_sm_reset_for_new_value_def)

text \<open>A step keeps the entry in order when it keeps the attribute, and the entry is out of
  quarantine afterwards or was in it and is not declared because of the step.\<close>

lemma talker_stepI:
  assumes "te_valid e' \<Longrightarrow> te_valid e" and "te_valid e' \<Longrightarrow> talker_key e' = talker_key e"
    and "redeclare_after_us e' \<noteq> 0 \<Longrightarrow> redeclare_after_us e \<noteq> 0
       \<and> (mrp_applicant_declaring (applicant (te_sm e')) \<longrightarrow> mrp_applicant_declaring (applicant (te_sm e)))"
  shows "talker_step e e'"
  using assms by (auto simp: talker_step_def talker_ok_def talker_key_def)

lemma upd_talker_twice [simp]: "upd_talker p i f (upd_talker p i g s) = upd_talker p i (\<lambda>e. f (g e)) s"
proof (cases "i < length (s_msrp_talkers s p)")
  case True
  then show ?thesis by (simp add: upd_talker_def upd_at_def)
qed (simp add: upd_talker_def upd_at_def list_update_beyond)

section \<open>Entering an attribute\<close>

lemma talker_find_lookup:
  "msrp_talker_find p k ty s = (if valid_port s p then talkers.lookup (k, ty) (s_msrp_talkers s p) else None)"
proof -
  have "(te_attr_type e = ty \<and> ti_stream_id (tm_info (te_wire e)) = k) = (talker_key e = (k, ty))" for e
    by (auto simp: talker_key_def)
  then show ?thesis by (simp add: msrp_talker_find_def talkers.lookup_def)
qed

lemma talker_insert_enter:
  "msrp_talker_find_or_insert p k ty s =
     (if valid_port s p then case talkers.enter (k, ty) (s_msrp_talkers s p) of
        (r, t) \<Rightarrow> (r, s\<lparr> s_msrp_talkers := (s_msrp_talkers s)(p := t) \<rparr>)
      else (None, s))"
proof -
  have "(te_attr_type e = ty \<and> ti_stream_id (tm_info (te_wire e)) = k) = (talker_key e = (k, ty))" for e
    by (auto simp: talker_key_def)
  then show ?thesis by (simp add: msrp_talker_find_or_insert_def talkers.enter_def)
qed

definition holds_talker :: "int \<Rightarrow> nat \<Rightarrow> octets \<times> msrp_attr_type_t \<Rightarrow> avb_state \<Rightarrow> bool" where
  "holds_talker p i k s \<longleftrightarrow> i < length (s_msrp_talkers s p) \<and> te_valid (talker s p i)
     \<and> talker_key (talker s p i) = k"

lemma talker_found: "msrp_talker_find p k ty s = Some i \<Longrightarrow> holds_talker p i (k, ty) s"
  by (auto simp: talker_find_lookup holds_talker_def talker_def dest!: talkers.lookup_SomeD split: if_splits)

lemma talker_inserted:
  "msrp_talker_find_or_insert p k ty s = (Some i, t) \<Longrightarrow> holds_talker p i (k, ty) t"
  by (auto simp: talker_insert_enter holds_talker_def talker_def
      dest!: talkers.enter_finds talkers.lookup_SomeD split: if_splits prod.splits)

lemma talker_ok_fresh: "talker_ok (talker_fresh k)"
  by (simp add: talker_ok_def talker_fresh_def talker_entry_zero_def split: prod.split)

lemma inv_talker_insert:
  assumes "msrp_inv s" and "msrp_talker_find_or_insert p k ty s = (r, t)"
  shows "msrp_inv t"
proof (cases "valid_port s p")
  case True
  let ?xs = "s_msrp_talkers s p"
  obtain ys where ys: "talkers.enter (k, ty) ?xs = (r, ys)"
      "t = s\<lparr> s_msrp_talkers := (s_msrp_talkers s)(p := ys) \<rparr>"
    using assms(2) True by (auto simp: talker_insert_enter split: prod.splits)
  have "talkers.keys_unique ys"
    using talkers.enter_keys_unique [of ?xs "(k, ty)"] assms(1) by (simp add: ys msrp_inv_def)
  moreover have "\<forall>e \<in> set ys. talker_ok e"
  proof -
    have ok: "\<forall>e \<in> set ?xs. talker_ok e" using assms(1) by (simp add: msrp_inv_def)
    have "\<forall>e \<in> set (?xs[i := talker_fresh (k, ty)]). talker_ok e" for i
      using ok set_update_subset_insert [of ?xs i] talker_ok_fresh by blast
    then show ?thesis using ok ys(1)
      by (cases rule: talkers.enter_cases [of "(k, ty)" ?xs]) auto
  qed
  moreover have "length ys = length ?xs" using talkers.length_enter [of "(k, ty)" ?xs] by (simp add: ys)
  ultimately show ?thesis using assms(1) by (auto simp: msrp_inv_def ys(2))
next
  case False
  with assms show ?thesis by (simp add: talker_insert_enter)
qed

lemma inv_listener_insert:
  assumes "msrp_inv s" and "msrp_listener_find_or_insert p k s = (r, t)"
  shows "msrp_inv t"
  using assms listeners.enter_keys_unique [of "s_msrp_listeners s p" k]
    listeners.length_enter [of k "s_msrp_listeners s p"]
  by (auto simp: msrp_listener_find_or_insert_def listeners.enter_def listener_key_def msrp_inv_def
      split: if_splits prod.splits)

lemma domain_insert_enter:
  "msrp_domain_find_or_insert p k s =
     (if valid_port s p then case domains.enter k (s_msrp_domains s p) of
        (r, t) \<Rightarrow> (r, s\<lparr> s_msrp_domains := (s_msrp_domains s)(p := t) \<rparr>)
      else (None, s))"
  by (simp add: msrp_domain_find_or_insert_def domains.enter_def domain_key_def)

lemma inv_domain_insert:
  assumes "msrp_inv s" and "msrp_domain_find_or_insert p k s = (r, t)"
  shows "msrp_inv t"
  using assms domains.enter_keys_unique [of "s_msrp_domains s p" k]
    domains.length_enter [of k "s_msrp_domains s p"]
  by (auto simp: domain_insert_enter msrp_inv_def split: if_splits prod.splits)

lemma domain_inserted:
  "msrp_domain_find_or_insert p k s = (Some i, t) \<Longrightarrow>
     i < length (s_msrp_domains t p) \<and> domain_key (domain t p i) = k"
  by (auto simp: domain_insert_enter domain_def
      dest!: domains.enter_finds domains.lookup_SomeD split: if_splits prod.splits)

lemma inv_vlan_insert:
  assumes "msrp_inv s" and "mvrp_vlan_find_or_insert p k s = (r, t)"
  shows "msrp_inv t"
  using assms vlans.enter_keys_unique [of "s_mvrp_vlans s p" k] vlans.length_enter [of k "s_mvrp_vlans s p"]
  by (auto simp: mvrp_vlan_find_or_insert_def vlans.enter_def msrp_inv_def split: if_splits prod.splits)


section \<open>Timers and sending\<close>

lemma inv_arm_join_timer [simp]: "msrp_inv (mrp_port_arm_join_timer p s) = msrp_inv s"
  by (simp add: mrp_port_arm_join_timer_def mrp_join_next_expiry_us_def draw_random_def)

lemma inv_send_attr [simp]: "msrp_inv (mrp_send_attr p attr n dest s) = msrp_inv s"
  by (simp add: mrp_send_attr_def avb_send_cvu_srp_attr_def Let_def)

lemma send_attr_talkers [simp]:
  "s_msrp_talkers (mrp_send_attr p attr n dest s) = s_msrp_talkers s"
  "s_msrp_listeners (mrp_send_attr p attr n dest s) = s_msrp_listeners s"
  by (simp_all add: mrp_send_attr_def avb_send_cvu_srp_attr_def Let_def)

lemma inv_stream_start_stop [simp]:
  "msrp_inv (avb_start_stream_out i s) = msrp_inv s" "msrp_inv (avb_stop_stream_out i s) = msrp_inv s"
  by (simp_all add: avb_start_stream_out_def avb_stop_stream_out_def)

section \<open>Declarations and withdrawals\<close>

lemma holds_upd:
  "\<lbrakk>holds_talker p i k s; \<And>e. te_valid e \<Longrightarrow> talker_key e = k \<Longrightarrow> te_valid (f e) \<and> talker_key (f e) = k\<rbrakk>
     \<Longrightarrow> holds_talker p i k (upd_talker p i f s)"
  by (auto simp: holds_talker_def upd_talker_def talker_def)

lemma holds_cong: "s_msrp_talkers t = s_msrp_talkers s \<Longrightarrow> holds_talker p i k t = holds_talker p i k s"
  by (simp add: holds_talker_def talker_def)

lemma talker_of_upd: "holds_talker p i k s \<Longrightarrow> talker (upd_talker p i f s) p i = f (talker s p i)"
  by (simp add: holds_talker_def upd_talker_def talker_def)

lemma candidate_stream [simp]:
  "ti_stream_id (tm_info (mrp_talker_candidate s e k da vid mfs mfi cb)) = k"
  by (simp add: mrp_talker_candidate_def mrp_build_talker_info_def Let_def)

lemma declare_step_fields [simp]:
  "te_valid (talker_declare_step now b e) = te_valid e"
  "te_attr_type (talker_declare_step now b e) = te_attr_type e"
  "te_wire (talker_declare_step now b e) = te_wire e"
  "redeclare_after_us (talker_declare_step now b e) = redeclare_after_us e"
  by (simp_all add: talker_declare_step_def Let_def)

text \<open>A changed value goes into a quarantined entry with its machine reset.\<close>

lemma inv_change_value:
  assumes "msrp_inv s" and "holds_talker p i (k, msrp_attr_type_talker_advertise) s"
    and "ti_stream_id (tm_info fresh) = k"
  shows "msrp_inv (talker_change_value p i fresh s)
       \<and> holds_talker p i (k, msrp_attr_type_talker_advertise) (talker_change_value p i fresh s)"
proof -
  have tx: "s_msrp_talkers (mrp_tx_talker_value_leave p i t) = s_msrp_talkers t"
    "msrp_inv (mrp_tx_talker_value_leave p i t) = msrp_inv t" for t
    by (simp_all add: mrp_tx_talker_value_leave_def Let_def)
  have reset: "msrp_inv (upd_talker p i f t)" "holds_talker p i (k, msrp_attr_type_talker_advertise) (upd_talker p i f t)"
    if "msrp_inv t" "holds_talker p i (k, msrp_attr_type_talker_advertise) t"
      "\<And>e. te_valid (f e) = te_valid e \<and> te_attr_type (f e) = te_attr_type e \<and> te_wire (f e) = fresh
         \<and> \<not> mrp_applicant_declaring (applicant (te_sm (f e)))" for f t
  proof -
    show "msrp_inv (upd_talker p i f t)"
      using that(2,3) assms(3) by (intro inv_upd_talker [OF that(1)])
        (auto simp: talker_step_def talker_key_def talker_ok_def holds_talker_def)
    show "holds_talker p i (k, msrp_attr_type_talker_advertise) (upd_talker p i f t)"
      using that(3) assms(3) by (intro holds_upd [OF that(2)]) (simp add: talker_key_def)
  qed
  show ?thesis
    unfolding talker_change_value_def Let_def using assms(1,2)
    by (auto intro!: reset simp: tx holds_cong [OF tx(1)])
qed

lemma inv_declare_advertise:
  assumes "msrp_inv s"
  shows "msrp_inv (mrp_declare_talker_advertise p k da vid mfs mfi cb s)"
proof (cases "msrp_talker_find_or_insert p k msrp_attr_type_talker_advertise s")
  case (Pair r s1)
  have i1: "msrp_inv s1" by (rule inv_talker_insert [OF assms Pair])
  show ?thesis
  proof (cases r)
    case None
    with Pair i1 show ?thesis by (simp add: mrp_declare_talker_advertise_def)
  next
    case (Some i)
    let ?k = "(k, msrp_attr_type_talker_advertise)"
    have h1: "holds_talker p i ?k s1" using talker_inserted Pair Some by simp
    define s2 where "s2 = upd_talker p i (\<lambda>e. e\<lparr> locally_originated := True \<rparr>) s1"
    have s2: "msrp_inv s2" "holds_talker p i ?k s2"
      unfolding s2_def by (intro inv_upd_talker i1 talker_stepI; simp add: talker_key_def)
        (intro holds_upd h1; simp add: talker_key_def)
    define fresh where "fresh = mrp_talker_candidate s2 (talker s2 p i) k da vid mfs mfi cb"
    have fk: "ti_stream_id (tm_info fresh) = k" by (simp add: fresh_def)
    define s3 where "s3 = talker_change_value p i fresh s2"
    have s3: "msrp_inv s3" "holds_talker p i ?k s3"
      using inv_change_value [OF s2 fk] by (simp_all add: s3_def)
    let ?b = "applicant (te_sm (talker s2 p i))"
    have held: "msrp_inv (upd_talker p i (\<lambda>e. e\<lparr> declare_held := True \<rparr>) s3)"
      by (intro inv_upd_talker s3 talker_stepI) (simp_all add: talker_key_def)
    define s4 where "s4 = (if redeclare_after_us (talker s3 p i) \<noteq> 0 then mrp_talker_end_holdoff p i s3 else s3)"
    have s4: "msrp_inv s4" "holds_talker p i ?k s4" "redeclare_after_us (talker s4 p i) = 0"
    proof -
      have "msrp_inv (mrp_talker_end_holdoff p i s3)"
        unfolding mrp_talker_end_holdoff_def
        by (intro inv_upd_talker s3 talker_stepI) (simp_all add: talker_key_def)
      moreover have "holds_talker p i ?k (mrp_talker_end_holdoff p i s3)"
        unfolding mrp_talker_end_holdoff_def by (intro holds_upd s3) (simp add: talker_key_def)
      ultimately show "msrp_inv s4" "holds_talker p i ?k s4" "redeclare_after_us (talker s4 p i) = 0"
        using s3 by (auto simp: s4_def mrp_talker_end_holdoff_def talker_of_upd)
    qed
    have "msrp_inv (upd_talker p i (\<lambda>e. talker_declare_step (now_us s4) ?b (e\<lparr> te_wire := fresh \<rparr>)) s4)"
      using s4(2,3) fk by (intro inv_upd_talker s4(1) talker_stepI) (auto simp: talker_key_def holds_talker_def)
    with held show ?thesis
      using Pair Some
      by (cases "redeclare_after_us (talker s3 p i) = 0")
        (simp_all add: mrp_declare_talker_advertise_def Let_def s4_def
          s2_def [symmetric] fresh_def [symmetric] s3_def [symmetric])
  qed
qed


text \<open>Updates that keep the attribute and touch neither the quarantine nor the Applicant.\<close>

definition talker_plain :: "(msrp_talker_entry_t \<Rightarrow> msrp_talker_entry_t) \<Rightarrow> bool" where
  "talker_plain f \<longleftrightarrow> (\<forall>e. te_valid (f e) = te_valid e \<and> talker_key (f e) = talker_key e
     \<and> (redeclare_after_us (f e) = redeclare_after_us e \<or> redeclare_after_us (f e) = 0)
     \<and> (mrp_applicant_declaring (applicant (te_sm (f e))) \<longrightarrow> mrp_applicant_declaring (applicant (te_sm e))))"

lemma inv_upd_plain: "\<lbrakk>msrp_inv s; talker_plain f\<rbrakk> \<Longrightarrow> msrp_inv (upd_talker p i f s)"
  by (rule inv_upd_talker, assumption, rule talker_stepI, unfold talker_plain_def) (metis+)

lemma inv_foreach:
  "\<lbrakk>msrp_inv s; \<And>i t. msrp_inv t \<Longrightarrow> msrp_inv (f i t)\<rbrakk> \<Longrightarrow> msrp_inv (foreach n f s)"
  by (rule foreach_invariant)

lemma inv_foreach_snd:
  assumes "msrp_inv (snd x)" and "\<And>i y. msrp_inv (snd y) \<Longrightarrow> msrp_inv (snd (f i y))"
  shows "msrp_inv (snd (foreach n f x))"
  using foreach_invariant [where P = "\<lambda>y. msrp_inv (snd y)", OF assms(1)] assms(2) by blast

lemma inv_release_slot: "msrp_inv (snd y) \<Longrightarrow> msrp_inv (snd (talker_release_slot p now i y))"
proof (cases y)
  case (Pair r s)
  assume "msrp_inv (snd y)"
  then have s: "msrp_inv s" by (simp add: Pair)
  have "msrp_inv (upd_talker p i (\<lambda>e. talker_declare_step n (b e)
       (e\<lparr> redeclare_after_us := 0, declare_held := False \<rparr>)) s)" for n b
    by (intro inv_upd_talker s talker_stepI) (simp_all add: talker_key_def)
  then show ?thesis using s
    by (auto simp: Pair talker_release_slot_def Let_def mrp_talker_end_holdoff_def)
qed

lemma inv_release_held: "msrp_inv s \<Longrightarrow> msrp_inv (snd (mrp_talker_release_held p now s))"
proof -
  assume "msrp_inv s"
  then have "msrp_inv (snd (foreach (length (s_msrp_talkers s p)) (talker_release_slot p now) (False, s)))"
    by (intro inv_foreach_snd inv_release_slot) simp_all
  then show ?thesis
    by (cases "foreach (length (s_msrp_talkers s p)) (talker_release_slot p now) (False, s)")
      (simp add: mrp_talker_release_held_def)
qed

lemma inv_declare_failed:
  assumes "msrp_inv s"
  shows "msrp_inv (mrp_declare_talker_failed p k da vid mfs mfi code cb b s)"
proof (cases "msrp_talker_find_or_insert p k msrp_attr_type_talker_failed s")
  case (Pair r s1)
  have i1: "msrp_inv s1" by (rule inv_talker_insert [OF assms Pair])
  have "msrp_inv (upd_talker p i (\<lambda>e. talker_declare_step n bf (e\<lparr> locally_originated := True,
      te_wire := w \<rparr>)) s1)" if "r = Some i" "ti_stream_id (tm_info w) = k" for i n bf w
  proof (rule inv_upd_talker [OF i1])
    have h: "holds_talker p i (k, msrp_attr_type_talker_failed) s1"
      using talker_inserted Pair that(1) by simp
    moreover have "\<forall>e \<in> set (s_msrp_talkers s1 p). talker_ok e" using i1 by (simp add: msrp_inv_def)
    then have "talker_ok (talker s1 p i)" using h by (simp add: holds_talker_def talker_def)
    ultimately show "talker_step (talker s1 p i) (talker_declare_step n bf
        ((talker s1 p i)\<lparr> locally_originated := True, te_wire := w \<rparr>))"
      using that(2) by (auto simp: talker_step_def talker_key_def talker_ok_def holds_talker_def)
  qed
  moreover have "ti_stream_id (tm_info (msrp_talker_message_zero\<lparr> tm_info :=
      mrp_build_talker_info s1 talker_adv_info_zero k da vid mfs mfi cb, tm_failure_code := code,
      tm_failure_bridge_id := x \<rparr>)) = k" for x
    by (simp add: mrp_build_talker_info_def Let_def)
  ultimately show ?thesis
    using i1 by (auto simp: mrp_declare_talker_failed_def Pair Let_def split: option.split)
qed

lemma listener_declare_keeps [simp]:
  "le_valid (listener_declare_step lite now d e) = le_valid e"
  "listener_key (listener_declare_step lite now d e) = listener_key e"
  by (simp_all add: listener_declare_step_def Let_def listener_key_def)

lemma inv_declare_listener: "msrp_inv s \<Longrightarrow> msrp_inv (mrp_declare_listener p k d s)"
  by (auto simp: mrp_declare_listener_def split: prod.split option.split
      intro!: inv_upd_listener dest: inv_listener_insert)

lemma inv_declare_domain:
  assumes "msrp_inv s" shows "msrp_inv (mrp_declare_domain p c pr v s)"
proof (cases "msrp_domain_find_or_insert p c s")
  case (Pair r t)
  have "msrp_inv t" by (rule inv_domain_insert [OF assms Pair])
  then show ?thesis using Pair domain_inserted [of p c s _ t]
    by (auto simp: mrp_declare_domain_def domain_key_def split: option.split intro!: inv_upd_domain)
qed

lemma inv_declare_vlan: "msrp_inv s \<Longrightarrow> msrp_inv (mrp_declare_vlan p v s)"
  by (auto simp: mrp_declare_vlan_def split: prod.split option.split
      intro!: inv_upd_vlan dest: inv_vlan_insert)

lemma inv_withdraw_vlan: "msrp_inv s \<Longrightarrow> msrp_inv (mrp_withdraw_vlan p v s)"
  by (auto simp: mrp_withdraw_vlan_def split: option.split intro!: inv_upd_vlan)

lemma inv_withdraw_listener: "msrp_inv s \<Longrightarrow> msrp_inv (mrp_withdraw_listener p k s)"
  by (auto simp: mrp_withdraw_listener_def Let_def listener_key_def split: option.split
      intro!: inv_upd_listener)

lemma plain_withdraw:
  "talker_plain (talker_withdraw_step lite now)"
  "talker_plain (\<lambda>e. talker_withdraw_step lite now (e\<lparr> declare_held := False \<rparr>))"
  by (simp_all add: talker_plain_def talker_withdraw_step_def talker_key_def Let_def)

lemma inv_withdraw_talker: "msrp_inv s \<Longrightarrow> msrp_inv (mrp_withdraw_talker p k s)"
  by (auto simp: mrp_withdraw_talker_def Let_def split: option.split intro!: inv_upd_plain plain_withdraw)

lemma inv_talker_forget: "msrp_inv s \<Longrightarrow> msrp_inv (snd (mrp_talker_forget p k s))"
proof -
  have "talker_step e talker_entry_zero" for e
    by (simp add: talker_step_def talker_entry_zero_def)
  then show "msrp_inv s \<Longrightarrow> ?thesis"
    by (auto simp: mrp_talker_forget_def Let_def split: option.split intro!: inv_upd_talker)
qed

lemmas inv_declarations = inv_declare_advertise inv_declare_failed inv_declare_listener inv_declare_domain
  inv_declare_vlan inv_withdraw_talker inv_withdraw_listener inv_withdraw_vlan


section \<open>Propagation\<close>

lemma inv_patch_latency: "msrp_inv s \<Longrightarrow> msrp_inv (mrp_patch_egress_accumulated_latency p k ty l s)"
  by (auto simp: mrp_patch_egress_accumulated_latency_def talker_plain_def talker_key_def
      split: option.split intro!: inv_upd_plain)

lemma inv_set_latency: "msrp_inv s \<Longrightarrow> msrp_inv (mrp_set_talker_latency p k s)"
  by (simp add: mrp_set_talker_latency_def inv_patch_latency)

lemma inv_talker_endpoint: "msrp_inv s \<Longrightarrow> msrp_inv (talker_endpoint_update p ty w tr s)"
  by (auto simp: talker_endpoint_update_def Let_def split: option.split intro!: inv_declare_listener)

lemma talker_admission [simp]: "talker (s\<lparr> admission := a \<rparr>) p i = talker s p i"
  by (simp add: talker_def)

lemma inv_map_release: "msrp_inv s \<Longrightarrow> msrp_inv (map_release p ing y s)"
  by (auto simp: map_release_def on_ingress_admission_def msrp_release_admission_def
      release_admission_with_def talker_key_def split: option.split
      intro!: inv_upd_talker talker_stepI)

lemma update_admission_entry:
  assumes "update_admission_with ta re prt cls bps (e, a) = (r, (e', a'))"
  shows "te_valid e' = te_valid e \<and> talker_key e' = talker_key e \<and> te_sm e' = te_sm e
       \<and> redeclare_after_us e' = redeclare_after_us e"
  using assms by (auto simp: update_admission_with_def release_admission_with_def talker_key_def
      split: if_splits prod.splits)

lemma inv_map_update: "msrp_inv s \<Longrightarrow> msrp_inv (snd (map_update p ing y cls bps s))"
proof -
  assume s: "msrp_inv s"
  show ?thesis
  proof (cases ing)
    case None
    with s show ?thesis by (simp add: map_update_def on_ingress_admission_def)
  next
    case (Some i)
    obtain r e a where u: "msrp_update_admission (ports s) y cls bps (talker s p i, admission s) = (r, (e, a))"
      by (metis prod.collapse)
    note e = update_admission_entry [OF u [unfolded msrp_update_admission_def]]
    have "msrp_inv (upd_talker p i (\<lambda>_. e) (s\<lparr> admission := a \<rparr>))"
      by (rule inv_upd_talker) (use s e in \<open>auto simp: talker_def intro!: talker_stepI\<close>)
    then show ?thesis by (simp add: map_update_def on_ingress_admission_def Some u)
  qed
qed

lemma inv_map_declare:
  "msrp_inv s \<Longrightarrow> msrp_inv (map_declare_failed y info code b l s)"
  "msrp_inv s \<Longrightarrow> msrp_inv (map_declare_advertise y info l s)"
  by (simp_all add: map_declare_failed_def map_declare_advertise_def inv_patch_latency inv_declarations)

lemma inv_map_talker_declare:
  assumes "msrp_inv s" shows "msrp_inv (map_talker_declare p f w ing y s)"
proof -
  have "msrp_inv t" if "map_update p ing y cls bps s = (r, t)" for cls bps r t
    using inv_map_update [OF assms, of p ing y cls bps] that by simp
  then show ?thesis using assms
    by (auto simp: map_talker_declare_def Let_def inv_map_declare inv_map_release split: prod.split)
qed

lemma inv_map_talker_port: "msrp_inv s \<Longrightarrow> msrp_inv (map_talker_port p f w ing d y s)"
  by (cases d) (simp add: map_talker_port_def Let_def inv_map_talker_declare inv_withdraw_talker inv_map_release)

lemma inv_map_talker: "msrp_inv s \<Longrightarrow> msrp_inv (map_talker p ty w tr s)"
proof -
  assume s: "msrp_inv s"
  have "msrp_inv (foreach n (map_talker_port p f w ing d) s)" for n f ing d
    by (rule inv_foreach [OF s inv_map_talker_port])
  then show ?thesis using s
    by (auto simp: map_talker_def Let_def talker_plain_def talker_key_def
        split: option.split prod.split intro!: inv_upd_plain)
qed

lemma inv_on_talker: "msrp_inv s \<Longrightarrow> msrp_inv (mrp_on_talker_registrar_change p ty w tr s)"
  by (simp add: mrp_on_talker_registrar_change_def Let_def inv_map_talker inv_talker_endpoint)

lemma inv_propagate_listener: "msrp_inv s \<Longrightarrow> msrp_inv (msrp_propagate_listener p k s)"
  unfolding msrp_propagate_listener_def
  by (rule inv_foreach) (auto simp: propagate_listener_to_def Let_def inv_declarations split: option.split)

lemma inv_listener_endpoint: "msrp_inv s \<Longrightarrow> msrp_inv (listener_endpoint_update w tr src s)"
  by (auto simp: listener_endpoint_update_def listener_aged_out_def listener_left_def listener_ready_def
      listener_asking_failed_def Let_def split: option.split prod.split)

lemma inv_on_listener: "msrp_inv s \<Longrightarrow> msrp_inv (mrp_on_listener_registrar_change p w tr c src s)"
  by (simp add: mrp_on_listener_registrar_change_def Let_def inv_propagate_listener inv_listener_endpoint)

lemma inv_on_domain: "msrp_inv s \<Longrightarrow> msrp_inv (mrp_on_domain_registrar_change p w tr s)"
  by (auto simp: mrp_on_domain_registrar_change_def inv_declarations intro!: inv_foreach)

lemma inv_on_vlan: "msrp_inv s \<Longrightarrow> msrp_inv (mrp_on_vlan_registrar_change p v tr s)"
  by (auto simp: mrp_on_vlan_registrar_change_def inv_declarations intro!: inv_foreach)

section \<open>Wi-Fi streams\<close>

lemma inv_ucast_refresh [simp]: "msrp_inv (msrp_wifi_ucast_refresh p s) = msrp_inv s"
  by (simp add: msrp_wifi_ucast_refresh_def)

lemma inv_admission_declare: "msrp_inv s \<Longrightarrow> msrp_inv (msrp_wifi_admission_declare p te r s)"
  by (simp add: msrp_wifi_admission_declare_def Let_def inv_map_declare inv_withdraw_talker)

lemma inv_admission_decide:
  "msrp_inv (snd y) \<Longrightarrow> msrp_inv (snd (wifi_admission_decide p b c i y))"
  by (cases y; cases "fst y")
    (simp add: wifi_admission_decide_def Let_def inv_admission_declare inv_propagate_listener)

lemma inv_admission_update: "msrp_inv s \<Longrightarrow> msrp_inv (msrp_wifi_admission_update p s)"
proof -
  assume s: "msrp_inv s"
  have "msrp_inv (snd (foreach n (wifi_admission_decide p b c) (st, s\<lparr> wifi := w \<rparr>)))" for n b c st w
    by (rule inv_foreach_snd) (use s in \<open>simp_all add: inv_admission_decide\<close>)
  then have "foreach n (wifi_admission_decide p b c) (st, s\<lparr> wifi := w \<rparr>) = (r, t) \<Longrightarrow> msrp_inv t" for n b c st w r t
    by (metis snd_conv)
  then show ?thesis using s
    by (auto simp: msrp_wifi_admission_update_def Let_def split: prod.split)
qed

lemma inv_wifi_follow_up: "msrp_inv s \<Longrightarrow> msrp_inv (msrp_wifi_follow_up s)"
  by (simp add: msrp_wifi_follow_up_def Let_def inv_admission_update)


section \<open>Whole tables\<close>

lemma inv_map_talkers:
  assumes "msrp_inv s" and "X = s_msrp_talkers s" and "talker_plain f"
  shows "msrp_inv (s\<lparr> s_msrp_talkers := X(p := map f (X p)) \<rparr>)"
proof -
  have "talkers.keys_unique (map f (s_msrp_talkers s p))"
    using assms by (intro talkers.keys_unique_map) (auto simp: msrp_inv_def talker_plain_def)
  moreover have "talker_ok e \<Longrightarrow> talker_ok (f e)" for e
    using assms(3) [unfolded talker_plain_def, THEN spec, of e]
    by (auto simp: talker_ok_def talker_key_def)
  ultimately show ?thesis using assms by (auto simp: msrp_inv_def)
qed

lemma inv_map_listeners:
  assumes "msrp_inv s" and "X = s_msrp_listeners s"
    and "\<And>e. le_valid (f e) = le_valid e \<and> listener_key (f e) = listener_key e"
  shows "msrp_inv (s\<lparr> s_msrp_listeners := X(p := map f (X p)) \<rparr>)"
  using assms by (auto simp: msrp_inv_def intro!: listeners.keys_unique_map)

lemma inv_map_domains:
  assumes "msrp_inv s" and "X = s_msrp_domains s"
    and "\<And>e. de_valid (f e) = de_valid e \<and> domain_key (f e) = domain_key e"
  shows "msrp_inv (s\<lparr> s_msrp_domains := X(p := map f (X p)) \<rparr>)"
  using assms by (auto simp: msrp_inv_def intro!: domains.keys_unique_map)

lemma inv_map_vlans:
  assumes "msrp_inv s" and "X = s_mvrp_vlans s"
    and "\<And>e. ve_valid (f e) = ve_valid e \<and> ve_vlan_id (f e) = ve_vlan_id e"
  shows "msrp_inv (s\<lparr> s_mvrp_vlans := X(p := map f (X p)) \<rparr>)"
  using assms by (auto simp: msrp_inv_def intro!: vlans.keys_unique_map)

lemmas inv_maps = inv_map_talkers inv_map_listeners inv_map_domains inv_map_vlans

lemma plain_sm:
  assumes "\<And>e. mrp_applicant_declaring (applicant (g (te_sm e) e)) \<Longrightarrow> mrp_applicant_declaring (applicant (te_sm e))"
  shows "talker_plain (\<lambda>e. e\<lparr> te_sm := g (te_sm e) e \<rparr>)"
    "talker_plain (\<lambda>e. if C e then e\<lparr> te_sm := g (te_sm e) e \<rparr> else e)"
  using assms by (simp_all add: talker_plain_def talker_key_def)

lemma plain_event:
  assumes "ev \<noteq> mrp_event_new" "ev \<noteq> mrp_event_join"
  shows "talker_plain (\<lambda>e. e\<lparr> te_sm := mrp_sm_step now (te_sm e) ev \<rparr>)"
    "talker_plain (\<lambda>e. if C e then e\<lparr> te_sm := mrp_sm_step now (te_sm e) ev \<rparr> else e)"
    "talker_plain (\<lambda>e. e\<lparr> te_sm := mrp_applicant_step (te_sm e) ev \<rparr>)"
    "talker_plain (\<lambda>e. if C e then e\<lparr> te_sm := mrp_applicant_step (te_sm e) ev \<rparr> else e)"
  using undeclared_step(2) [OF _ assms] by (auto simp: talker_plain_def talker_key_def)

section \<open>Reception\<close>

lemma inv_dispatch_leaveall: "msrp_inv s \<Longrightarrow> msrp_inv (msrp_dispatch_leaveall p ty s)"
proof -
  assume s: "msrp_inv s"
  have t: "msrp_inv (u\<lparr> s_msrp_talkers := X(p := map (\<lambda>e.
      if te_valid e \<and> te_attr_type e = ty then e\<lparr> te_sm := mrp_sm_step n (te_sm e) mrp_event_r_la \<rparr>
      else e) (X p)) \<rparr>)" if "msrp_inv u" "X = s_msrp_talkers u" for u n X
    by (rule inv_maps(1) [OF that]) (simp add: plain_event)
  show ?thesis
  proof (cases ty)
    case msrp_attr_type_talker_advertise
    show ?thesis unfolding msrp_dispatch_leaveall_def Let_def msrp_attr_type_talker_advertise
      by simp (rule t [unfolded msrp_attr_type_talker_advertise], use s in simp_all)
  next
    case msrp_attr_type_listener
    with s show ?thesis
      by (simp add: msrp_dispatch_leaveall_def Let_def, intro inv_maps(2)) (simp_all add: listener_key_def)
  next
    case msrp_attr_type_domain
    with s show ?thesis
      by (simp add: msrp_dispatch_leaveall_def Let_def, intro inv_maps(3)) (simp_all add: domain_key_def)
  qed (use s t in \<open>simp_all add: msrp_dispatch_leaveall_def Let_def\<close>)
qed

lemma inv_self_leaveall: "msrp_inv s \<Longrightarrow> msrp_inv (mrp_station_self_leaveall p s)"
proof -
  have "mrp_applicant_declaring (applicant (sm_self_leave now sm)) \<Longrightarrow> mrp_applicant_declaring (applicant sm)" for now sm
    by (simp add: sm_self_leave_def Let_def split: if_splits)
  then have "talker_plain (\<lambda>e. if te_valid e then e\<lparr> te_sm := sm_self_leave now (te_sm e) \<rparr> else e)" for now
    by (auto simp: talker_plain_def talker_key_def)
  then show "msrp_inv s \<Longrightarrow> ?thesis"
    unfolding mrp_station_self_leaveall_def Let_def
    by (intro inv_maps) (simp_all add: listener_key_def domain_key_def)
qed

lemma inv_rx_talker:
  assumes "msrp_inv s" and "msrp_rx_talker_attr p ty w src s = (tr, t)"
  shows "msrp_inv t"
proof (cases "msrp_talker_find_or_insert p (ti_stream_id (tm_info w)) ty s")
  case (Pair r s1)
  have i1: "msrp_inv s1" by (rule inv_talker_insert [OF assms(1) Pair])
  show ?thesis
  proof (cases r)
    case None
    with assms(2) Pair i1 show ?thesis by (simp add: msrp_rx_talker_attr_def)
  next
    case (Some i)
    have h: "holds_talker p i (ti_stream_id (tm_info w), ty) s1" using talker_inserted Pair Some by simp
    define s2 where "s2 = upd_talker p i (\<lambda>e. e\<lparr> te_wire := (if locally_originated e then te_wire e else w),
      te_last_refresh_us := now_us s1, te_src_mac := (case src of None \<Rightarrow> te_src_mac e | Some m \<Rightarrow> m) \<rparr>) s1"
    have i2: "msrp_inv s2" unfolding s2_def
      by (intro inv_upd_talker i1 talker_stepI) (use h in \<open>auto simp: talker_key_def holds_talker_def\<close>)
    obtain e1 e2 e3 where e: "three_pe_to_int (tm_event w) = (e1, e2, e3)" by (cases "three_pe_to_int (tm_event w)")
    define s3 where "s3 = upd_talker p i (\<lambda>e. e\<lparr> te_sm :=
      mrp_sm_step (now_us s2) (te_sm e) (mrp_3pe_to_event e1) \<rparr>) s2"
    have i3: "msrp_inv s3" unfolding s3_def by (intro inv_upd_plain i2 plain_event) simp_all
    have mt: "msrp_inv (upd_talker p j (\<lambda>e. e\<lparr> te_sm := (te_sm e)\<lparr> registrar := mrp_registrar_mt \<rparr> \<rparr>)
      (mrp_on_talker_registrar_change p ty' w' tr' s3))" for j ty' w' tr'
      by (intro inv_upd_plain inv_on_talker i3) (simp add: talker_plain_def talker_key_def)
    show ?thesis using assms(2) i3 mt
      by (auto simp: msrp_rx_talker_attr_def Pair Some e Let_def
          s2_def [symmetric] s3_def [symmetric] split: if_splits option.splits)
  qed
qed

lemma inv_rx_listener:
  assumes "msrp_inv s" and "msrp_rx_listener_attr p w src s = (tr, c, t)"
  shows "msrp_inv t"
proof (cases "msrp_listener_find_or_insert p (lm_stream_id w) s")
  case (Pair r s1)
  have i1: "msrp_inv s1" by (rule inv_listener_insert [OF assms(1) Pair])
  show ?thesis
  proof (cases r)
    case None
    with assms(2) Pair i1 show ?thesis by (simp add: msrp_rx_listener_attr_def)
  next
    case (Some i)
    have v: "valid_port s p" using Pair Some by (auto simp: msrp_listener_find_or_insert_def split: if_splits)
    have k: "listener_key (s_msrp_listeners s1 p ! i) = lm_stream_id w \<and> le_valid (s_msrp_listeners s1 p ! i)"
      using Pair Some v
      by (auto simp: msrp_listener_find_or_insert_def listeners.enter_def [symmetric] listener_key_def [symmetric]
          dest!: listeners.enter_finds listeners.lookup_SomeD split: prod.splits)
    have "msrp_inv (upd_listener p i f s1)"
      if "\<And>e. le_valid (f e) = le_valid e \<and> listener_key (f e) = lm_stream_id w" for f
    proof -
      have "listeners.keys_unique (upd_at i f (s_msrp_listeners s1 p))"
        unfolding upd_at_def using i1 k that
        by (intro listeners.keys_unique_update) (auto simp: msrp_inv_def)
      then show ?thesis using i1 by (auto simp: msrp_inv_def upd_listener_def)
    qed
    then show ?thesis using assms(2)
      by (auto simp: msrp_rx_listener_attr_def Pair Some Let_def listener_key_def split: prod.splits)
  qed
qed

lemma inv_rx_domain:
  assumes "msrp_inv s" and "msrp_rx_domain_attr p w s = (tr, t)"
  shows "msrp_inv t"
proof (cases "msrp_domain_find_or_insert p (dm_sr_class_id w) s")
  case (Pair r s1)
  have "msrp_inv s1" by (rule inv_domain_insert [OF assms(1) Pair])
  then show ?thesis using assms(2) Pair domain_inserted [of p "dm_sr_class_id w" s _ s1]
    by (auto simp: msrp_rx_domain_attr_def Let_def domain_key_def split: option.splits prod.splits intro!: inv_upd_domain)
qed

lemma inv_rx_process: "msrp_inv s \<Longrightarrow> msrp_inv (rx_process p src item s)"
  by (cases item) (auto simp: inv_dispatch_leaveall dest: inv_rx_talker inv_rx_listener inv_rx_domain
      split: prod.split intro!: inv_wifi_follow_up inv_on_talker inv_on_listener inv_on_domain)

lemma inv_rx_msrp: "msrp_inv s \<Longrightarrow> msrp_inv (mrp_rx_msrp p raw len src s)"
proof -
  have "msrp_inv s \<Longrightarrow> msrp_inv (fold (rx_process p src) xs s)" for xs
    by (induction xs arbitrary: s) (simp_all add: inv_rx_process)
  then show "msrp_inv s \<Longrightarrow> ?thesis" by (simp add: mrp_rx_msrp_def)
qed

lemma inv_rx_cvu: "msrp_inv s \<Longrightarrow> msrp_inv (avb_process_aecp_cmd_cvu_srp msg src s)"
  by (simp add: avb_process_aecp_cmd_cvu_srp_def Let_def inv_rx_msrp)

lemma inv_rx_mvrp:
  assumes "msrp_inv s" shows "msrp_inv (mrp_rx_mvrp p msg s)"
proof -
  define u where "u = (if mh_vechead_leaveall (vm_header msg) \<noteq> 0 then mvrp_dispatch_leaveall p s else s)"
  have u: "msrp_inv u" using assms
    by (auto simp: u_def mvrp_dispatch_leaveall_def intro!: inv_maps split: if_splits)
  obtain r t where t: "mvrp_vlan_find_or_insert p (vm_vlan_id msg) u = (r, t)"
    by (cases "mvrp_vlan_find_or_insert p (vm_vlan_id msg) u")
  have "msrp_inv (upd_vlan p i (\<lambda>e. e\<lparr> ve_sm := g e \<rparr>) t)" for i g
    by (rule inv_upd_vlan [OF inv_vlan_insert [OF u t]]) simp
  then show ?thesis using assms inv_vlan_insert [OF u t]
    by (auto simp: mrp_rx_mvrp_def Let_def u_def [symmetric] t split: option.split prod.split
        intro!: inv_on_vlan)
qed


section \<open>Transmission\<close>

lemma inv_flush_attr [simp]:
  "msrp_inv (mrp_tx_flush_talker p i la s) = msrp_inv s"
  "msrp_inv (mrp_tx_flush_listener p i la s) = msrp_inv s"
  "msrp_inv (mrp_tx_flush_domain p i la s) = msrp_inv s"
  "msrp_inv (mrp_tx_flush_refusal p i s) = msrp_inv s"
  "msrp_inv (mvrp_tx_emit p i la s) = msrp_inv s"
  by (simp_all add: mrp_tx_flush_talker_def mrp_tx_flush_listener_def mrp_tx_flush_domain_def
      mrp_tx_flush_refusal_def mvrp_tx_emit_def Let_def)

lemma plain_pending: "talker_plain (\<lambda>e. e\<lparr> te_sm := (te_sm e)\<lparr> pending_tx := mrp_tx_none \<rparr> \<rparr>)"
  by (simp add: talker_plain_def talker_key_def)

lemma inv_flush_slots:
  assumes "ev = mrp_event_tx \<or> ev = mrp_event_tx_la"
  shows "msrp_inv (snd x) \<Longrightarrow> msrp_inv (snd (flush_talker_slot ev p i x))"
    and "msrp_inv (snd x) \<Longrightarrow> msrp_inv (snd (flush_listener_slot ev p i x))"
    and "msrp_inv (snd x) \<Longrightarrow> msrp_inv (snd (flush_domain_slot ev p i x))"
    and "msrp_inv (snd y) \<Longrightarrow> msrp_inv (snd (flush_vlan_slot ev p i y))"
proof -
  have ev: "ev \<noteq> mrp_event_new" "ev \<noteq> mrp_event_join" using assms by auto
  show "msrp_inv (snd x) \<Longrightarrow> msrp_inv (snd (flush_talker_slot ev p i x))"
    by (cases x) (auto simp: flush_talker_slot_def Let_def intro!: inv_upd_plain plain_event ev plain_pending)
  show "msrp_inv (snd x) \<Longrightarrow> msrp_inv (snd (flush_listener_slot ev p i x))"
    by (cases x) (auto simp: flush_listener_slot_def Let_def listener_key_def intro!: inv_upd_listener)
  show "msrp_inv (snd x) \<Longrightarrow> msrp_inv (snd (flush_domain_slot ev p i x))"
    by (cases x) (auto simp: flush_domain_slot_def Let_def domain_key_def intro!: inv_upd_domain)
  show "msrp_inv (snd y) \<Longrightarrow> msrp_inv (snd (flush_vlan_slot ev p i y))"
    by (cases y) (auto simp: flush_vlan_slot_def Let_def intro!: inv_upd_vlan)
qed

lemma inv_flush_port: "msrp_inv s \<Longrightarrow> msrp_inv (mrp_tx_flush_port p s)"
proof -
  assume s: "msrp_inv s"
  have f: "msrp_inv (snd x) \<Longrightarrow> msrp_inv (snd (foreach n (flush_talker_slot ev p) x))"
    "msrp_inv (snd x) \<Longrightarrow> msrp_inv (snd (foreach n (flush_listener_slot ev p) x))"
    "msrp_inv (snd x) \<Longrightarrow> msrp_inv (snd (foreach n (flush_domain_slot ev p) x))"
    "msrp_inv (snd y) \<Longrightarrow> msrp_inv (snd (foreach n (flush_vlan_slot ev p) y))"
    if "ev = mrp_event_tx \<or> ev = mrp_event_tx_la" for n ev x y
    using that by (auto intro!: inv_foreach_snd inv_flush_slots)
  show ?thesis using s
    by (simp add: mrp_tx_flush_port_def mrp_tx_flush_mvrp_def Let_def f)
qed

lemma plain_lite:
  "mrp_lite_entry_due (te_sm e) t n = (due, sm, nx) \<Longrightarrow> mrp_applicant_declaring (applicant sm) \<Longrightarrow>
     mrp_applicant_declaring (applicant (te_sm e))"
  using undeclared_step(2) [of mrp_event_tx "applicant (te_sm e)"]
  by (auto simp: mrp_lite_entry_due_def Let_def split: if_splits)

lemma inv_lite_slots:
  "msrp_inv (snd x) \<Longrightarrow> msrp_inv (snd (lite_talker_slot p now i x))"
  "msrp_inv (snd x) \<Longrightarrow> msrp_inv (snd (lite_listener_slot p now i x))"
  "msrp_inv (snd x) \<Longrightarrow> msrp_inv (snd (lite_refusal_slot p now i x))"
proof -
  show "msrp_inv (snd x) \<Longrightarrow> msrp_inv (snd (lite_talker_slot p now i x))"
  proof (cases x)
    case (Pair b s)
    assume "msrp_inv (snd x)"
    then have s: "msrp_inv s" by (simp add: Pair)
    obtain due sm nx where d: "mrp_lite_entry_due (te_sm (talker s p i)) (te_lite_next_tx_us (talker s p i)) now
        = (due, sm, nx)" by (cases "mrp_lite_entry_due (te_sm (talker s p i)) (te_lite_next_tx_us (talker s p i)) now") auto
    have "msrp_inv (upd_talker p i (\<lambda>e. e\<lparr> te_sm := sm, te_lite_next_tx_us := nx \<rparr>) s)"
      by (rule inv_upd_talker [OF s], rule talker_stepI) (use plain_lite [OF d] in \<open>auto simp: talker_key_def\<close>)
    then show ?thesis using s
      by (auto simp: Pair lite_talker_slot_def Let_def d intro!: inv_upd_plain [OF _ plain_pending]
          simp del: upd_talker_twice)
  qed
  show "msrp_inv (snd x) \<Longrightarrow> msrp_inv (snd (lite_listener_slot p now i x))"
    by (cases x) (auto simp: lite_listener_slot_def Let_def listener_key_def split: prod.split intro!: inv_upd_listener)
  show "msrp_inv (snd x) \<Longrightarrow> msrp_inv (snd (lite_refusal_slot p now i x))"
    by (cases x) (auto simp: lite_refusal_slot_def Let_def split: prod.split)
qed

lemma inv_lite_flush: "msrp_inv s \<Longrightarrow> msrp_inv (snd (mrp_lite_flush p now s))"
  by (simp add: mrp_lite_flush_def Let_def inv_foreach_snd inv_lite_slots)

lemma redeclare_sm_declaring:
  "mrp_lite_redeclare_sm now sm t = (sm', t') \<Longrightarrow> mrp_applicant_declaring (applicant sm') \<Longrightarrow>
     mrp_applicant_declaring (applicant sm)"
  by (auto simp: mrp_lite_redeclare_sm_def split: if_splits)

lemma inv_lite_redeclare: "msrp_inv s \<Longrightarrow> msrp_inv (mrp_lite_redeclare_all p now s)"
proof -
  let ?f = "\<lambda>e. if te_valid e \<and> locally_originated e
      then case mrp_lite_redeclare_sm now (te_sm e) (te_lite_next_tx_us e) of
        (sm, t) \<Rightarrow> e\<lparr> te_sm := sm, te_lite_next_tx_us := t \<rparr> else e"
  have "talker_plain ?f"
    using redeclare_sm_declaring by (auto simp: talker_plain_def talker_key_def split: prod.split)
  then have t: "msrp_inv s \<Longrightarrow> msrp_inv (s\<lparr> s_msrp_talkers := (s_msrp_talkers s)(p := map ?f (s_msrp_talkers s p)) \<rparr>)"
    for s by (intro inv_map_talkers) simp_all
  have l: "msrp_inv u \<Longrightarrow> msrp_inv (u\<lparr> s_msrp_listeners := (s_msrp_listeners u)(p := map (\<lambda>e. if le_valid e
      then case mrp_lite_redeclare_sm now (le_sm e) (le_lite_next_tx_us e) of
        (sm, t) \<Rightarrow> e\<lparr> le_sm := sm, le_lite_next_tx_us := t \<rparr> else e) (s_msrp_listeners u p)) \<rparr>)" for u
    by (intro inv_map_listeners) (auto simp: listener_key_def split: prod.split)
  assume s: "msrp_inv s"
  show ?thesis unfolding mrp_lite_redeclare_all_def Let_def
    using l [OF t [OF s]] s by (simp only: msrp_inv_fields split: if_split) blast
qed

lemma inv_lite_enter: "msrp_inv s \<Longrightarrow> msrp_inv (mrp_lite_enter p s)"
  by (simp add: mrp_lite_enter_def Let_def inv_lite_redeclare)

lemma inv_lite_exit [simp]: "msrp_inv (mrp_lite_exit s) = msrp_inv s"
  unfolding mrp_lite_exit_def by (rule msrp_inv_cong) simp_all

lemma inv_refusal_one [simp]: "msrp_inv (refusal_sync_one k w m s) = msrp_inv s"
  by (simp add: refusal_sync_one_def Let_def split: option.split)

lemma inv_refusal_sync [simp]:
  "msrp_inv (mrp_lite_sync_refusals k rs da vid mfs mfi cb s) = msrp_inv s"
  unfolding mrp_lite_sync_refusals_def Let_def
  by (subst fold_frame) (simp_all split: prod.split)

end
