(* ===== verification/Msrp_Reach.thy ===== *)
theory Msrp_Reach
  imports Msrp_Inv
begin

text \<open>
  The states a node can reach: it boots with empty tables, and from then on the tables change
  through received attributes, the port timers, the local declarations and the AVB Lite calls.
  The step relation lists those entry points; the invariant of \<open>Msrp_Inv\<close> holds in every
  reachable state.
\<close>

section \<open>The timers keep the invariant\<close>

lemma inv_port_init [simp]: "msrp_inv (mrp_port_init p s) = msrp_inv s"
  by (simp add: mrp_port_init_def mrp_leaveall_next_expiry_us_def draw_random_def Let_def)

lemma inv_leaveall_expiry: "mrp_leaveall_next_expiry_us q b s = (t, u) \<Longrightarrow> msrp_inv u = msrp_inv s"
  by (auto simp: mrp_leaveall_next_expiry_us_def draw_random_def Let_def)

lemma inv_dispatch_periodic: "msrp_inv s \<Longrightarrow> msrp_inv (mrp_port_dispatch_periodic p s)"
  unfolding mrp_port_dispatch_periodic_def Let_def
  by (cases "valid_port s p")
    (simp_all, intro inv_maps, simp_all add: plain_event listener_key_def domain_key_def)

lemma inv_leave_slots:
  "msrp_inv (snd x) \<Longrightarrow> msrp_inv (snd (leave_talker_slot p now i x))"
  "msrp_inv (snd x) \<Longrightarrow> msrp_inv (snd (leave_listener_slot p now i x))"
  "msrp_inv (snd x) \<Longrightarrow> msrp_inv (snd (leave_domain_slot p now i x))"
  "msrp_inv (snd x) \<Longrightarrow> msrp_inv (snd (leave_vlan_slot p now i x))"
  "msrp_inv (snd x) \<Longrightarrow> msrp_inv (snd (lite_idle_talker_slot p now i x))"
  "msrp_inv (snd x) \<Longrightarrow> msrp_inv (snd (lite_idle_listener_slot p now i x))"
proof -
  show "msrp_inv (snd x) \<Longrightarrow> msrp_inv (snd (leave_talker_slot p now i x))"
    by (cases x) (auto simp: leave_talker_slot_def Let_def talker_key_def dest!: undeclared_step(1)
        intro!: inv_on_talker inv_upd_talker talker_stepI)
  show "msrp_inv (snd x) \<Longrightarrow> msrp_inv (snd (leave_listener_slot p now i x))"
    by (cases x) (auto simp: leave_listener_slot_def Let_def listener_key_def
        intro!: inv_on_listener inv_upd_listener)
  show "msrp_inv (snd x) \<Longrightarrow> msrp_inv (snd (leave_domain_slot p now i x))"
    by (cases x) (auto simp: leave_domain_slot_def Let_def domain_key_def intro!: inv_on_domain inv_upd_domain)
  show "msrp_inv (snd x) \<Longrightarrow> msrp_inv (snd (leave_vlan_slot p now i x))"
    by (cases x) (auto simp: leave_vlan_slot_def Let_def intro!: inv_upd_vlan)
  show "msrp_inv (snd x) \<Longrightarrow> msrp_inv (snd (lite_idle_talker_slot p now i x))"
    by (cases x) (auto simp: lite_idle_talker_slot_def Let_def talker_key_def
        intro!: inv_on_talker inv_upd_talker talker_stepI)
  show "msrp_inv (snd x) \<Longrightarrow> msrp_inv (snd (lite_idle_listener_slot p now i x))"
    by (cases x) (auto simp: lite_idle_listener_slot_def Let_def listener_key_def
        intro!: inv_on_listener inv_upd_listener)
qed

lemma inv_dispatch_leave: "msrp_inv s \<Longrightarrow> msrp_inv (snd (mrp_port_dispatch_leave_timers p now s))"
proof -
  have f: "msrp_inv (snd x) \<Longrightarrow> msrp_inv (snd (foreach n (leave_talker_slot p now) x))"
    "msrp_inv (snd x) \<Longrightarrow> msrp_inv (snd (foreach n (leave_listener_slot p now) x))"
    "msrp_inv (snd x) \<Longrightarrow> msrp_inv (snd (foreach n (leave_domain_slot p now) x))"
    "msrp_inv (snd x) \<Longrightarrow> msrp_inv (snd (foreach n (leave_vlan_slot p now) x))"
    "msrp_inv (snd x) \<Longrightarrow> msrp_inv (snd (foreach n (lite_idle_talker_slot p now) x))"
    "msrp_inv (snd x) \<Longrightarrow> msrp_inv (snd (foreach n (lite_idle_listener_slot p now) x))" for n x
    by (auto intro!: inv_foreach_snd inv_leave_slots)
  show "msrp_inv s \<Longrightarrow> ?thesis"
    by (simp add: mrp_port_dispatch_leave_timers_def Let_def f)
qed

lemma inv_tick_leaveall: "msrp_inv (snd x) \<Longrightarrow> msrp_inv (snd (tick_leaveall p c x))"
  by (cases x) (auto simp: tick_leaveall_def Let_def inv_lite_redeclare inv_self_leaveall inv_leaveall_expiry
      split: prod.split)

lemma inv_tick_parts:
  "msrp_inv (snd x) \<Longrightarrow> msrp_inv (snd (tick_periodic p x))"
  "msrp_inv (snd x) \<Longrightarrow> msrp_inv (snd (tick_join p x))"
  by (cases x; simp add: tick_periodic_def tick_join_def Let_def inv_dispatch_periodic inv_flush_port)+

lemma inv_tick_pass:
  "\<lbrakk>msrp_inv (snd x); \<And>s. msrp_inv s \<Longrightarrow> msrp_inv (snd (f s))\<rbrakk> \<Longrightarrow> msrp_inv (snd (tick_pass f x))"
  by (cases x; cases "f (snd x)") (auto simp: tick_pass_def split: prod.split, metis snd_conv)

lemma inv_port_tick: "msrp_inv s \<Longrightarrow> msrp_inv (snd (mrp_port_tick p c s))"
  by (simp add: mrp_port_tick_def Let_def inv_tick_pass inv_tick_parts inv_tick_leaveall
      inv_release_held inv_lite_flush inv_dispatch_leave)

section \<open>Reachable states\<close>

inductive msrp_step :: "avb_state \<Rightarrow> avb_state \<Rightarrow> bool" where
  clock: "msrp_step s (s\<lparr> now_us := t \<rparr>)"
| rx_msrp: "msrp_step s (mrp_rx_msrp p raw len src s)"
| rx_cvu: "msrp_step s (avb_process_aecp_cmd_cvu_srp msg src s)"
| rx_mvrp: "msrp_step s (mrp_rx_mvrp p vmsg s)"
| tick: "msrp_step s (snd (mrp_port_tick p sta_count s))"
| port_init: "msrp_step s (mrp_port_init p s)"
| talker_advertise: "msrp_step s (mrp_declare_talker_advertise p k da vid mfs mfi cb s)"
| talker_failed: "msrp_step s (mrp_declare_talker_failed p k da vid mfs mfi code cb bridge_id s)"
| talker_latency: "msrp_step s (mrp_set_talker_latency p k s)"
| talker_withdraw: "msrp_step s (mrp_withdraw_talker p k s)"
| talker_forget: "msrp_step s (snd (mrp_talker_forget p k s))"
| listener_declare: "msrp_step s (mrp_declare_listener p k d s)"
| listener_withdraw: "msrp_step s (mrp_withdraw_listener p k s)"
| domain_declare: "msrp_step s (mrp_declare_domain p c prio dvid s)"
| vlan_declare: "msrp_step s (mrp_declare_vlan p v s)"
| vlan_withdraw: "msrp_step s (mrp_withdraw_vlan p v s)"
| lite_on: "msrp_step s (mrp_lite_enter p (s\<lparr> avb_lite := True \<rparr>))"
| lite_off: "msrp_step s (mrp_lite_exit (s\<lparr> avb_lite := False \<rparr>))"
| lite_refusals: "msrp_step s (mrp_lite_sync_refusals k rs da vid mfs mfi cb s)"

inductive msrp_reach :: "avb_build \<Rightarrow> avb_state \<Rightarrow> bool" for b where
  boot: "msrp_reach b (state_zero b)"
| step: "\<lbrakk>msrp_reach b s; msrp_step s t\<rbrakk> \<Longrightarrow> msrp_reach b t"

lemma step_inv: "msrp_step s t \<Longrightarrow> msrp_inv s \<Longrightarrow> msrp_inv t"
  by (induction rule: msrp_step.induct)
    (simp_all add: inv_rx_msrp inv_rx_cvu inv_rx_mvrp inv_port_tick inv_declarations inv_set_latency
      inv_talker_forget inv_lite_enter)

lemma reach_inv: "msrp_reach b s \<Longrightarrow> msrp_inv s"
  by (induction rule: msrp_reach.induct) (auto simp: msrp_inv_zero intro: step_inv)

section \<open>What holds in every reachable state\<close>


definition stream_of :: "u16 \<Rightarrow> avb_state \<Rightarrow> avb_state" where
  "stream_of frame_size = mrp_declare_talker_advertise 0 [2, 0, 0, 0, 0, 1, 0, 0]
     [0x91, 0xe0, 0xf0, 0, 0, 1] [0, 2] frame_size 1 False"

lemma witness_reach: "msrp_reach end_station (stream_of 100 (stream_of 80 (state_zero end_station)))"
  unfolding stream_of_def
  by (rule msrp_reach.step [OF msrp_reach.step [OF msrp_reach.boot talker_advertise] talker_advertise])


lemma insert_found:
  assumes "msrp_talker_find p k ty s = Some i"
  shows "msrp_talker_find_or_insert p k ty s = (Some i, s)"
  using assms by (auto simp: msrp_talker_find_def msrp_talker_find_or_insert_def table_find_or_insert_def split: if_splits)

lemma tx_leave_fields [simp]:
  "s_msrp_talkers (mrp_tx_talker_value_leave p i t) = s_msrp_talkers t"
  "now_us (mrp_tx_talker_value_leave p i t) = now_us t"
  "build (mrp_tx_talker_value_leave p i t) = build t"
  "s_talker_leaveall_count (mrp_tx_talker_value_leave p i t) = s_talker_leaveall_count t"
  by (simp_all add: mrp_tx_talker_value_leave_def mrp_send_attr_def avb_send_cvu_srp_attr_def Let_def)

lemma arm_talkers [simp]: "s_msrp_talkers (mrp_port_arm_join_timer p s) = s_msrp_talkers s"
  by (simp add: mrp_port_arm_join_timer_def mrp_join_next_expiry_us_def draw_random_def upd_port_def)


lemma tx_leave_lite [simp]: "avb_lite (mrp_tx_talker_value_leave p i t) = avb_lite t"
  by (simp add: mrp_tx_talker_value_leave_def mrp_send_attr_def avb_send_cvu_srp_attr_def Let_def)

lemma candidate_upd [simp]:
  "mrp_talker_candidate (upd_talker p i f s) e k da vid mfs mfi cb = mrp_talker_candidate s e k da vid mfs mfi cb"
  "mrp_talker_candidate s (e\<lparr> locally_originated := b \<rparr>) k da vid mfs mfi cb = mrp_talker_candidate s e k da vid mfs mfi cb"
  by (simp_all add: mrp_talker_candidate_def mrp_build_talker_info_def Let_def upd_talker_def)

lemma upd_talker_frame [simp]:
  "now_us (upd_talker p i f s) = now_us s" "build (upd_talker p i f s) = build s"
  "avb_lite (upd_talker p i f s) = avb_lite s"
  "s_talker_leaveall_count (upd_talker p i f s) = s_talker_leaveall_count s"
  "length (s_msrp_talkers (upd_talker p i f s) p) = length (s_msrp_talkers s p)"
  by (simp_all add: upd_talker_def)

lemma talker_upd: "i < length (s_msrp_talkers s p) \<Longrightarrow> talker (upd_talker p i f s) p i = f (talker s p i)"
  by (simp add: talker_def upd_talker_def)

lemma talker_cong: "s_msrp_talkers t = s_msrp_talkers s \<Longrightarrow> talker t p i = talker s p i"
  by (simp add: talker_def)

lemma change_value_frame [simp]:
  "now_us (talker_change_value p i f s) = now_us s" "build (talker_change_value p i f s) = build s"
  "s_talker_leaveall_count (talker_change_value p i f s) = s_talker_leaveall_count s"
  "length (s_msrp_talkers (talker_change_value p i f s) p) = length (s_msrp_talkers s p)"
  by (simp_all add: talker_change_value_def Let_def)

text \<open>The entry after its value was changed, without AVB Lite.\<close>

lemma changed_value:
  assumes "i < length (s_msrp_talkers s p)" and "\<not> avb_lite s"
  shows "talker (talker_change_value p i fresh s) p i =
    (let e = talker s p i; old = tm_info (te_wire e);
         holdoff = (if mrp_talker_value_shrinks old (tm_info fresh) then MSRP_VALUE_SHRINK_HOLDOFF_US
                    else MSRP_VALUE_CHANGE_HOLDOFF_US (build s));
         reset = (\<lambda>e. e\<lparr> te_sm := mrp_sm_reset_for_new_value (te_sm e), te_wire := fresh \<rparr>)
     in if old = tm_info fresh then e
        else if ti_stream_dest_addr old = zeros 6 then reset e
        else reset (e\<lparr> withdrawn_us := now_us s, redeclare_after_us := now_us s + holdoff,
               holdoff_leaveall_base := s_talker_leaveall_count s p \<rparr>))"
  using assms by (simp add: talker_change_value_def Let_def talker_upd talker_cong [of "mrp_tx_talker_value_leave p i _"])

lemma holdoff_runs:
  assumes "redeclare_after_us e > now_us s" and "holdoff_leaveall_base e = s_talker_leaveall_count s p"
  shows "\<not> mrp_value_change_holdoff_over p e (now_us s) s"
  using assms by (simp add: mrp_value_change_holdoff_over_def MSRP_VALUE_CHANGE_LEAVEALLS_def)


lemma declare_declares [simp]:
  "mrp_applicant_declaring (applicant (te_sm (talker_declare_step now before e)))"
  by (cases "applicant (te_sm e)")
    (simp_all add: talker_declare_step_def Let_def mrp_declare_event_def)

text \<open>A declaration of a changed value.\<close>

lemma declare_change:
  fixes k da vid mfs mfi cb
  assumes "msrp_talker_find p k msrp_attr_type_talker_advertise s = Some i" and "\<not> avb_lite s"
    and "redeclare_after_us (talker s p i) = 0" and "now_us s \<ge> 0"
  defines "e \<equiv> talker (mrp_declare_talker_advertise p k da vid mfs mfi cb s) p i"
  shows "te_valid e \<and> (if mrp_talker_advertise_change_waits s p k da vid mfs mfi cb
         then redeclare_after_us e = now_us s + MSRP_VALUE_CHANGE_HOLDOFF_US (build s) \<and> declare_held e
           \<and> \<not> mrp_applicant_declaring (applicant (te_sm e))
         else redeclare_after_us e = 0 \<and> mrp_applicant_declaring (applicant (te_sm e))
           \<or> redeclare_after_us e = now_us s + MSRP_VALUE_SHRINK_HOLDOFF_US \<and> declare_held e)"
proof -
  have i: "i < length (s_msrp_talkers s p)" using talker_found [OF assms(1)] by (simp add: holds_talker_def)
  have v: "te_valid (talker s p i)" using talker_found [OF assms(1)] by (simp add: holds_talker_def)
  have h: "MSRP_VALUE_CHANGE_HOLDOFF_US b > 0" "MSRP_VALUE_SHRINK_HOLDOFF_US > 0" for b
    by (simp_all add: MSRP_VALUE_CHANGE_HOLDOFF_US_def MSRP_VALUE_SHRINK_HOLDOFF_US_def)
  let ?e = "(talker s p i)\<lparr> locally_originated := True \<rparr>"
  define F where "F = mrp_talker_candidate s (talker s p i) k da vid mfs mfi cb"
  define s2 where "s2 = talker_change_value p i F (upd_talker p i (\<lambda>e. e\<lparr> locally_originated := True \<rparr>) s)"
  have i2: "i < length (s_msrp_talkers s2 p)" using i by (simp add: s2_def)
  have n2: "now_us s2 = now_us s" "s_talker_leaveall_count s2 = s_talker_leaveall_count s"
    by (simp_all add: s2_def)
  define reset where "reset = (\<lambda>e :: msrp_talker_entry_t. e\<lparr> te_sm := mrp_sm_reset_for_new_value (te_sm e), te_wire := F \<rparr>)"
  have e2: "talker s2 p i =
    (let old = tm_info (te_wire (talker s p i));
         holdoff = (if mrp_talker_value_shrinks old (tm_info F) then MSRP_VALUE_SHRINK_HOLDOFF_US
                    else MSRP_VALUE_CHANGE_HOLDOFF_US (build s))
     in if old = tm_info F then ?e
        else if ti_stream_dest_addr old = zeros 6 then reset ?e
        else reset (?e\<lparr> withdrawn_us := now_us s, redeclare_after_us := now_us s + holdoff,
               holdoff_leaveall_base := s_talker_leaveall_count s p \<rparr>))"
    unfolding s2_def reset_def by (subst changed_value) (simp_all add: i assms(2) talker_upd Let_def)
  have e2v: "te_valid (talker s2 p i)" using v by (simp add: e2 reset_def Let_def)
  have d: "mrp_declare_talker_advertise p k da vid mfs mfi cb s =
    (let e = talker s2 p i in
     if redeclare_after_us e \<noteq> 0 \<and> \<not> mrp_value_change_holdoff_over p e (now_us s) s2
     then upd_talker p i (\<lambda>e. e\<lparr> declare_held := True \<rparr>) s2
     else mrp_port_arm_join_timer p (upd_talker p i (\<lambda>e. talker_declare_step (now_us s) (applicant (te_sm ?e)) (e\<lparr> te_wire := F \<rparr>))
       (if redeclare_after_us e \<noteq> 0 then mrp_talker_end_holdoff p i s2 else s2)))"
    using assms(1) i
    by (simp add: mrp_declare_talker_advertise_def insert_found Let_def talker_upd F_def [symmetric]
        s2_def [symmetric] n2 mrp_talker_end_holdoff_def if_distrib [of now_us] cong: if_cong)
  show ?thesis
  proof (cases "redeclare_after_us (talker s2 p i) = 0")
    case True
    then have "e = talker_declare_step (now_us s) (applicant (te_sm ?e)) ((talker s2 p i)\<lparr> te_wire := F \<rparr>)"
      unfolding e_def d by (simp add: talker_cong [OF arm_talkers] talker_upd i2 del: arm_talkers)
    moreover have "\<not> mrp_talker_advertise_change_waits s p k da vid mfs mfi cb"
      using True assms(3,4) h(1) [of "build s"]
      by (auto simp: mrp_talker_advertise_change_waits_def assms(1) Let_def F_def [symmetric] e2 reset_def split: if_splits)
    ultimately show ?thesis using True e2v by simp
  next
    case False
    then have "redeclare_after_us (talker s2 p i) > now_us s2"
      "holdoff_leaveall_base (talker s2 p i) = s_talker_leaveall_count s2 p"
      using h assms(3,4) by (auto simp: e2 reset_def Let_def n2 split: if_splits)
    from holdoff_runs [OF this] have "\<not> mrp_value_change_holdoff_over p (talker s2 p i) (now_us s) s2"
      by (simp add: n2)
    with False have "e = (talker s2 p i)\<lparr> declare_held := True \<rparr>"
      unfolding e_def d by (simp add: talker_upd i2)
    then show ?thesis using False assms(3) v
      by (auto simp: e2 reset_def Let_def mrp_talker_advertise_change_waits_def assms(1) F_def [symmetric] split: if_splits)
  qed
qed

text \<open>C31. Without AVB Lite, \<open>mrp_talker_advertise_change_waits\<close> foretells what declaring the new
  value would do to an entry that is not held: when it answers yes, the declaration is held for
  the long hold-off and the attribute is not declared meanwhile; when it answers no, it is
  declared at once, or held only for the short hold-off of a shrinking reservation.\<close>

theorem change_waits_exact:
  fixes k da vid mfs mfi cb
  assumes "msrp_talker_find p k msrp_attr_type_talker_advertise s = Some i" and "\<not> avb_lite s"
    and "redeclare_after_us (talker s p i) = 0" and "now_us s \<ge> 0"
  defines "e \<equiv> talker (mrp_declare_talker_advertise p k da vid mfs mfi cb s) p i"
  shows "if mrp_talker_advertise_change_waits s p k da vid mfs mfi cb
         then redeclare_after_us e = now_us s + MSRP_VALUE_CHANGE_HOLDOFF_US (build s) \<and> declare_held e
           \<and> \<not> mrp_applicant_declaring (applicant (te_sm e))
         else redeclare_after_us e = 0 \<and> mrp_applicant_declaring (applicant (te_sm e))
           \<or> redeclare_after_us e = now_us s + MSRP_VALUE_SHRINK_HOLDOFF_US \<and> declare_held e"
  using declare_change [OF assms(1-4)] unfolding e_def by blast

lemma witness_change:
  "let s = stream_of 80 (state_zero end_station) in
     msrp_talker_find 0 [2, 0, 0, 0, 0, 1, 0, 0] msrp_attr_type_talker_advertise s = Some 0
   \<and> \<not> avb_lite s \<and> redeclare_after_us (talker s 0 0) = 0 \<and> 0 \<le> now_us s
   \<and> mrp_talker_advertise_change_waits s 0 [2, 0, 0, 0, 0, 1, 0, 0] [0x91, 0xe0, 0xf0, 0, 0, 1] [0, 2] 100 1 False
   \<and> 0 < now_us s + MSRP_VALUE_CHANGE_HOLDOFF_US (build s)"
  by code_simp

lemma change_waits_exact_witness:
  "declare_held (talker (stream_of 100 (stream_of 80 (state_zero end_station))) 0 0)"
  using change_waits_exact [of 0 "[2, 0, 0, 0, 0, 1, 0, 0]" "stream_of 80 (state_zero end_station)" 0
      "[0x91, 0xe0, 0xf0, 0, 0, 1]" "[0, 2]" 100 1 False] witness_change
  unfolding stream_of_def [of 100] Let_def by presburger

section \<open>Quarantine\<close>



lemma witness_held:
  "let s = stream_of 100 (stream_of 80 (state_zero end_station)) in
     0 < length (s_msrp_talkers s 0) \<and> te_valid (talker s 0 0) \<and> redeclare_after_us (talker s 0 0) \<noteq> 0"
proof -
  have "0 < length (s_msrp_talkers (stream_of 100 (stream_of 80 (state_zero end_station))) 0)"
    using reach_inv [OF witness_reach]
    by (simp add: msrp_inv_def MSRP_TALKER_TABLE_SIZE_def del: length_greater_0_conv)
  then show ?thesis
    using declare_change [of 0 "[2, 0, 0, 0, 0, 1, 0, 0]" "stream_of 80 (state_zero end_station)" 0
        "[0x91, 0xe0, 0xf0, 0, 0, 1]" "[0, 2]" 100 1 False] witness_change
    unfolding stream_of_def [of 100] Let_def by auto
qed


end
