(* ===== verification/Wifi_Bundle.thy ===== *)
theory Wifi_Bundle
  imports Prelude
begin

text \<open>
  The Wi-Fi stream bundle (\<open>avbnet.c\<close>): several AVTPDUs of one stream in one 802.11 frame, plain or
  compact, and the IPv4 wrapper that moves a bundle into the video access category.  Buffers are
  octet lists of the length the code keeps beside them; an allocation is assumed to succeed.
\<close>

section \<open>Layout\<close>

definition WIFI_BUNDLE_SUBTYPE :: u8 where "WIFI_BUNDLE_SUBTYPE = 0x7F"
definition WIFI_BUNDLE_AVTP :: nat where "WIFI_BUNDLE_AVTP = 18"
definition WIFI_BUNDLE_ENTRIES :: nat where "WIFI_BUNDLE_ENTRIES = 38"
definition WIFI_BUNDLE_MAX_BYTES :: nat where "WIFI_BUNDLE_MAX_BYTES = 1500"
definition WIFI_BUNDLE_FLAG_RETX :: u8 where "WIFI_BUNDLE_FLAG_RETX = 1"
definition WIFI_BUNDLE_FLAG_COMPACT :: u8 where "WIFI_BUNDLE_FLAG_COMPACT = 2"
definition WIFI_VI_HEADER_LEN :: nat where "WIFI_VI_HEADER_LEN = 22"
definition WIFI_VI_IP_PROTOCOL :: u8 where "WIFI_VI_IP_PROTOCOL = 253"
definition WIFI_BUNDLE_FILL_BYTES :: nat where
  "WIFI_BUNDLE_FILL_BYTES = WIFI_BUNDLE_MAX_BYTES - WIFI_VI_HEADER_LEN"

definition s_wifi_bundle_tag :: octets where "s_wifi_bundle_tag = [65, 86, 66, 87]"

lemmas bundle_layout = WIFI_BUNDLE_AVTP_def WIFI_BUNDLE_ENTRIES_def WIFI_BUNDLE_SUBTYPE_def
  WIFI_BUNDLE_FLAG_COMPACT_def WIFI_BUNDLE_FLAG_RETX_def s_wifi_bundle_tag_def

text \<open>\<open>n\<close> octets at offset \<open>off\<close>, and two octets as a big-endian number.\<close>

definition part :: "nat \<Rightarrow> nat \<Rightarrow> octets \<Rightarrow> octets" where
  "part off n buf = take n (drop off buf)"

definition put_be16 :: "nat \<Rightarrow> octets" where
  "put_be16 n = [of_nat (n div 256), of_nat n]"

definition get_be16 :: "u8 \<Rightarrow> u8 \<Rightarrow> nat" where
  "get_be16 hi lo = unat hi * 256 + unat lo"

definition wifi_bundle_is :: "octets \<Rightarrow> bool" where
  "wifi_bundle_is buf \<longleftrightarrow> length buf \<ge> WIFI_BUNDLE_ENTRIES \<and> buf ! 12 = 0x81 \<and> buf ! 13 = 0
     \<and> buf ! 16 = 0x22 \<and> buf ! 17 = 0xf0 \<and> buf ! WIFI_BUNDLE_AVTP = WIFI_BUNDLE_SUBTYPE
     \<and> part 30 4 buf = s_wifi_bundle_tag"

section \<open>Compact entries\<close>

definition WIFI_COMPACT_HEADER :: nat where "WIFI_COMPACT_HEADER = 24"
definition WIFI_COMPACT_FIXED :: nat where "WIFI_COMPACT_FIXED = 8"
definition WIFI_COMPACT_PACKED :: u8 where "WIFI_COMPACT_PACKED = 1"
definition WIFI_COMPACT_OWN_HEADER :: u8 where "WIFI_COMPACT_OWN_HEADER = 2"

lemmas compact_layout = WIFI_COMPACT_HEADER_def WIFI_COMPACT_FIXED_def WIFI_COMPACT_PACKED_def
  WIFI_COMPACT_OWN_HEADER_def

text \<open>The low octets of 32-bit samples, their upper 24 bits, and the samples rebuilt from them.\<close>

fun low_octets :: "octets \<Rightarrow> u8" where
  "low_octets (a # b # c # d # xs) = d OR low_octets xs"
| "low_octets _ = 0"

fun pack24 :: "octets \<Rightarrow> octets" where
  "pack24 (a # b # c # d # xs) = a # b # c # pack24 xs"
| "pack24 _ = []"

fun unpack24 :: "octets \<Rightarrow> octets" where
  "unpack24 (a # b # c # xs) = a # b # c # 0 # unpack24 xs"
| "unpack24 _ = []"

definition wifi_compact_flags :: "octets \<Rightarrow> octets \<Rightarrow> u8" where
  "wifi_compact_flags tmpl avtp =
     (let own = (length avtp < WIFI_COMPACT_HEADER \<or> tmpl ! 0 \<noteq> avtp ! 0 \<or> tmpl ! 1 \<noteq> avtp ! 1
                 \<or> part 3 9 tmpl \<noteq> part 3 9 avtp \<or> part 16 8 tmpl \<noteq> part 16 8 avtp);
          payload = drop WIFI_COMPACT_HEADER avtp;
          packed = (length avtp \<ge> WIFI_COMPACT_HEADER \<and> avtp ! 0 = 2 \<and> avtp ! 16 = 2
                    \<and> length payload mod 4 = 0 \<and> low_octets payload = 0)
      in (if own then WIFI_COMPACT_OWN_HEADER else 0) OR (if packed then WIFI_COMPACT_PACKED else 0))"

definition wifi_compact_entry_len :: "u8 \<Rightarrow> nat \<Rightarrow> nat" where
  "wifi_compact_entry_len flags avtp_len =
     (let payload_len = avtp_len - WIFI_COMPACT_HEADER in
      WIFI_COMPACT_FIXED
      + (if flags AND WIFI_COMPACT_OWN_HEADER \<noteq> 0 then WIFI_COMPACT_HEADER else 0)
      + (if flags AND WIFI_COMPACT_PACKED \<noteq> 0 then payload_len div 4 * 3 else payload_len))"

definition wifi_compact_put :: "u8 \<Rightarrow> octets \<Rightarrow> octets" where
  "wifi_compact_put flags avtp =
     (let payload = drop WIFI_COMPACT_HEADER avtp in
      [flags, avtp ! 2] @ part 12 4 avtp @ put_be16 (length payload)
      @ (if flags AND WIFI_COMPACT_OWN_HEADER \<noteq> 0 then take WIFI_COMPACT_HEADER avtp else [])
      @ (if flags AND WIFI_COMPACT_PACKED \<noteq> 0 then pack24 payload else payload))"

text \<open>The AVTPDU of an entry that is complete.\<close>

definition wifi_compact_get :: "octets \<Rightarrow> octets \<Rightarrow> octets" where
  "wifi_compact_get tmpl entry =
     (let flags = entry ! 0;
          payload_len = get_be16 (entry ! 6) (entry ! 7);
          src = drop WIFI_COMPACT_FIXED entry;
          own = (flags AND WIFI_COMPACT_OWN_HEADER \<noteq> 0);
          header = (if own then take WIFI_COMPACT_HEADER src else tmpl);
          src = (if own then drop WIFI_COMPACT_HEADER src else src);
          header = header[2 := entry ! 1];
          header = take 12 header @ part 2 4 entry @ drop 16 header
      in header @ (if flags AND WIFI_COMPACT_PACKED \<noteq> 0 then unpack24 (take (payload_len div 4 * 3) src)
                   else take payload_len src))"

text \<open>The loop of \<open>wifi_bundle_split_compact\<close>: \<open>n\<close> entries left, \<open>rest\<close> the octets from \<open>off\<close> on.\<close>

primrec split_compact_entries :: "nat \<Rightarrow> octets \<Rightarrow> octets \<Rightarrow> octets \<Rightarrow> octets list" where
  "split_compact_entries 0 eth tmpl rest = []"
| "split_compact_entries (Suc n) eth tmpl rest =
     (if length rest < WIFI_COMPACT_FIXED then []
      else
        let flags = rest ! 0;
            payload_len = get_be16 (rest ! 6) (rest ! 7);
            entry_len = wifi_compact_entry_len flags (WIFI_COMPACT_HEADER + payload_len)
        in if length rest < entry_len \<or> flags AND WIFI_COMPACT_PACKED \<noteq> 0 \<and> payload_len mod 4 \<noteq> 0 then []
           else (eth @ wifi_compact_get tmpl rest)
                # split_compact_entries n eth tmpl (drop entry_len rest))"

definition wifi_bundle_split_compact :: "octets \<Rightarrow> octets list" where
  "wifi_bundle_split_compact buf =
     split_compact_entries (unat (buf ! 36)) (take WIFI_BUNDLE_AVTP buf)
       (part WIFI_BUNDLE_ENTRIES WIFI_COMPACT_HEADER buf)
       (drop (WIFI_BUNDLE_ENTRIES + WIFI_COMPACT_HEADER) buf)"

section \<open>Splitting a bundle\<close>

primrec split_entries :: "nat \<Rightarrow> octets \<Rightarrow> octets \<Rightarrow> octets list" where
  "split_entries 0 eth rest = []"
| "split_entries (Suc n) eth rest =
     (if length rest < 2 then []
      else
        let avtp_len = get_be16 (rest ! 0) (rest ! 1); rest = drop 2 rest in
        if avtp_len < 12 \<or> length rest < avtp_len then []
        else (eth @ take avtp_len rest) # split_entries n eth (drop avtp_len rest))"

definition wifi_bundle_split :: "octets \<Rightarrow> octets list" where
  "wifi_bundle_split buf =
     (if buf ! 37 AND WIFI_BUNDLE_FLAG_COMPACT \<noteq> 0
         \<and> length buf \<ge> WIFI_BUNDLE_ENTRIES + WIFI_COMPACT_HEADER
      then wifi_bundle_split_compact buf
      else split_entries (unat (buf ! 36)) (take WIFI_BUNDLE_AVTP buf) (drop WIFI_BUNDLE_ENTRIES buf))"

section \<open>Building a bundle\<close>

text \<open>\<open>compact\<close> is \<open>CONFIG_ESP_AVB_WIFI_BUNDLE_COMPACT\<close>.\<close>

definition WIFI_BUNDLE_MIN_AVTP :: "bool \<Rightarrow> nat" where
  "WIFI_BUNDLE_MIN_AVTP compact = (if compact then WIFI_COMPACT_HEADER else 12)"

definition WIFI_BUNDLE_FIRST_COST :: "bool \<Rightarrow> nat \<Rightarrow> nat" where
  "WIFI_BUNDLE_FIRST_COST compact avtp_len =
     (if compact then WIFI_BUNDLE_ENTRIES + WIFI_COMPACT_HEADER + WIFI_COMPACT_FIXED + avtp_len
      else WIFI_BUNDLE_ENTRIES + 2 + avtp_len)"

definition WIFI_BUNDLE_ENTRY_COST :: "bool \<Rightarrow> octets \<Rightarrow> nat \<Rightarrow> octets \<Rightarrow> nat" where
  "WIFI_BUNDLE_ENTRY_COST compact buf count avtp =
     (if compact
      then (if count > 0
            then wifi_compact_entry_len
                   (wifi_compact_flags (part WIFI_BUNDLE_ENTRIES WIFI_COMPACT_HEADER buf) avtp)
                   (length avtp)
            else 0)
      else 2 + length avtp)"

definition wifi_bundle_begin :: "bool \<Rightarrow> octets \<Rightarrow> octets" where
  "wifi_bundle_begin compact frame =
     take WIFI_BUNDLE_AVTP frame @ [WIFI_BUNDLE_SUBTYPE, 0x80, 0, 0] @ part 22 8 frame
     @ s_wifi_bundle_tag @ [0, 0, 0, if compact then WIFI_BUNDLE_FLAG_COMPACT else 0]
     @ (if compact then part WIFI_BUNDLE_AVTP WIFI_COMPACT_HEADER frame else [])"

definition wifi_bundle_put :: "bool \<Rightarrow> octets \<Rightarrow> octets \<Rightarrow> octets" where
  "wifi_bundle_put compact out avtp =
     out @ (if compact
            then wifi_compact_put
                   (wifi_compact_flags (part WIFI_BUNDLE_ENTRIES WIFI_COMPACT_HEADER out) avtp) avtp
            else put_be16 (length avtp) @ avtp)"

text \<open>What \<open>wifi_bundle_send\<close> and \<open>wifi_tx_bundle_send\<close> write into the buffer before it goes out.\<close>

definition bundle_seal :: "u16 \<Rightarrow> u8 \<Rightarrow> octets \<Rightarrow> octets" where
  "bundle_seal seq count buf =
     buf[WIFI_BUNDLE_AVTP + 2 := ucast seq, 34 := ucast (drop_bit 8 seq), 35 := ucast seq, 36 := count]"

text \<open>The copy a NACK is answered with.\<close>

definition bundle_retx :: "octets \<Rightarrow> octets" where
  "bundle_retx buf = buf[37 := buf ! 37 OR WIFI_BUNDLE_FLAG_RETX]"

section \<open>The video wrapper\<close>

definition wifi_vi_header :: "nat \<Rightarrow> octets" where
  "wifi_vi_header len =
     (let ip_len = of_nat (len - 12 + WIFI_VI_HEADER_LEN - 2) :: u16;
          ip = [0x45, 0xa0, ucast (drop_bit 8 ip_len), ucast ip_len, 0x41, 0x56, 0x40, 0, 1,
                WIFI_VI_IP_PROTOCOL, 0, 0] @ zeros 8;
          sum = (\<Sum>w \<leftarrow> [0..<10]. (ucast (ip ! (2 * w)) * 256 OR ucast (ip ! (2 * w + 1)) :: u32));
          sum = (sum AND 0xffff) + drop_bit 16 sum;
          sum = (sum AND 0xffff) + drop_bit 16 sum
      in [0x08, 0x00] @ ip[10 := ucast (drop_bit 8 (NOT sum)), 11 := ucast (NOT sum)])"

text \<open>The octets \<open>wifi_tx_bundle_frame\<close> hands to the driver; \<open>wrap\<close> is \<open>s_wifi_vi_wrap\<close> with the
  wrapper's buffer allocated.\<close>

definition wifi_tx_bundle_frame :: "bool \<Rightarrow> octets \<Rightarrow> octets" where
  "wifi_tx_bundle_frame wrap frame =
     (if \<not> wrap \<or> length frame < 14 \<or> length frame > WIFI_BUNDLE_MAX_BYTES then frame
      else take 12 frame @ wifi_vi_header (length frame) @ drop 12 frame)"

definition wifi_vi_unwrap :: "octets \<Rightarrow> octets" where
  "wifi_vi_unwrap buf =
     (if length buf < 12 + WIFI_VI_HEADER_LEN + 4 \<or> buf ! 12 \<noteq> 0x08 \<or> buf ! 13 \<noteq> 0 \<or> buf ! 14 \<noteq> 0x45
         \<or> buf ! 23 \<noteq> WIFI_VI_IP_PROTOCOL \<or> buf ! 18 \<noteq> 0x41 \<or> buf ! 19 \<noteq> 0x56
      then buf
      else take 12 buf @ drop (12 + WIFI_VI_HEADER_LEN) buf)"

section \<open>Round trips\<close>

lemma get_put_be16: "n < 65536 \<Longrightarrow> get_be16 (of_nat (n div 256)) (of_nat n) = n"
  by (simp add: get_be16_def unat_of_nat)

lemma length_pack24: "length xs mod 4 = 0 \<Longrightarrow> length (pack24 xs) = length xs div 4 * 3"
  by (induction xs rule: pack24.induct) auto

lemma unpack_pack24:
  "\<lbrakk>length xs mod 4 = 0; low_octets xs = 0\<rbrakk> \<Longrightarrow> unpack24 (pack24 xs) = xs"
  by (induction xs rule: pack24.induct) (auto simp: or_eq_0_iff)

lemma part_nth:
  assumes "part off n xs = part off n ys" and "off + n \<le> length xs" "off + n \<le> length ys"
    and "off \<le> i" "i < off + n"
  shows "xs ! i = ys ! i"
proof -
  have "part off n zs ! (i - off) = zs ! i" if "off + n \<le> length zs" for zs
    using that assms(4,5) by (simp add: part_def)
  then show ?thesis using assms(1-3) by metis
qed

lemma part_self: "off + n \<le> length xs \<Longrightarrow> take off xs @ part off n xs @ drop (off + n) xs = xs"
  by (metis append.assoc append_take_drop_id part_def take_add)

lemma flags_bits:
  "wifi_compact_flags tmpl avtp AND WIFI_COMPACT_OWN_HEADER \<noteq> 0 \<longleftrightarrow>
     length avtp < WIFI_COMPACT_HEADER \<or> tmpl ! 0 \<noteq> avtp ! 0 \<or> tmpl ! 1 \<noteq> avtp ! 1
     \<or> part 3 9 tmpl \<noteq> part 3 9 avtp \<or> part 16 8 tmpl \<noteq> part 16 8 avtp"
  "wifi_compact_flags tmpl avtp AND WIFI_COMPACT_PACKED \<noteq> 0 \<longleftrightarrow>
     length avtp \<ge> WIFI_COMPACT_HEADER \<and> avtp ! 0 = 2 \<and> avtp ! 16 = 2
     \<and> length (drop WIFI_COMPACT_HEADER avtp) mod 4 = 0 \<and> low_octets (drop WIFI_COMPACT_HEADER avtp) = 0"
  by (simp_all add: wifi_compact_flags_def Let_def compact_layout)

text \<open>The header carried over from the template is the entry's own.\<close>

lemma compact_header:
  assumes "length tmpl = 24" and "24 \<le> length avtp"
    and "wifi_compact_flags tmpl avtp AND WIFI_COMPACT_OWN_HEADER = 0"
  shows "take 12 (tmpl[2 := avtp ! 2]) @ part 12 4 avtp @ drop 16 (tmpl[2 := avtp ! 2]) = take 24 avtp"
proof -
  have same: "tmpl ! 0 = avtp ! 0" "tmpl ! 1 = avtp ! 1" "part 3 9 tmpl = part 3 9 avtp"
    "part 16 8 tmpl = part 16 8 avtp"
    using assms flags_bits(1) [of tmpl avtp] by auto
  have "tmpl ! i = avtp ! i" if "i < 12" "i \<noteq> 2" for i
  proof (cases "3 \<le> i")
    case True
    with that show ?thesis using part_nth [OF same(3), of i] assms(1,2) by simp
  next
    case False
    with that have "i = 0 \<or> i = 1" by arith
    with same(1,2) show ?thesis by auto
  qed
  then have "take 12 (tmpl[2 := avtp ! 2]) = take 12 avtp"
    using assms by (intro nth_equalityI) (auto simp: nth_list_update)
  moreover have "drop 16 (tmpl[2 := avtp ! 2]) = part 16 8 avtp"
    using same(4) assms(1) by (simp add: part_def drop_update_cancel)
  ultimately show ?thesis
    using part_self [of 12 4 "take 24 avtp"] assms(2) by (simp add: part_def drop_take)
qed

lemma compact_put_get:
  assumes "length tmpl = 24" and "24 \<le> length avtp" and "length avtp < 65560"
  defines "flags \<equiv> wifi_compact_flags tmpl avtp"
  shows "wifi_compact_get tmpl (wifi_compact_put flags avtp @ rest) = avtp"
    and "length (wifi_compact_put flags avtp) = wifi_compact_entry_len flags (length avtp)"
    and "get_be16 ((wifi_compact_put flags avtp @ rest) ! 6) ((wifi_compact_put flags avtp @ rest) ! 7)
       = length avtp - 24"
proof -
  let ?p = "drop 24 avtp"
  obtain s1 s2 s3 s4 where ts: "part 12 4 avtp = [s1, s2, s3, s4]"
    using assms(2) by (simp add: part_def numeral_eq_Suc take_Suc_conv_app_nth Cons_nth_drop_Suc [symmetric])
  have packed: "flags AND WIFI_COMPACT_PACKED \<noteq> 0 \<Longrightarrow> length ?p mod 4 = 0 \<and> low_octets ?p = 0"
    using flags_bits(2) [of tmpl avtp] by (simp add: flags_def compact_layout)
  note simps = wifi_compact_put_def Let_def compact_layout put_be16_def ts
  show "length (wifi_compact_put flags avtp) = wifi_compact_entry_len flags (length avtp)"
    using assms(2) packed by (simp add: simps wifi_compact_entry_len_def length_pack24)
  show len: "get_be16 ((wifi_compact_put flags avtp @ rest) ! 6) ((wifi_compact_put flags avtp @ rest) ! 7)
       = length avtp - 24"
    using assms(3) by (simp add: simps get_put_be16 del: of_nat_diff)
  let ?e = "wifi_compact_put flags avtp @ rest"
  let ?own = "flags AND WIFI_COMPACT_OWN_HEADER \<noteq> 0" and ?packed = "flags AND WIFI_COMPACT_PACKED \<noteq> 0"
  have pl: "length (pack24 ?p) = (length avtp - 24) div 4 * 3" and un: "unpack24 (pack24 ?p) = ?p" if ?packed
    using length_pack24 [of ?p] unpack_pack24 [of ?p] packed [OF that] by simp_all
  define h where "h = (if ?own then take 24 avtp else tmpl)"
  have get: "wifi_compact_get tmpl ?e = (take 12 (h[2 := avtp ! 2]) @ part 12 4 avtp @ drop 16 (h[2 := avtp ! 2])) @ ?p"
    using assms(2) len pl un
    by (cases ?own; cases ?packed)
      (simp_all add: wifi_compact_get_def wifi_compact_put_def put_be16_def ts Let_def h_def part_def [of _ _ "_ # _"] compact_layout)
  show "wifi_compact_get tmpl (wifi_compact_put flags avtp @ rest) = avtp"
  proof (cases ?own)
    case False
    then have "h = tmpl" by (simp add: h_def)
    then show ?thesis using compact_header [OF assms(1,2)] False unfolding get by (simp add: flags_def)
  next
    case True
    have "(take 24 avtp)[2 := avtp ! 2] = take 24 avtp"
      by (simp add: list_update_same_conv assms(2))
    then have "h[2 := avtp ! 2] = take 24 avtp" using True by (simp add: h_def)
    moreover have "take 12 avtp @ part 12 4 avtp @ drop 16 (take 24 avtp) = take 24 avtp"
      using part_self [of 12 4 "take 24 avtp"] assms(2) by (simp add: part_def drop_take)
    ultimately show ?thesis unfolding get by simp
  qed
qed


lemma compact_entry_length:
  assumes "24 \<le> length avtp"
  shows "wifi_compact_flags tmpl avtp AND WIFI_COMPACT_PACKED \<noteq> 0 \<Longrightarrow> (length avtp - 24) mod 4 = 0"
    and "8 \<le> wifi_compact_entry_len f n"
    and "hd (wifi_compact_put f avtp @ rest) = f" "(wifi_compact_put f avtp @ rest) ! 0 = f"
  using flags_bits(2) [of tmpl avtp]
  by (simp_all add: compact_layout wifi_compact_entry_len_def wifi_compact_put_def Let_def)

text \<open>One step of each loop.\<close>

lemma split_step:
  "\<lbrakk>get_be16 h l = length a; 12 \<le> length a\<rbrakk> \<Longrightarrow>
     split_entries (Suc n) eth (h # l # a @ r) = (eth @ a) # split_entries n eth r"
  by (simp add: Let_def)

lemma split_compact_step:
  assumes "x = e @ r" and "x ! 0 = f" and "get_be16 (x ! 6) (x ! 7) = k"
    and "wifi_compact_entry_len f (24 + k) = length e" and "8 \<le> length e"
    and "\<not> (f AND WIFI_COMPACT_PACKED \<noteq> 0 \<and> k mod 4 \<noteq> 0)" and "wifi_compact_get tmpl x = a"
  shows "split_compact_entries (Suc n) eth tmpl x = (eth @ a) # split_compact_entries n eth tmpl r"
proof -
  have "\<not> length x < 8" "\<not> length x < length e" "drop (length e) x = r" using assms(1,5) by simp_all
  then show ?thesis using assms(2-7)
    by (simp add: Let_def WIFI_COMPACT_FIXED_def WIFI_COMPACT_HEADER_def del: length_append)
qed

text \<open>Writing entries after each other and splitting them gives the AVTPDUs back.\<close>

lemma split_compact_put:
  assumes "length tmpl = 24" and "\<forall>a \<in> set as. 24 \<le> length a \<and> length a < 65560"
  shows "split_compact_entries (length as) eth tmpl
           (concat (map (\<lambda>a. wifi_compact_put (wifi_compact_flags tmpl a) a) as) @ rest)
       = map (\<lambda>a. eth @ a) as"
  using assms(2)
proof (induction as)
  case (Cons a as)
  let ?f = "wifi_compact_flags tmpl a"
  let ?r = "concat (map (\<lambda>a. wifi_compact_put (wifi_compact_flags tmpl a) a) as) @ rest"
  have a: "24 \<le> length a" "length a < 65560" using Cons.prems by auto
  note e = compact_put_get [OF assms(1) a] compact_entry_length [OF a(1)]
  have "split_compact_entries (Suc (length as)) eth tmpl (wifi_compact_put ?f a @ ?r)
      = (eth @ a) # split_compact_entries (length as) eth tmpl ?r"
  proof (rule split_compact_step [OF refl])
    show "\<not> (?f AND WIFI_COMPACT_PACKED \<noteq> 0 \<and> (length a - 24) mod 4 \<noteq> 0)" using e(4) by metis
    show "wifi_compact_entry_len ?f (24 + (length a - 24)) = length (wifi_compact_put ?f a)"
      unfolding le_add_diff_inverse [OF a(1)] e(2) ..
    show "8 \<le> length (wifi_compact_put ?f a)" unfolding e(2) by (rule e(5))
  qed (rule e)+
  with Cons show ?case by (simp del: split_compact_entries.simps)
qed simp

lemma split_put:
  assumes "\<forall>a \<in> set as. 12 \<le> length a \<and> length a < 65536"
  shows "split_entries (length as) eth (concat (map (\<lambda>a. put_be16 (length a) @ a) as) @ rest)
       = map (\<lambda>a. eth @ a) as"
  using assms
proof (induction as)
  case (Cons a as)
  then show ?case
    using split_step [of "of_nat (length a div 256)" "of_nat (length a)" a, OF get_put_be16]
    unfolding put_be16_def by (simp del: split_entries.simps)
qed simp

section \<open>Whole bundles\<close>

definition bundle_of :: "bool \<Rightarrow> octets list \<Rightarrow> octets" where
  "bundle_of compact frames =
     fold (\<lambda>f out. wifi_bundle_put compact out (drop WIFI_BUNDLE_AVTP f)) frames
       (wifi_bundle_begin compact (hd frames))"

definition entry_octets :: "bool \<Rightarrow> octets \<Rightarrow> octets \<Rightarrow> octets" where
  "entry_octets compact tmpl avtp =
     (if compact then wifi_compact_put (wifi_compact_flags tmpl avtp) avtp else put_be16 (length avtp) @ avtp)"

lemma entry_octets_fun:
  "entry_octets True tmpl = (\<lambda>a. wifi_compact_put (wifi_compact_flags tmpl a) a)"
  "entry_octets False tmpl = (\<lambda>a. put_be16 (length a) @ a)"
  by (simp_all add: entry_octets_def fun_eq_iff)

lemma part_append: "off + n \<le> length xs \<Longrightarrow> part off n (xs @ ys) = part off n xs"
  by (simp add: part_def)

lemma fold_put:
  assumes "compact \<Longrightarrow> 62 \<le> length out"
  shows "fold (\<lambda>f out. wifi_bundle_put compact out (drop 18 f)) frames out =
     out @ concat (map (\<lambda>f. entry_octets compact (part 38 24 out) (drop 18 f)) frames)"
  using assms
proof (induction frames arbitrary: out)
  case (Cons f frames)
  have "wifi_bundle_put compact out (drop 18 f) = out @ entry_octets compact (part 38 24 out) (drop 18 f)"
    by (simp add: wifi_bundle_put_def entry_octets_def bundle_layout compact_layout)
  moreover have "compact \<Longrightarrow> part 38 24 (out @ x) = part 38 24 out" for x
    using Cons.prems by (simp add: part_append)
  ultimately show ?case using Cons by (cases compact) (simp_all add: entry_octets_def)
qed simp

lemma begin_parts:
  assumes "18 + WIFI_BUNDLE_MIN_AVTP compact \<le> length frame"
  shows "length (wifi_bundle_begin compact frame) = (if compact then 62 else 38)"
    "take 18 (wifi_bundle_begin compact frame) = take 18 frame"
    "wifi_bundle_begin compact frame ! 37 = (if compact then 2 else 0)"
    "wifi_bundle_begin compact frame ! 18 = WIFI_BUNDLE_SUBTYPE"
    "part 30 4 (wifi_bundle_begin compact frame) = s_wifi_bundle_tag"
proof -
  have len: "30 \<le> length frame" "compact \<Longrightarrow> 42 \<le> length frame"
    using assms by (auto simp: WIFI_BUNDLE_MIN_AVTP_def compact_layout split: if_splits)
  define e where "e = take 18 frame"
  define i where "i = part 22 8 frame"
  have n: "length e = 18" "length i = 8" using len by (simp_all add: e_def i_def part_def)
  have b: "wifi_bundle_begin compact frame = e @ [WIFI_BUNDLE_SUBTYPE, 0x80, 0, 0] @ i @ s_wifi_bundle_tag
      @ [0, 0, 0, if compact then 2 else 0] @ (if compact then part 18 24 frame else [])"
    by (simp add: wifi_bundle_begin_def e_def i_def bundle_layout compact_layout)
  show "length (wifi_bundle_begin compact frame) = (if compact then 62 else 38)"
    using n len unfolding b by (cases compact) (simp_all add: part_def bundle_layout)
  show "take 18 (wifi_bundle_begin compact frame) = take 18 frame" using n by (simp add: b e_def)
  show "wifi_bundle_begin compact frame ! 37 = (if compact then 2 else 0)"
    using n by (simp add: b nth_append bundle_layout)
  show "wifi_bundle_begin compact frame ! 18 = WIFI_BUNDLE_SUBTYPE" using n by (simp add: b nth_append)
  show "part 30 4 (wifi_bundle_begin compact frame) = s_wifi_bundle_tag"
    using n by (simp add: b part_def bundle_layout)
qed

lemma seal_parts:
  assumes "38 \<le> length b"
  shows "length (bundle_seal seq count b) = length b" "take 18 (bundle_seal seq count b) = take 18 b"
    "drop 38 (bundle_seal seq count b) = drop 38 b" "bundle_seal seq count b ! 37 = b ! 37"
    "bundle_seal seq count b ! 36 = count" "bundle_seal seq count b ! 18 = b ! 18"
    "part 30 4 (bundle_seal seq count b) = part 30 4 b" "i < 18 \<Longrightarrow> bundle_seal seq count b ! i = b ! i"
  using assms
  by (simp_all add: bundle_seal_def bundle_layout part_def take_update_cancel drop_update_swap
      drop_update_cancel)

lemma retx_parts:
  assumes "38 \<le> length b"
  shows "length (bundle_retx b) = length b" "take 18 (bundle_retx b) = take 18 b"
    "drop 38 (bundle_retx b) = drop 38 b" "bundle_retx b ! 37 AND 2 = b ! 37 AND 2"
    "bundle_retx b ! 36 = b ! 36" "bundle_retx b ! 18 = b ! 18" "part 30 4 (bundle_retx b) = part 30 4 b"
    "i < 18 \<Longrightarrow> bundle_retx b ! i = b ! i"
  using assms
  by (simp_all add: bundle_retx_def bundle_layout part_def take_update_cancel drop_update_swap
      drop_update_cancel bit.conj_disj_distrib2)

text \<open>What the split reads of a buffer: its tail, its count, its flags.\<close>

lemma split_reads:
  assumes "length b = length a" "38 \<le> length a" "take 18 b = take 18 a" "drop 38 b = drop 38 a"
    "b ! 37 AND 2 = a ! 37 AND 2" "b ! 36 = a ! 36"
  shows "wifi_bundle_split b = wifi_bundle_split a"
proof -
  have "part 38 24 b = part 38 24 a" using assms(4) by (simp add: part_def)
  moreover have "drop 62 b = drop 62 a" using arg_cong [OF assms(4), of "drop 24"] by simp
  ultimately show ?thesis using assms
    by (simp add: wifi_bundle_split_def wifi_bundle_split_compact_def bundle_layout compact_layout)
qed

lemma split_bundle_of:
  assumes "frames \<noteq> []" and "length frames < 256"
    and "\<forall>f \<in> set frames. take 18 f = take 18 (hd frames) \<and> 18 + WIFI_BUNDLE_MIN_AVTP compact \<le> length f
           \<and> length f \<le> 1500"
  shows "wifi_bundle_split (bundle_seal seq (of_nat (length frames)) (bundle_of compact frames)) = frames"
proof -
  let ?f = "hd frames" and ?as = "map (drop 18) frames"
  let ?b = "wifi_bundle_begin compact ?f" and ?eth = "take 18 (hd frames)"
  have h: "18 + WIFI_BUNDLE_MIN_AVTP compact \<le> length ?f" using assms(1,3) by simp
  note b = begin_parts [OF h]
  let ?t = "part 38 24 ?b"
  have B: "bundle_of compact frames = ?b @ concat (map (entry_octets compact ?t) ?as)"
    using fold_put [of compact ?b frames] b(1) unfolding bundle_of_def WIFI_BUNDLE_AVTP_def
    by (simp add: comp_def split: if_splits)
  let ?s = "bundle_seal seq (of_nat (length frames)) (bundle_of compact frames)"
  have len: "38 \<le> length (bundle_of compact frames)" using b(1) by (simp add: B)
  note s = seal_parts [OF len, where seq = seq and count = "of_nat (length frames)"]
  have n: "unat (of_nat (length frames) :: u8) = length frames" using assms(2) by (simp add: unat_of_nat)
  have frames: "map (\<lambda>a. ?eth @ a) ?as = frames"
  proof -
    have "?eth @ drop 18 f = f" if "f \<in> set frames" for f
      using assms(3) that append_take_drop_id [of 18 f] by simp
    then show ?thesis by (simp add: comp_def map_idI)
  qed
  have eth: "take 18 ?s = ?eth" using b(1,2) s(2) by (simp add: B)
  have fl: "?s ! 37 = (if compact then 2 else 0)"
    using b(1,3) s(4) unfolding B by (cases compact) (simp_all add: nth_append)
  show ?thesis
  proof (cases compact)
    case True
    have t: "length ?t = 24" using b(1) True by (simp add: part_def)
    have as: "\<forall>a \<in> set ?as. 24 \<le> length a \<and> length a < 65560"
      using assms(3) True by (auto simp: WIFI_BUNDLE_MIN_AVTP_def compact_layout)
    have "62 \<le> length ?s" "part 38 24 ?s = ?t" "drop 62 ?s = concat (map (entry_octets compact ?t) ?as)"
    proof -
      have "drop 38 ?s = drop 38 ?b @ concat (map (entry_octets compact ?t) ?as)"
        using s(3) b(1) True unfolding B by simp
      moreover have "length (drop 38 ?b) = 24" using b(1) True by simp
      ultimately show "part 38 24 ?s = ?t" "drop 62 ?s = concat (map (entry_octets compact ?t) ?as)"
        using drop_drop [of 24 38 ?s] by (simp_all add: part_def)
      show "62 \<le> length ?s" using s(1) b(1) True unfolding B by simp
    qed
    then show ?thesis using split_compact_put [OF t as, of ?eth "[]"] eth fl n s(5) frames True
      by (simp add: wifi_bundle_split_def wifi_bundle_split_compact_def bundle_layout compact_layout entry_octets_fun)
  next
    case False
    have as: "\<forall>a \<in> set ?as. 12 \<le> length a \<and> length a < 65536"
      using assms(3) False by (auto simp: WIFI_BUNDLE_MIN_AVTP_def)
    have "drop 38 ?s = concat (map (entry_octets compact ?t) ?as)" using s(3) b(1) False unfolding B by simp
    then show ?thesis using split_put [OF as, of ?eth "[]"] eth fl n s(5) frames False
      by (simp add: wifi_bundle_split_def bundle_layout compact_layout entry_octets_fun)
  qed
qed

section \<open>The wrapper\<close>

lemma vi_header_parts:
  "length (wifi_vi_header n) = 22" "wifi_vi_header n ! 0 = 0x08" "wifi_vi_header n ! Suc 0 = 0"
  "wifi_vi_header n ! 2 = 0x45" "wifi_vi_header n ! 6 = 0x41" "wifi_vi_header n ! 7 = 0x56"
  "wifi_vi_header n ! 11 = WIFI_VI_IP_PROTOCOL"
  by (simp_all add: wifi_vi_header_def Let_def nth_append)

lemma vi_unwrap_wrap:
  assumes "16 \<le> length frame" and "frame ! 12 \<noteq> 0x08"
  shows "wifi_vi_unwrap (wifi_tx_bundle_frame wrap frame) = frame"
proof (cases "\<not> wrap \<or> length frame > WIFI_BUNDLE_MAX_BYTES")
  case True
  then show ?thesis using assms by (auto simp: wifi_tx_bundle_frame_def wifi_vi_unwrap_def)
next
  case False
  let ?w = "take 12 frame @ wifi_vi_header (length frame) @ drop 12 frame"
  have w: "wifi_tx_bundle_frame wrap frame = ?w" using False assms by (simp add: wifi_tx_bundle_frame_def)
  have "?w ! (12 + i) = wifi_vi_header (length frame) ! i" if "i < 22" for i
    using that assms(1) vi_header_parts(1) by (simp add: nth_append)
  from this [of 0] this [of 1] this [of 2] this [of 6] this [of 7] this [of 11]
  have "?w ! 12 = 0x08" "?w ! 13 = 0" "?w ! 14 = 0x45" "?w ! 18 = 0x41" "?w ! 19 = 0x56"
    "?w ! 23 = WIFI_VI_IP_PROTOCOL" by (simp_all add: vi_header_parts)
  moreover have "38 \<le> length ?w" "take 12 ?w = take 12 frame" "drop 34 ?w = drop 12 frame"
    using assms(1) vi_header_parts(1) by simp_all
  ultimately show ?thesis unfolding w wifi_vi_unwrap_def WIFI_VI_HEADER_LEN_def
    by (simp del: take_append drop_append length_append nth_append)
qed

text \<open>C26. What a bundle carries is what comes out of it: frames of one stream with the same Ethernet
  header, bundled plain or compact, sealed with any sequence number, resent or not, wrapped for
  the video access category or not, are recognised by the receiver and split into exactly the
  frames that went in, in order and octet for octet.\<close>

theorem bundle_roundtrip:
  assumes "frames \<noteq> []" and "length frames < 256"
    and "\<forall>f \<in> set frames. take 18 f = take 18 (hd frames) \<and> 18 + WIFI_BUNDLE_MIN_AVTP compact \<le> length f
           \<and> length f \<le> 1500"
    and "part 12 2 (hd frames) = [0x81, 0]" and "part 16 2 (hd frames) = [0x22, 0xf0]"
  shows "let b = bundle_seal seq (of_nat (length frames)) (bundle_of compact frames);
             r = wifi_vi_unwrap (wifi_tx_bundle_frame wrap (if resent then bundle_retx b else b))
         in wifi_bundle_is r \<and> wifi_bundle_split r = frames"
proof -
  let ?b = "bundle_seal seq (of_nat (length frames)) (bundle_of compact frames)"
  define c where "c = (if resent then bundle_retx ?b else ?b)"
  have h: "18 + WIFI_BUNDLE_MIN_AVTP compact \<le> length (hd frames)" using assms(1,3) by simp
  note b = begin_parts [OF h]
  obtain x where B: "bundle_of compact frames = wifi_bundle_begin compact (hd frames) @ x"
    using fold_put [of compact "wifi_bundle_begin compact (hd frames)" frames] b(1)
    unfolding bundle_of_def WIFI_BUNDLE_AVTP_def by (auto split: if_splits)
  have lb: "38 \<le> length (wifi_bundle_begin compact (hd frames))" using b(1) by simp
  then have len: "38 \<le> length (bundle_of compact frames)" by (simp add: B)
  note s = seal_parts [OF len, where seq = seq and count = "of_nat (length frames)"]
  have len2: "38 \<le> length ?b" using len s(1) by simp
  note r = retx_parts [OF len2]
  have c: "length c = length ?b" "take 18 c = take 18 (hd frames)" "c ! 18 = WIFI_BUNDLE_SUBTYPE"
    "part 30 4 c = s_wifi_bundle_tag"
    using r(1,2,6,7) s(2,6,7) b(2,4,5) lb by (simp_all add: c_def B nth_append part_append)
  have nth: "c ! i = hd frames ! i" if "i < 18" for i
    using arg_cong [OF c(2), of "\<lambda>l. l ! i"] that by simp
  have "hd frames ! 12 = 0x81 \<and> hd frames ! 13 = 0 \<and> hd frames ! 16 = 0x22 \<and> hd frames ! 17 = 0xf0"
    using assms(4,5) h by (auto simp: part_def numeral_eq_Suc take_Suc_conv_app_nth Cons_nth_drop_Suc [symmetric])
  then have v: "c ! 12 = 0x81" "c ! 13 = 0" "c ! 16 = 0x22" "c ! 17 = 0xf0" using nth by simp_all
  have "wifi_bundle_split c = frames"
    using split_bundle_of [OF assms(1-3), of seq] split_reads [OF r(1) len2 r(2,3,4,5)] by (simp add: c_def)
  moreover have "wifi_bundle_is c" using c len2 v by (simp add: wifi_bundle_is_def bundle_layout)
  moreover have "wifi_vi_unwrap (wifi_tx_bundle_frame wrap c) = c"
    using c(1) len2 v(1) by (intro vi_unwrap_wrap) simp_all
  ultimately show ?thesis by (simp add: c_def [symmetric] Let_def)
qed

definition demo_frame :: "u8 \<Rightarrow> octets \<Rightarrow> octets" where
  "demo_frame seq payload =
     [2, 0, 0, 0, 0, 9, 2, 0, 0, 0, 0, 1, 0x81, 0, 0x60, 2, 0x22, 0xf0]
     @ [2, 0x81, seq, 0, 2, 0, 0, 0, 0, 1, 0, 0, 0, 0, 0, seq] @ [2, 0x50, 0, 0, 0, 4, 0, 0] @ payload"

lemma bundle_roundtrip_witness:
  "wifi_bundle_split (wifi_vi_unwrap (wifi_tx_bundle_frame True (bundle_retx (bundle_seal 7 2
     (bundle_of True [demo_frame 1 [1, 2, 3, 0], demo_frame 2 [4, 5, 6, 7]])))))
   = [demo_frame 1 [1, 2, 3, 0], demo_frame 2 [4, 5, 6, 7]]"
  using bundle_roundtrip [of "[demo_frame 1 [1, 2, 3, 0], demo_frame 2 [4, 5, 6, 7]]" True 7 True True]
  by (simp add: Let_def demo_frame_def part_def WIFI_BUNDLE_MIN_AVTP_def compact_layout)

end
