(* ===== verification/Wifi_Reorder.thy ===== *)
theory Wifi_Reorder
  imports Wifi_Bundle "HOL-Library.Multiset"
begin

text \<open>
  Reception of Wi-Fi bundles (\<open>avbnet.c\<close>): delivery in sequence, bundles held past a gap, the NACK
  that asks for the missing ones, and giving up when the hold time runs out.  Counters are left out.
\<close>

section \<open>State\<close>

record wifi_held_bundle_t =
  hb_seq :: u16
  hb_buf :: octets

record wifi_bundle_rx_t =
  rx_valid :: bool
  seeded :: bool
  rx_stream_id :: octets
  peer :: octets
  last_rx_us :: int
  expected :: u16
  nack_next :: u16
  deadline_us :: int
  last_nack_us :: int
  held :: "wifi_held_bundle_t list"

definition bundle_rx_zero :: wifi_bundle_rx_t where
  "bundle_rx_zero = \<lparr> rx_valid = False, seeded = False, rx_stream_id = zeros 8, peer = zeros 6,
     last_rx_us = 0, expected = 0, nack_next = 0, deadline_us = 0, last_nack_us = 0, held = [] \<rparr>"

text \<open>The state behind the handlers: the four streams, the NACK rate window, and what the handlers
  produced: the bundles handed to \<open>wifi_bundle_split\<close> and the NACK frames sent.\<close>

record wifi_rx_state =
  s_bundle_rx :: "wifi_bundle_rx_t list"
  window_us :: int
  sent_in_window :: nat
  delivered :: "octets list"
  nacks_sent :: "octets list"

text \<open>Build options and what the handlers ask the environment: the audio the local listener still
  has queued for a stream, the PTP time in nanoseconds, the access point's address.\<close>

record wifi_rx_env =
  env_bridge :: bool
  WIFI_BUNDLE_HOLD_US :: int
  RETX_DOWNSTREAM_LATENCY_US :: int
  stream_in_buffered_us :: "octets \<Rightarrow> int option"
  ptpd_now_ns :: "u64 option"
  sta_ap_bssid :: "octets option"
  own_mac :: octets

definition WIFI_RX_STREAMS :: nat where "WIFI_RX_STREAMS = 4"
definition WIFI_BUNDLE_HOLD :: nat where "WIFI_BUNDLE_HOLD = 32"
definition WIFI_BUNDLE_STALE_US :: int where "WIFI_BUNDLE_STALE_US = 200000"
definition WIFI_NACK_REPEAT_US :: int where "WIFI_NACK_REPEAT_US = 15000"
definition WIFI_RETX_MIN_BUDGET_US :: int where "WIFI_RETX_MIN_BUDGET_US = 3000"
definition WIFI_HOLD_PLAYOUT_MARGIN_US :: int where "WIFI_HOLD_PLAYOUT_MARGIN_US = 3000"
definition WIFI_HOLD_MIN_US :: int where "WIFI_HOLD_MIN_US = 1000"
definition WIFI_NACK_MAX_PER_S :: nat where "WIFI_NACK_MAX_PER_S = 20"

definition bundle_seq :: "octets \<Rightarrow> u16" where
  "bundle_seq buf = push_bit 8 (ucast (buf ! 34)) OR ucast (buf ! 35)"

text \<open>\<open>(int16_t)(a - b)\<close>\<close>

definition seq_diff :: "u16 \<Rightarrow> u16 \<Rightarrow> int" where
  "seq_diff a b = sint (a - b)"

section \<open>How long a gap may wait\<close>

definition wifi_bundle_first_pts :: "octets \<Rightarrow> u32 option" where
  "wifi_bundle_first_pts buf =
     (let be32 = (\<lambda>off. push_bit 24 (ucast (buf ! off)) OR push_bit 16 (ucast (buf ! (off + 1)))
                    OR push_bit 8 (ucast (buf ! (off + 2))) OR ucast (buf ! (off + 3)) :: u32)
      in if buf ! 37 AND WIFI_BUNDLE_FLAG_COMPACT \<noteq> 0 then
           let off = WIFI_BUNDLE_ENTRIES + WIFI_COMPACT_HEADER in
           if length buf < off + WIFI_COMPACT_FIXED \<or> buf ! (WIFI_BUNDLE_ENTRIES + 1) AND 1 = 0 then None
           else Some (be32 (off + 2))
         else if length buf < WIFI_BUNDLE_ENTRIES + 2 + 16 \<or> buf ! (WIFI_BUNDLE_ENTRIES + 2 + 1) AND 1 = 0
         then None
         else Some (be32 (WIFI_BUNDLE_ENTRIES + 2 + 12)))"

text \<open>The index of the held bundle that comes first in sequence.\<close>

definition lowest_held :: "wifi_held_bundle_t list \<Rightarrow> nat option" where
  "lowest_held hs = fold (\<lambda>i r. case r of None \<Rightarrow> Some i
     | Some j \<Rightarrow> if seq_diff (hb_seq (hs ! i)) (hb_seq (hs ! j)) < 0 then Some i else Some j)
     [0..<length hs] None"

text \<open>C division rounds toward zero.\<close>

definition wifi_bundle_pts_budget :: "wifi_rx_env \<Rightarrow> wifi_bundle_rx_t \<Rightarrow> int option" where
  "wifi_bundle_pts_budget env rx =
     (case lowest_held (held rx) of
        None \<Rightarrow> None
      | Some i \<Rightarrow>
          (case wifi_bundle_first_pts (hb_buf (held rx ! i)) of
             None \<Rightarrow> None
           | Some pts \<Rightarrow>
               (case ptpd_now_ns env of
                  None \<Rightarrow> None
                | Some clock_now \<Rightarrow>
                    let lead_ns = sint (pts - ucast clock_now) in
                    if lead_ns < -400000000 \<or> lead_ns > 400000000 then None
                    else Some ((if lead_ns < 0 then - ((- lead_ns) div 1000) else lead_ns div 1000)
                               + RETX_DOWNSTREAM_LATENCY_US env - WIFI_HOLD_PLAYOUT_MARGIN_US))))"

definition wifi_bundle_hold_until :: "wifi_rx_env \<Rightarrow> wifi_bundle_rx_t \<Rightarrow> int \<Rightarrow> int" where
  "wifi_bundle_hold_until env rx now =
     (let from_pts = (case wifi_bundle_pts_budget env rx of None \<Rightarrow> WIFI_BUNDLE_HOLD_US env | Some b \<Rightarrow> b);
          budget_us = (if env_bridge env then from_pts
                       else case stream_in_buffered_us env (rx_stream_id rx) of
                              Some b \<Rightarrow> b - WIFI_HOLD_PLAYOUT_MARGIN_US | None \<Rightarrow> from_pts);
          budget_us = (if budget_us < WIFI_HOLD_MIN_US then WIFI_HOLD_MIN_US else budget_us);
          budget_us = (if budget_us > WIFI_BUNDLE_HOLD_US env then WIFI_BUNDLE_HOLD_US env else budget_us)
      in now + budget_us)"

section \<open>Delivering held bundles\<close>

text \<open>The last index whose bundle is the expected one, and \<open>held[k] = held[--held_count]\<close>.\<close>

definition next_held :: "wifi_bundle_rx_t \<Rightarrow> nat option" where
  "next_held rx = fold (\<lambda>i r. if hb_seq (held rx ! i) = expected rx then Some i else r)
     [0..<length (held rx)] None"

definition held_remove :: "nat \<Rightarrow> wifi_held_bundle_t list \<Rightarrow> wifi_held_bundle_t list" where
  "held_remove k hs = butlast (hs[k := last hs])"

partial_function (option) wifi_bundle_drain ::
  "wifi_rx_env \<Rightarrow> int \<Rightarrow> wifi_bundle_rx_t \<Rightarrow> octets list \<Rightarrow> (wifi_bundle_rx_t \<times> octets list) option" where
  "wifi_bundle_drain env now rx out =
     (case next_held rx of
        None \<Rightarrow>
          if held rx = [] then Some (rx\<lparr> deadline_us := 0 \<rparr>, out)
          else if now < deadline_us rx then Some (rx, out)
          else
            let rx = rx\<lparr> expected := hb_seq (held rx ! the (lowest_held (held rx))) \<rparr>;
                rx = rx\<lparr> deadline_us := wifi_bundle_hold_until env rx now \<rparr>
            in wifi_bundle_drain env now rx out
      | Some k \<Rightarrow>
          let h = held rx ! k;
              rx = rx\<lparr> held := held_remove k (held rx), expected := expected rx + 1 \<rparr>;
              rx = rx\<lparr> deadline_us := (if held rx \<noteq> [] then wifi_bundle_hold_until env rx now else 0) \<rparr>
          in wifi_bundle_drain env now rx (out @ [hb_buf h]))"

section \<open>NACKs\<close>

definition s_wifi_nack_tag :: octets where "s_wifi_nack_tag = [65, 86, 66, 78]"

definition wifi_nack_is :: "octets \<Rightarrow> bool" where
  "wifi_nack_is buf \<longleftrightarrow> length buf \<ge> 14 + 19 \<and> buf ! 12 = 0x22 \<and> buf ! 13 = 0xf0
     \<and> buf ! 14 = WIFI_BUNDLE_SUBTYPE \<and> part 26 4 buf = s_wifi_nack_tag"

text \<open>A NACK frame of 60 octets; \<open>budget_us\<close> is positive.\<close>

definition wifi_nack_frame :: "octets \<Rightarrow> octets \<Rightarrow> octets \<Rightarrow> u16 \<Rightarrow> int \<Rightarrow> int \<Rightarrow> octets" where
  "wifi_nack_frame dst own stream_id first missing budget_us =
     (let units = budget_us div 100; units = (if units > 0xFFFF then 0xFFFF else units) in
      dst @ own @ [0x22, 0xf0, WIFI_BUNDLE_SUBTYPE, 0x80, 0, 0] @ stream_id @ s_wifi_nack_tag
      @ [ucast (drop_bit 8 first), ucast first, if missing > 255 then 255 else of_int missing,
         of_int (units div 256), of_int units] @ zeros 25)"

text \<open>The static variables of \<open>wifi_nack_rate_ok\<close> are fields of the state.\<close>

definition wifi_nack_rate_ok :: "int \<Rightarrow> wifi_rx_state \<Rightarrow> bool \<times> wifi_rx_state" where
  "wifi_nack_rate_ok now w =
     (let w = (if now - window_us w \<ge> 1000000 then w\<lparr> window_us := now, sent_in_window := 0 \<rparr> else w)
      in if sent_in_window w \<ge> WIFI_NACK_MAX_PER_S then (False, w)
         else (True, w\<lparr> sent_in_window := sent_in_window w + 1 \<rparr>))"

definition wifi_nack_send ::
  "wifi_rx_env \<Rightarrow> int \<Rightarrow> wifi_bundle_rx_t \<Rightarrow> u16 \<Rightarrow> int \<Rightarrow> int \<Rightarrow> wifi_rx_state \<Rightarrow> wifi_rx_state" where
  "wifi_nack_send env now rx first missing budget_us w =
     (case wifi_nack_rate_ok now w of (ok, w) \<Rightarrow>
        if \<not> ok then w
        else
          let send = (\<lambda>dst. w\<lparr> nacks_sent := nacks_sent w
                @ [wifi_nack_frame dst (own_mac env) (rx_stream_id rx) first missing budget_us] \<rparr>)
          in if env_bridge env then send (peer rx)
             else case sta_ap_bssid env of
                    None \<Rightarrow> w
                  | Some bssid \<Rightarrow> send (bssid[0 := bssid ! 0 OR 2]))"

section \<open>Receiving a bundle\<close>

text \<open>The entry of the stream, or one to start it in.\<close>

definition rx_slot :: "int \<Rightarrow> octets \<Rightarrow> wifi_bundle_rx_t list \<Rightarrow> (nat \<times> bool) option" where
  "rx_slot now stream_id rxs =
     (case first_index (\<lambda>i. rx_valid (rxs ! i) \<and> rx_stream_id (rxs ! i) = stream_id) WIFI_RX_STREAMS of
        Some i \<Rightarrow> Some (i, False)
      | None \<Rightarrow>
          map_option (\<lambda>i. (i, True))
            (first_index (\<lambda>i. \<not> rx_valid (rxs ! i)
               \<or> held (rxs ! i) = [] \<and> now - last_rx_us (rxs ! i) > 1000000) WIFI_RX_STREAMS))"

definition bundle_open :: "int \<Rightarrow> octets \<Rightarrow> bool \<Rightarrow> wifi_bundle_rx_t \<Rightarrow> wifi_bundle_rx_t" where
  "bundle_open now buf fresh rx =
     (let rx = (if fresh then bundle_rx_zero\<lparr> rx_valid := True, rx_stream_id := part 22 8 buf \<rparr> else rx)
      in rx\<lparr> peer := part 6 6 buf, last_rx_us := now \<rparr>)"

text \<open>Whether the sender restarted (or this is its first bundle), and starting over.\<close>

definition bundle_restarts :: "int \<Rightarrow> u16 \<Rightarrow> wifi_bundle_rx_t \<Rightarrow> bool" where
  "bundle_restarts now seq rx \<longleftrightarrow>
     (let stale = (held rx \<noteq> [] \<and> deadline_us rx \<noteq> 0 \<and> now - deadline_us rx > WIFI_BUNDLE_STALE_US);
          ahead = (if seeded rx then seq_diff seq (expected rx) else 0)
      in \<not> seeded rx \<or> stale \<or> ahead > 64 \<or> ahead < -64)"

definition bundle_resync :: "u16 \<Rightarrow> wifi_bundle_rx_t \<Rightarrow> wifi_bundle_rx_t" where
  "bundle_resync seq rx =
     rx\<lparr> held := [], deadline_us := 0, expected := seq, nack_next := seq, seeded := True \<rparr>"

definition bundle_hold ::
  "wifi_rx_env \<Rightarrow> int \<Rightarrow> u16 \<Rightarrow> octets \<Rightarrow> wifi_bundle_rx_t \<Rightarrow> wifi_bundle_rx_t" where
  "bundle_hold env now seq buf rx =
     (let rx = rx\<lparr> held := held rx @ [\<lparr> hb_seq = seq, hb_buf = buf \<rparr>] \<rparr>;
          rx = (if deadline_us rx = 0 then rx\<lparr> deadline_us := wifi_bundle_hold_until env rx now \<rparr> else rx)
      in if seq_diff (nack_next rx) (expected rx) < 0 then rx\<lparr> nack_next := expected rx \<rparr> else rx)"

definition bundle_nack ::
  "wifi_rx_env \<Rightarrow> int \<Rightarrow> u16 \<Rightarrow> wifi_bundle_rx_t \<times> wifi_rx_state \<Rightarrow> wifi_bundle_rx_t \<times> wifi_rx_state" where
  "bundle_nack env now seq = (\<lambda>(rx, w).
     let budget_us = deadline_us rx - now;
         (rx, w) = (if seq_diff seq (nack_next rx) > 0 then
                      if budget_us \<ge> WIFI_RETX_MIN_BUDGET_US
                      then (rx\<lparr> last_nack_us := now \<rparr>,
                            wifi_nack_send env now rx (nack_next rx) (seq_diff seq (nack_next rx)) budget_us w)
                      else (rx, w)
                    else if now - last_nack_us rx \<ge> WIFI_NACK_REPEAT_US \<and> budget_us \<ge> WIFI_RETX_MIN_BUDGET_US
                    then (rx\<lparr> last_nack_us := now \<rparr>, wifi_nack_send env now rx (expected rx) 1 budget_us w)
                    else (rx, w))
     in (if seq_diff (seq + 1) (nack_next rx) > 0 then rx\<lparr> nack_next := seq + 1 \<rparr> else rx, w))"

definition drain_into ::
  "wifi_rx_env \<Rightarrow> int \<Rightarrow> nat \<Rightarrow> wifi_bundle_rx_t \<Rightarrow> wifi_rx_state \<Rightarrow> wifi_rx_state option" where
  "drain_into env now i rx w =
     map_option (\<lambda>(rx, out). w\<lparr> s_bundle_rx := (s_bundle_rx w)[i := rx], delivered := out \<rparr>)
       (wifi_bundle_drain env now rx (delivered w))"

partial_function (option) wifi_bundle_receive ::
  "wifi_rx_env \<Rightarrow> int \<Rightarrow> octets \<Rightarrow> wifi_rx_state \<Rightarrow> wifi_rx_state option" where
  "wifi_bundle_receive env now buf w =
     (let seq = bundle_seq buf in
      case rx_slot now (part 22 8 buf) (s_bundle_rx w) of
        None \<Rightarrow> Some (w\<lparr> delivered := delivered w @ [buf] \<rparr>)
      | Some (i, fresh) \<Rightarrow>
          let rx = bundle_open now buf fresh (s_bundle_rx w ! i);
              rx = (if bundle_restarts now seq rx then bundle_resync seq rx else rx);
              ahead = seq_diff seq (expected rx)
          in if ahead < 0 then Some (w\<lparr> s_bundle_rx := (s_bundle_rx w)[i := rx] \<rparr>)
             else if ahead = 0 then
               let rx = rx\<lparr> expected := expected rx + 1 \<rparr>;
                   rx = (if seq_diff (expected rx) (nack_next rx) > 0
                         then rx\<lparr> nack_next := expected rx \<rparr> else rx)
               in drain_into env now i rx (w\<lparr> delivered := delivered w @ [buf] \<rparr>)
             else if \<exists>h \<in> set (held rx). hb_seq h = seq then drain_into env now i rx w
             else if length (held rx) \<ge> WIFI_BUNDLE_HOLD then
               Option.bind (drain_into env now i (rx\<lparr> deadline_us := now \<rparr>) w) (wifi_bundle_receive env now buf)
             else (case bundle_nack env now seq (bundle_hold env now seq buf rx, w) of
                     (rx, w) \<Rightarrow> drain_into env now i rx w))"

definition wifi_bundle_next_deadline :: "wifi_rx_state \<Rightarrow> int" where
  "wifi_bundle_next_deadline w = foreach WIFI_RX_STREAMS (\<lambda>i next.
     let rx = s_bundle_rx w ! i in
     if rx_valid rx \<and> held rx \<noteq> [] \<and> (next = 0 \<or> deadline_us rx < next) then deadline_us rx else next) 0"

definition wifi_bundle_poll :: "wifi_rx_env \<Rightarrow> int \<Rightarrow> wifi_rx_state \<Rightarrow> wifi_rx_state option" where
  "wifi_bundle_poll env now w = foreach WIFI_RX_STREAMS (\<lambda>i r. Option.bind r (\<lambda>w.
     let rx = s_bundle_rx w ! i in
     if rx_valid rx \<and> held rx \<noteq> [] \<and> now \<ge> deadline_us rx then drain_into env now i rx w else Some w)) (Some w)"

declare wifi_bundle_receive.simps [code] wifi_bundle_drain.simps [code]

end
