(* ===== verification/Wifi_Order.thy ===== *)
theory Wifi_Order
  imports Wifi_Reorder
begin

text \<open>
  What the reception of Wi-Fi bundles guarantees: the drain loop ends, bundles of a stream leave in
  sequence and at most once, a bundle held past a gap leaves when the gap is filled or its hold time
  is over, and the hold time is bounded.
\<close>

section \<open>Sequence arithmetic\<close>

text \<open>How far a sequence number is ahead of the expected one.\<close>

definition dist :: "u16 \<Rightarrow> u16 \<Rightarrow> nat" where
  "dist e q = unat (q - e)"

lemma dist_0 [simp]: "dist e q = 0 \<longleftrightarrow> q = e"
  by (simp add: dist_def unat_eq_0)

lemma dist_self [simp]: "dist e e = 0"
  by simp

lemma dist_pos [simp]: "0 < dist e q \<longleftrightarrow> q \<noteq> e"
  using dist_0 [of e q] by (metis gr0I less_numeral_extra(3))

lemma dist_less: "dist e q < 65536"
  unfolding dist_def by (rule unat_u16_less)

lemma dist_inj: "dist e a = dist e b \<Longrightarrow> a = b"
proof -
  assume "dist e a = dist e b"
  then have "a - e = b - e" by (simp add: dist_def word_unat_eq_iff)
  then show ?thesis by simp
qed

lemma wrap16:
  fixes x :: int
  assumes "0 \<le> x" and "x < 65536"
  shows "(x + 32768) mod 65536 - 32768 = (if x < 32768 then x else x - 65536)"
proof (cases "x < 32768")
  case False
  then have "(x - 32768 + 65536) mod 65536 = x - 32768"
    using assms by (subst mod_add_self2) (simp add: mod_pos_pos_trivial)
  moreover have "x + 32768 = x - 32768 + 65536" by simp
  ultimately show ?thesis using False by (simp only: if_False)
qed (use assms in \<open>simp add: mod_pos_pos_trivial\<close>)

lemma sint16:
  "sint (w :: u16) = (if unat w < 32768 then int (unat w) else int (unat w) - 65536)"
proof -
  have "uint w < 2 ^ LENGTH(16)" by (rule unsigned_less)
  then have u: "0 \<le> uint w" "uint w < 65536" by simp_all
  have "sint w = (uint w + 32768) mod 65536 - 32768"
    by (subst sint_uint, subst signed_take_bit_eq_take_bit_shift, subst take_bit_eq_mod) simp
  also have "\<dots> = (if uint w < 32768 then uint w else uint w - 65536)" by (rule wrap16 [OF u])
  finally show ?thesis using u(1) by (simp only: unat_eq_nat_uint nat_less_iff) simp
qed

lemma seq_diff_dist:
  assumes "dist e a < 16384" and "dist e b < 16384"
  shows "seq_diff a b = int (dist e a) - int (dist e b)"
proof -
  let ?x = "int (dist e a) - int (dist e b)"
  have "a - b = (word_of_int (int (dist e a)) - word_of_int (int (dist e b)) :: u16)"
    by (simp add: dist_def)
  also have "\<dots> = word_of_int ?x" by (simp only: of_int_diff)
  finally have "sint (a - b) = sint (word_of_int ?x :: u16)" by (rule arg_cong)
  also have "\<dots> = signed_take_bit 15 ?x" by (simp only: signed_of_int) simp
  also have "\<dots> = ?x" using assms by (simp add: signed_take_bit_int_eq_self)
  finally show ?thesis by (simp add: seq_diff_def)
qed

lemma seq_diff_ahead: "seq_diff a e = (if dist e a < 32768 then int (dist e a) else int (dist e a) - 65536)"
  by (simp only: seq_diff_def dist_def sint16)

lemma seq_diff_eq0: "seq_diff a e = 0 \<longleftrightarrow> a = e"
proof -
  have "dist e a < 65536" using unat_u16_less by (simp add: dist_def)
  then have "seq_diff a e = 0 \<longleftrightarrow> dist e a = 0" unfolding seq_diff_ahead by (simp del: dist_0)
  then show ?thesis by simp
qed

lemma dist_shift:
  assumes "dist e d \<le> dist e q" shows "dist e q = dist e d + dist d q"
proof -
  have "q - e = (d - e) + (q - d)" by simp
  then have "unat (q - d) = unat (q - e) - unat (d - e)"
    using assms unat_sub [of "d - e" "q - e"] by (simp add: dist_def word_le_nat_alt)
  then show ?thesis using assms by (simp add: dist_def)
qed

lemma dist_Suc: "q \<noteq> e \<Longrightarrow> dist (e + 1) q = dist e q - 1"
proof -
  assume "q \<noteq> e"
  then have "dist e q \<noteq> 0" by simp
  then have "unat (q - e - 1) = unat (q - e) - 1"
    using unat_sub [of 1 "q - e"] by (simp add: dist_def word_le_nat_alt)
  then show ?thesis by (simp add: dist_def diff_diff_add add.commute)
qed

section \<open>Scans of the held bundles\<close>

lemma fold_last_index:
  "case fold (\<lambda>i r. if P i then Some i else r) [0..<n] None of
     None \<Rightarrow> \<forall>i<n. \<not> P i | Some k \<Rightarrow> k < n \<and> P k"
proof (induction n)
  case (Suc n)
  then show ?case by (auto simp: less_Suc_eq split: option.splits)
qed simp

lemma next_held_None: "next_held rx = None \<Longrightarrow> h \<in> set (held rx) \<Longrightarrow> hb_seq h \<noteq> expected rx"
  using fold_last_index [where P = "\<lambda>i. hb_seq (held rx ! i) = expected rx" and n = "length (held rx)"]
  by (auto simp: next_held_def in_set_conv_nth)

lemma next_held_Some:
  "next_held rx = Some k \<Longrightarrow> k < length (held rx) \<and> hb_seq (held rx ! k) = expected rx"
  using fold_last_index [where P = "\<lambda>i. hb_seq (held rx ! i) = expected rx" and n = "length (held rx)"]
  by (simp add: next_held_def)

lemma next_held_ex: "\<lbrakk>h \<in> set (held rx); hb_seq h = expected rx\<rbrakk> \<Longrightarrow> \<exists>k. next_held rx = Some k"
  using next_held_None by (cases "next_held rx") auto

lemma lowest_prefix:
  assumes "\<forall>h \<in> set hs. dist e (hb_seq h) < 16384" and "n \<le> length hs"
  shows "case fold (\<lambda>i r. case r of None \<Rightarrow> Some i
     | Some j \<Rightarrow> if seq_diff (hb_seq (hs ! i)) (hb_seq (hs ! j)) < 0 then Some i else Some j) [0..<n] None of
       None \<Rightarrow> n = 0 | Some j \<Rightarrow> j < n \<and> (\<forall>i<n. dist e (hb_seq (hs ! j)) \<le> dist e (hb_seq (hs ! i)))"
  using assms(2)
proof (induction n)
  case (Suc n)
  have d: "seq_diff (hb_seq (hs ! i)) (hb_seq (hs ! j)) = int (dist e (hb_seq (hs ! i))) - int (dist e (hb_seq (hs ! j)))"
    if "i < length hs" "j < length hs" for i j
    using assms(1) that by (intro seq_diff_dist) auto
  define r where "r = fold (\<lambda>i r. case r of None \<Rightarrow> Some i
     | Some j \<Rightarrow> if seq_diff (hb_seq (hs ! i)) (hb_seq (hs ! j)) < 0 then Some i else Some j) [0..<n] None"
  show ?case
  proof (cases r)
    case (Some j)
    then have j: "j < n" "\<And>i. i < n \<Longrightarrow> dist e (hb_seq (hs ! j)) \<le> dist e (hb_seq (hs ! i))"
      using Suc by (auto simp: r_def)
    show ?thesis using Some j d [of n j] Suc.prems
      by (auto simp: r_def [symmetric] less_Suc_eq intro: order_trans [OF less_imp_le])
  qed (use Suc in \<open>auto simp: r_def\<close>)
qed simp

lemma lowest_held_spec:
  assumes "\<forall>h \<in> set hs. dist e (hb_seq h) < 16384" and "hs \<noteq> []"
  obtains j where "lowest_held hs = Some j" "j < length hs"
    "\<forall>h \<in> set hs. dist e (hb_seq (hs ! j)) \<le> dist e (hb_seq h)"
proof -
  have "case lowest_held hs of None \<Rightarrow> length hs = 0
    | Some j \<Rightarrow> j < length hs \<and> (\<forall>i<length hs. dist e (hb_seq (hs ! j)) \<le> dist e (hb_seq (hs ! i)))"
    using lowest_prefix [OF assms(1) order_refl] by (simp only: lowest_held_def)
  with assms(2) obtain j where "lowest_held hs = Some j" "j < length hs"
    "\<forall>i<length hs. dist e (hb_seq (hs ! j)) \<le> dist e (hb_seq (hs ! i))"
    by (cases "lowest_held hs") auto
  then show ?thesis by (intro that) (auto simp: in_set_conv_nth)
qed

lemma mset_held_remove:
  assumes "k < length hs"
  shows "mset hs = add_mset (hs ! k) (mset (held_remove k hs))"
proof -
  let ?xs = "hs[k := last hs]"
  have ne: "?xs \<noteq> []" "hs \<noteq> []" using assms by auto
  then have l: "last ?xs = last hs" using assms by (simp add: last_conv_nth nth_list_update)
  have "mset ?xs = mset (butlast ?xs @ [last ?xs])" using ne(1) by simp
  then have "mset ?xs = add_mset (last hs) (mset (held_remove k hs))"
    by (simp add: held_remove_def l)
  moreover have "mset ?xs = add_mset (last hs) (mset hs - {#hs ! k#})" using assms by (simp add: mset_update)
  ultimately have "mset (held_remove k hs) = mset hs - {#hs ! k#}" by simp
  then show ?thesis using assms by (simp only: insert_DiffM nth_mem set_mset_mset)
qed

section \<open>The drain loop\<close>

text \<open>\<open>in_order e qs e'\<close>: the sequence numbers \<open>qs\<close> leave in order when \<open>e\<close> is expected, each at
  most 64 ahead of what was expected then, and \<open>e'\<close> is expected afterwards.  In particular none
  of them repeats or comes after a later one.\<close>

fun in_order :: "u16 \<Rightarrow> u16 list \<Rightarrow> u16 \<Rightarrow> bool" where
  "in_order e [] e' \<longleftrightarrow> e' = e"
| "in_order e (q # qs) e' \<longleftrightarrow> dist e q \<le> 64 \<and> in_order (q + 1) qs e'"

lemma in_order_append:
  "in_order e (qs @ rs) e'' \<longleftrightarrow> (\<exists>e'. in_order e qs e' \<and> in_order e' rs e'')"
  by (induction qs arbitrary: e) auto

text \<open>The held bundles: distinct, each with its own sequence number, between \<open>lo\<close> and 64 ahead.\<close>

definition held_ok :: "nat \<Rightarrow> u16 \<Rightarrow> wifi_held_bundle_t list \<Rightarrow> bool" where
  "held_ok lo e hs \<longleftrightarrow> distinct (map hb_seq hs)
     \<and> (\<forall>h \<in> set hs. lo \<le> dist e (hb_seq h) \<and> dist e (hb_seq h) \<le> 64 \<and> bundle_seq (hb_buf h) = hb_seq h)"

lemma held_ok_perm: "mset hs = mset hs' \<Longrightarrow> held_ok lo e hs = held_ok lo e hs'"
  using mset_eq_imp_distinct_iff [of "map hb_seq hs" "map hb_seq hs'"] mset_eq_setD [of hs hs']
  by (simp add: held_ok_def)

lemma held_ok_step:
  assumes "held_ok 0 e hs" and "k < length hs" and "hb_seq (hs ! k) = e"
  shows "held_ok 0 (e + 1) (held_remove k hs)"
proof -
  have "mset hs = mset (hs ! k # held_remove k hs)" using mset_held_remove [OF assms(2)] by simp
  then have "held_ok 0 e (hs ! k # held_remove k hs)" using held_ok_perm assms(1) by blast
  then have "\<forall>h \<in> set (held_remove k hs). hb_seq h \<noteq> e \<and> dist e (hb_seq h) \<le> 64 \<and> bundle_seq (hb_buf h) = hb_seq h"
    "distinct (map hb_seq (held_remove k hs))"
    using assms(3) by (auto simp: held_ok_def image_iff)
  then show ?thesis by (auto simp: held_ok_def dist_Suc)
qed

lemma held_ok_jump:
  assumes "held_ok 0 e hs" and "j < length hs"
    and "\<forall>h \<in> set hs. dist e (hb_seq (hs ! j)) \<le> dist e (hb_seq h)"
  shows "held_ok 0 (hb_seq (hs ! j)) hs"
proof -
  have "dist (hb_seq (hs ! j)) (hb_seq h) \<le> 64" if "h \<in> set hs" for h
    using dist_shift [of e "hb_seq (hs ! j)" "hb_seq h"] assms(1,3) that
    by (force simp: held_ok_def)
  with assms(1) show ?thesis by (simp add: held_ok_def)
qed

text \<open>What one drain does: it returns; it delivers a part \<open>hs\<close> of the held bundles in order and keeps
  the rest, none of which is due.\<close>

definition drained :: "wifi_rx_env \<Rightarrow> int \<Rightarrow> wifi_bundle_rx_t \<Rightarrow> wifi_bundle_rx_t \<Rightarrow> wifi_held_bundle_t list \<Rightarrow> bool" where
  "drained env now rx rx' hs \<longleftrightarrow>
     in_order (expected rx) (map hb_seq hs) (expected rx')
   \<and> mset (held rx) = mset hs + mset (held rx') \<and> held_ok 1 (expected rx') (held rx')
   \<and> rx' = rx\<lparr> held := held rx', expected := expected rx', deadline_us := deadline_us rx' \<rparr>
   \<and> (if held rx' = [] then deadline_us rx' = 0
      else now < deadline_us rx' \<and> deadline_us rx' \<le> max (deadline_us rx) (now + WIFI_BUNDLE_HOLD_US env))
   \<and> (hs = [] \<and> held rx \<noteq> [] \<longrightarrow> now < deadline_us rx)"

lemma hold_until_bounds:
  assumes "WIFI_HOLD_MIN_US \<le> WIFI_BUNDLE_HOLD_US env"
  shows "now + WIFI_HOLD_MIN_US \<le> wifi_bundle_hold_until env rx now"
    and "wifi_bundle_hold_until env rx now \<le> now + WIFI_BUNDLE_HOLD_US env"
  using assms by (auto simp: wifi_bundle_hold_until_def Let_def)

lemma held_ok_due:
  "held_ok 0 e hs \<Longrightarrow> (\<forall>h \<in> set hs. hb_seq h \<noteq> e) \<Longrightarrow> held_ok 1 e hs"
  by (auto simp: held_ok_def Suc_le_eq)

text \<open>One round that delivers, and one that gives up on the gap.\<close>

lemma drain_deliver:
  assumes "next_held rx = Some k"
  shows "wifi_bundle_drain env now rx out =
    wifi_bundle_drain env now (rx\<lparr> held := held_remove k (held rx), expected := expected rx + 1,
      deadline_us := (if held_remove k (held rx) \<noteq> [] then wifi_bundle_hold_until env
        (rx\<lparr> held := held_remove k (held rx), expected := expected rx + 1 \<rparr>) now else 0) \<rparr>)
      (out @ [hb_buf (held rx ! k)])"
  by (subst wifi_bundle_drain.simps) (simp add: assms Let_def)

lemma drain_give_up:
  assumes "next_held rx = None" and "held rx \<noteq> []" and "deadline_us rx \<le> now"
  shows "wifi_bundle_drain env now rx out =
    wifi_bundle_drain env now (rx\<lparr> expected := hb_seq (held rx ! the (lowest_held (held rx))),
      deadline_us := wifi_bundle_hold_until env
        (rx\<lparr> expected := hb_seq (held rx ! the (lowest_held (held rx))) \<rparr>) now \<rparr>) out"
  using assms(2,3) by (subst wifi_bundle_drain.simps) (simp add: assms(1) Let_def)

lemma drain_ends:
  assumes "next_held rx = None" and "held rx = [] \<or> now < deadline_us rx"
  shows "wifi_bundle_drain env now rx out =
    Some (if held rx = [] then rx\<lparr> deadline_us := 0 \<rparr> else rx, out)"
  using assms(2) by (subst wifi_bundle_drain.simps) (auto simp: assms(1))

text \<open>The rounds of a drain: each delivers the expected bundle.\<close>

lemma drain_spec:
  assumes "held_ok 0 (expected rx) (held rx)" and "WIFI_HOLD_MIN_US \<le> WIFI_BUNDLE_HOLD_US env"
  shows "\<exists>rx' hs. wifi_bundle_drain env now rx out = Some (rx', out @ map hb_buf hs) \<and> drained env now rx rx' hs"
  using assms(1)
proof (induction "length (held rx)" arbitrary: rx out rule: less_induct)
  case less
  have until: "now < wifi_bundle_hold_until env r now"
    "wifi_bundle_hold_until env r now \<le> now + WIFI_BUNDLE_HOLD_US env" for r
    using hold_until_bounds [OF assms(2), where now = now and rx = r] by (simp_all add: WIFI_HOLD_MIN_US_def)
  have deliver: "\<exists>rx' hs. wifi_bundle_drain env now r out = Some (rx', out @ map hb_buf hs)
      \<and> drained env now r rx' hs \<and> hs \<noteq> [] \<and> hb_seq (hd hs) = expected r"
    if r: "held_ok 0 (expected r) (held r)" "next_held r = Some k" "length (held r) = length (held rx)" for r k
  proof -
    let ?h = "held r ! k"
    define r2 where "r2 = r\<lparr> held := held_remove k (held r), expected := expected r + 1,
      deadline_us := (if held_remove k (held r) \<noteq> [] then wifi_bundle_hold_until env
        (r\<lparr> held := held_remove k (held r), expected := expected r + 1 \<rparr>) now else 0) \<rparr>"
    note k = next_held_Some [OF r(2)]
    have m: "mset (held r) = add_mset ?h (mset (held r2))"
      using mset_held_remove k by (simp add: r2_def)
    then have "length (held r2) < length (held rx)"
      using r(3) by (metis size_mset size_add_mset lessI)
    moreover have "held_ok 0 (expected r2) (held r2)" using held_ok_step [OF r(1)] k by (simp add: r2_def)
    ultimately obtain rx' hs where d: "wifi_bundle_drain env now r2 (out @ [hb_buf ?h])
        = Some (rx', (out @ [hb_buf ?h]) @ map hb_buf hs)" "drained env now r2 rx' hs"
      using less(1) by blast
    have "wifi_bundle_drain env now r out = Some (rx', out @ map hb_buf (?h # hs))"
      using drain_deliver [OF r(2), of env now out] d(1) by (simp add: r2_def)
    moreover have "drained env now r rx' (?h # hs)"
      using d(2) m k until(2) [of "r\<lparr> held := held_remove k (held r), expected := expected r + 1 \<rparr>"]
      by (auto simp: drained_def r2_def max_def split: if_splits)
    ultimately show ?thesis using k by force
  qed
  show ?case
  proof (cases "next_held rx")
    case (Some k)
    then show ?thesis using deliver [of rx k] less(2) by blast
  next
    case None
    show ?thesis
    proof (cases "held rx = [] \<or> now < deadline_us rx")
      case True
      have "held_ok 1 (expected rx) (held rx)" using held_ok_due [OF less(2)] next_held_None [OF None] by blast
      then have "drained env now rx (if held rx = [] then rx\<lparr> deadline_us := 0 \<rparr> else rx) []"
        using True by (auto simp: drained_def)
      then show ?thesis using drain_ends [OF None True, of env out] by force
    next
      case False
      have "\<forall>h \<in> set (held rx). dist (expected rx) (hb_seq h) < 16384" using less(2) by (auto simp: held_ok_def)
      then obtain j where j: "lowest_held (held rx) = Some j" "j < length (held rx)"
          "\<forall>h \<in> set (held rx). dist (expected rx) (hb_seq (held rx ! j)) \<le> dist (expected rx) (hb_seq h)"
        using lowest_held_spec False by metis
      define r where "r = rx\<lparr> expected := hb_seq (held rx ! j),
        deadline_us := wifi_bundle_hold_until env (rx\<lparr> expected := hb_seq (held rx ! j) \<rparr>) now \<rparr>"
      have r: "held_ok 0 (expected r) (held r)" using held_ok_jump [OF less(2) j(2,3)] by (simp add: r_def)
      have "held rx ! j \<in> set (held r)" "hb_seq (held rx ! j) = expected r" using j(2) by (simp_all add: r_def)
      then obtain k where "next_held r = Some k" using next_held_ex by blast
      then obtain rx' hs where d: "wifi_bundle_drain env now r out = Some (rx', out @ map hb_buf hs)"
          "drained env now r rx' hs" "hs \<noteq> []" "hb_seq (hd hs) = expected r"
        using deliver [OF r] by (auto simp: r_def)
      have "dist (expected rx) (hb_seq (held rx ! j)) \<le> 64" using less(2) j(2) by (simp add: held_ok_def)
      then have "drained env now rx rx' hs"
        using d(2-4) until(2) [of "rx\<lparr> expected := hb_seq (held rx ! j) \<rparr>"]
        by (cases hs) (auto simp: drained_def r_def max_def split: if_splits)
      moreover have "wifi_bundle_drain env now rx out = Some (rx', out @ map hb_buf hs)"
        using drain_give_up [OF None, of now env out] False d(1) j(1) by (simp add: r_def)
      ultimately show ?thesis by blast
    qed
  qed
qed

section \<open>Receiving\<close>

definition rx_ok :: "wifi_bundle_rx_t \<Rightarrow> bool" where
  "rx_ok rx \<longleftrightarrow> held_ok 1 (expected rx) (held rx) \<and> length (held rx) \<le> WIFI_BUNDLE_HOLD"

lemma held_ok_weaken: "held_ok 1 e hs \<Longrightarrow> held_ok 0 e hs"
  by (simp add: held_ok_def)

lemma held_ok_pass:
  assumes "held_ok 1 e hs" shows "held_ok 0 (e + 1) hs"
proof -
  have "dist (e + 1) (hb_seq h) \<le> 64" if "h \<in> set hs" for h
  proof -
    have "1 \<le> dist e (hb_seq h)" "dist e (hb_seq h) \<le> 64" using assms that by (simp_all add: held_ok_def)
    then show ?thesis using dist_Suc [of "hb_seq h" e] by fastforce
  qed
  with assms show ?thesis by (simp add: held_ok_def)
qed

lemma dist_Suc_q: "dist e q \<le> 64 \<Longrightarrow> dist e (q + 1) = dist e q + 1"
proof -
  assume "dist e q \<le> 64"
  then have "unat (q - e) \<le> 64" by (simp only: dist_def)
  then have "unat ((q - e) + 1) = unat (q - e) + 1" using unat_word_ariths(1) [of "q - e" 1] by simp
  moreover have "q + 1 - e = (q - e) + 1" by simp
  ultimately show ?thesis by (simp only: dist_def)
qed

lemma in_order_last: "in_order e qs e' \<Longrightarrow> qs \<noteq> [] \<Longrightarrow> e' = last qs + 1"
  by (induction qs arbitrary: e) auto

text \<open>From \<open>rx\<close> to \<open>rx'\<close> the bundles \<open>ds\<close> leave in order, and nothing else is lost.\<close>

definition moved :: "wifi_bundle_rx_t \<Rightarrow> wifi_bundle_rx_t \<Rightarrow> octets list \<Rightarrow> bool" where
  "moved rx rx' ds \<longleftrightarrow>
     in_order (expected rx) (map bundle_seq ds) (expected rx') \<and> rx_ok rx'
   \<and> rx_valid rx' = rx_valid rx \<and> rx_stream_id rx' = rx_stream_id rx \<and> seeded rx' = seeded rx
   \<and> mset ds + mset (map hb_buf (held rx')) = mset (map hb_buf (held rx))"

text \<open>The outcome of one bundle for the entry of its stream: \<open>ds\<close> leave, in order; nothing but the
  held bundles and this one leaves or stays, and this one is dropped only when its place is
  already past or taken.\<close>

definition received :: "octets \<Rightarrow> wifi_bundle_rx_t \<Rightarrow> wifi_bundle_rx_t \<Rightarrow> octets list \<Rightarrow> bool" where
  "received buf rx rx' ds \<longleftrightarrow>
     in_order (expected rx) (map bundle_seq ds) (expected rx') \<and> rx_ok rx'
   \<and> rx_valid rx' = rx_valid rx \<and> rx_stream_id rx' = rx_stream_id rx \<and> seeded rx' = seeded rx
   \<and> (mset ds + mset (map hb_buf (held rx')) = mset (map hb_buf (held rx)) + {#buf#}
      \<or> mset ds + mset (map hb_buf (held rx')) = mset (map hb_buf (held rx))
        \<and> (seq_diff (bundle_seq buf) (expected rx') < 0 \<or> (\<exists>h \<in> set (held rx). hb_seq h = bundle_seq buf)))"

lemma drained_moved:
  assumes "drained env now rx rx' hs" and "length (held rx) \<le> WIFI_BUNDLE_HOLD"
    and "\<forall>h \<in> set (held rx). bundle_seq (hb_buf h) = hb_seq h"
  shows "moved rx rx' (map hb_buf hs)"
proof -
  have m: "mset (held rx) = mset hs + mset (held rx')" and r: "rx' = rx\<lparr> held := held rx', expected := expected rx', deadline_us := deadline_us rx' \<rparr>"
    using assms(1) by (simp_all add: drained_def)
  have "set hs \<subseteq> set (held rx)" using arg_cong [OF m, of set_mset] by auto
  then have "map bundle_seq (map hb_buf hs) = map hb_seq hs" using assms(3) by auto
  then have "in_order (expected rx) (map bundle_seq (map hb_buf hs)) (expected rx')"
    using assms(1) by (simp only: drained_def)
  moreover have "length (held rx') \<le> length (held rx)" using arg_cong [OF m, of size] by simp
  then have "rx_ok rx'" using assms(1,2) by (simp add: rx_ok_def drained_def)
  moreover have "rx_valid rx' = rx_valid rx" "rx_stream_id rx' = rx_stream_id rx" "seeded rx' = seeded rx"
    by (subst r, simp)+
  moreover have "mset (map hb_buf hs) + mset (map hb_buf (held rx')) = mset (map hb_buf (held rx))"
    using arg_cong [OF m, of "image_mset hb_buf"] by simp
  ultimately show ?thesis by (simp only: moved_def)
qed

lemma nack_send_keeps [simp]:
  "s_bundle_rx (wifi_nack_send env now rx f m b w) = s_bundle_rx w"
  "delivered (wifi_nack_send env now rx f m b w) = delivered w"
  by (simp_all add: wifi_nack_send_def wifi_nack_rate_ok_def Let_def split: option.split prod.split)

lemma bundle_nack_keeps:
  assumes "bundle_nack env now seq (rx, w) = (rx', w')"
  shows "s_bundle_rx w' = s_bundle_rx w" "delivered w' = delivered w" "expected rx' = expected rx"
    "held rx' = held rx" "rx_valid rx' = rx_valid rx" "rx_stream_id rx' = rx_stream_id rx"
    "seeded rx' = seeded rx" "deadline_us rx' = deadline_us rx"
  using assms by (auto simp: bundle_nack_def Let_def split: if_splits prod.splits)

lemma bundle_hold_keeps [simp]:
  "held (bundle_hold env now seq buf rx) = held rx @ [\<lparr> hb_seq = seq, hb_buf = buf \<rparr>]"
  "expected (bundle_hold env now seq buf rx) = expected rx"
  "rx_valid (bundle_hold env now seq buf rx) = rx_valid rx"
  "rx_stream_id (bundle_hold env now seq buf rx) = rx_stream_id rx"
  "seeded (bundle_hold env now seq buf rx) = seeded rx"
  by (simp_all add: bundle_hold_def Let_def)

text \<open>The entry a bundle meets: the stream's, restarted when need be.\<close>

definition rx_met :: "int \<Rightarrow> octets \<Rightarrow> bool \<Rightarrow> wifi_bundle_rx_t \<Rightarrow> wifi_bundle_rx_t" where
  "rx_met now buf fresh rx =
     (let rx = bundle_open now buf fresh rx; seq = bundle_seq buf
      in if bundle_restarts now seq rx then bundle_resync seq rx else rx)"

lemma rx_met_near: "- 64 \<le> seq_diff (bundle_seq buf) (expected (rx_met now buf fresh rx))"
  "seq_diff (bundle_seq buf) (expected (rx_met now buf fresh rx)) \<le> 64"
  by (auto simp: rx_met_def Let_def bundle_restarts_def bundle_resync_def seq_diff_def split: if_splits)

lemma rx_met_ok: "rx_ok rx \<Longrightarrow> rx_ok (rx_met now buf fresh rx)"
  by (auto simp: rx_met_def Let_def bundle_resync_def bundle_open_def rx_ok_def held_ok_def bundle_rx_zero_def)

lemma rx_met_open [simp]:
  "peer (rx_met now buf fresh rx) = part 6 6 buf" "last_rx_us (rx_met now buf fresh rx) = now"
  by (simp_all add: rx_met_def Let_def bundle_resync_def bundle_open_def)

lemma rx_met_fields:
  "rx_valid (rx_met now buf fresh rx) = (fresh \<or> rx_valid rx)"
  "rx_stream_id (rx_met now buf fresh rx) = (if fresh then part 22 8 buf else rx_stream_id rx)"
  "seeded (rx_met now buf fresh rx)"
  by (auto simp: rx_met_def Let_def bundle_resync_def bundle_open_def bundle_restarts_def bundle_rx_zero_def)

lemma receive_eq:
  assumes "rx_slot now (part 22 8 buf) (s_bundle_rx w) = Some (i, fresh)"
    and "rx = rx_met now buf fresh (s_bundle_rx w ! i)"
  shows "wifi_bundle_receive env now buf w =
    (let ahead = seq_diff (bundle_seq buf) (expected rx) in
     if ahead < 0 then Some (w\<lparr> s_bundle_rx := (s_bundle_rx w)[i := rx] \<rparr>)
     else if ahead = 0 then
       let rx = rx\<lparr> expected := expected rx + 1 \<rparr>;
           rx = (if seq_diff (expected rx) (nack_next rx) > 0 then rx\<lparr> nack_next := expected rx \<rparr> else rx)
       in drain_into env now i rx (w\<lparr> delivered := delivered w @ [buf] \<rparr>)
     else if \<exists>h \<in> set (held rx). hb_seq h = bundle_seq buf then drain_into env now i rx w
     else if length (held rx) \<ge> WIFI_BUNDLE_HOLD then
       Option.bind (drain_into env now i (rx\<lparr> deadline_us := now \<rparr>) w) (wifi_bundle_receive env now buf)
     else (case bundle_nack env now (bundle_seq buf) (bundle_hold env now (bundle_seq buf) buf rx, w) of
             (rx, w) \<Rightarrow> drain_into env now i rx w))"
  by (subst wifi_bundle_receive.simps)
    (simp only: assms rx_met_def Let_def option.case prod.case)

text \<open>A drain of an entry whose held bundles are in order.\<close>

lemma drain_into_spec:
  assumes "held_ok 0 (expected rx) (held rx)" and "length (held rx) \<le> WIFI_BUNDLE_HOLD"
    and "WIFI_HOLD_MIN_US \<le> WIFI_BUNDLE_HOLD_US env"
  obtains rx' hs where "drain_into env now i rx w = Some (w\<lparr> s_bundle_rx := (s_bundle_rx w)[i := rx'],
           delivered := delivered w @ map hb_buf hs \<rparr>)"
    "drained env now rx rx' hs" "moved rx rx' (map hb_buf hs)"
proof -
  obtain rx' hs where d: "wifi_bundle_drain env now rx (delivered w) = Some (rx', delivered w @ map hb_buf hs)"
      "drained env now rx rx' hs"
    using drain_spec [OF assms(1,3)] by blast
  have "\<forall>h \<in> set (held rx). bundle_seq (hb_buf h) = hb_seq h" using assms(1) by (simp add: held_ok_def)
  from that [OF _ d(2) drained_moved [OF d(2) assms(2) this]] d(1) show ?thesis by (simp add: drain_into_def)
qed

text \<open>All ways through the handler but the full hold.\<close>

lemma receive_direct:
  fixes buf
  assumes "rx_slot now (part 22 8 buf) (s_bundle_rx w) = Some (i, fresh)"
    and "rx_ok (s_bundle_rx w ! i)" and "WIFI_HOLD_MIN_US \<le> WIFI_BUNDLE_HOLD_US env"
  defines "rx \<equiv> rx_met now buf fresh (s_bundle_rx w ! i)"
  assumes "seq_diff (bundle_seq buf) (expected rx) \<le> 0 \<or> (\<exists>h \<in> set (held rx). hb_seq h = bundle_seq buf)
      \<or> length (held rx) < WIFI_BUNDLE_HOLD"
  shows "\<exists>w' rx' ds. wifi_bundle_receive env now buf w = Some w' \<and> received buf rx rx' ds
     \<and> s_bundle_rx w' = (s_bundle_rx w)[i := rx'] \<and> delivered w' = delivered w @ ds"
proof -
  let ?q = "bundle_seq buf"
  have ok: "rx_ok rx" using rx_met_ok [OF assms(2)] by (simp add: rx_def)
  then have ok0: "held_ok 0 (expected rx) (held rx)" "length (held rx) \<le> WIFI_BUNDLE_HOLD"
    using held_ok_weaken by (simp_all add: rx_ok_def)
  note eq = receive_eq [OF assms(1) rx_def [THEN meta_eq_to_obj_eq], of env]
  consider "seq_diff ?q (expected rx) < 0" | "seq_diff ?q (expected rx) = 0"
    | "seq_diff ?q (expected rx) > 0" "\<exists>h \<in> set (held rx). hb_seq h = ?q"
    | "seq_diff ?q (expected rx) > 0" "\<not> (\<exists>h \<in> set (held rx). hb_seq h = ?q)" "length (held rx) < WIFI_BUNDLE_HOLD"
    using assms(5) by linarith
  then show ?thesis
  proof cases
    case 1
    then show ?thesis using ok by (force simp: eq Let_def received_def)
  next
    case 2
    then have q: "?q = expected rx" by (simp add: seq_diff_eq0)
    define r where "r = (let rx = rx\<lparr> expected := expected rx + 1 \<rparr>
      in if seq_diff (expected rx) (nack_next rx) > 0 then rx\<lparr> nack_next := expected rx \<rparr> else rx)"
    have r: "held r = held rx" "expected r = expected rx + 1" "rx_valid r = rx_valid rx"
      "rx_stream_id r = rx_stream_id rx" "seeded r = seeded rx" by (simp_all add: r_def Let_def)
    let ?w = "w\<lparr> delivered := delivered w @ [buf] \<rparr>"
    have h: "held_ok 0 (expected r) (held r)" "length (held r) \<le> WIFI_BUNDLE_HOLD"
      using ok held_ok_pass ok0(2) by (simp_all add: rx_ok_def r)
    obtain rx' hs where d: "drain_into env now i r ?w = Some (?w\<lparr> s_bundle_rx := (s_bundle_rx ?w)[i := rx'],
          delivered := delivered ?w @ map hb_buf hs \<rparr>)" "drained env now r rx' hs" "moved r rx' (map hb_buf hs)"
      by (rule drain_into_spec [OF h assms(3)])
    have "wifi_bundle_receive env now buf w = drain_into env now i r (w\<lparr> delivered := delivered w @ [buf] \<rparr>)"
      using 2 by (simp add: eq r_def Let_def)
    moreover have "received buf rx rx' (buf # map hb_buf hs)"
      using d(3) r q by (simp add: received_def moved_def)
    ultimately show ?thesis using d(1) by force
  next
    case 3
    obtain rx' hs where d: "drain_into env now i rx w = Some (w\<lparr> s_bundle_rx := (s_bundle_rx w)[i := rx'],
           delivered := delivered w @ map hb_buf hs \<rparr>)" "drained env now rx rx' hs" "moved rx rx' (map hb_buf hs)"
      by (rule drain_into_spec [OF ok0 assms(3)])
    have "received buf rx rx' (map hb_buf hs)" using d(3) 3(2) by (simp add: received_def moved_def)
    with d(1) 3 show ?thesis by (force simp: eq Let_def)
  next
    case 4
    obtain r w1 where n: "bundle_nack env now ?q (bundle_hold env now ?q buf rx, w) = (r, w1)"
      by (cases "bundle_nack env now ?q (bundle_hold env now ?q buf rx, w)")
    note k = bundle_nack_keeps [OF n]
    have near: "dist (expected rx) ?q \<le> 64"
      using 4(1) rx_met_near(2) [of buf now fresh "s_bundle_rx w ! i"]
        dist_less [of "expected rx" ?q]
      by (simp add: rx_def [symmetric] seq_diff_ahead split: if_splits)
    have h: "held_ok 0 (expected r) (held r)"
      using ok near 4(2) by (auto simp: k rx_ok_def held_ok_def)
    have "length (held r) \<le> WIFI_BUNDLE_HOLD" using 4(3) by (simp add: k)
    obtain rx' hs where d: "drain_into env now i r w1 = Some (w1\<lparr> s_bundle_rx := (s_bundle_rx w1)[i := rx'],
           delivered := delivered w1 @ map hb_buf hs \<rparr>)" "drained env now r rx' hs" "moved r rx' (map hb_buf hs)"
      by (rule drain_into_spec [OF h \<open>length (held r) \<le> WIFI_BUNDLE_HOLD\<close> assms(3)])
    have "wifi_bundle_receive env now buf w = drain_into env now i r w1"
      using 4 by (simp add: eq Let_def n)
    moreover have "received buf rx rx' (map hb_buf hs)" using d(3) by (simp add: received_def moved_def k)
    ultimately show ?thesis using d(1) by (force simp: k)
  qed
qed

text \<open>With a full hold the gap is given up first; the bundle then finds room.\<close>

lemma first_index_update:
  assumes "first_index P n = Some i" and "\<And>j. j < i \<Longrightarrow> Q j = P j" and "Q i"
  shows "first_index Q n = Some i"
  using first_index_SomeD [OF assms(1)] assms(2,3) by (intro first_index_SomeI) auto

lemma rx_slot_again:
  assumes "rx_slot now sid rxs = Some (i, fresh)" and "i < length rxs"
    and "rx_valid rx'" "rx_stream_id rx' = sid"
  shows "rx_slot now sid (rxs[i := rx']) = Some (i, False)"
proof (cases fresh)
  case False
  then have "first_index (\<lambda>i. rx_valid (rxs ! i) \<and> rx_stream_id (rxs ! i) = sid) WIFI_RX_STREAMS = Some i"
    using assms(1) by (simp add: rx_slot_def split: option.splits)
  from first_index_update [OF this] show ?thesis using assms(2-4)
    by (simp add: rx_slot_def)
next
  case True
  then have n: "first_index (\<lambda>i. rx_valid (rxs ! i) \<and> rx_stream_id (rxs ! i) = sid) WIFI_RX_STREAMS = None"
    and i: "i < WIFI_RX_STREAMS"
    using assms(1) by (auto simp: rx_slot_def dest: first_index_SomeD split: option.splits)
  have "first_index (\<lambda>j. rx_valid (rxs[i := rx'] ! j) \<and> rx_stream_id (rxs[i := rx'] ! j) = sid) WIFI_RX_STREAMS = Some i"
    using n i assms(2-4) by (intro first_index_SomeI) (auto simp: first_index_None)
  then show ?thesis by (simp add: rx_slot_def)
qed

lemma slot_stream:
  assumes "rx_slot now sid rxs = Some (i, fresh)"
  shows "i < WIFI_RX_STREAMS" and "\<not> fresh \<Longrightarrow> rx_valid (rxs ! i) \<and> rx_stream_id (rxs ! i) = sid"
  using assms by (auto simp: rx_slot_def split: option.splits dest: first_index_SomeD)

lemma receive_full:
  fixes buf
  assumes "rx_slot now (part 22 8 buf) (s_bundle_rx w) = Some (i, fresh)"
    and "rx_ok (s_bundle_rx w ! i)" and "WIFI_HOLD_MIN_US \<le> WIFI_BUNDLE_HOLD_US env"
    and "length (s_bundle_rx w) = WIFI_RX_STREAMS"
  defines "rx \<equiv> rx_met now buf fresh (s_bundle_rx w ! i)"
  assumes "seq_diff (bundle_seq buf) (expected rx) > 0" "\<not> (\<exists>h \<in> set (held rx). hb_seq h = bundle_seq buf)"
    "WIFI_BUNDLE_HOLD \<le> length (held rx)"
  shows "\<exists>w' rx' ds. wifi_bundle_receive env now buf w = Some w' \<and> received buf rx rx' ds
     \<and> s_bundle_rx w' = (s_bundle_rx w)[i := rx'] \<and> delivered w' = delivered w @ ds"
proof -
  let ?q = "bundle_seq buf" and ?sid = "part 22 8 buf" and ?e = "expected rx"
  have i: "i < length (s_bundle_rx w)" using slot_stream(1) [OF assms(1)] assms(4) by simp
  have ok: "rx_ok rx" using rx_met_ok [OF assms(2)] by (simp add: rx_def)
  then have h: "held_ok 0 (expected (rx\<lparr> deadline_us := now \<rparr>)) (held (rx\<lparr> deadline_us := now \<rparr>))"
      "length (held (rx\<lparr> deadline_us := now \<rparr>)) \<le> WIFI_BUNDLE_HOLD"
    using held_ok_weaken by (simp_all add: rx_ok_def)
  obtain r hs where d: "drain_into env now i (rx\<lparr> deadline_us := now \<rparr>) w = Some (w\<lparr> s_bundle_rx := (s_bundle_rx w)[i := r],
      delivered := delivered w @ map hb_buf hs \<rparr>)" "drained env now (rx\<lparr> deadline_us := now \<rparr>) r hs"
      "moved (rx\<lparr> deadline_us := now \<rparr>) r (map hb_buf hs)"
    by (rule drain_into_spec [OF h assms(3)])
  let ?w = "w\<lparr> s_bundle_rx := (s_bundle_rx w)[i := r], delivered := delivered w @ map hb_buf hs \<rparr>"
  have "held rx \<noteq> []" using assms(8) by (auto simp: WIFI_BUNDLE_HOLD_def)
  then have hs: "hs \<noteq> []" using d(2) by (auto simp: drained_def)
  have m: "mset (held rx) = mset hs + mset (held r)"
    and r: "r = rx\<lparr> held := held r, expected := expected r, deadline_us := deadline_us r \<rparr>"
    using d(2) by (auto simp: drained_def)
  have sub: "set (held r) \<subseteq> set (held rx)" "set hs \<subseteq> set (held rx)"
    using arg_cong [OF m, of set_mset] by auto
  \<comment> \<open>the second round meets the entry as the first left it\<close>
  have sid: "rx_valid r" "rx_stream_id r = ?sid" "seeded r"
    using rx_met_fields [of now buf fresh "s_bundle_rx w ! i"] slot_stream(2) [OF assms(1)]
    by (subst r, cases fresh, auto simp: rx_def)+
  have slot: "rx_slot now ?sid (s_bundle_rx ?w) = Some (i, False)"
    using rx_slot_again [OF assms(1) i sid(1,2)] by simp
  have "expected r = hb_seq (last hs) + 1"
    using in_order_last [of ?e "map hb_seq hs" "expected r"] d(2) hs by (simp add: drained_def last_map)
  moreover have "last hs \<in> set (held rx)" using sub(2) hs last_in_set by blast
  then have "dist ?e (hb_seq (last hs)) \<le> 64" using ok by (simp add: rx_ok_def held_ok_def)
  ultimately have far: "dist ?e (expected r) \<le> 65" using dist_Suc_q by simp
  have near: "1 \<le> dist ?e ?q" "dist ?e ?q \<le> 64"
    using assms(6) rx_met_near(2) [of buf now fresh "s_bundle_rx w ! i"] dist_less [of ?e ?q]
    by (simp_all add: rx_def [symmetric] seq_diff_ahead Suc_le_eq split: if_splits)
  have "seq_diff ?q (expected r) = int (dist ?e ?q) - int (dist ?e (expected r))"
    using seq_diff_dist [of ?e ?q "expected r"] near far by simp
  then have range: "seq_diff ?q (expected r) \<le> 64" "- 64 \<le> seq_diff ?q (expected r)" using near far by simp_all
  have "\<not> (held r \<noteq> [] \<and> now - deadline_us r > WIFI_BUNDLE_STALE_US)"
    using d(2) by (auto simp: drained_def WIFI_BUNDLE_STALE_US_def)
  then have "\<not> bundle_restarts now ?q r" using range sid(3) by (auto simp: bundle_restarts_def)
  moreover have "peer r = part 6 6 buf" "last_rx_us r = now" by (subst r, simp add: rx_def)+
  then have "bundle_open now buf False r = r\<lparr> peer := peer r, last_rx_us := last_rx_us r \<rparr>"
    by (simp add: bundle_open_def)
  then have "bundle_open now buf False r = r" by simp
  ultimately have met: "rx_met now buf False (s_bundle_rx ?w ! i) = r" using i by (simp add: rx_met_def)
  have "rx_ok r" using d(3) by (simp add: moved_def)
  moreover have "length (held r) < WIFI_BUNDLE_HOLD"
    using arg_cong [OF m, of size] hs ok by (cases hs) (auto simp: rx_ok_def)
  ultimately obtain w' rx' ds where s: "wifi_bundle_receive env now buf ?w = Some w'" "received buf r rx' ds"
      "s_bundle_rx w' = (s_bundle_rx ?w)[i := rx']" "delivered w' = delivered ?w @ ds"
    using receive_direct [OF slot _ assms(3)] i unfolding met by force
  have "wifi_bundle_receive env now buf w = wifi_bundle_receive env now buf ?w"
    using assms(6-8) by (simp add: receive_eq [OF assms(1) rx_def [THEN meta_eq_to_obj_eq]] Let_def d(1))
  moreover have "received buf rx rx' (map hb_buf hs @ ds)"
  proof -
    have a: "in_order ?e (map bundle_seq (map hb_buf hs)) (expected r)" "rx_valid r = rx_valid rx"
      "rx_stream_id r = rx_stream_id rx" "seeded r = seeded rx"
      "mset (map hb_buf hs) + mset (map hb_buf (held r)) = mset (map hb_buf (held rx))"
      using d(3) by (simp_all add: moved_def)
    have "in_order ?e (map bundle_seq (map hb_buf hs @ ds)) (expected rx')"
      using a(1) s(2) unfolding map_append in_order_append received_def by blast
    moreover have "mset (map hb_buf hs @ ds) + mset (map hb_buf (held rx')) = mset (map hb_buf (held rx)) + {#buf#}
        \<or> mset (map hb_buf hs @ ds) + mset (map hb_buf (held rx')) = mset (map hb_buf (held rx))
          \<and> seq_diff ?q (expected rx') < 0"
      using s(2) a(5) assms(7) sub(1) unfolding received_def mset_append by (auto simp: add.assoc)
    ultimately show ?thesis using s(2) a(2-4) by (auto simp: received_def)
  qed
  ultimately show ?thesis using s by force
qed

section \<open>The handlers\<close>

definition rx_state_ok :: "wifi_rx_state \<Rightarrow> bool" where
  "rx_state_ok w \<longleftrightarrow> length (s_bundle_rx w) = WIFI_RX_STREAMS \<and> (\<forall>rx \<in> set (s_bundle_rx w). rx_ok rx)"

lemma rx_state_ok_update: "\<lbrakk>rx_state_ok w; rx_ok rx\<rbrakk> \<Longrightarrow> s_bundle_rx w' = (s_bundle_rx w)[i := rx] \<Longrightarrow> rx_state_ok w'"
  using set_update_subset_insert [of "s_bundle_rx w" i rx] by (auto simp: rx_state_ok_def)

lemma receive_spec:
  assumes "rx_state_ok w" and "WIFI_HOLD_MIN_US \<le> WIFI_BUNDLE_HOLD_US env"
    and "rx_slot now (part 22 8 buf) (s_bundle_rx w) = Some (i, fresh)"
  shows "\<exists>w' rx' ds. wifi_bundle_receive env now buf w = Some w'
     \<and> received buf (rx_met now buf fresh (s_bundle_rx w ! i)) rx' ds
     \<and> s_bundle_rx w' = (s_bundle_rx w)[i := rx'] \<and> delivered w' = delivered w @ ds"
proof -
  have i: "rx_ok (s_bundle_rx w ! i)" "length (s_bundle_rx w) = WIFI_RX_STREAMS"
    using assms(1) slot_stream(1) [OF assms(3)] by (simp_all add: rx_state_ok_def)
  show ?thesis
    using receive_direct [OF assms(3) i(1) assms(2)] receive_full [OF assms(3) i(1) assms(2) i(2)]
    by (meson linorder_not_less)
qed

text \<open>Receiving a bundle always finishes.  When it has an entry (its stream's, or a free one), the
  bundles handed on are in sequence from the number expected then, each at most 64 ahead, with the
  expectation moved past the last of them, so that none repeats or comes late; they and the bundles
  still held are the ones held before and this one, which is dropped only when its place is already
  past or taken; the other streams' entries are untouched.  Without an entry it is handed on
  alone.\<close>

lemma receive_ok:
  assumes "rx_state_ok w" and "WIFI_HOLD_MIN_US \<le> WIFI_BUNDLE_HOLD_US env"
  shows "\<exists>w' ds. wifi_bundle_receive env now buf w = Some w' \<and> rx_state_ok w'
     \<and> delivered w' = delivered w @ ds
     \<and> (case rx_slot now (part 22 8 buf) (s_bundle_rx w) of
          None \<Rightarrow> ds = [buf] \<and> s_bundle_rx w' = s_bundle_rx w
        | Some (i, fresh) \<Rightarrow>
            \<exists>rx'. received buf (rx_met now buf fresh (s_bundle_rx w ! i)) rx' ds
              \<and> s_bundle_rx w' = (s_bundle_rx w)[i := rx'])"
proof (cases "rx_slot now (part 22 8 buf) (s_bundle_rx w)")
  case None
  then show ?thesis using assms(1)
    by (subst wifi_bundle_receive.simps) (simp add: Let_def rx_state_ok_def)
next
  case (Some a)
  then obtain i fresh where slot: "rx_slot now (part 22 8 buf) (s_bundle_rx w) = Some (i, fresh)" by (cases a) auto
  obtain w' rx' ds where r: "wifi_bundle_receive env now buf w = Some w'"
      "received buf (rx_met now buf fresh (s_bundle_rx w ! i)) rx' ds"
      "s_bundle_rx w' = (s_bundle_rx w)[i := rx']" "delivered w' = delivered w @ ds"
    using receive_spec [OF assms slot] by blast
  have "rx_state_ok w'" using rx_state_ok_update [OF assms(1) _ r(3)] r(2) by (simp add: received_def)
  then show ?thesis using r by (auto simp: slot)
qed

text \<open>The states the receiver can reach from boot.\<close>

definition rx_boot :: wifi_rx_state where
  "rx_boot = \<lparr> s_bundle_rx = replicate WIFI_RX_STREAMS bundle_rx_zero, window_us = 0, sent_in_window = 0,
     delivered = [], nacks_sent = [] \<rparr>"

lemma rx_boot_ok: "rx_state_ok rx_boot"
  by (simp add: rx_state_ok_def rx_boot_def rx_ok_def held_ok_def bundle_rx_zero_def)

lemma poll_step:
  assumes "rx_state_ok w" and "WIFI_HOLD_MIN_US \<le> WIFI_BUNDLE_HOLD_US env" and "i < WIFI_RX_STREAMS"
  shows "\<exists>w' rx'. (let rx = s_bundle_rx w ! i in
      if rx_valid rx \<and> held rx \<noteq> [] \<and> now \<ge> deadline_us rx then drain_into env now i rx w else Some w) = Some w'
    \<and> s_bundle_rx w' = (s_bundle_rx w)[i := rx'] \<and> rx_ok rx'
    \<and> (rx_valid rx' \<and> held rx' \<noteq> [] \<longrightarrow> now < deadline_us rx')"
proof -
  let ?rx = "s_bundle_rx w ! i"
  have ok: "rx_ok ?rx" using assms(1,3) by (simp add: rx_state_ok_def)
  show ?thesis
  proof (cases "rx_valid ?rx \<and> held ?rx \<noteq> [] \<and> now \<ge> deadline_us ?rx")
    case True
    have h: "held_ok 0 (expected ?rx) (held ?rx)" "length (held ?rx) \<le> WIFI_BUNDLE_HOLD"
      using ok held_ok_weaken by (simp_all add: rx_ok_def)
    obtain r hs where "drain_into env now i ?rx w = Some (w\<lparr> s_bundle_rx := (s_bundle_rx w)[i := r],
        delivered := delivered w @ map hb_buf hs \<rparr>)" "drained env now ?rx r hs" "moved ?rx r (map hb_buf hs)"
      by (rule drain_into_spec [OF h assms(2)])
    then show ?thesis using True by (auto simp: Let_def drained_def moved_def split: if_splits)
  next
    case False
    have "s_bundle_rx w = (s_bundle_rx w)[i := ?rx]" by simp
    with False ok show ?thesis unfolding Let_def by (intro exI [of _ w] exI [of _ ?rx]) auto
  qed
qed

lemma poll_prefix:
  assumes "rx_state_ok w" and "WIFI_HOLD_MIN_US \<le> WIFI_BUNDLE_HOLD_US env" and "n \<le> WIFI_RX_STREAMS"
  shows "\<exists>w'. foreach n (\<lambda>i r. Option.bind r (\<lambda>w. let rx = s_bundle_rx w ! i in
      if rx_valid rx \<and> held rx \<noteq> [] \<and> now \<ge> deadline_us rx then drain_into env now i rx w else Some w)) (Some w)
      = Some w' \<and> rx_state_ok w'
    \<and> (\<forall>i<n. rx_valid (s_bundle_rx w' ! i) \<and> held (s_bundle_rx w' ! i) \<noteq> [] \<longrightarrow> now < deadline_us (s_bundle_rx w' ! i))"
  using assms(3)
proof (induction n)
  case 0
  then show ?case using assms(1) by simp
next
  case (Suc n)
  then obtain w1 where w1: "foreach n (\<lambda>i r. Option.bind r (\<lambda>w. let rx = s_bundle_rx w ! i in
      if rx_valid rx \<and> held rx \<noteq> [] \<and> now \<ge> deadline_us rx then drain_into env now i rx w else Some w)) (Some w)
      = Some w1" "rx_state_ok w1"
    "\<forall>i<n. rx_valid (s_bundle_rx w1 ! i) \<and> held (s_bundle_rx w1 ! i) \<noteq> [] \<longrightarrow> now < deadline_us (s_bundle_rx w1 ! i)"
    by auto
  obtain w2 rx2 where w2: "(let rx = s_bundle_rx w1 ! n in
      if rx_valid rx \<and> held rx \<noteq> [] \<and> now \<ge> deadline_us rx then drain_into env now n rx w1 else Some w1) = Some w2"
    "s_bundle_rx w2 = (s_bundle_rx w1)[n := rx2]" "rx_ok rx2"
    "rx_valid rx2 \<and> held rx2 \<noteq> [] \<longrightarrow> now < deadline_us rx2"
    using poll_step [OF w1(2) assms(2)] Suc.prems by (metis Suc_le_lessD)
  have n: "n < length (s_bundle_rx w1)" using w1(2) Suc.prems by (simp add: rx_state_ok_def)
  have "rx_state_ok w2" by (rule rx_state_ok_update [OF w1(2) w2(3,2)])
  moreover have "\<forall>i<Suc n. rx_valid (s_bundle_rx w2 ! i) \<and> held (s_bundle_rx w2 ! i) \<noteq> [] \<longrightarrow>
      now < deadline_us (s_bundle_rx w2 ! i)"
    using w1(3) w2(4) n by (auto simp: w2(2) less_Suc_eq nth_list_update)
  ultimately show ?case unfolding foreach_Suc w1(1) using w2(1) by auto
qed

inductive rx_reach :: "wifi_rx_env \<Rightarrow> wifi_rx_state \<Rightarrow> bool" for env where
  boot: "rx_reach env rx_boot"
| receive: "\<lbrakk>rx_reach env w; wifi_bundle_receive env now buf w = Some w'\<rbrakk> \<Longrightarrow> rx_reach env w'"
| poll: "\<lbrakk>rx_reach env w; wifi_bundle_poll env now w = Some w'\<rbrakk> \<Longrightarrow> rx_reach env w'"

lemma poll_ok:
  assumes "rx_state_ok w" and "WIFI_HOLD_MIN_US \<le> WIFI_BUNDLE_HOLD_US env"
  shows "\<exists>w'. wifi_bundle_poll env now w = Some w' \<and> rx_state_ok w'
    \<and> (\<forall>i<WIFI_RX_STREAMS. rx_valid (s_bundle_rx w' ! i) \<and> held (s_bundle_rx w' ! i) \<noteq> []
         \<longrightarrow> now < deadline_us (s_bundle_rx w' ! i))"
  unfolding wifi_bundle_poll_def by (rule poll_prefix [OF assms order_refl])

lemma reach_ok: "\<lbrakk>rx_reach env w; WIFI_HOLD_MIN_US \<le> WIFI_BUNDLE_HOLD_US env\<rbrakk> \<Longrightarrow> rx_state_ok w"
proof (induction rule: rx_reach.induct)
  case (receive w now buf w')
  then show ?case using receive_ok [of w env now buf] by auto
next
  case (poll w now w')
  then show ?case using poll_ok [of w env now] by auto
qed (rule rx_boot_ok)

text \<open>C24. The receiver of Wi-Fi bundles never hangs: in every state it can reach, the handler of a
  received bundle, with its drain loop and its recursion when the hold is full, and the hold
  timer's handler return, whatever the bundle and the time.\<close>

theorem wifi_receiver_returns:
  assumes "rx_reach env w" and "WIFI_HOLD_MIN_US \<le> WIFI_BUNDLE_HOLD_US env"
  shows "(\<exists>w'. wifi_bundle_receive env now buf w = Some w') \<and> (\<exists>w'. wifi_bundle_poll env now w = Some w')"
  using receive_ok poll_ok reach_ok [OF assms] assms(2) by blast

definition demo_env :: wifi_rx_env where
  "demo_env = \<lparr> env_bridge = False, WIFI_BUNDLE_HOLD_US = 40000, RETX_DOWNSTREAM_LATENCY_US = 0,
     stream_in_buffered_us = (\<lambda>_. Some 20000), ptpd_now_ns = None, sta_ap_bssid = None, own_mac = zeros 6 \<rparr>"

text \<open>Bundles of one stream, by arrival time and sequence number.\<close>

definition demo_bundle :: "u8 \<Rightarrow> octets" where
  "demo_bundle q = zeros 12 @ [0x81, 0, 0x60, 2, 0x22, 0xf0, 0x7f, 0x80, q, 0, 2, 0, 0, 0, 0, 1, 0, 0,
     65, 86, 66, 87, 0, q, 1, 0]"

definition demo_run :: "(int \<times> u8) list \<Rightarrow> wifi_rx_state option" where
  "demo_run bs = fold (\<lambda>(t, q) r. Option.bind r (wifi_bundle_receive demo_env t (demo_bundle q))) bs (Some rx_boot)"

lemma demo_run_reach: "demo_run bs = Some w \<Longrightarrow> rx_reach demo_env w"
  unfolding demo_run_def
proof (induction bs arbitrary: w rule: rev_induct)
  case (snoc b bs)
  then show ?case by (cases b) (auto simp: bind_eq_Some_conv intro: rx_reach.receive)
qed (auto intro: rx_reach.boot)

lemma demo_hold: "WIFI_HOLD_MIN_US \<le> WIFI_BUNDLE_HOLD_US demo_env"
  by (simp add: demo_env_def WIFI_HOLD_MIN_US_def)

lemma wifi_receiver_returns_witness:
  "case demo_run [(0, 7), (10, 9)] of None \<Rightarrow> False
   | Some w \<Rightarrow> \<exists>w'. wifi_bundle_receive demo_env 20 (demo_bundle 200) w = Some w'"
proof -
  have "demo_run [(0, 7), (10, 9)] \<noteq> None" by code_simp
  then show ?thesis using wifi_receiver_returns [OF demo_run_reach demo_hold] by (auto split: option.split)
qed



text \<open>A run in which bundle 8 comes late: 9 and 10 wait for it.\<close>

lemma demo_recovered:
  "map_option delivered (demo_run [(0, 7), (10, 9), (20, 10), (30, 8)]) = Some (map demo_bundle [7, 8, 9, 10])"
  by code_simp

text \<open>After the hold timer's handler ran, no bundle of any stream waits past its deadline: gaps
  whose time is over have been given up and what was held behind them has left.\<close>

theorem overdue_bundles_leave:
  assumes "rx_reach env w" and "WIFI_HOLD_MIN_US \<le> WIFI_BUNDLE_HOLD_US env"
    and "wifi_bundle_poll env now w = Some w'" and "i < WIFI_RX_STREAMS"
    and "rx_valid (s_bundle_rx w' ! i)" and "held (s_bundle_rx w' ! i) \<noteq> []"
  shows "now < deadline_us (s_bundle_rx w' ! i)"
  using poll_ok [OF reach_ok [OF assms(1,2)] assms(2), of now] assms(3-6) by auto

lemma overdue_bundles_leave_witness:
  "case Option.bind (demo_run [(0, 7), (10, 9)]) (wifi_bundle_poll demo_env 20) of None \<Rightarrow> False
   | Some w \<Rightarrow> 20 < deadline_us (s_bundle_rx w ! 0)"
proof -
  have "case Option.bind (demo_run [(0, 7), (10, 9)]) (wifi_bundle_poll demo_env 20) of None \<Rightarrow> False
    | Some w \<Rightarrow> rx_valid (s_bundle_rx w ! 0) \<and> held (s_bundle_rx w ! 0) \<noteq> []" by code_simp
  then show ?thesis
    using overdue_bundles_leave [OF demo_run_reach demo_hold, of "[(0, 7), (10, 9)]" _ 20 _ 0]
    by (auto simp: WIFI_RX_STREAMS_def split: option.splits bind_splits)
qed

end
