(* ===== verification/Wifi_Sender.thy ===== *)
theory Wifi_Sender
  imports Wifi_Reorder
begin

text \<open>
  The senders of Wi-Fi bundles (\<open>avbnet.c\<close>): the bridge's downlink bundler, a station's uplink
  bundler, the history of sent bundles and the answers to NACKs.  Allocations are assumed to
  succeed; the driver's answers are arguments.
\<close>

section \<open>Bundles being filled\<close>

text \<open>What a bridge slot and a station bundle have in common.  An entry of the history carries its
  octets, which the code keeps at the same index of \<open>hist_buf\<close>; \<open>hist_len\<close> 0 means none.\<close>

record wifi_bundle_hist_t =
  hist_seq :: u16
  hist_len :: nat
  hist_sent_us :: int
  hist_retx_us :: int
  hist_octets :: octets

record bundler =
  bn_valid :: bool
  bn_stream_id :: octets
  bn_seq :: u16
  bn_count :: nat
  bn_buf :: octets
  bn_first_us :: int
  bn_hist :: "wifi_bundle_hist_t list"
  bn_hist_next :: nat

record wifi_bundle_slot_t = bundler +
  slot_dst :: octets
  avtp_seq_valid :: bool
  avtp_seq :: u8

record wifi_tx_bundle_t = bundler +
  last_us :: int

definition hist_zero :: wifi_bundle_hist_t where
  "hist_zero = \<lparr> hist_seq = 0, hist_len = 0, hist_sent_us = 0, hist_retx_us = 0, hist_octets = [] \<rparr>"

definition WIFI_BUNDLE_SLOTS :: nat where "WIFI_BUNDLE_SLOTS = 8"
definition WIFI_BUNDLE_MAX_AGE_US :: int where "WIFI_BUNDLE_MAX_AGE_US = 2000"
definition WIFI_BUNDLE_HISTORY :: nat where "WIFI_BUNDLE_HISTORY = 48"
definition WIFI_BUNDLE_RETX_MAX_AGE_US :: int where "WIFI_BUNDLE_RETX_MAX_AGE_US = 18000"
definition WIFI_BUNDLE_RETX_SPACING_US :: int where "WIFI_BUNDLE_RETX_SPACING_US = 12000"
definition WIFI_NACK_TRIP_US :: int where "WIFI_NACK_TRIP_US = 2000"
definition WIFI_TX_BUNDLE_SLOTS :: nat where "WIFI_TX_BUNDLE_SLOTS = 2"
definition WIFI_TX_BUNDLE_MAX_AGE_US :: int where "WIFI_TX_BUNDLE_MAX_AGE_US = 2000"
definition WIFI_TX_BUNDLE_STALE_US :: int where "WIFI_TX_BUNDLE_STALE_US = 200000"
definition WIFI_TX_HISTORY :: nat where "WIFI_TX_HISTORY = 10"
definition WIFI_TX_BUNDLE_IDLE_US :: int where "WIFI_TX_BUNDLE_IDLE_US = 1000000"

text \<open>\<open>CONFIG_ESP_AVB_WIFI_BUNDLE_COMPACT\<close> and \<open>CONFIG_ESP_AVB_WIFI_BUNDLE_FRAMES\<close>\<close>

record bundle_config =
  bundle_compact :: bool
  bundle_frames :: nat

text \<open>Closing a bundle: the header fields are written, the octets go into the history, and the next
  bundle gets the next number.  Returns the octets too.\<close>

definition bundle_sealed :: "'a bundler_scheme \<Rightarrow> octets" where
  "bundle_sealed b = bundle_seal (bn_seq b) (of_nat (bn_count b)) (bn_buf b)"

definition bundle_close :: "int \<Rightarrow> 'a bundler_scheme \<Rightarrow> 'a bundler_scheme" where
  "bundle_close now b =
     b\<lparr> bn_hist := (bn_hist b)[bn_hist_next b := \<lparr> hist_seq = bn_seq b, hist_len = length (bn_buf b),
          hist_sent_us = now, hist_retx_us = 0, hist_octets = bundle_sealed b \<rparr>],
        bn_hist_next := (bn_hist_next b + 1) mod length (bn_hist b),
        bn_seq := bn_seq b + 1, bn_count := 0, bn_buf := [] \<rparr>"

text \<open>\<open>wifi_bundle_send\<close> and \<open>wifi_tx_bundle_send\<close>, with the bundle that leaves, if any.\<close>

definition wifi_bundle_send :: "int \<Rightarrow> 'a bundler_scheme \<Rightarrow> 'a bundler_scheme \<times> octets list" where
  "wifi_bundle_send now b =
     (if bn_count b = 0 then (b, []) else (bundle_close now b, [bundle_sealed b]))"

text \<open>The end of \<open>wifi_bundle_add\<close> and of \<open>wifi_tx_bundle_add\<close>: start a bundle when none is being
  filled, append the AVTPDU, send it when it has its frames.\<close>

definition bundle_append ::
  "bundle_config \<Rightarrow> int \<Rightarrow> octets \<Rightarrow> 'a bundler_scheme \<Rightarrow> 'a bundler_scheme \<times> octets list" where
  "bundle_append c now frame b =
     (let b = (if bn_count b = 0
               then b\<lparr> bn_buf := wifi_bundle_begin (bundle_compact c) frame, bn_first_us := now \<rparr> else b);
          b = b\<lparr> bn_buf := wifi_bundle_put (bundle_compact c) (bn_buf b) (drop WIFI_BUNDLE_AVTP frame),
                 bn_count := bn_count b + 1 \<rparr>
      in if bn_count b \<ge> bundle_frames c then wifi_bundle_send now b else (b, []))"

section \<open>The bridge's bundler\<close>

text \<open>\<open>formed\<close> is the log of the bundles that left a slot, with the slot's index.\<close>

record bridge_bundles =
  s_bundle_slots :: "wifi_bundle_slot_t list"
  formed :: "(nat \<times> octets) list"
  s_wifi_ingress_lost :: nat
  s_wifi_ingress_late :: nat

definition bundle_eligible :: "bundle_config \<Rightarrow> octets \<Rightarrow> bool" where
  "bundle_eligible c frame \<longleftrightarrow> \<not> (length frame < WIFI_BUNDLE_AVTP + WIFI_BUNDLE_MIN_AVTP (bundle_compact c)
     \<or> frame ! 16 \<noteq> 0x22 \<or> frame ! 17 \<noteq> 0xf0 \<or> frame ! 18 AND 0x80 \<noteq> 0 \<or> frame ! 19 AND 0x80 = 0
     \<or> WIFI_BUNDLE_FIRST_COST (bundle_compact c) (length frame - WIFI_BUNDLE_AVTP) > WIFI_BUNDLE_FILL_BYTES)"

definition slot_matches :: "octets \<Rightarrow> wifi_bundle_slot_t \<Rightarrow> bool" where
  "slot_matches frame b \<longleftrightarrow> bn_valid b \<and> slot_dst b = take 6 frame \<and> bn_stream_id b = part 22 8 frame"

definition slot_spare :: "int \<Rightarrow> wifi_bundle_slot_t \<Rightarrow> bool" where
  "slot_spare now b \<longleftrightarrow> \<not> bn_valid b \<or> bn_count b = 0 \<and> now - bn_first_us b > 1000000"

text \<open>One turn of the loop over the slots: a stale partial bundle is sent; the last matching slot and
  the first spare one are remembered.\<close>

definition slot_scan :: "int \<Rightarrow> octets \<Rightarrow> nat \<Rightarrow> bridge_bundles \<times> nat option \<times> nat option
    \<Rightarrow> bridge_bundles \<times> nat option \<times> nat option" where
  "slot_scan now frame i = (\<lambda>(s, slot, spare).
     let b = s_bundle_slots s ! i;
         (b, out) = (if bn_valid b \<and> bn_count b > 0 \<and> now - bn_first_us b > WIFI_BUNDLE_MAX_AGE_US
                     then wifi_bundle_send now b else (b, []));
         s = s\<lparr> s_bundle_slots := (s_bundle_slots s)[i := b], formed := formed s @ map (Pair i) out \<rparr>
     in if slot_matches frame b then (s, Some i, spare)
        else if spare = None \<and> slot_spare now b then (s, slot, Some i)
        else (s, slot, spare))"

definition slot_claim :: "octets \<Rightarrow> wifi_bundle_slot_t \<Rightarrow> wifi_bundle_slot_t" where
  "slot_claim frame b =
     b\<lparr> bn_hist := replicate WIFI_BUNDLE_HISTORY hist_zero, bn_hist_next := 0, avtp_seq_valid := False,
        bn_valid := True, slot_dst := take 6 frame, bn_stream_id := part 22 8 frame,
        bn_count := 0, bn_buf := [] \<rparr>"

text \<open>Stream frames already missing on arrival from Ethernet.\<close>

definition slot_ingress :: "octets \<Rightarrow> wifi_bundle_slot_t \<times> bridge_bundles \<Rightarrow> wifi_bundle_slot_t \<times> bridge_bundles" where
  "slot_ingress frame = (\<lambda>(b, s).
     let seq = frame ! (WIFI_BUNDLE_AVTP + 2);
         skipped = seq - avtp_seq b - 1;
         s = (if avtp_seq_valid b then
                if skipped \<ge> 200 then s\<lparr> s_wifi_ingress_late := s_wifi_ingress_late s + 1 \<rparr>
                else s\<lparr> s_wifi_ingress_lost := s_wifi_ingress_lost s + unat skipped \<rparr>
              else s)
     in (b\<lparr> avtp_seq := seq, avtp_seq_valid := True \<rparr>, s))"

definition wifi_bundle_add ::
  "bundle_config \<Rightarrow> int \<Rightarrow> octets \<Rightarrow> bridge_bundles \<Rightarrow> bool \<times> bridge_bundles" where
  "wifi_bundle_add c now frame s =
     (if \<not> bundle_eligible c frame then (False, s)
      else case foreach WIFI_BUNDLE_SLOTS (slot_scan now frame) (s, None, None) of (s, slot, spare) \<Rightarrow>
        (case (slot, spare) of
           (None, None) \<Rightarrow> (False, s)
         | _ \<Rightarrow>
           let i = (case slot of Some i \<Rightarrow> i | None \<Rightarrow> the spare);
               b = (if slot = None then slot_claim frame (s_bundle_slots s ! i) else s_bundle_slots s ! i);
               (b, s) = slot_ingress frame (b, s);
               entry_len = WIFI_BUNDLE_ENTRY_COST (bundle_compact c) (bn_buf b) (bn_count b)
                             (drop WIFI_BUNDLE_AVTP frame);
               (b, out1) = (if bn_count b > 0 \<and> length (bn_buf b) + entry_len > WIFI_BUNDLE_FILL_BYTES
                            then wifi_bundle_send now b else (b, []));
               (b, out2) = bundle_append c now frame b
           in (True, s\<lparr> s_bundle_slots := (s_bundle_slots s)[i := b],
                        formed := formed s @ map (Pair i) (out1 @ out2) \<rparr>)))"

section \<open>A station's bundler\<close>

record station_bundles =
  s_tx_bundles :: "wifi_tx_bundle_t list"
  tx_formed :: "(nat \<times> octets) list"

definition tx_bundle_eligible :: "bundle_config \<Rightarrow> octets \<Rightarrow> bool" where
  "tx_bundle_eligible c frame \<longleftrightarrow> \<not> (length frame < WIFI_BUNDLE_AVTP + WIFI_BUNDLE_MIN_AVTP (bundle_compact c)
     \<or> frame ! 12 \<noteq> 0x81 \<or> frame ! 13 \<noteq> 0
     \<or> frame ! 16 \<noteq> 0x22 \<or> frame ! 17 \<noteq> 0xf0 \<or> frame ! 18 AND 0x80 \<noteq> 0 \<or> frame ! 19 AND 0x80 = 0
     \<or> WIFI_BUNDLE_FIRST_COST (bundle_compact c) (length frame - WIFI_BUNDLE_AVTP) > WIFI_BUNDLE_FILL_BYTES)"

text \<open>The stream's bundle, or the first that is free or idle, taken over for the stream.\<close>

definition tx_bundle_pick :: "int \<Rightarrow> octets \<Rightarrow> wifi_tx_bundle_t list \<Rightarrow> (nat \<times> wifi_tx_bundle_t) option" where
  "tx_bundle_pick now stream_id bs =
     (case first_index (\<lambda>i. bn_valid (bs ! i) \<and> bn_stream_id (bs ! i) = stream_id) WIFI_TX_BUNDLE_SLOTS of
        Some i \<Rightarrow> Some (i, bs ! i)
      | None \<Rightarrow>
          map_option (\<lambda>i. (i, (bs ! i)\<lparr> bn_valid := True, bn_stream_id := stream_id, bn_count := 0,
              bn_hist := replicate WIFI_TX_HISTORY hist_zero, bn_hist_next := 0 \<rparr>))
            (first_index (\<lambda>i. \<not> bn_valid (bs ! i) \<or> now - last_us (bs ! i) > WIFI_TX_BUNDLE_IDLE_US)
               WIFI_TX_BUNDLE_SLOTS))"

text \<open>A partial bundle of an earlier run is dropped; a full or aged one is sent first.\<close>

definition wifi_tx_bundle_add ::
  "bundle_config \<Rightarrow> int \<Rightarrow> octets \<Rightarrow> station_bundles \<Rightarrow> bool \<times> station_bundles" where
  "wifi_tx_bundle_add c now frame s =
     (if \<not> tx_bundle_eligible c frame then (False, s)
      else case tx_bundle_pick now (part 22 8 frame) (s_tx_bundles s) of
        None \<Rightarrow> (False, s)
      | Some (i, b) \<Rightarrow>
          let b = b\<lparr> last_us := now \<rparr>;
              b = (if bn_count b > 0 \<and> now - bn_first_us b > WIFI_TX_BUNDLE_STALE_US
                   then b\<lparr> bn_count := 0 \<rparr> else b);
              entry_len = WIFI_BUNDLE_ENTRY_COST (bundle_compact c) (bn_buf b) (bn_count b)
                            (drop WIFI_BUNDLE_AVTP frame);
              (b, out1) = (if bn_count b > 0 \<and> (length (bn_buf b) + entry_len > WIFI_BUNDLE_FILL_BYTES
                                \<or> now - bn_first_us b > WIFI_TX_BUNDLE_MAX_AGE_US)
                           then wifi_bundle_send now b else (b, []));
              (b, out2) = bundle_append c now frame b
          in (True, s\<lparr> s_tx_bundles := (s_tx_bundles s)[i := b],
                       tx_formed := tx_formed s @ map (Pair i) (out1 @ out2) \<rparr>))"

definition wifi_tx_bundle_frames :: "octets \<Rightarrow> station_bundles \<Rightarrow> nat" where
  "wifi_tx_bundle_frames stream_id s =
     (case first_index (\<lambda>i. bn_valid (s_tx_bundles s ! i) \<and> bn_stream_id (s_tx_bundles s ! i) = stream_id)
             WIFI_TX_BUNDLE_SLOTS of
        None \<Rightarrow> 0 | Some i \<Rightarrow> bn_count (s_tx_bundles s ! i))"

section \<open>Answering NACKs\<close>

text \<open>Every bundle a NACK asks for ends in one of these; \<open>retx\<close> counts the copies sent.\<close>

record retx_counters =
  s_retx_requested :: nat
  s_wifi_retx :: nat
  s_retx_late :: nat
  s_retx_spaced :: nat
  s_retx_evicted :: nat
  s_retx_no_slot :: nat
  s_retx_no_room :: nat
  s_retx_tx_fail :: nat

datatype retx_outcome = retx_not_found | retx_is_late | retx_is_spaced | retx_copy nat

text \<open>The loop over the history under the lock.\<close>

definition hist_lookup :: "int \<Rightarrow> int \<Rightarrow> u16 \<Rightarrow> wifi_bundle_hist_t list \<Rightarrow> retx_outcome" where
  "hist_lookup now budget_us want hist =
     (case first_index (\<lambda>k. hist_len (hist ! k) \<noteq> 0 \<and> hist_seq (hist ! k) = want) (length hist) of
        None \<Rightarrow> retx_not_found
      | Some k \<Rightarrow>
          let e = hist ! k in
          if (if budget_us = 0 then now - hist_sent_us e > WIFI_BUNDLE_RETX_MAX_AGE_US
              else budget_us - WIFI_NACK_TRIP_US < WIFI_RETX_MIN_BUDGET_US)
          then retx_is_late
          else if hist_retx_us e \<noteq> 0 \<and> now - hist_retx_us e < WIFI_BUNDLE_RETX_SPACING_US
          then retx_is_spaced
          else retx_copy k)"

text \<open>The loop over the bundles asked for: \<open>n\<close> is the next, \<open>left\<close> how many are left.  \<open>room\<close> and
  \<open>tx_ok\<close> are the answers of the hosted queue and of the driver.  The result is the slot's history,
  the counters and the copies handed to the driver.\<close>

primrec nack_loop ::
  "(nat \<Rightarrow> bool) \<Rightarrow> (nat \<Rightarrow> bool) \<Rightarrow> int \<Rightarrow> int \<Rightarrow> u16 \<Rightarrow> nat \<Rightarrow> nat \<Rightarrow> wifi_bundle_hist_t list \<Rightarrow> retx_counters
     \<Rightarrow> wifi_bundle_hist_t list \<times> retx_counters \<times> octets list" where
  "nack_loop room tx_ok now budget_us first n 0 hist r = (hist, r, [])"
| "nack_loop room tx_ok now budget_us first n (Suc left) hist r =
     (case hist_lookup now budget_us (first + of_nat n) hist of
        retx_not_found \<Rightarrow>
          nack_loop room tx_ok now budget_us first (n + 1) left hist (r\<lparr> s_retx_evicted := s_retx_evicted r + 1 \<rparr>)
      | retx_is_late \<Rightarrow>
          nack_loop room tx_ok now budget_us first (n + 1) left hist (r\<lparr> s_retx_late := s_retx_late r + 1 \<rparr>)
      | retx_is_spaced \<Rightarrow>
          nack_loop room tx_ok now budget_us first (n + 1) left hist (r\<lparr> s_retx_spaced := s_retx_spaced r + 1 \<rparr>)
      | retx_copy k \<Rightarrow>
          let hist = hist[k := (hist ! k)\<lparr> hist_retx_us := now \<rparr>] in
          if \<not> room n then (hist, r\<lparr> s_retx_no_room := s_retx_no_room r + Suc left \<rparr>, [])
          else
            let r = (if tx_ok n then r\<lparr> s_wifi_retx := s_wifi_retx r + 1 \<rparr>
                     else r\<lparr> s_retx_tx_fail := s_retx_tx_fail r + 1 \<rparr>)
            in case nack_loop room tx_ok now budget_us first (n + 1) left hist r of
                 (hist', r, out) \<Rightarrow> (hist', r, bundle_retx (hist_octets (hist ! k)) # out))"

definition nack_first :: "octets \<Rightarrow> u16" where
  "nack_first nack = push_bit 8 (ucast (nack ! 30)) OR ucast (nack ! 31)"

definition nack_budget_us :: "octets \<Rightarrow> int" where
  "nack_budget_us nack = int (get_be16 (nack ! 33) (nack ! 34)) * 100"

definition wifi_nack_handle ::
  "(nat \<Rightarrow> bool) \<Rightarrow> (nat \<Rightarrow> bool) \<Rightarrow> int \<Rightarrow> octets \<Rightarrow> bridge_bundles \<Rightarrow> retx_counters
     \<Rightarrow> bridge_bundles \<times> retx_counters \<times> octets list" where
  "wifi_nack_handle room tx_ok now nack s r =
     (let missing = unat (nack ! 32);
          r = r\<lparr> s_retx_requested := s_retx_requested r + missing \<rparr>
      in case first_index (\<lambda>i. let b = s_bundle_slots s ! i in bn_valid b \<and> slot_dst b = part 6 6 nack
                 \<and> bn_stream_id b = part 18 8 nack) WIFI_BUNDLE_SLOTS of
           None \<Rightarrow> (s, r\<lparr> s_retx_no_slot := s_retx_no_slot r + missing \<rparr>, [])
         | Some i \<Rightarrow>
             (case nack_loop room tx_ok now (nack_budget_us nack) (nack_first nack) 0 missing
                     (bn_hist (s_bundle_slots s ! i)) r of
                (hist, r, out) \<Rightarrow>
                  (s\<lparr> s_bundle_slots := (s_bundle_slots s)[i := (s_bundle_slots s ! i)\<lparr> bn_hist := hist \<rparr>] \<rparr>,
                   r, out)))"

text \<open>The station's answer to the bridge's NACKs; the history is looked up the same way (the two limits
  are equal), and a copy still on its way is not counted.\<close>

record tx_retx_counters =
  s_wifi_tx_retx :: nat
  s_wifi_tx_retx_late :: nat
  s_wifi_tx_retx_evicted :: nat

primrec tx_nack_loop ::
  "(nat \<Rightarrow> bool) \<Rightarrow> int \<Rightarrow> int \<Rightarrow> u16 \<Rightarrow> nat \<Rightarrow> nat \<Rightarrow> wifi_bundle_hist_t list \<Rightarrow> tx_retx_counters
     \<Rightarrow> wifi_bundle_hist_t list \<times> tx_retx_counters \<times> octets list" where
  "tx_nack_loop tx_ok now budget_us first n 0 hist r = (hist, r, [])"
| "tx_nack_loop tx_ok now budget_us first n (Suc left) hist r =
     (case hist_lookup now budget_us (first + of_nat n) hist of
        retx_not_found \<Rightarrow> tx_nack_loop tx_ok now budget_us first (n + 1) left hist
                            (r\<lparr> s_wifi_tx_retx_evicted := s_wifi_tx_retx_evicted r + 1 \<rparr>)
      | retx_is_late \<Rightarrow> tx_nack_loop tx_ok now budget_us first (n + 1) left hist
                            (r\<lparr> s_wifi_tx_retx_late := s_wifi_tx_retx_late r + 1 \<rparr>)
      | retx_is_spaced \<Rightarrow> tx_nack_loop tx_ok now budget_us first (n + 1) left hist r
      | retx_copy k \<Rightarrow>
          let hist = hist[k := (hist ! k)\<lparr> hist_retx_us := now \<rparr>];
              r = (if tx_ok n then r\<lparr> s_wifi_tx_retx := s_wifi_tx_retx r + 1 \<rparr> else r)
          in case tx_nack_loop tx_ok now budget_us first (n + 1) left hist r of
               (hist', r, out) \<Rightarrow> (hist', r, bundle_retx (hist_octets (hist ! k)) # out))"

definition wifi_tx_nack_handle ::
  "(nat \<Rightarrow> bool) \<Rightarrow> int \<Rightarrow> octets \<Rightarrow> station_bundles \<Rightarrow> tx_retx_counters
     \<Rightarrow> station_bundles \<times> tx_retx_counters \<times> octets list" where
  "wifi_tx_nack_handle tx_ok now nack s r =
     (case first_index (\<lambda>i. let b = s_tx_bundles s ! i in bn_valid b \<and> bn_stream_id b = part 18 8 nack)
             WIFI_TX_BUNDLE_SLOTS of
        None \<Rightarrow> (s, r, [])
      | Some i \<Rightarrow>
          (case tx_nack_loop tx_ok now (nack_budget_us nack) (nack_first nack) 0 (unat (nack ! 32))
                  (bn_hist (s_tx_bundles s ! i)) r of
             (hist, r, out) \<Rightarrow>
               (s\<lparr> s_tx_bundles := (s_tx_bundles s)[i := (s_tx_bundles s ! i)\<lparr> bn_hist := hist \<rparr>] \<rparr>, r, out)))"

end
