(* ===== verification/Wifi_Fifo.thy ===== *)
theory Wifi_Fifo
  imports Wifi_Sender
begin

text \<open>
  What the senders of Wi-Fi bundles guarantee: a bundler is a queue of frames, its bundles fit the
  radio's buffer, and every bundle a NACK asks for is accounted for and, when resent, the one that
  was sent.
\<close>

section \<open>A bundler is a queue\<close>

text \<open>The bundle being filled holds the frames \<open>fs\<close>, which share their Ethernet header.\<close>

definition good_frame :: "bundle_config \<Rightarrow> octets list \<Rightarrow> octets \<Rightarrow> bool" where
  "good_frame c fs f \<longleftrightarrow> take 18 f = take 18 (hd fs) \<and> 18 + WIFI_BUNDLE_MIN_AVTP (bundle_compact c) \<le> length f
     \<and> length f \<le> 1500"

definition filled :: "bundle_config \<Rightarrow> octets list \<Rightarrow> 'a bundler_scheme \<Rightarrow> bool" where
  "filled c fs b \<longleftrightarrow> bn_count b = length fs \<and> length fs \<le> bundle_frames c
     \<and> (fs \<noteq> [] \<longrightarrow> bn_buf b = bundle_of (bundle_compact c) fs \<and> length (bn_buf b) \<le> WIFI_BUNDLE_FILL_BYTES)
     \<and> list_all (good_frame c fs) fs"

definition holds_frames :: "bundle_config \<Rightarrow> octets list \<Rightarrow> 'a bundler_scheme \<Rightarrow> bool" where
  "holds_frames c fs b \<longleftrightarrow> filled c fs b \<and> length fs < bundle_frames c"

definition config_ok :: "bundle_config \<Rightarrow> bool" where
  "config_ok c \<longleftrightarrow> 0 < bundle_frames c \<and> bundle_frames c < 256"

text \<open>The bundles that left, taken apart again, and their sizes.\<close>

definition frames_out :: "octets list \<Rightarrow> octets list" where
  "frames_out out = concat (map wifi_bundle_split out)"

lemma frames_out_simps [simp]: "frames_out (a @ b) = frames_out a @ frames_out b" "frames_out [] = []"
  by (simp_all add: frames_out_def)

definition bundle_fits :: "bundle_config \<Rightarrow> octets \<Rightarrow> bool" where
  "bundle_fits c out \<longleftrightarrow> length out \<le> WIFI_BUNDLE_FILL_BYTES \<and> unat (out ! 36) \<le> bundle_frames c"

lemma length_put: "length out \<le> length (wifi_bundle_put compact out avtp)"
  by (simp add: wifi_bundle_put_def)

lemma length_sealed [simp]: "length (bundle_sealed b) = length (bn_buf b)"
  by (simp add: bundle_sealed_def bundle_seal_def)

lemma bundle_of_snoc:
  "fs \<noteq> [] \<Longrightarrow> bundle_of compact (fs @ [f]) = wifi_bundle_put compact (bundle_of compact fs) (drop WIFI_BUNDLE_AVTP f)"
  by (simp add: bundle_of_def)

lemma bundle_of_one:
  "bundle_of compact [f] = wifi_bundle_put compact (wifi_bundle_begin compact f) (drop WIFI_BUNDLE_AVTP f)"
  by (simp add: bundle_of_def)

lemma length_bundle_of:
  assumes "fs \<noteq> []" and "18 + WIFI_BUNDLE_MIN_AVTP compact \<le> length (hd fs)"
  shows "(if compact then 62 else 38) \<le> length (bundle_of compact fs)"
  using assms
proof (induction fs rule: rev_nonempty_induct)
  case (single f)
  then show ?case using begin_parts(1) [of compact f] length_put [of "wifi_bundle_begin compact f"]
    by (auto simp: bundle_of_one)
next
  case (snoc f fs)
  from snoc.hyps have "fs \<noteq> []" by simp
  with snoc have "(if compact then 62 else 38) \<le> length (bundle_of compact fs)" by simp
  then show ?case unfolding bundle_of_snoc [OF \<open>fs \<noteq> []\<close>] using length_put by (rule order_trans)
qed

lemma entry_len_le: "24 \<le> n \<Longrightarrow> wifi_compact_entry_len flags n \<le> 8 + n"
  by (auto simp: wifi_compact_entry_len_def compact_layout Let_def)

lemma put_cost:
  assumes "compact \<Longrightarrow> 62 \<le> length out \<and> 0 < k" and "WIFI_BUNDLE_MIN_AVTP compact \<le> length avtp"
    and "length avtp < 65536"
  shows "length (wifi_bundle_put compact out avtp) = length out + WIFI_BUNDLE_ENTRY_COST compact out k avtp"
proof (cases compact)
  case True
  then have "length (part 38 24 out) = 24" "24 \<le> length avtp"
    using assms by (auto simp: Wifi_Bundle.part_def WIFI_BUNDLE_MIN_AVTP_def compact_layout)
  from compact_put_get(2) [OF this] show ?thesis using True assms
    by (simp add: wifi_bundle_put_def WIFI_BUNDLE_ENTRY_COST_def bundle_layout compact_layout)
next
  case False
  then show ?thesis by (simp add: wifi_bundle_put_def WIFI_BUNDLE_ENTRY_COST_def put_be16_def)
qed

lemma first_cost:
  assumes "18 + WIFI_BUNDLE_MIN_AVTP compact \<le> length f" "length f \<le> 1500"
  shows "length (bundle_of compact [f]) \<le> WIFI_BUNDLE_FIRST_COST compact (length f - 18)"
proof (cases compact)
  case True
  note b = begin_parts(1) [OF assms(1)]
  have "24 \<le> length f - 18" using assms(1) True by (simp add: WIFI_BUNDLE_MIN_AVTP_def compact_layout)
  from entry_len_le [OF this]
  have e: "62 + wifi_compact_entry_len flags (length f - 18) \<le> 70 + (length f - 18)" for flags by simp
  show ?thesis
    using True b put_cost [of compact "wifi_bundle_begin compact f" 1 "drop 18 f"] assms e
    by (simp add: bundle_of_one WIFI_BUNDLE_AVTP_def WIFI_BUNDLE_FIRST_COST_def WIFI_BUNDLE_ENTRY_COST_def
        WIFI_BUNDLE_ENTRIES_def compact_layout)
next
  case False
  then show ?thesis using begin_parts(1) [OF assms(1)]
    by (simp add: bundle_of_one wifi_bundle_put_def WIFI_BUNDLE_FIRST_COST_def bundle_layout put_be16_def)
qed

lemma send_queue:
  assumes "filled c fs b" and "config_ok c" and "wifi_bundle_send now b = (b', out)"
  shows "holds_frames c [] b'" and "frames_out out = fs" and "list_all (bundle_fits c) out"
proof -
  have "holds_frames c [] b' \<and> frames_out out = fs \<and> list_all (bundle_fits c) out"
  proof (cases "fs = []")
    case True
    then show ?thesis using assms
      by (auto simp: wifi_bundle_send_def holds_frames_def filled_def frames_out_def config_ok_def)
  next
    case False
    then have b: "b' = bundle_close now b" "out = [bundle_sealed b]"
      and n: "bn_count b = length fs" "length fs \<le> bundle_frames c" and buf: "bn_buf b = bundle_of (bundle_compact c) fs"
      and len: "length (bn_buf b) \<le> WIFI_BUNDLE_FILL_BYTES" and good: "list_all (good_frame c fs) fs"
      using assms(1,3) by (auto simp: wifi_bundle_send_def filled_def)
    have lt: "length fs < 256" using n(2) assms(2) by (simp add: config_ok_def)
    have g: "\<forall>f \<in> set fs. take 18 f = take 18 (hd fs) \<and> 18 + WIFI_BUNDLE_MIN_AVTP (bundle_compact c) \<le> length f
          \<and> length f \<le> 1500"
      using good by (simp add: list_all_iff good_frame_def)
    then have "18 + WIFI_BUNDLE_MIN_AVTP (bundle_compact c) \<le> length (hd fs)" using False by simp
    from length_bundle_of [OF False this] have l: "38 \<le> length (bn_buf b)" by (simp add: buf split: if_splits)
    have "wifi_bundle_split (bundle_sealed b) = fs"
      using split_bundle_of [OF False lt g] by (simp add: bundle_sealed_def n buf)
    moreover have "bundle_sealed b ! 36 = of_nat (length fs)"
      using seal_parts(5) [OF l] by (simp add: bundle_sealed_def n)
    then have "unat (bundle_sealed b ! 36) = length fs" using lt by (simp add: unat_of_nat)
    moreover have "holds_frames c [] b'" using assms(2)
      by (simp add: b bundle_close_def holds_frames_def filled_def config_ok_def)
    ultimately show ?thesis using n len by (simp add: b frames_out_def bundle_fits_def)
  qed
  then show "holds_frames c [] b'" and "frames_out out = fs" and "list_all (bundle_fits c) out" by auto
qed

lemma append_queue:
  assumes "holds_frames c fs b" and "config_ok c"
    and "good_frame c (fs @ [frame]) frame"
    and "WIFI_BUNDLE_FIRST_COST (bundle_compact c) (length frame - 18) \<le> WIFI_BUNDLE_FILL_BYTES"
    and "fs \<noteq> [] \<Longrightarrow> length (bn_buf b) + WIFI_BUNDLE_ENTRY_COST (bundle_compact c) (bn_buf b) (bn_count b) (drop 18 frame)
           \<le> WIFI_BUNDLE_FILL_BYTES"
    and "bundle_append c now frame b = (b', out)"
  shows "\<exists>fs'. holds_frames c fs' b' \<and> frames_out out @ fs' = fs @ [frame] \<and> list_all (bundle_fits c) out"
proof -
  let ?b = "if bn_count b = 0 then b\<lparr> bn_buf := wifi_bundle_begin (bundle_compact c) frame, bn_first_us := now \<rparr> else b"
  let ?b2 = "?b\<lparr> bn_buf := wifi_bundle_put (bundle_compact c) (bn_buf ?b) (drop WIFI_BUNDLE_AVTP frame),
                 bn_count := bn_count ?b + 1 \<rparr>"
  have n: "bn_count b = length fs" "length fs < bundle_frames c" and good: "list_all (good_frame c fs) fs"
    and buf: "fs \<noteq> [] \<Longrightarrow> bn_buf b = bundle_of (bundle_compact c) fs"
    using assms(1) by (auto simp: holds_frames_def filled_def)
  have sz: "18 + WIFI_BUNDLE_MIN_AVTP (bundle_compact c) \<le> length frame" "length frame \<le> 1500"
    using assms(3) by (auto simp: good_frame_def)
  have nb: "bn_buf ?b2 = bundle_of (bundle_compact c) (fs @ [frame])"
  proof (cases "fs = []")
    case False
    then show ?thesis using n buf [OF False] bundle_of_snoc [OF False] by simp
  qed (use n in \<open>simp add: bundle_of_one\<close>)
  have nl: "length (bundle_of (bundle_compact c) (fs @ [frame])) \<le> WIFI_BUNDLE_FILL_BYTES"
  proof (cases "fs = []")
    case True
    then show ?thesis using first_cost [OF sz] assms(4) by simp
  next
    case False
    then have "18 + WIFI_BUNDLE_MIN_AVTP (bundle_compact c) \<le> length (hd fs)"
      using good hd_in_set by (auto simp: list_all_iff good_frame_def)
    from length_bundle_of [OF False this] have "bundle_compact c \<Longrightarrow> 62 \<le> length (bn_buf b) \<and> 0 < bn_count b"
      using False n buf by simp
    from put_cost [OF this] have "length (wifi_bundle_put (bundle_compact c) (bn_buf b) (drop 18 frame))
        = length (bn_buf b) + WIFI_BUNDLE_ENTRY_COST (bundle_compact c) (bn_buf b) (bn_count b) (drop 18 frame)"
      using sz by simp
    then show ?thesis using assms(5) [OF False] bundle_of_snoc [OF False] buf [OF False]
      by (simp add: WIFI_BUNDLE_AVTP_def)
  qed
  have g2: "list_all (good_frame c (fs @ [frame])) (fs @ [frame])"
    using good assms(3) by (cases fs) (auto simp: list_all_iff good_frame_def)
  have f2: "filled c (fs @ [frame]) ?b2" using n nb nl g2 by (simp add: filled_def)
  show ?thesis
  proof (cases "bn_count ?b2 \<ge> bundle_frames c")
    case True
    then have "wifi_bundle_send now ?b2 = (b', out)" using assms(6) by (simp add: bundle_append_def Let_def)
    from send_queue [OF f2 assms(2) this] show ?thesis by auto
  next
    case False
    then have "b' = ?b2" "out = []" using assms(6) by (auto simp: bundle_append_def Let_def)
    moreover have "length (fs @ [frame]) < bundle_frames c" using False n by (simp split: if_splits)
    ultimately show ?thesis using f2 unfolding holds_frames_def by (intro exI [of _ "fs @ [frame]"]) simp
  qed
qed

section \<open>The eight slots\<close>

text \<open>\<open>carried i q s\<close>: everything slot \<open>i\<close> was given, what has left it first.\<close>

definition sent_from :: "nat \<Rightarrow> bridge_bundles \<Rightarrow> octets list" where
  "sent_from i s = map snd (filter (\<lambda>p. fst p = i) (formed s))"

definition carried :: "nat \<Rightarrow> (nat \<Rightarrow> octets list) \<Rightarrow> bridge_bundles \<Rightarrow> octets list" where
  "carried i q s = frames_out (sent_from i s) @ q i"

definition bundler_queues :: "bundle_config \<Rightarrow> (nat \<Rightarrow> octets list) \<Rightarrow> bridge_bundles \<Rightarrow> bool" where
  "bundler_queues c q s \<longleftrightarrow> length (s_bundle_slots s) = WIFI_BUNDLE_SLOTS
     \<and> list_all (bundle_fits c) (map snd (formed s))
     \<and> (\<forall>i < WIFI_BUNDLE_SLOTS. holds_frames c (q i) (s_bundle_slots s ! i)
          \<and> (\<not> bn_valid (s_bundle_slots s ! i) \<longrightarrow> q i = []))"

text \<open>The frames of one stream to one station share their Ethernet header.\<close>

definition one_header :: "octets \<Rightarrow> (nat \<Rightarrow> octets list) \<Rightarrow> bridge_bundles \<Rightarrow> bool" where
  "one_header frame q s \<longleftrightarrow> (\<forall>i < WIFI_BUNDLE_SLOTS. slot_matches frame (s_bundle_slots s ! i)
     \<longrightarrow> (\<forall>f \<in> set (q i). take 18 f = take 18 frame))"

text \<open>The slot \<open>i\<close> becomes \<open>b\<close> and emits \<open>out\<close>.\<close>

definition slot_update :: "nat \<Rightarrow> wifi_bundle_slot_t \<Rightarrow> octets list \<Rightarrow> bridge_bundles \<Rightarrow> bridge_bundles" where
  "slot_update i b out s = s\<lparr> s_bundle_slots := (s_bundle_slots s)[i := b], formed := formed s @ map (Pair i) out \<rparr>"

lemma sent_from_update:
  "sent_from j (slot_update i b out s) = sent_from j s @ (if j = i then out else [])"
  by (simp add: sent_from_def slot_update_def filter_map comp_def)

lemma queues_update:
  assumes "bundler_queues c q s" and "i < WIFI_BUNDLE_SLOTS" and "holds_frames c fs b"
    and "\<not> bn_valid b \<Longrightarrow> fs = []" and "list_all (bundle_fits c) out"
  shows "bundler_queues c (q(i := fs)) (slot_update i b out s)"
  using assms by (auto simp: bundler_queues_def slot_update_def nth_list_update comp_def)

lemma carried_update:
  assumes "frames_out out @ fs = q i @ new"
  shows "carried j (q(i := fs)) (slot_update i b out s) = carried j q s @ (if j = i then new else [])"
  using assms by (simp add: carried_def sent_from_update)

lemma send_keeps [simp]:
  "wifi_bundle_send now b = (b', out) \<Longrightarrow> slot_matches frame b' = slot_matches frame b"
  "wifi_bundle_send now b = (b', out) \<Longrightarrow> bn_valid b' = bn_valid b"
  by (auto simp: wifi_bundle_send_def bundle_close_def slot_matches_def split: if_splits)

text \<open>What holds after \<open>n\<close> turns of the scan.\<close>

definition scanned :: "bundle_config \<Rightarrow> (nat \<Rightarrow> octets list) \<Rightarrow> bridge_bundles \<Rightarrow> octets
    \<Rightarrow> bridge_bundles \<times> nat option \<times> nat option \<Rightarrow> bool" where
  "scanned c q0 s0 frame = (\<lambda>(s, slot, spare). \<exists>q. bundler_queues c q s \<and> one_header frame q s
     \<and> (\<forall>j. carried j q s = carried j q0 s0)
     \<and> (\<forall>i. slot = Some i \<longrightarrow> i < WIFI_BUNDLE_SLOTS \<and> slot_matches frame (s_bundle_slots s ! i))
     \<and> (\<forall>i. spare = Some i \<longrightarrow> i < WIFI_BUNDLE_SLOTS \<and> q i = []))"

lemma scan_turn:
  assumes "config_ok c" and "i < WIFI_BUNDLE_SLOTS" and "scanned c q0 s0 frame (s, slot, spare)"
  shows "scanned c q0 s0 frame (slot_scan now frame i (s, slot, spare))"
proof -
  obtain q where q: "bundler_queues c q s" "one_header frame q s" "\<forall>j. carried j q s = carried j q0 s0"
    and slot: "\<forall>i. slot = Some i \<longrightarrow> i < WIFI_BUNDLE_SLOTS \<and> slot_matches frame (s_bundle_slots s ! i)"
    and spare: "\<forall>i. spare = Some i \<longrightarrow> i < WIFI_BUNDLE_SLOTS \<and> q i = []"
    using assms(3) by (auto simp: scanned_def)
  let ?b = "s_bundle_slots s ! i"
  obtain b out where bo: "(if bn_valid ?b \<and> bn_count ?b > 0 \<and> now - bn_first_us ?b > WIFI_BUNDLE_MAX_AGE_US
                     then wifi_bundle_send now ?b else (?b, [])) = (b, out)" by (rule prod.exhaust)
  have h: "holds_frames c (q i) ?b" "\<not> bn_valid ?b \<longrightarrow> q i = []" and len: "i < length (s_bundle_slots s)"
    using q(1) assms(2) by (auto simp: bundler_queues_def)
  obtain fs where fs: "holds_frames c fs b" "frames_out out @ fs = q i" "list_all (bundle_fits c) out"
    "fs = q i \<or> fs = []" "slot_matches frame b = slot_matches frame ?b" "bn_valid b = bn_valid ?b"
  proof (cases "bn_valid ?b \<and> bn_count ?b > 0 \<and> now - bn_first_us ?b > WIFI_BUNDLE_MAX_AGE_US")
    case True
    then have w: "wifi_bundle_send now ?b = (b, out)" using bo by simp
    from h(1) have "filled c (q i) ?b" by (simp add: holds_frames_def)
    from send_queue [OF this assms(1) w] that [of "[]"] send_keeps [OF w] show ?thesis by simp
  next
    case False
    then have "b = ?b" "out = []" using bo by auto
    with h(1) that [of "q i"] show ?thesis by simp
  qed
  let ?s = "slot_update i b out s" and ?q = "q(i := fs)"
  have step: "slot_scan now frame i (s, slot, spare) =
      (if slot_matches frame b then (?s, Some i, spare)
        else if spare = None \<and> slot_spare now b then (?s, slot, Some i) else (?s, slot, spare))"
    using bo by (simp add: slot_scan_def slot_update_def Let_def)
  have sm: "slot_matches frame (s_bundle_slots ?s ! j) = slot_matches frame (s_bundle_slots s ! j)" for j
    using len fs(5) by (cases "j = i") (simp_all add: slot_update_def)
  have "bundler_queues c ?q ?s" using q(1) assms(2) fs(1,3,4,6) h(2) by (intro queues_update) auto
  moreover have "one_header frame ?q ?s"
    using q(2) fs(4) unfolding one_header_def sm by auto
  moreover have "\<forall>j. carried j ?q ?s = carried j q0 s0"
    using carried_update [of out fs q i "[]"] fs(2) q(3) by simp
  moreover have "\<forall>j. spare = Some j \<longrightarrow> j < WIFI_BUNDLE_SLOTS \<and> ?q j = []" using spare fs(4) by auto
  moreover have "slot_spare now b \<Longrightarrow> fs = []"
    using fs(1,4,6) h(2) by (auto simp: slot_spare_def holds_frames_def filled_def)
  ultimately show ?thesis unfolding step scanned_def using slot assms(2) fs(5) sm
    by (auto intro!: exI [of _ ?q])
qed

lemma scan_done:
  assumes "config_ok c" and "bundler_queues c q s" and "one_header frame q s"
  shows "scanned c q s frame (foreach WIFI_BUNDLE_SLOTS (slot_scan now frame) (s, None, None))"
proof (rule foreach_invariant)
  show "scanned c q s frame (s, None, None)" using assms by (auto simp: scanned_def)
qed (use scan_turn [OF assms(1)] in auto)

lemma eligible_sizes:
  assumes "bundle_eligible c frame"
  shows "18 + WIFI_BUNDLE_MIN_AVTP (bundle_compact c) \<le> length frame" "length frame \<le> 1500"
    "WIFI_BUNDLE_FIRST_COST (bundle_compact c) (length frame - 18) \<le> WIFI_BUNDLE_FILL_BYTES"
  using assms
  by (auto simp: bundle_eligible_def WIFI_BUNDLE_AVTP_def WIFI_BUNDLE_FIRST_COST_def WIFI_BUNDLE_FILL_BYTES_def
      WIFI_BUNDLE_MAX_BYTES_def WIFI_VI_HEADER_LEN_def WIFI_BUNDLE_ENTRIES_def compact_layout split: if_splits)

text \<open>The last lines of \<open>wifi_bundle_add\<close>, on the slot that takes the frame.\<close>

lemma slot_takes:
  assumes "config_ok c" and "holds_frames c fs b" and "bundle_eligible c frame"
    and "\<forall>f \<in> set fs. take 18 f = take 18 frame"
    and "(if bn_count b > 0 \<and> length (bn_buf b) + WIFI_BUNDLE_ENTRY_COST (bundle_compact c) (bn_buf b) (bn_count b)
               (drop WIFI_BUNDLE_AVTP frame) > WIFI_BUNDLE_FILL_BYTES
          then wifi_bundle_send now b else (b, [])) = (b1, out1)"
    and "bundle_append c now frame b1 = (b2, out2)"
  shows "\<exists>fs'. holds_frames c fs' b2 \<and> frames_out (out1 @ out2) @ fs' = fs @ [frame]
     \<and> list_all (bundle_fits c) (out1 @ out2)"
proof -
  note sz = eligible_sizes [OF assms(3)]
  have good: "good_frame c (gs @ [frame]) frame" if "gs = [] \<or> gs = fs" for gs
    using that assms(4) sz by (cases gs) (auto simp: good_frame_def)
  show ?thesis
  proof (cases "bn_count b > 0 \<and> length (bn_buf b) + WIFI_BUNDLE_ENTRY_COST (bundle_compact c) (bn_buf b) (bn_count b)
               (drop WIFI_BUNDLE_AVTP frame) > WIFI_BUNDLE_FILL_BYTES")
    case True
    then have w: "wifi_bundle_send now b = (b1, out1)" using assms(5) by simp
    have "filled c fs b" using assms(2) by (simp add: holds_frames_def)
    note sq = send_queue [OF this assms(1) w]
    obtain fs' where "holds_frames c fs' b2" "frames_out out2 @ fs' = [] @ [frame]" "list_all (bundle_fits c) out2"
      using append_queue [OF sq(1) assms(1) good sz(3) _ assms(6)] by auto
    then show ?thesis using sq by auto
  next
    case False
    then have b: "b1 = b" "out1 = []" using assms(5) by auto
    have n: "bn_count b = length fs" using assms(2) by (simp add: holds_frames_def filled_def)
    have "length (bn_buf b) + WIFI_BUNDLE_ENTRY_COST (bundle_compact c) (bn_buf b) (bn_count b) (drop 18 frame)
        \<le> WIFI_BUNDLE_FILL_BYTES" if "fs \<noteq> []"
      using False n that by (auto simp: WIFI_BUNDLE_AVTP_def not_less)
    from append_queue [OF assms(2) assms(1) good sz(3) this] assms(6) show ?thesis by (auto simp: b)
  qed
qed

lemma ingress_keeps:
  assumes "slot_ingress frame (b, s) = (b', s')"
  shows "holds_frames c fs b' = holds_frames c fs b" "bn_valid b' = bn_valid b"
    "s_bundle_slots s' = s_bundle_slots s" "formed s' = formed s" "slot_matches frame b' = slot_matches frame b"
  using assms
  by (auto simp: slot_ingress_def Let_def holds_frames_def filled_def slot_matches_def split: if_splits)

lemma append_keeps:
  assumes "bundle_append c now frame b = (b', out)"
  shows "bn_valid b' = bn_valid b" "slot_matches f b' = slot_matches f b"
proof -
  let ?b = "if bn_count b = 0 then b\<lparr> bn_buf := wifi_bundle_begin (bundle_compact c) frame, bn_first_us := now \<rparr> else b"
  let ?b2 = "?b\<lparr> bn_buf := wifi_bundle_put (bundle_compact c) (bn_buf ?b) (drop WIFI_BUNDLE_AVTP frame),
                 bn_count := bn_count ?b + 1 \<rparr>"
  have k: "bn_valid ?b2 = bn_valid b" "slot_matches f ?b2 = slot_matches f b"
    by (cases "bn_count b = 0"; simp add: slot_matches_def)+
  have "b' = ?b2 \<or> (\<exists>out'. wifi_bundle_send now ?b2 = (b', out'))"
    using assms unfolding bundle_append_def Let_def by (simp only: split: if_splits) auto
  then show "bn_valid b' = bn_valid b" "slot_matches f b' = slot_matches f b"
    unfolding k [symmetric] using send_keeps by blast+
qed


definition slot_zero :: wifi_bundle_slot_t where
  "slot_zero = \<lparr> bn_valid = False, bn_stream_id = zeros 8, bn_seq = 0, bn_count = 0, bn_buf = [], bn_first_us = 0,
     bn_hist = replicate WIFI_BUNDLE_HISTORY hist_zero, bn_hist_next = 0, slot_dst = zeros 6,
     avtp_seq_valid = False, avtp_seq = 0 \<rparr>"

definition bundler_boot :: bridge_bundles where
  "bundler_boot = \<lparr> s_bundle_slots = replicate WIFI_BUNDLE_SLOTS slot_zero, formed = [],
     s_wifi_ingress_lost = 0, s_wifi_ingress_late = 0 \<rparr>"

lemma boot_queues: "0 < bundle_frames c \<Longrightarrow> bundler_queues c (\<lambda>i. []) bundler_boot"
  by (simp add: bundler_queues_def bundler_boot_def slot_zero_def holds_frames_def filled_def)


section \<open>Every request is accounted for\<close>

definition retx_unaccounted :: "retx_counters \<Rightarrow> int" where
  "retx_unaccounted r = int (s_retx_requested r) - int (s_wifi_retx r + s_retx_late r + s_retx_spaced r
     + s_retx_evicted r + s_retx_no_slot r + s_retx_no_room r + s_retx_tx_fail r)"

text \<open>An entry a NACK for \<open>missing\<close> bundles from \<open>first\<close> on may be answered from.\<close>

definition resendable :: "int \<Rightarrow> u16 \<Rightarrow> nat \<Rightarrow> nat \<Rightarrow> wifi_bundle_hist_t \<Rightarrow> bool" where
  "resendable now first n0 n1 e \<longleftrightarrow> hist_len e \<noteq> 0 \<and> (\<exists>n. n0 \<le> n \<and> n < n1 \<and> hist_seq e = first + of_nat n)
     \<and> (hist_retx_us e \<noteq> 0 \<longrightarrow> WIFI_BUNDLE_RETX_SPACING_US \<le> now - hist_retx_us e)"

lemma resendable_mono: "\<lbrakk>resendable now first n0 n1 e; m0 \<le> n0; n1 \<le> m1\<rbrakk> \<Longrightarrow> resendable now first m0 m1 e"
  unfolding resendable_def by (meson order_trans less_le_trans)

lemma lookup_copy:
  assumes "hist_lookup now budget (first + of_nat n) hist = retx_copy k"
  shows "k < length hist" "resendable now first n (Suc n) (hist ! k)"
proof -
  obtain k' where k': "first_index (\<lambda>k. hist_len (hist ! k) \<noteq> 0 \<and> hist_seq (hist ! k) = first + of_nat n) (length hist) = Some k'"
    using assms by (auto simp: hist_lookup_def split: option.splits)
  then have "k' = k" "\<not> (hist_retx_us (hist ! k') \<noteq> 0 \<and> now - hist_retx_us (hist ! k') < WIFI_BUNDLE_RETX_SPACING_US)"
    using assms by (auto simp: hist_lookup_def Let_def split: if_splits)
  with first_index_SomeD [OF k'] show "k < length hist" "resendable now first n (Suc n) (hist ! k)"
    by (auto simp: resendable_def)
qed

lemma nack_loop_accounts:
  assumes "nack_loop room tx_ok now budget first n left hist r = (hist', r', out)"
  shows "retx_unaccounted r' = retx_unaccounted r - int left
    \<and> (\<forall>b \<in> set out. \<exists>e \<in> set hist. resendable now first n (n + left) e \<and> b = bundle_retx (hist_octets e))
    \<and> map hist_octets hist' = map hist_octets hist"
  using assms
proof (induction left arbitrary: n hist r out)
  case 0
  then show ?case by simp
next
  case (Suc left)
  have shift: "resendable now first (Suc n) (Suc n + left) e \<Longrightarrow> resendable now first n (n + Suc left) e"
    "resendable now first n (Suc n) e \<Longrightarrow> resendable now first n (n + Suc left) e" for e
    by (auto elim: resendable_mono)
  show ?case
  proof (cases "hist_lookup now budget (first + of_nat n) hist")
    case retx_not_found
    then have "nack_loop room tx_ok now budget first (Suc n) left hist
        (r\<lparr> s_retx_evicted := s_retx_evicted r + 1 \<rparr>) = (hist', r', out)" using Suc.prems by simp
    from Suc.IH [OF this] show ?thesis using shift(1) by (fastforce simp: retx_unaccounted_def)
  next
    case retx_is_late
    then have "nack_loop room tx_ok now budget first (Suc n) left hist
        (r\<lparr> s_retx_late := s_retx_late r + 1 \<rparr>) = (hist', r', out)" using Suc.prems by simp
    from Suc.IH [OF this] show ?thesis using shift(1) by (fastforce simp: retx_unaccounted_def)
  next
    case retx_is_spaced
    then have "nack_loop room tx_ok now budget first (Suc n) left hist
        (r\<lparr> s_retx_spaced := s_retx_spaced r + 1 \<rparr>) = (hist', r', out)" using Suc.prems by simp
    from Suc.IH [OF this] show ?thesis using shift(1) by (fastforce simp: retx_unaccounted_def)
  next
    case (retx_copy k)
    let ?h = "hist[k := (hist ! k)\<lparr> hist_retx_us := now \<rparr>]"
    note l = lookup_copy [OF retx_copy]
    have oct: "map hist_octets ?h = map hist_octets hist"
      using l(1) by (simp add: map_update list_update_same_conv)
    show ?thesis
    proof (cases "room n")
      case False
      then have "hist' = ?h" "out = []" "r' = r\<lparr> s_retx_no_room := s_retx_no_room r + Suc left \<rparr>"
        using Suc.prems retx_copy by auto
      then show ?thesis using oct by (simp add: retx_unaccounted_def)
    next
      case True
      define r1 where "r1 = (if tx_ok n then r\<lparr> s_wifi_retx := s_wifi_retx r + 1 \<rparr>
                     else r\<lparr> s_retx_tx_fail := s_retx_tx_fail r + 1 \<rparr>)"
      obtain out1 where o: "nack_loop room tx_ok now budget first (Suc n) left ?h r1 = (hist', r', out1)"
        "out = bundle_retx (hist_octets (hist ! k)) # out1"
        using Suc.prems retx_copy True l(1) by (auto simp: r1_def Let_def split: prod.splits)
      note ih = Suc.IH [OF o(1)]
      have "\<exists>e \<in> set hist. resendable now first n (n + Suc left) e \<and> b = bundle_retx (hist_octets e)" if b: "b \<in> set out1" for b
      proof -
        obtain e where e: "e \<in> set ?h" "resendable now first (Suc n) (Suc n + left) e" "b = bundle_retx (hist_octets e)"
          using ih b by blast
        from e(1) consider "e \<in> set hist" | "e = (hist ! k)\<lparr> hist_retx_us := now \<rparr>"
          using set_update_subset_insert by fastforce
        then show ?thesis
        proof cases
          case 1 with e(2,3) shift(1) show ?thesis by blast
        next
          case 2 with e(3) l shift(2) show ?thesis by (intro bexI [of _ "hist ! k"]) auto
        qed
      qed
      moreover have "retx_unaccounted r1 = retx_unaccounted r - 1" by (simp add: r1_def retx_unaccounted_def)
      ultimately show ?thesis using ih oct l shift(2) o(2) by (auto intro!: bexI [of _ "hist ! k"])
    qed
  qed
qed


text \<open>A bundle is sent at 1 ms, its station asks for it and its successor at 5 ms and again at 6 ms.\<close>

definition demo_sent :: bridge_bundles where
  "demo_sent = snd (wifi_bundle_add \<lparr> bundle_compact = False, bundle_frames = 1 \<rparr> 1000 (demo_frame 1 [1, 2, 3, 0]) bundler_boot)"

definition demo_nack :: octets where
  "demo_nack = [2, 0, 0, 0, 0, 1, 2, 0, 0, 0, 0, 9, 0x22, 0xf0, 0x7e, 0x80, 0, 0] @ [2, 0, 0, 0, 0, 1, 0, 0]
     @ [65, 86, 66, 78] @ [0, 0, 2, 0, 100]"

definition retx_zero :: retx_counters where
  "retx_zero = \<lparr> s_retx_requested = 0, s_wifi_retx = 0, s_retx_late = 0, s_retx_spaced = 0, s_retx_evicted = 0,
     s_retx_no_slot = 0, s_retx_no_room = 0, s_retx_tx_fail = 0 \<rparr>"

lemma demo_answers:
  "case wifi_nack_handle (\<lambda>n. True) (\<lambda>n. True) 5000 demo_nack demo_sent retx_zero of (s, r, out) \<Rightarrow>
     s_wifi_retx r = 1 \<and> s_retx_evicted r = 1 \<and> length out = 1
     \<and> wifi_bundle_split (out ! 0) = [demo_frame 1 [1, 2, 3, 0]]
     \<and> (case wifi_nack_handle (\<lambda>n. True) (\<lambda>n. True) 6000 demo_nack s r of (s, r, out) \<Rightarrow>
          s_retx_spaced r = 1 \<and> out = [])"
  by code_simp


end
