(* ===== verification/Stream_Out.thy ===== *)
theory Stream_Out
  imports Msrp_Map Tspec Msrp_Tx
begin

text \<open>
  Output streams (\<open>avb.c\<close>): the class a format implies, the stream's VLAN, its bandwidth on the
  wire, its declaration, and the new stream ID a growing reservation moves to.
\<close>

section \<open>Class and bandwidth\<close>

definition avb_output_format_class :: "octets \<Rightarrow> bool option" where
  "avb_output_format_class fmt =
     (if fmt_subtype fmt \<noteq> subtype_aaf then None
      else
        let sample_rate = unat (aaf_code_to_sample_rate (aaf_sample_rate fmt));
            samples_per_frame = aaf_samples_per_frame fmt
        in if sample_rate = 0 \<or> samples_per_frame = 0 then None
           else
             let interval_us = samples_per_frame * 1000000 div sample_rate
             in if interval_us \<noteq> 125 \<and> interval_us \<noteq> 250 then None else Some (interval_us = 250))"

definition avb_output_stream_set_class :: "nat \<Rightarrow> bool \<Rightarrow> avb_state \<Rightarrow> avb_state" where
  "avb_output_stream_set_class index class_b s =
     (let m = (if class_b then 1 else 0 :: nat) in
      upd_output index (\<lambda>t. t\<lparr> ts_class_b := class_b,
        ts_vlan_id := (if m < length (msrp_mappings s) then map_vlan_id (msrp_mappings s ! m)
                       else ts_vlan_id t) \<rparr>) s)"

definition avb_output_stream_class_from_format :: "nat \<Rightarrow> avb_state \<Rightarrow> bool \<times> avb_state" where
  "avb_output_stream_class_from_format index s =
     (case avb_output_format_class (ts_stream_format (output_streams s ! index)) of
        None \<Rightarrow> (False, s)
      | Some class_b \<Rightarrow> (True, avb_output_stream_set_class index class_b s))"

definition stream_mfs :: "avb_talker_stream_s \<Rightarrow> u16" where
  "stream_mfs t = avb_compute_tspec_max_frame_size (ts_stream_format t) (ts_class_b t)"

definition stream_mfi :: "avb_state \<Rightarrow> avb_talker_stream_s \<Rightarrow> u16" where
  "stream_mfi s t = avb_compute_tspec_max_interval_frames (ENDPOINT_WIRELESS (build s))
                      (ts_stream_format t) (ts_class_b t)"

definition avb_stream_out_copy_bps :: "avb_state \<Rightarrow> nat \<Rightarrow> u64" where
  "avb_stream_out_copy_bps s index =
     (let t = output_streams s ! index in
      avb_tspec_copy_bps (stream_mfs t) (stream_mfi s t) (ts_class_b t) AVB_TSPEC_OVERHEAD_OCTETS)"

section \<open>A new stream ID\<close>

definition AVB_STREAM_ID_GENERATIONS :: nat where "AVB_STREAM_ID_GENERATIONS = 4"
definition AVB_STREAM_ID_REUSE_US :: int where "AVB_STREAM_ID_REUSE_US = 32 * 1000 * 1000"

definition stream_id_set_generation :: "octets \<Rightarrow> nat \<Rightarrow> octets" where
  "stream_id_set_generation stream_id gen =
     stream_id[7 := (stream_id ! 7 AND 0x3f) OR push_bit 6 (of_nat gen)]"

text \<open>Readiness was declared for the old ID: a row known only from MSRP goes, an ACMP one starts
  again.\<close>

definition renew_row :: "nat \<Rightarrow> avb_talker_stream_s \<Rightarrow> avb_talker_stream_s" where
  "renew_row i st =
     (if i \<ge> AVB_MAX_NUM_CONNECTED_LISTENERS then st
      else if \<not> acmp_connected (connected_listeners st ! i) then avb_remove_talker_listener_by_index i st
      else upd_connected i (\<lambda>c. c\<lparr> msrp_ready := False, msrp_ready_live := False,
             asking_failed := False, asking_failed_since_us := 0 \<rparr>) st)"

definition renew_move :: "nat \<Rightarrow> nat \<Rightarrow> avb_state \<Rightarrow> avb_state" where
  "renew_move index gen s =
     (let st = output_streams s ! index;
          count = connected_count st;
          s = mrp_withdraw_talker 0 (ts_stream_id st) s
      in upd_output index (\<lambda>st.
           fold renew_row (rev [0..<count])
             (st\<lparr> stream_id_retired_us := (stream_id_retired_us st)[stream_id_gen st := now_us s],
                  stream_id_gen := gen,
                  ts_stream_id := stream_id_set_generation (ts_stream_id st) gen \<rparr>)) s)"

primrec renew_try :: "nat \<Rightarrow> nat list \<Rightarrow> avb_state \<Rightarrow> bool \<times> avb_state" where
  "renew_try index [] s = (False, s)"
| "renew_try index (step # steps) s =
     (let st = output_streams s ! index;
          gen = (stream_id_gen st + step) mod AVB_STREAM_ID_GENERATIONS
      in if now_us s - stream_id_retired_us st ! gen < AVB_STREAM_ID_REUSE_US
         then renew_try index steps s
         else case mrp_talker_forget 0 (stream_id_set_generation (ts_stream_id st) gen) s of
                (False, s) \<Rightarrow> renew_try index steps s
              | (True, s) \<Rightarrow> (True, renew_move index gen s))"

text \<open>\<open>except_listener\<close> is the index of the requester's row, \<open>None\<close> for -1.\<close>

definition avb_output_stream_renew_id :: "nat \<Rightarrow> nat option \<Rightarrow> avb_state \<Rightarrow> bool \<times> avb_state" where
  "avb_output_stream_renew_id index except_listener s =
     (let st = output_streams s ! index in
      if streaming st then (False, s)
      else if first_index (\<lambda>i. acmp_connected (connected_listeners st ! i) \<and> Some i \<noteq> except_listener)
                (min (connected_count st) AVB_MAX_NUM_CONNECTED_LISTENERS) \<noteq> None
      then (False, s)
      else renew_try index [1..<AVB_STREAM_ID_GENERATIONS] s)"

section \<open>Declaring\<close>

definition avb_declared_dest_addr :: "avb_state \<Rightarrow> avb_talker_stream_s \<Rightarrow> octets" where
  "avb_declared_dest_addr s t =
     (if avb_lite s \<and> \<not> lite_declared_multicast t then zeros 6 else ts_stream_dest_addr t)"

text \<open>The destination is a pointer taken before the ID may move: it is the same address after.\<close>

definition avb_declare_output_stream :: "nat \<Rightarrow> nat option \<Rightarrow> avb_state \<Rightarrow> avb_state" where
  "avb_declare_output_stream index except_listener s =
     (let t = output_streams s ! index;
          dest = avb_declared_dest_addr s t; mfs = stream_mfs t; mfi = stream_mfi s t;
          s = (if \<not> ROLE_BRIDGE (build s) \<and> NEW_STREAM_ID_ON_GROW (build s) \<and> \<not> avb_lite s
                  \<and> mrp_talker_advertise_change_waits s 0 (ts_stream_id t) dest (ts_vlan_id t) mfs mfi (ts_class_b t)
               then snd (avb_output_stream_renew_id index except_listener s) else s);
          stream_id = ts_stream_id (output_streams s ! index);
          s = mrp_declare_talker_advertise 0 stream_id dest (ts_vlan_id t) mfs mfi (ts_class_b t) s
      in mrp_set_talker_latency 0 stream_id s)"

definition avb_output_stream_declare_now :: "nat \<Rightarrow> nat option \<Rightarrow> avb_state \<Rightarrow> avb_state" where
  "avb_output_stream_declare_now index except_listener s =
     (if \<not> config_talker s \<or> index \<ge> length (output_streams s) then s
      else if \<not> avb_lite s \<and> ts_stream_dest_addr (output_streams s ! index) = zeros 6 then s
      else avb_declare_output_stream index except_listener s)"

end
