(* ===== verification/Lite_Transport.thy ===== *)
theory Lite_Transport
  imports Stream_Out
begin

text \<open>
  The AVB Lite transport pass (\<open>avb.c\<close>): which listeners of an output stream get a unicast copy,
  when a stream escalates to its multicast address, how the copies of all streams share the
  egress budget, and the addresses the transmit paths use.
\<close>

section \<open>One stream's plan\<close>

definition AVB_LITE_LISTENER_IDLE_US :: int where "AVB_LITE_LISTENER_IDLE_US = 16 * 1000 * 1000"
definition AVB_LITE_JOIN_TIME_US :: int where "AVB_LITE_JOIN_TIME_US = 200 * 1000"
definition AVB_LITE_SLOT_HOLD_US :: int where "AVB_LITE_SLOT_HOLD_US = 3 * 1000 * 1000"
definition AVB_LITE_START_RETRY_US :: int where "AVB_LITE_START_RETRY_US = 1000 * 1000"

text \<open>\<open>plan_order\<close> holds the candidates' rows in service order; a plan left zero is not \<open>lite\<close>.\<close>

record avb_lite_plan_s =
  plan_lite :: bool
  plan_order :: "nat list"
  ready_candidates :: nat
  escalation_allowed :: bool
  copy_bps :: nat
  declaration_changed :: bool

definition plan_zero :: avb_lite_plan_s where
  "plan_zero = \<lparr> plan_lite = False, plan_order = [], ready_candidates = 0, escalation_allowed = False,
     copy_bps = 0, declaration_changed = False \<rparr>"

definition capped_count :: "avb_talker_stream_s \<Rightarrow> nat" where
  "capped_count st = min (connected_count st) AVB_MAX_NUM_CONNECTED_LISTENERS"

definition lite_age_row :: "int \<Rightarrow> nat \<Rightarrow> avb_talker_stream_s \<Rightarrow> avb_talker_stream_s" where
  "lite_age_row now j st =
     (let seen = last_seen_us (connected_listeners st ! j) in
      if seen = 0 then upd_connected j (\<lambda>c. c\<lparr> last_seen_us := now \<rparr>) st
      else if now - seen > AVB_LITE_LISTENER_IDLE_US then avb_remove_talker_listener_by_index j st
      else st)"

text \<open>Insertion from the back, behind the rows that asked no later.\<close>

primrec insert_back :: "(nat \<Rightarrow> u32) \<Rightarrow> nat \<Rightarrow> nat list \<Rightarrow> nat list" where
  "insert_back f x [] = [x]"
| "insert_back f x (y # ys) = (if f y > f x then y # insert_back f x ys else x # y # ys)"

definition row_ready :: "connected_listener_s \<Rightarrow> bool" where
  "row_ready c \<longleftrightarrow> msrp_ready c \<or> acmp_connected c"

definition row_asking :: "int \<Rightarrow> connected_listener_s \<Rightarrow> bool" where
  "row_asking now c \<longleftrightarrow> cl_mac_addr c \<noteq> zeros 6
     \<and> (row_ready c \<or> lite_refused c \<or> lite_hold_until_us c \<noteq> 0 \<and> now < lite_hold_until_us c)"

text \<open>One turn of the loop over the rows, with the sequence of first requests and the candidates.\<close>

definition lite_candidate ::
  "int \<Rightarrow> nat \<Rightarrow> avb_talker_stream_s \<times> u32 \<times> nat list \<times> nat \<Rightarrow> avb_talker_stream_s \<times> u32 \<times> nat list \<times> nat" where
  "lite_candidate now j = (\<lambda>(st, order_seq, order, ready).
     let row = connected_listeners st ! j in
     if \<not> row_asking now row
     then (upd_connected j (\<lambda>c. c\<lparr> lite_order := 0, lite_refused := False, lite_admitted := False,
             lite_hold_until_us := 0 \<rparr>) st, order_seq, order, ready)
     else
       let (st, order_seq) =
             (if lite_order row = 0
              then (upd_connected j (\<lambda>c. c\<lparr> lite_order := order_seq + 1 \<rparr>) st, order_seq + 1)
              else (st, order_seq));
           f = (\<lambda>k. lite_order (connected_listeners st ! k))
       in (st, order_seq, rev (insert_back f j (rev order)), ready + (if row_ready row then 1 else 0)))"

text \<open>The escalation sequence.\<close>

definition lite_escalate :: "int \<Rightarrow> bool \<Rightarrow> avb_talker_stream_s \<Rightarrow> avb_talker_stream_s \<times> bool" where
  "lite_escalate now want_multicast st =
     (let (st, changed) =
        (if want_multicast \<and> \<not> lite_declared_multicast st
         then (st\<lparr> lite_declared_multicast := True, lite_multicast_tx_at_us := now + AVB_LITE_JOIN_TIME_US \<rparr>, True)
         else if \<not> want_multicast \<and> lite_declared_multicast st
         then (st\<lparr> lite_declared_multicast := False, lite_tx_multicast := False \<rparr>, True)
         else (st, False))
      in (if lite_declared_multicast st \<and> \<not> lite_tx_multicast st \<and> now \<ge> lite_multicast_tx_at_us st
          then st\<lparr> lite_tx_multicast := True \<rparr> else st, changed))"

definition unadmit_rows :: "nat list \<Rightarrow> avb_talker_stream_s \<Rightarrow> avb_talker_stream_s" where
  "unadmit_rows ks st = fold (\<lambda>k. upd_connected k (\<lambda>c. c\<lparr> lite_admitted := False \<rparr>)) ks st"

definition avb_lite_plan_stream :: "nat \<Rightarrow> avb_state \<Rightarrow> avb_state \<times> avb_lite_plan_s" where
  "avb_lite_plan_stream index s =
     (let now = now_us s; fanout = LITE_UNICAST_FANOUT (build s);
          st = output_streams s ! index;
          st = fold (lite_age_row now) (rev [0..<capped_count st]) st;
          (st, order_seq, order, ready) =
            foreach (capped_count st) (lite_candidate now) (st, s_lite_order_seq s, [], 0);
          allowed = (lite_escalation_allowed s \<and> port_medium (port s 0) \<noteq> avb_port_medium_wifi_ftm
                     \<and> ts_stream_dest_addr st \<noteq> zeros 6);
          (st, changed) = lite_escalate now (allowed \<and> ready > fanout) st;
          st = (if lite_tx_multicast st then unadmit_rows order st
                else unadmit_rows (drop fanout order) (st\<lparr> lite_multicast_admitted := False \<rparr>));
          s = (upd_output index (\<lambda>_. st) s)\<lparr> s_lite_order_seq := order_seq \<rparr>
      in (s, \<lparr> plan_lite = True, plan_order = order, ready_candidates = ready,
               escalation_allowed = allowed,
               copy_bps = unat (avb_stream_out_copy_bps s index), declaration_changed = changed \<rparr>))"

section \<open>Sharing the budget\<close>

text \<open>A copy of stream \<open>i\<close> is its multicast one (\<open>None\<close>) or the unicast one of a row.\<close>

type_synonym lite_copy = "nat \<times> nat option"

definition stream_copies :: "avb_state \<Rightarrow> avb_lite_plan_s list \<Rightarrow> nat \<Rightarrow> lite_copy list" where
  "stream_copies s plans i =
     (if \<not> plan_lite (plans ! i) then []
      else if lite_tx_multicast (output_streams s ! i) then [(i, None)]
      else map (\<lambda>k. (i, Some k)) (take (LITE_UNICAST_FANOUT (build s)) (plan_order (plans ! i))))"

definition lite_copies :: "avb_state \<Rightarrow> avb_lite_plan_s list \<Rightarrow> lite_copy list" where
  "lite_copies s plans = concat (map (stream_copies s plans) [0..<length (output_streams s)])"

definition copy_admitted :: "avb_state \<Rightarrow> lite_copy \<Rightarrow> bool" where
  "copy_admitted s = (\<lambda>(i, r). case r of
       None \<Rightarrow> lite_multicast_admitted (output_streams s ! i)
     | Some k \<Rightarrow> lite_admitted (connected_listeners (output_streams s ! i) ! k))"

definition admit_copy :: "bool \<Rightarrow> lite_copy \<Rightarrow> avb_state \<Rightarrow> avb_state" where
  "admit_copy v = (\<lambda>(i, r). case r of
       None \<Rightarrow> upd_output i (\<lambda>t. t\<lparr> lite_multicast_admitted := v \<rparr>)
     | Some k \<Rightarrow> upd_output i (upd_connected k (\<lambda>c. c\<lparr> lite_admitted := v \<rparr>)))"

definition UINT32_MAX :: u32 where "UINT32_MAX = 0xFFFFFFFF"

definition avb_lite_plan_first_order :: "avb_talker_stream_s \<Rightarrow> avb_lite_plan_s \<Rightarrow> u32" where
  "avb_lite_plan_first_order st plan =
     (case plan_order plan of [] \<Rightarrow> UINT32_MAX | k # _ \<Rightarrow> lite_order (connected_listeners st ! k))"

definition copy_order :: "avb_state \<Rightarrow> avb_lite_plan_s list \<Rightarrow> lite_copy \<Rightarrow> u32" where
  "copy_order s plans = (\<lambda>(i, r). case r of
       None \<Rightarrow> avb_lite_plan_first_order (output_streams s ! i) (plans ! i)
     | Some k \<Rightarrow> lite_order (connected_listeners (output_streams s ! i) ! k))"

definition lite_committed :: "avb_state \<Rightarrow> avb_lite_plan_s list \<Rightarrow> nat" where
  "lite_committed s plans =
     fold (\<lambda>c sum. if copy_admitted s c then sum + copy_bps (plans ! fst c) else sum) (lite_copies s plans) 0"

text \<open>The admitted copy whose listener asked last.\<close>

definition newest_copy :: "avb_state \<Rightarrow> avb_lite_plan_s list \<Rightarrow> lite_copy option" where
  "newest_copy s plans = snd (fold (\<lambda>c (newest, best).
       let order = copy_order s plans c in
       if copy_admitted s c \<and> (snd c = None \<longrightarrow> order \<noteq> UINT32_MAX) \<and> order \<ge> newest
       then (order, Some c) else (newest, best)) (lite_copies s plans) (0, None))"

text \<open>Over budget: release the most recently admitted copies.  Each turn releases one, so as many
  turns as there are copies are enough.\<close>

primrec lite_release :: "nat \<Rightarrow> nat \<Rightarrow> avb_lite_plan_s list \<Rightarrow> nat \<times> avb_state \<Rightarrow> nat \<times> avb_state" where
  "lite_release 0 budget plans cs = cs"
| "lite_release (Suc n) budget plans cs =
     (case cs of (committed, s) \<Rightarrow>
        if committed \<le> budget then (committed, s)
        else case newest_copy s plans of
               None \<Rightarrow> (committed, s)
             | Some c \<Rightarrow> lite_release n budget plans
                           (committed - copy_bps (plans ! fst c), admit_copy False c s))"

text \<open>The waiting copy that fits and whose listener asked first.\<close>

definition earliest_copy :: "nat \<Rightarrow> nat \<Rightarrow> avb_state \<Rightarrow> avb_lite_plan_s list \<Rightarrow> lite_copy option" where
  "earliest_copy committed budget s plans = snd (fold (\<lambda>c (earliest, best).
       let order = copy_order s plans c in
       if \<not> copy_admitted s c \<and> (snd c = None \<longrightarrow> ready_candidates (plans ! fst c) > 0)
          \<and> order < earliest \<and> committed + copy_bps (plans ! fst c) \<le> budget
       then (order, Some c) else (earliest, best)) (lite_copies s plans) (UINT32_MAX, None))"

primrec lite_admit :: "nat \<Rightarrow> nat \<Rightarrow> avb_lite_plan_s list \<Rightarrow> nat \<times> avb_state \<Rightarrow> nat \<times> avb_state" where
  "lite_admit 0 budget plans cs = cs"
| "lite_admit (Suc n) budget plans cs =
     (case cs of (committed, s) \<Rightarrow>
        case earliest_copy committed budget s plans of
          None \<Rightarrow> (committed, s)
        | Some c \<Rightarrow> lite_admit n budget plans
                      (committed + copy_bps (plans ! fst c), admit_copy True c s))"

text \<open>75 % of the link.  The sums stay far below the 64 bits of the code.\<close>

definition lite_budget_bps :: "avb_state \<Rightarrow> nat" where
  "lite_budget_bps s = unat (link_speed_mbps (port s 0)) * 1000000 * 3 div 4"

definition avb_lite_admit_copies :: "avb_lite_plan_s list \<Rightarrow> avb_state \<Rightarrow> avb_state" where
  "avb_lite_admit_copies plans s =
     (let n = length (lite_copies s plans); budget = lite_budget_bps s
      in snd (lite_admit (Suc n) budget plans
                (lite_release (Suc n) budget plans (lite_committed s plans, s))))"

section \<open>Publishing the addresses\<close>

definition avb_lite_publish_tx_addrs :: "octets list \<Rightarrow> avb_talker_stream_s \<Rightarrow> avb_talker_stream_s" where
  "avb_lite_publish_tx_addrs das t = t\<lparr> tx_da_seq := tx_da_seq t + 2, tx_da := das \<rparr>"

definition NO_FAILURE :: u8 where "NO_FAILURE = 0"
definition insufficient_bridge_resources :: u8 where "insufficient_bridge_resources = 2"

text \<open>The loop over a stream's candidates: \<open>k\<close> is the place of a row in the order.  A row is refused
  with a code, or served; the result is the stream, the addresses and the refusals.\<close>

definition lite_refusal_code :: "nat \<Rightarrow> avb_talker_stream_s \<Rightarrow> avb_lite_plan_s \<Rightarrow> nat \<Rightarrow> connected_listener_s \<Rightarrow> u8" where
  "lite_refusal_code fanout st plan k row =
     (if lite_tx_multicast st
      then (if \<not> lite_multicast_admitted st then insufficient_bandwidth else NO_FAILURE)
      else if k \<ge> fanout
      then (if \<not> escalation_allowed plan then insufficient_bridge_resources else NO_FAILURE)
      else if \<not> lite_admitted row then insufficient_bandwidth
      else NO_FAILURE)"

definition lite_serve ::
  "nat \<Rightarrow> int \<Rightarrow> avb_lite_plan_s \<Rightarrow> nat \<Rightarrow> avb_talker_stream_s \<times> octets list \<times> (octets \<times> u8) list
     \<Rightarrow> avb_talker_stream_s \<times> octets list \<times> (octets \<times> u8) list" where
  "lite_serve fanout now plan k = (\<lambda>(st, das, refused).
     let j = plan_order plan ! k; row = connected_listeners st ! j;
         code = lite_refusal_code fanout st plan k row
     in if code \<noteq> NO_FAILURE
        then (upd_connected j (\<lambda>c. c\<lparr> lite_refused := True, lite_hold_until_us := 0 \<rparr>) st, das,
              refused @ [(cl_mac_addr row, code)])
        else (upd_connected j (\<lambda>c. c\<lparr> lite_refused := False,
                lite_hold_until_us := (if lite_refused c then now + AVB_LITE_SLOT_HOLD_US
                                       else lite_hold_until_us c) \<rparr>) st,
              (if \<not> lite_tx_multicast st \<and> k < fanout \<and> row_ready row then das @ [cl_mac_addr row] else das),
              refused))"

text \<open>One stream of the last loop of \<open>avb_lite_update_stream_tx_addrs\<close>.  On a Wi-Fi port with unicast
  streams the frames go to the access point's last known address, made local.\<close>

definition lite_stream_turn :: "bool \<Rightarrow> avb_lite_plan_s list \<Rightarrow> nat \<Rightarrow> avb_state \<Rightarrow> avb_state" where
  "lite_stream_turn wifi_port plans i s =
     (let plan = plans ! i; now = now_us s; fanout = LITE_UNICAST_FANOUT (build s);
          (s, das, publish) =
       (if wifi_port then
          let s = (case ap_bssid s of Some b \<Rightarrow> s\<lparr> s_bssid := Some b \<rparr> | None \<Rightarrow> s)
          in (s, (case s_bssid s of Some b \<Rightarrow> [b[0 := b ! 0 OR 2]] | None \<Rightarrow> []), True)
        else if plan_lite plan then
          let (st, das, refused) =
                foreach (length (plan_order plan)) (lite_serve fanout now plan) (output_streams s ! i, [], []);
              s = upd_output i (\<lambda>_. st) s;
              serving = (if lite_tx_multicast st then lite_multicast_admitted st \<and> ready_candidates plan > 0
                         else das \<noteq> []);
              s = mrp_lite_sync_refusals (ts_stream_id st) refused (avb_declared_dest_addr s st) (ts_vlan_id st)
                    (stream_mfs st) (stream_mfi s st) (ts_class_b st) s;
              s = (if \<not> serving \<and> streaming st then avb_stop_stream_out i s
                   else if serving \<and> \<not> streaming st \<and> now \<ge> lite_start_retry_us st
                   then avb_start_stream_out i (upd_output i (\<lambda>t.
                          avb_lite_publish_tx_addrs (if lite_tx_multicast st then [] else das)
                            (t\<lparr> lite_start_retry_us := now + AVB_LITE_START_RETRY_US \<rparr>)) s)
                   else s)
          in if lite_tx_multicast st then (s, [], True) else (s, das, das \<noteq> [])
        else (s, [], True));
          s = (if publish \<and> das \<noteq> tx_da (output_streams s ! i)
               then upd_output i (avb_lite_publish_tx_addrs das) s else s)
      in if declaration_changed plan then avb_declare_output_stream i None s else s)"

text \<open>The plans of all streams, then the shares.\<close>

primrec lite_plan_all :: "nat \<Rightarrow> avb_state \<Rightarrow> avb_state \<times> avb_lite_plan_s list" where
  "lite_plan_all 0 s = (s, [])"
| "lite_plan_all (Suc n) s =
     (case lite_plan_all n s of (s, plans) \<Rightarrow>
        case avb_lite_plan_stream n s of (s, p) \<Rightarrow> (s, plans @ [p]))"

definition avb_lite_update_stream_tx_addrs :: "avb_state \<Rightarrow> avb_state" where
  "avb_lite_update_stream_tx_addrs s =
     (if \<not> config_talker s then s
      else
        let n = length (output_streams s);
            wifi_port = (WIFI_UNICAST_STREAMS (build s) \<and> port_medium (port s 0) = avb_port_medium_wifi_ftm);
            (s, plans) = (if avb_lite s \<and> \<not> wifi_port
                          then case lite_plan_all n s of (s, plans) \<Rightarrow> (avb_lite_admit_copies plans s, plans)
                          else (s, replicate n plan_zero))
        in foreach n (lite_stream_turn wifi_port plans) s)"

end
