(* ===== verification/Lite_Budget.thy ===== *)
theory Lite_Budget
  imports Lite_Transport Boot
begin

text \<open>
  The AVB Lite transport pass keeps what it sends within 75 % of the link, serves listeners in the
  order they asked, and publishes addresses only of listeners it has admitted.
\<close>

section \<open>Copies\<close>

definition plans_ok :: "avb_state \<Rightarrow> avb_lite_plan_s list \<Rightarrow> bool" where
  "plans_ok s plans \<longleftrightarrow> length plans = length (output_streams s)
     \<and> (\<forall>i < length plans. distinct (plan_order (plans ! i))
          \<and> (\<forall>k \<in> set (plan_order (plans ! i)). k < length (connected_listeners (output_streams s ! i)))
          \<and> (lite_tx_multicast (output_streams s ! i) \<longrightarrow>
               avb_lite_plan_first_order (output_streams s ! i) (plans ! i) \<noteq> UINT32_MAX))"

lemma set_copies:
  "c \<in> set (lite_copies s plans) \<longleftrightarrow>
     (\<exists>i < length (output_streams s). c \<in> set (stream_copies s plans i))"
  by (auto simp: lite_copies_def)

lemma distinct_concat_map:
  assumes "distinct xs" and "\<And>x. x \<in> set xs \<Longrightarrow> distinct (f x)"
    and "\<And>x y. \<lbrakk>x \<in> set xs; y \<in> set xs; x \<noteq> y\<rbrakk> \<Longrightarrow> set (f x) \<inter> set (f y) = {}"
  shows "distinct (concat (map f xs))"
  using assms
proof (induction xs)
  case (Cons x xs)
  have "set (f x) \<inter> set (f y) = {}" if "y \<in> set xs" for y using Cons.prems that by auto
  moreover have "distinct (concat (map f xs))" using Cons by auto
  ultimately show ?case using Cons.prems(2) by auto
qed simp

lemma map_upd_at: "(\<And>x. f (g x) = f x) \<Longrightarrow> map f (upd_at k g xs) = map f xs"
  by (cases "k < length xs") (simp_all add: upd_at_def map_update list_update_same_conv list_update_beyond not_less)

lemma distinct_copies:
  assumes "plans_ok s plans"
  shows "distinct (lite_copies s plans)"
proof -
  have "distinct (stream_copies s plans i)" if "i < length (output_streams s)" for i
    using assms that by (auto simp: stream_copies_def distinct_map inj_on_def plans_ok_def)
  then show ?thesis unfolding lite_copies_def
    by (intro distinct_concat_map) (auto simp: stream_copies_def split: if_splits)
qed

lemma copy_valid:
  assumes "plans_ok s plans" and "(i, r) \<in> set (lite_copies s plans)"
  shows "i < length (output_streams s)"
    and "r = Some k \<Longrightarrow> k < length (connected_listeners (output_streams s ! i))"
    and "r = None \<longleftrightarrow> lite_tx_multicast (output_streams s ! i)"
proof -
  from assms(2) obtain j where j: "j < length (output_streams s)" "(i, r) \<in> set (stream_copies s plans j)"
    by (auto simp: set_copies)
  then have "j = i" by (auto simp: stream_copies_def split: if_splits)
  with j show "i < length (output_streams s)" by simp
  show "r = None \<longleftrightarrow> lite_tx_multicast (output_streams s ! i)" using j
    by (auto simp: stream_copies_def split: if_splits)
  show "k < length (connected_listeners (output_streams s ! i))" if "r = Some k"
    using j that assms(1) \<open>j = i\<close>
    by (auto simp: stream_copies_def plans_ok_def split: if_splits dest: in_set_takeD)
qed

text \<open>Admitting or releasing a copy touches only its flag.\<close>

definition same_but_flags :: "avb_state \<Rightarrow> avb_state \<Rightarrow> bool" where
  "same_but_flags s t \<longleftrightarrow> build t = build s \<and> port t = port s
     \<and> length (output_streams t) = length (output_streams s)
     \<and> (\<forall>i < length (output_streams s).
          lite_tx_multicast (output_streams t ! i) = lite_tx_multicast (output_streams s ! i)
          \<and> map lite_order (connected_listeners (output_streams t ! i))
              = map lite_order (connected_listeners (output_streams s ! i)))"

lemma same_refl [simp]: "same_but_flags s s" by (simp add: same_but_flags_def)

lemma same_trans: "\<lbrakk>same_but_flags s t; same_but_flags t u\<rbrakk> \<Longrightarrow> same_but_flags s u"
  by (simp add: same_but_flags_def)

lemma same_admit: "same_but_flags s (admit_copy v c s)"
proof -
  have "same_but_flags s (upd_output i g s)"
    if "\<And>t. lite_tx_multicast (g t) = lite_tx_multicast t"
      and "\<And>t. map lite_order (connected_listeners (g t)) = map lite_order (connected_listeners t)" for i g
    using that by (auto simp: same_but_flags_def upd_output_def nth_upd_at)
  then show ?thesis
    by (cases c; cases "snd c") (auto simp: admit_copy_def upd_connected_def map_upd_at)
qed

lemma same_rows:
  assumes "same_but_flags s t" and "i < length (output_streams s)"
  shows "length (connected_listeners (output_streams t ! i)) = length (connected_listeners (output_streams s ! i))"
    and "k < length (connected_listeners (output_streams s ! i)) \<Longrightarrow>
      lite_order (connected_listeners (output_streams t ! i) ! k) = lite_order (connected_listeners (output_streams s ! i) ! k)"
proof -
  from assms have m: "map lite_order (connected_listeners (output_streams t ! i))
      = map lite_order (connected_listeners (output_streams s ! i))" by (simp add: same_but_flags_def)
  then show l: "length (connected_listeners (output_streams t ! i)) = length (connected_listeners (output_streams s ! i))"
    using map_eq_imp_length_eq by blast
  show "lite_order (connected_listeners (output_streams t ! i) ! k) = lite_order (connected_listeners (output_streams s ! i) ! k)"
    if "k < length (connected_listeners (output_streams s ! i))"
    using m l that by (metis nth_map)
qed

lemma same_copies: "same_but_flags s t \<Longrightarrow> lite_copies t plans = lite_copies s plans"
  by (auto simp: lite_copies_def same_but_flags_def stream_copies_def intro!: arg_cong [of _ _ concat] map_cong)

lemma same_first_order:
  assumes "same_but_flags s t" "plans_ok s plans" "i < length (output_streams s)"
  shows "avb_lite_plan_first_order (output_streams t ! i) (plans ! i)
       = avb_lite_plan_first_order (output_streams s ! i) (plans ! i)"
  using assms same_rows(2) [OF assms(1,3)]
  by (cases "plan_order (plans ! i)") (auto simp: avb_lite_plan_first_order_def plans_ok_def)

lemma same_plans_ok:
  assumes "same_but_flags s t" "plans_ok s plans"
  shows "plans_ok t plans"
  using assms same_rows(1) [OF assms(1)] same_first_order [OF assms]
  by (auto simp: plans_ok_def same_but_flags_def)

lemma same_copy_order:
  assumes "same_but_flags s t" "plans_ok s plans" "c \<in> set (lite_copies s plans)"
  shows "copy_order t plans c = copy_order s plans c"
proof -
  obtain i r where c: "c = (i, r)" by (cases c)
  note v = copy_valid [OF assms(2) assms(3) [unfolded c]]
  show ?thesis using v same_first_order [OF assms(1,2) v(1)] same_rows(2) [OF assms(1) v(1)]
    by (cases r) (auto simp: c copy_order_def)
qed

lemma admitted_admit:
  assumes "plans_ok s plans" and "c \<in> set (lite_copies s plans)" and "d \<in> set (lite_copies s plans)"
  shows "copy_admitted (admit_copy v c s) d = (if d = c then v else copy_admitted s d)"
proof -
  obtain i r j q where c: "c = (i, r)" and d: "d = (j, q)" by (cases c; cases d)
  note vc = copy_valid [OF assms(1) assms(2) [unfolded c]] and vd = copy_valid [OF assms(1) assms(3) [unfolded d]]
  show ?thesis using vc vd
    by (cases "i = j"; cases r; cases q)
      (auto simp: c d copy_admitted_def admit_copy_def upd_output_def upd_connected_def nth_upd_at)
qed

section \<open>The committed sum\<close>

definition admitted_sum :: "avb_lite_plan_s list \<Rightarrow> avb_state \<Rightarrow> lite_copy list \<Rightarrow> nat" where
  "admitted_sum plans s cs = (\<Sum>c \<leftarrow> cs. if copy_admitted s c then copy_bps (plans ! fst c) else 0)"

lemma committed_sum: "lite_committed s plans = admitted_sum plans s (lite_copies s plans)"
proof -
  have "fold (\<lambda>c sum. if copy_admitted s c then sum + copy_bps (plans ! fst c) else sum) cs n
      = n + admitted_sum plans s cs" for cs n
    by (induction cs arbitrary: n) (simp_all add: admitted_sum_def)
  then show ?thesis by (simp add: lite_committed_def)
qed

lemma sum_flip:
  assumes "distinct cs" and "c \<in> set cs" and "\<forall>d \<in> set cs. copy_admitted t d = (if d = c then v else copy_admitted s d)"
  shows "admitted_sum plans t cs + (if copy_admitted s c then copy_bps (plans ! fst c) else 0)
       = admitted_sum plans s cs + (if v then copy_bps (plans ! fst c) else 0)"
  using assms
proof (induction cs)
  case (Cons d cs)
  show ?case
  proof (cases "d = c")
    case True
    then have "c \<notin> set cs" using Cons.prems(1) by simp
    then have "admitted_sum plans t cs = admitted_sum plans s cs"
      unfolding admitted_sum_def using Cons.prems(3) by (intro arg_cong [of _ _ sum_list] map_cong) auto
    then show ?thesis using True Cons.prems(3) by (simp add: admitted_sum_def)
  next
    case False
    then show ?thesis using Cons by (simp add: admitted_sum_def)
  qed
qed simp

lemma committed_admit:
  assumes "plans_ok s plans" and "c \<in> set (lite_copies s plans)"
  shows "lite_committed (admit_copy v c s) plans + (if copy_admitted s c then copy_bps (plans ! fst c) else 0)
       = lite_committed s plans + (if v then copy_bps (plans ! fst c) else 0)"
  unfolding committed_sum same_copies [OF same_admit]
  using sum_flip [OF distinct_copies [OF assms(1)] assms(2)] admitted_admit [OF assms] by simp

lemma nothing_admitted: "\<forall>c \<in> set (lite_copies s plans). \<not> copy_admitted s c \<Longrightarrow> lite_committed s plans = 0"
  by (simp add: committed_sum admitted_sum_def)

section \<open>Picking a copy\<close>

text \<open>The scans keep the last of the greatest and the first of the least.\<close>

lemma fold_newest:
  fixes m0 :: u32
  assumes "fold (\<lambda>c (m, b). if P c \<and> f c \<ge> m then (f c, Some c) else (m, b)) cs (m0, b0) = (m, b)"
    and "\<And>c0. b0 = Some c0 \<Longrightarrow> f c0 = m0"
  shows "(b = b0 \<and> m = m0 \<or> (\<exists>c \<in> set cs. b = Some c \<and> P c \<and> f c = m))
    \<and> m0 \<le> m \<and> (\<forall>c \<in> set cs. P c \<longrightarrow> f c \<le> m) \<and> ((\<exists>c \<in> set cs. P c \<and> f c \<ge> m0) \<longrightarrow> b \<noteq> None)"
  using assms
proof (induction cs arbitrary: m0 b0)
  case (Cons c cs)
  show ?case
  proof (cases "P c \<and> f c \<ge> m0")
    case True
    then have "fold (\<lambda>c (m, b). if P c \<and> f c \<ge> m then (f c, Some c) else (m, b)) cs (f c, Some c) = (m, b)"
      using Cons.prems(1) by simp
    from Cons.IH [OF this] True show ?thesis by (auto intro: order_trans)
  next
    case False
    then have "fold (\<lambda>c (m, b). if P c \<and> f c \<ge> m then (f c, Some c) else (m, b)) cs (m0, b0) = (m, b)"
      using Cons.prems(1) by (simp only: fold_Cons comp_def prod.case if_False)
    from Cons.IH [OF this Cons.prems(2)] False show ?thesis by (auto simp: not_le intro: less_imp_le order_trans)
  qed
qed auto

lemma fold_earliest:
  fixes m0 :: u32
  assumes "fold (\<lambda>c (m, b). if P c \<and> f c < m then (f c, Some c) else (m, b)) cs (m0, b0) = (m, b)"
  shows "(b = b0 \<and> m = m0 \<or> (\<exists>c \<in> set cs. b = Some c \<and> P c \<and> f c = m))
    \<and> m \<le> m0 \<and> (\<forall>c \<in> set cs. P c \<longrightarrow> m \<le> f c) \<and> (m < m0 \<longrightarrow> b \<noteq> None) \<and> (b \<noteq> b0 \<longrightarrow> m < m0)"
  using assms
proof (induction cs arbitrary: m0 b0)
  case (Cons c cs)
  show ?case
  proof (cases "P c \<and> f c < m0")
    case True
    then have "fold (\<lambda>c (m, b). if P c \<and> f c < m then (f c, Some c) else (m, b)) cs (f c, Some c) = (m, b)"
      using Cons.prems(1) by simp
    from Cons.IH [OF this] True show ?thesis by (auto intro: order_trans)
  next
    case False
    then have "fold (\<lambda>c (m, b). if P c \<and> f c < m then (f c, Some c) else (m, b)) cs (m0, b0) = (m, b)"
      using Cons.prems(1) by (simp only: fold_Cons comp_def prod.case if_False)
    from Cons.IH [OF this] False show ?thesis by (auto simp: not_less intro: order_trans)
  qed
qed auto

text \<open>Every copy a release can take: the multicast ones have a candidate.\<close>

lemma copy_order_known:
  assumes "plans_ok s plans" and "c \<in> set (lite_copies s plans)" and "snd c = None"
  shows "copy_order s plans c \<noteq> UINT32_MAX"
proof -
  obtain i where c: "c = (i, None)" using assms(3) by (cases c) auto
  note v = copy_valid [OF assms(1) assms(2) [unfolded c]]
  then show ?thesis using assms(1) by (auto simp: c copy_order_def plans_ok_def)
qed

lemma newest_copy_spec:
  assumes "plans_ok s plans"
  shows "newest_copy s plans = None \<Longrightarrow> \<forall>c \<in> set (lite_copies s plans). \<not> copy_admitted s c"
    and "newest_copy s plans = Some c \<Longrightarrow> c \<in> set (lite_copies s plans) \<and> copy_admitted s c
      \<and> (\<forall>d \<in> set (lite_copies s plans). copy_admitted s d \<longrightarrow> copy_order s plans d \<le> copy_order s plans c)"
proof -
  let ?P = "\<lambda>c. copy_admitted s c \<and> (snd c = None \<longrightarrow> copy_order s plans c \<noteq> UINT32_MAX)"
  obtain m b where f: "fold (\<lambda>c (m, b). if ?P c \<and> copy_order s plans c \<ge> m then (copy_order s plans c, Some c) else (m, b))
      (lite_copies s plans) (0, None) = (m, b)" by (rule prod.exhaust)
  have n: "newest_copy s plans = b"
    using f by (simp add: newest_copy_def Let_def conj_assoc)
  have P: "?P c = copy_admitted s c" if "c \<in> set (lite_copies s plans)" for c
    using copy_order_known [OF assms that] by auto
  note spec = fold_newest [OF f]
  show "\<forall>c \<in> set (lite_copies s plans). \<not> copy_admitted s c" if "newest_copy s plans = None"
    using spec that P by (auto simp: n)
  show "c \<in> set (lite_copies s plans) \<and> copy_admitted s c
      \<and> (\<forall>d \<in> set (lite_copies s plans). copy_admitted s d \<longrightarrow> copy_order s plans d \<le> copy_order s plans c)"
    if "newest_copy s plans = Some c" using spec that P by (auto simp: n)
qed

text \<open>A copy that waits for its share.\<close>

definition copy_waits :: "avb_lite_plan_s list \<Rightarrow> avb_state \<Rightarrow> lite_copy \<Rightarrow> bool" where
  "copy_waits plans s c \<longleftrightarrow> c \<in> set (lite_copies s plans) \<and> \<not> copy_admitted s c
     \<and> (snd c = None \<longrightarrow> ready_candidates (plans ! fst c) > 0) \<and> copy_order s plans c < UINT32_MAX"

lemma earliest_copy_spec:
  "earliest_copy committed budget s plans = None \<Longrightarrow>
     \<forall>c. copy_waits plans s c \<longrightarrow> committed + copy_bps (plans ! fst c) > budget"
  "earliest_copy committed budget s plans = Some c \<Longrightarrow> copy_waits plans s c
     \<and> committed + copy_bps (plans ! fst c) \<le> budget
     \<and> (\<forall>d. copy_waits plans s d \<and> committed + copy_bps (plans ! fst d) \<le> budget
          \<longrightarrow> copy_order s plans c \<le> copy_order s plans d)"
proof -
  let ?P = "\<lambda>c. \<not> copy_admitted s c \<and> (snd c = None \<longrightarrow> ready_candidates (plans ! fst c) > 0)
      \<and> committed + copy_bps (plans ! fst c) \<le> budget"
  obtain m b where f: "fold (\<lambda>c (m, b). if ?P c \<and> copy_order s plans c < m then (copy_order s plans c, Some c) else (m, b))
      (lite_copies s plans) (UINT32_MAX, None) = (m, b)" by (rule prod.exhaust)
  have scan: "(\<lambda>c (earliest, best).
       let order = copy_order s plans c in
       if \<not> copy_admitted s c \<and> (snd c = None \<longrightarrow> ready_candidates (plans ! fst c) > 0)
          \<and> order < earliest \<and> committed + copy_bps (plans ! fst c) \<le> budget
       then (order, Some c) else (earliest, best))
     = (\<lambda>c (m, b). if ?P c \<and> copy_order s plans c < m then (copy_order s plans c, Some c) else (m, b))"
    by (auto simp: fun_eq_iff Let_def)
  have n: "earliest_copy committed budget s plans = b" unfolding earliest_copy_def scan f by simp
  note spec = fold_earliest [OF f]
  show "\<forall>c. copy_waits plans s c \<longrightarrow> committed + copy_bps (plans ! fst c) > budget"
    if "earliest_copy committed budget s plans = None"
  proof (intro allI impI)
    fix c assume c: "copy_waits plans s c"
    have "m = UINT32_MAX" using spec that by (auto simp: n)
    then show "committed + copy_bps (plans ! fst c) > budget"
      using spec c unfolding copy_waits_def by (metis not_le leD)
  qed
  assume "earliest_copy committed budget s plans = Some c"
  with spec have c: "c \<in> set (lite_copies s plans)" "?P c" "copy_order s plans c = m" by (auto simp: n)
  have "m < UINT32_MAX" using spec \<open>earliest_copy committed budget s plans = Some c\<close> by (simp add: n)
  with c spec show "copy_waits plans s c \<and> committed + copy_bps (plans ! fst c) \<le> budget
     \<and> (\<forall>d. copy_waits plans s d \<and> committed + copy_bps (plans ! fst d) \<le> budget
          \<longrightarrow> copy_order s plans c \<le> copy_order s plans d)"
    by (auto simp: copy_waits_def)
qed

section \<open>The two loops\<close>

definition admitted_copies :: "avb_state \<Rightarrow> avb_lite_plan_s list \<Rightarrow> lite_copy set" where
  "admitted_copies s plans = {c \<in> set (lite_copies s plans). copy_admitted s c}"

lemma finite_admitted [simp]: "finite (admitted_copies s plans)"
  by (simp add: admitted_copies_def)

lemma admitted_copies_admit:
  assumes "plans_ok s plans" and "c \<in> set (lite_copies s plans)"
  shows "admitted_copies (admit_copy v c s) plans
       = (if v then insert c (admitted_copies s plans) else admitted_copies s plans - {c})"
  using admitted_admit [OF assms] assms(2)
  by (auto simp: admitted_copies_def same_copies [OF same_admit] split: if_splits)

text \<open>What the release leaves: enough room, and of the copies the ones that asked first.\<close>

lemma lite_release_spec:
  assumes "plans_ok s plans" and "card (admitted_copies s plans) < n"
  shows "\<exists>t. lite_release n budget plans (lite_committed s plans, s) = (lite_committed t plans, t)
    \<and> same_but_flags s t \<and> lite_committed t plans \<le> budget
    \<and> admitted_copies t plans \<subseteq> admitted_copies s plans
    \<and> (\<forall>c \<in> admitted_copies t plans. \<forall>d \<in> admitted_copies s plans - admitted_copies t plans.
         copy_order s plans c \<le> copy_order s plans d)
    \<and> (lite_committed s plans \<le> budget \<longrightarrow> t = s)"
  using assms
proof (induction n arbitrary: s)
  case (Suc n)
  show ?case
  proof (cases "lite_committed s plans \<le> budget")
    case True
    then show ?thesis by (intro exI [of _ s]) simp
  next
    case over: False
    show ?thesis
    proof (cases "newest_copy s plans")
      case None
      then have "lite_committed s plans = 0"
        using newest_copy_spec(1) [OF Suc.prems(1)] nothing_admitted by blast
      with over show ?thesis by simp
    next
      case (Some c)
      note nc = newest_copy_spec(2) [OF Suc.prems(1) Some]
      let ?s = "admit_copy False c s"
      have c: "c \<in> set (lite_copies s plans)" "c \<in> admitted_copies s plans" using nc by (auto simp: admitted_copies_def)
      have com: "lite_committed ?s plans = lite_committed s plans - copy_bps (plans ! fst c)"
        using committed_admit [OF Suc.prems(1) c(1), of False] nc by simp
      have ok: "plans_ok ?s plans" using same_plans_ok [OF same_admit Suc.prems(1)] .
      have adm: "admitted_copies ?s plans = admitted_copies s plans - {c}"
        using admitted_copies_admit [OF Suc.prems(1) c(1)] by simp
      have "card (admitted_copies ?s plans) < card (admitted_copies s plans)"
        unfolding adm using c(2) by (intro card_Diff1_less) simp
      with Suc.prems(2) have "card (admitted_copies ?s plans) < n" by linarith
      from Suc.IH [OF ok this] obtain t where
        t: "lite_release n budget plans (lite_committed ?s plans, ?s) = (lite_committed t plans, t)"
          "same_but_flags ?s t" "lite_committed t plans \<le> budget" "admitted_copies t plans \<subseteq> admitted_copies ?s plans"
        and ord: "\<forall>a \<in> admitted_copies t plans. \<forall>d \<in> admitted_copies ?s plans - admitted_copies t plans.
         copy_order ?s plans a \<le> copy_order ?s plans d" by blast
      have "copy_order s plans a \<le> copy_order s plans d"
        if a: "a \<in> admitted_copies t plans" and d: "d \<in> admitted_copies s plans - admitted_copies t plans" for a d
      proof -
        have as: "a \<in> admitted_copies s plans" using a t(4) adm by auto
        show ?thesis
        proof (cases "d = c")
          case True
          with nc as show ?thesis by (auto simp: admitted_copies_def)
        next
          case False
          then have "copy_order ?s plans a \<le> copy_order ?s plans d" using ord a d adm by auto
          then show ?thesis using same_copy_order [OF same_admit Suc.prems(1)] as d
            by (auto simp: admitted_copies_def)
        qed
      qed
      with t over Some com adm show ?thesis
        by (intro exI [of _ t]) (auto intro: same_trans [OF same_admit])
    qed
  qed
qed simp

lemma lite_admit_spec:
  assumes "plans_ok s plans" and "card (set (lite_copies s plans) - admitted_copies s plans) < n"
    and "lite_committed s plans \<le> budget"
  shows "\<exists>t. lite_admit n budget plans (lite_committed s plans, s) = (lite_committed t plans, t)
    \<and> same_but_flags s t \<and> lite_committed t plans \<le> budget
    \<and> admitted_copies s plans \<subseteq> admitted_copies t plans
    \<and> (\<forall>c. copy_waits plans t c \<longrightarrow> lite_committed t plans + copy_bps (plans ! fst c) > budget)"
  using assms
proof (induction n arbitrary: s)
  case (Suc n)
  show ?case
  proof (cases "earliest_copy (lite_committed s plans) budget s plans")
    case None
    with earliest_copy_spec(1) [OF None] Suc.prems(3) show ?thesis by (intro exI [of _ s]) simp
  next
    case (Some c)
    note ec = earliest_copy_spec(2) [OF Some]
    let ?s = "admit_copy True c s"
    have c: "c \<in> set (lite_copies s plans)" "\<not> copy_admitted s c" using ec by (auto simp: copy_waits_def)
    have com: "lite_committed ?s plans = lite_committed s plans + copy_bps (plans ! fst c)"
      using committed_admit [OF Suc.prems(1) c(1), of True] c(2) by simp
    have ok: "plans_ok ?s plans" using same_plans_ok [OF same_admit Suc.prems(1)] .
    have adm: "admitted_copies ?s plans = insert c (admitted_copies s plans)"
      using admitted_copies_admit [OF Suc.prems(1) c(1)] by simp
    have waits: "set (lite_copies ?s plans) - admitted_copies ?s plans
        = (set (lite_copies s plans) - admitted_copies s plans) - {c}"
      unfolding adm same_copies [OF same_admit] by auto
    have "card (set (lite_copies ?s plans) - admitted_copies ?s plans) < card (set (lite_copies s plans) - admitted_copies s plans)"
      unfolding waits using c by (intro card_Diff1_less) (auto simp: admitted_copies_def)
    with Suc.prems(2) have "card (set (lite_copies ?s plans) - admitted_copies ?s plans) < n" by linarith
    from Suc.IH [OF ok this] com ec obtain t where
      t: "lite_admit n budget plans (lite_committed ?s plans, ?s) = (lite_committed t plans, t)"
        "same_but_flags ?s t" "lite_committed t plans \<le> budget" "admitted_copies ?s plans \<subseteq> admitted_copies t plans"
        "\<forall>c. copy_waits plans t c \<longrightarrow> lite_committed t plans + copy_bps (plans ! fst c) > budget" by auto
    with Some com adm show ?thesis by (intro exI [of _ t]) (auto intro: same_trans [OF same_admit])
  qed
qed simp


text \<open>Two copies of 50 Mb/s on a link of 100 Mb/s: the one whose listener asked last is released.\<close>

definition two_copies :: avb_state where
  "two_copies = (state_zero end_station)\<lparr> avb_lite := True, output_streams :=
     [talker_stream_zero\<lparr> connected_listeners :=
       connected_listener_zero\<lparr> lite_order := 2, lite_admitted := True \<rparr>
       # connected_listener_zero\<lparr> lite_order := 1, lite_admitted := True \<rparr>
       # replicate 8 connected_listener_zero \<rparr>] \<rparr>"

definition two_plans :: "avb_lite_plan_s list" where
  "two_plans = [plan_zero\<lparr> plan_lite := True, plan_order := [1, 0], ready_candidates := 2,
     copy_bps := 50000000 \<rparr>]"

lemma two_plans_ok: "plans_ok two_copies two_plans"
  by (simp add: plans_ok_def two_copies_def two_plans_def plan_zero_def talker_stream_zero_def)

lemma two_copies_facts:
  "lite_copies two_copies two_plans = [(0, Some 1), (0, Some 0)]"
  "lite_budget_bps two_copies = 75000000"
  by (simp_all add: lite_copies_def stream_copies_def two_copies_def two_plans_def plan_zero_def
    talker_stream_zero_def state_zero_def end_station_def lite_budget_bps_def port_zero_def)


end
