(* ===== verification/Stream_Frame.thy ===== *)
theory Stream_Frame
  imports Stream_Out
begin

text \<open>
  Declaring and withdrawing attributes leaves the streams alone: what the operations of MRP on this
  station's own attributes do not touch.
\<close>

definition stream_view where
  "stream_view s = (build s, now_us s, avb_lite s, config_talker s, output_streams s, input_streams s,
     msrp_mappings s, s_lite_order_seq s, lite_escalation_allowed s, s_bssid s, ap_bssid s, stream_out_ok s)"

named_theorems view_simps \<open>operations that leave the streams alone\<close>

lemma upd_view [view_simps]:
  "stream_view (upd_talker p i f1 s) = stream_view s" "stream_view (upd_listener p i f2 s) = stream_view s"
  "stream_view (upd_refusal i f3 s) = stream_view s" "stream_view (upd_port p f4 s) = stream_view s"
  "stream_view (s\<lparr> s_msrp_talkers := x1 \<rparr>) = stream_view s" "stream_view (s\<lparr> s_msrp_listeners := x2 \<rparr>) = stream_view s"
  "stream_view (s\<lparr> s_lite_refusals := x3 \<rparr>) = stream_view s" "stream_view (s\<lparr> random_pos := x4 \<rparr>) = stream_view s"
  "stream_view (s\<lparr> tx_log := x5 \<rparr>) = stream_view s" "stream_view (s\<lparr> s_cvu_seq_id := x6 \<rparr>) = stream_view s"
  by (simp_all add: stream_view_def upd_talker_def upd_listener_def upd_refusal_def upd_port_def)

lemma arm_view [view_simps]: "stream_view (mrp_port_arm_join_timer p s) = stream_view s"
  by (simp add: mrp_port_arm_join_timer_def mrp_join_next_expiry_us_def draw_random_def view_simps)

lemma insert_view [view_simps]:
  "msrp_talker_find_or_insert p sid a s = (r, s') \<Longrightarrow> stream_view s' = stream_view s"
  "msrp_listener_find_or_insert p sid s = (r, s') \<Longrightarrow> stream_view s' = stream_view s"
  by (auto simp: msrp_talker_find_or_insert_def msrp_listener_find_or_insert_def view_simps split: if_splits prod.splits)

lemma send_view [view_simps]:
  "stream_view (mrp_send_attr p attr n dest s) = stream_view s"
  by (simp add: mrp_send_attr_def avb_send_cvu_srp_attr_def Let_def view_simps)

lemma value_leave_view [view_simps]: "stream_view (mrp_tx_talker_value_leave p i s) = stream_view s"
  by (simp add: mrp_tx_talker_value_leave_def Let_def view_simps)

lemma change_value_view [view_simps]: "stream_view (talker_change_value p i fresh s) = stream_view s"
  by (simp add: talker_change_value_def Let_def view_simps)

lemma declare_advertise_view [view_simps]:
  "stream_view (mrp_declare_talker_advertise p sid da v mfs mfi b s) = stream_view s"
  by (cases "msrp_talker_find_or_insert p sid msrp_attr_type_talker_advertise s")
    (simp add: mrp_declare_talker_advertise_def Let_def view_simps mrp_talker_end_holdoff_def split: option.split)

lemma latency_view [view_simps]: "stream_view (mrp_set_talker_latency p sid s) = stream_view s"
  by (simp add: mrp_set_talker_latency_def mrp_patch_egress_accumulated_latency_def view_simps split: option.split)

lemma withdraw_talker_view [view_simps]: "stream_view (mrp_withdraw_talker p sid s) = stream_view s"
  by (simp add: mrp_withdraw_talker_def Let_def view_simps split: option.split)

lemma forget_view [view_simps]: "mrp_talker_forget p sid s = (r, s') \<Longrightarrow> stream_view s' = stream_view s"
  by (auto simp: mrp_talker_forget_def Let_def view_simps split: if_splits option.splits)

lemma refusal_view [view_simps]: "stream_view (refusal_sync_one sid m mac s) = stream_view s"
  by (simp add: refusal_sync_one_def Let_def view_simps split: option.split)

lemma sync_view [view_simps]: "stream_view (mrp_lite_sync_refusals sid refused da v mfs mfi b s) = stream_view s"
proof -
  have "stream_view (fold (\<lambda>(mac, code) s. refusal_sync_one sid (m code s) mac s) refused t) = stream_view t" for m t
    by (rule fold_frame) (simp add: split_beta refusal_view)
  then show ?thesis unfolding mrp_lite_sync_refusals_def Let_def by (rule trans) (rule upd_view(7))
qed

lemma listener_view [view_simps]:
  "stream_view (mrp_declare_listener p sid ev s) = stream_view s"
  "stream_view (mrp_withdraw_listener p sid s) = stream_view s"
  by (cases "msrp_listener_find_or_insert p sid s";
      simp add: mrp_declare_listener_def mrp_withdraw_listener_def Let_def view_simps split: option.split)+

lemma viewD:
  assumes "stream_view s' = stream_view s"
  shows "build s' = build s" "now_us s' = now_us s" "avb_lite s' = avb_lite s" "config_talker s' = config_talker s"
    "output_streams s' = output_streams s" "input_streams s' = input_streams s" "msrp_mappings s' = msrp_mappings s"
    "s_lite_order_seq s' = s_lite_order_seq s" "lite_escalation_allowed s' = lite_escalation_allowed s"
    "s_bssid s' = s_bssid s" "ap_bssid s' = ap_bssid s" "stream_out_ok s' = stream_out_ok s"
  using assms by (simp_all add: stream_view_def)

lemmas view_fields = view_simps [THEN viewD(1)] view_simps [THEN viewD(2)] view_simps [THEN viewD(3)]
  view_simps [THEN viewD(5)] view_simps [THEN viewD(6)]

end
