(* ===== verification/Acmp_State.thy ===== *)
theory Acmp_State
  imports Stream_Out
begin

text \<open>
  ACMP (\<open>atdecc.c\<close>): messages, the commands in flight and the state of the connection management
  of input and output streams.  The state is the MRP
  state of the node with the fields of \<open>avb_state_s\<close> that ACMP reads and writes.  Messages sent
  are a log, with their length; whether a send succeeds is the environment's answer
  \<open>net_send_ok\<close>, and so is \<open>stream_in_ok\<close>, whether the driver can start a stream input.
  Appending a stream to the persistence journal is an entry of \<open>persist_log\<close>.
\<close>

section \<open>Messages\<close>

datatype acmp_msg_type_t =
    acmp_msg_type_connect_tx_command
  | acmp_msg_type_connect_tx_response
  | acmp_msg_type_disconnect_tx_command
  | acmp_msg_type_disconnect_tx_response
  | acmp_msg_type_get_tx_state_command
  | acmp_msg_type_get_tx_state_response
  | acmp_msg_type_connect_rx_command
  | acmp_msg_type_connect_rx_response
  | acmp_msg_type_disconnect_rx_command
  | acmp_msg_type_disconnect_rx_response
  | acmp_msg_type_get_rx_state_command
  | acmp_msg_type_get_rx_state_response
  | acmp_msg_type_get_tx_connection_command
  | acmp_msg_type_get_tx_connection_response
  | acmp_msg_type_count

text \<open>The number of a type; the values past the last type are not told apart.\<close>

primrec acmp_msg_type_code :: "acmp_msg_type_t \<Rightarrow> nat" where
  "acmp_msg_type_code acmp_msg_type_connect_tx_command = 0"
| "acmp_msg_type_code acmp_msg_type_connect_tx_response = 1"
| "acmp_msg_type_code acmp_msg_type_disconnect_tx_command = 2"
| "acmp_msg_type_code acmp_msg_type_disconnect_tx_response = 3"
| "acmp_msg_type_code acmp_msg_type_get_tx_state_command = 4"
| "acmp_msg_type_code acmp_msg_type_get_tx_state_response = 5"
| "acmp_msg_type_code acmp_msg_type_connect_rx_command = 6"
| "acmp_msg_type_code acmp_msg_type_connect_rx_response = 7"
| "acmp_msg_type_code acmp_msg_type_disconnect_rx_command = 8"
| "acmp_msg_type_code acmp_msg_type_disconnect_rx_response = 9"
| "acmp_msg_type_code acmp_msg_type_get_rx_state_command = 10"
| "acmp_msg_type_code acmp_msg_type_get_rx_state_response = 11"
| "acmp_msg_type_code acmp_msg_type_get_tx_connection_command = 12"
| "acmp_msg_type_code acmp_msg_type_get_tx_connection_response = 13"
| "acmp_msg_type_code acmp_msg_type_count = 14"

type_synonym acmp_status_t = nat

definition acmp_status_success :: acmp_status_t where "acmp_status_success = 0"
definition acmp_status_listener_unknown_id :: acmp_status_t where "acmp_status_listener_unknown_id = 1"
definition acmp_status_talker_unknown_id :: acmp_status_t where "acmp_status_talker_unknown_id = 2"
definition acmp_status_talker_exclusive :: acmp_status_t where "acmp_status_talker_exclusive = 6"
definition acmp_status_listener_talker_timeout :: acmp_status_t where "acmp_status_listener_talker_timeout = 7"
definition acmp_status_listener_exclusive :: acmp_status_t where "acmp_status_listener_exclusive = 8"
definition acmp_status_not_connected :: acmp_status_t where "acmp_status_not_connected = 10"
definition acmp_status_no_such_connection :: acmp_status_t where "acmp_status_no_such_connection = 11"
definition acmp_status_talker_misbehaving :: acmp_status_t where "acmp_status_talker_misbehaving = 13"
definition acmp_status_listener_misbehaving :: acmp_status_t where "acmp_status_listener_misbehaving = 14"
definition acmp_status_controller_not_authorized :: acmp_status_t where "acmp_status_controller_not_authorized = 16"
definition acmp_status_not_supported :: acmp_status_t where "acmp_status_not_supported = 31"

record acmp_message_s =
  msg_type :: acmp_msg_type_t
  msg_version :: u8
  msg_sv :: bool
  control_data_len_h :: u8
  status_valtime :: acmp_status_t
  control_data_len :: u8
  msg_stream_id :: octets
  controller_entity_id :: octets
  talker_entity_id :: octets
  listener_entity_id :: octets
  msg_talker_uid :: octets
  msg_listener_uid :: octets
  msg_stream_dest_addr :: octets
  msg_connection_count :: octets
  msg_seq_id :: octets
  msg_flags :: octets
  msg_stream_vlan_id :: octets
  conn_listeners_entries :: octets

definition acmp_message_zero :: acmp_message_s where
  "acmp_message_zero = \<lparr> msg_type = acmp_msg_type_connect_tx_command, msg_version = 0, msg_sv = False,
     control_data_len_h = 0, status_valtime = acmp_status_success, control_data_len = 0,
     msg_stream_id = zeros 8, controller_entity_id = zeros 8, talker_entity_id = zeros 8,
     listener_entity_id = zeros 8, msg_talker_uid = zeros 2, msg_listener_uid = zeros 2,
     msg_stream_dest_addr = zeros 6, msg_connection_count = zeros 2, msg_seq_id = zeros 2,
     msg_flags = zeros 2, msg_stream_vlan_id = zeros 2, conn_listeners_entries = zeros 2 \<rparr>"

definition octets_u16 :: "octets \<Rightarrow> u16" where "octets_u16 b = ucast (octets_to_uint b 2)"
definition u16_octets :: "u16 \<Rightarrow> octets" where "u16_octets v = int_to_octets (ucast v) 2"

definition acmp_target_entity_id :: "acmp_message_s \<Rightarrow> octets option" where
  "acmp_target_entity_id m = (case msg_type m of
       acmp_msg_type_connect_tx_command \<Rightarrow> Some (talker_entity_id m)
     | acmp_msg_type_disconnect_tx_command \<Rightarrow> Some (talker_entity_id m)
     | acmp_msg_type_get_tx_state_command \<Rightarrow> Some (talker_entity_id m)
     | acmp_msg_type_get_tx_connection_command \<Rightarrow> Some (talker_entity_id m)
     | acmp_msg_type_connect_rx_command \<Rightarrow> Some (listener_entity_id m)
     | acmp_msg_type_disconnect_rx_command \<Rightarrow> Some (listener_entity_id m)
     | acmp_msg_type_get_rx_state_command \<Rightarrow> Some (listener_entity_id m)
     | acmp_msg_type_connect_tx_response \<Rightarrow> Some (listener_entity_id m)
     | acmp_msg_type_disconnect_tx_response \<Rightarrow> Some (listener_entity_id m)
     | acmp_msg_type_get_tx_state_response \<Rightarrow> Some (controller_entity_id m)
     | acmp_msg_type_connect_rx_response \<Rightarrow> Some (controller_entity_id m)
     | acmp_msg_type_disconnect_rx_response \<Rightarrow> Some (controller_entity_id m)
     | acmp_msg_type_get_rx_state_response \<Rightarrow> Some (controller_entity_id m)
     | acmp_msg_type_get_tx_connection_response \<Rightarrow> Some (controller_entity_id m)
     | acmp_msg_type_count \<Rightarrow> None)"

section \<open>State\<close>

text \<open>The commands in flight are ACMP commands: \<open>avb_send_acmp_command\<close> alone adds to them.\<close>

record atdecc_inflight_command_s =
  if_timeout :: timeval
  if_retried :: bool
  if_acmp_seq_id :: u16
  if_command :: acmp_message_s
  if_inbound :: bool

record atdecc_state =
  core :: avb_state
  config_listener :: bool
  own_entity_id :: octets
  entity_acquired :: bool
  acquired_by :: octets
  entity_locked :: bool
  locked_by :: octets
  known_talkers :: "octets list"
  acmp_seq_id :: u16
  inflight_commands :: "atdecc_inflight_command_s list"
  wall_clock :: timeval
  mono_ns :: int
  stream_in_active :: bool
  crf_rx_active :: bool
  stream_in_ok :: "nat \<Rightarrow> bool"
  s_recent :: "(acmp_message_s \<times> int) list"
  s_next_recent :: nat
  net_send_ok :: "nat \<Rightarrow> bool"
  acmp_sent :: "(acmp_message_s \<times> nat) list"
  persist_log :: "(bool \<times> nat) list"

definition upd_core :: "(avb_state \<Rightarrow> avb_state) \<Rightarrow> atdecc_state \<Rightarrow> atdecc_state" where
  "upd_core f a = a\<lparr> core := f (core a) \<rparr>"

abbreviation input_stream :: "atdecc_state \<Rightarrow> nat \<Rightarrow> avb_listener_stream_s" where
  "input_stream a i \<equiv> input_streams (core a) ! i"

abbreviation output_stream :: "atdecc_state \<Rightarrow> nat \<Rightarrow> avb_talker_stream_s" where
  "output_stream a i \<equiv> output_streams (core a) ! i"

definition AVB_MAX_NUM_INFLIGHT_COMMANDS :: nat where "AVB_MAX_NUM_INFLIGHT_COMMANDS = 20"
definition AVB_FAST_CONNECT_RETRY_MSEC :: int where "AVB_FAST_CONNECT_RETRY_MSEC = 4000"
definition ACMP_COPY_WINDOW_US :: int where "ACMP_COPY_WINDOW_US = 100000"
definition ACMP_RECENT_COUNT :: nat where "ACMP_RECENT_COUNT = 8"

definition persist_append :: "bool \<Rightarrow> nat \<Rightarrow> atdecc_state \<Rightarrow> atdecc_state" where
  "persist_append inp index a = a\<lparr> persist_log := persist_log a @ [(inp, index)] \<rparr>"

section \<open>Commands in flight\<close>

definition avb_get_acmp_timeout_ms :: "acmp_msg_type_t \<Rightarrow> int" where
  "avb_get_acmp_timeout_ms ty = (case ty of
       acmp_msg_type_connect_tx_command \<Rightarrow> 3500
     | acmp_msg_type_disconnect_tx_command \<Rightarrow> 200
     | acmp_msg_type_get_tx_state_command \<Rightarrow> 200
     | acmp_msg_type_connect_rx_command \<Rightarrow> 4500
     | acmp_msg_type_disconnect_rx_command \<Rightarrow> 500
     | acmp_msg_type_get_rx_state_command \<Rightarrow> 200
     | acmp_msg_type_get_tx_connection_command \<Rightarrow> 200
     | _ \<Rightarrow> 250)"

definition avb_find_inflight_command :: "atdecc_state \<Rightarrow> u16 \<Rightarrow> bool \<Rightarrow> nat option" where
  "avb_find_inflight_command a seq_id inb =
     first_index (\<lambda>i. if_acmp_seq_id (inflight_commands a ! i) = seq_id
        \<and> if_inbound (inflight_commands a ! i) = inb) (length (inflight_commands a))"

text \<open>\<open>data_type\<close> is the number of the message type of the data.\<close>

definition avb_find_inflight_command_by_data ::
  "atdecc_state \<Rightarrow> nat \<Rightarrow> acmp_message_s \<Rightarrow> bool \<Rightarrow> nat option" where
  "avb_find_inflight_command_by_data a data_type data inb =
     first_index (\<lambda>i. let c = if_command (inflight_commands a ! i) in
        if_inbound (inflight_commands a ! i) = inb
        \<and> acmp_msg_type_code (msg_type c) + 1 = data_type
        \<and> msg_talker_uid c = msg_talker_uid data \<and> msg_listener_uid c = msg_listener_uid data
        \<and> talker_entity_id c = talker_entity_id data \<and> listener_entity_id c = listener_entity_id data
        \<and> controller_entity_id c = controller_entity_id data) (length (inflight_commands a))"

definition avb_add_inflight_command :: "acmp_message_s \<Rightarrow> bool \<Rightarrow> atdecc_state \<Rightarrow> atdecc_state" where
  "avb_add_inflight_command c inb a =
     (if length (inflight_commands a) \<ge> AVB_MAX_NUM_INFLIGHT_COMMANDS then a
      else if avb_find_inflight_command_by_data a (acmp_msg_type_code (msg_type c) + 1) c inb \<noteq> None then a
      else a\<lparr> inflight_commands := inflight_commands a @
             [\<lparr> if_timeout = timeval_add_ms (wall_clock a) (avb_get_acmp_timeout_ms (msg_type c)),
                if_retried = False, if_acmp_seq_id = octets_u16 (msg_seq_id c),
                if_command = c, if_inbound = inb \<rparr>] \<rparr>)"

definition avb_remove_inflight_command :: "u16 \<Rightarrow> bool \<Rightarrow> atdecc_state \<Rightarrow> atdecc_state" where
  "avb_remove_inflight_command seq_id inb a =
     (case avb_find_inflight_command a seq_id inb of
        None \<Rightarrow> a
      | Some i \<Rightarrow> a\<lparr> inflight_commands := take i (inflight_commands a) @ drop (Suc i) (inflight_commands a) \<rparr>)"

section \<open>Sending\<close>

definition acmp_net_send :: "acmp_message_s \<Rightarrow> nat \<Rightarrow> atdecc_state \<Rightarrow> bool \<times> atdecc_state" where
  "acmp_net_send m len a =
     (net_send_ok a (length (acmp_sent a)), a\<lparr> acmp_sent := acmp_sent a @ [(m, len)] \<rparr>)"

definition avb_send_acmp_command ::
  "acmp_msg_type_t \<Rightarrow> acmp_message_s \<Rightarrow> bool \<Rightarrow> atdecc_state \<Rightarrow> bool \<times> atdecc_state" where
  "avb_send_acmp_command ty c track_inflight a =
     (let a = a\<lparr> acmp_seq_id := acmp_seq_id a + 1 \<rparr>;
          c = c\<lparr> msg_type := ty, msg_sv := False, msg_version := 0, status_valtime := 0,
                 control_data_len_h := 0, control_data_len := 84,
                 msg_seq_id := u16_octets (acmp_seq_id a) \<rparr>;
          (ok, a) = acmp_net_send c (84 + 12) a
      in (ok, if track_inflight then avb_add_inflight_command c False a else a))"

definition avb_send_acmp_response ::
  "acmp_msg_type_t \<Rightarrow> acmp_message_s \<Rightarrow> acmp_status_t \<Rightarrow> atdecc_state \<Rightarrow> atdecc_state" where
  "avb_send_acmp_response ty r st a =
     (let r = r\<lparr> msg_type := ty, status_valtime := st \<rparr>;
          r = (if st = acmp_status_success then r\<lparr> control_data_len := 84 \<rparr> else r)
      in snd (acmp_net_send r (unat (control_data_len r) + 12) a))"

definition avb_valid_listener_uid :: "atdecc_state \<Rightarrow> nat \<Rightarrow> bool" where
  "avb_valid_listener_uid a uid \<longleftrightarrow> uid < length (input_streams (core a))"

definition avb_valid_talker_uid :: "atdecc_state \<Rightarrow> nat \<Rightarrow> bool" where
  "avb_valid_talker_uid a uid \<longleftrightarrow> uid < length (output_streams (core a))"

section \<open>Stream input\<close>

text \<open>\<open>avb_start_stream_in\<close> and \<open>avb_stop_stream_in\<close> as far as ACMP sees them: one audio input and
  one CRF input run at a time.  A bridge has none.\<close>

definition avb_get_crf_input_index :: "atdecc_state \<Rightarrow> nat" where
  "avb_get_crf_input_index a = (if config_listener a then 1 else 0)"

definition avb_start_stream_in_crf :: "nat \<Rightarrow> atdecc_state \<Rightarrow> atdecc_state" where
  "avb_start_stream_in_crf index a =
     (if crf_rx_active a then a
      else upd_core (upd_input index (\<lambda>t. t\<lparr> ls_connected := True \<rparr>)) (a\<lparr> crf_rx_active := True \<rparr>))"

definition avb_start_stream_in :: "nat \<Rightarrow> atdecc_state \<Rightarrow> atdecc_state" where
  "avb_start_stream_in index a =
     (if ROLE_BRIDGE (build (core a)) then a
      else if index = avb_get_crf_input_index a then avb_start_stream_in_crf index a
      else if stream_in_active a then a
      else if \<not> stream_in_ok a index then a
      else upd_core (upd_input index (\<lambda>t. t\<lparr> ls_connected := True \<rparr>)) (a\<lparr> stream_in_active := True \<rparr>))"

definition avb_stop_stream_in_crf :: "nat \<Rightarrow> atdecc_state \<Rightarrow> atdecc_state" where
  "avb_stop_stream_in_crf index a =
     (if \<not> crf_rx_active a then a
      else upd_core (upd_input index (\<lambda>t. t\<lparr> ls_connected := False \<rparr>)) (a\<lparr> crf_rx_active := False \<rparr>))"

definition avb_stop_stream_in :: "nat \<Rightarrow> atdecc_state \<Rightarrow> atdecc_state" where
  "avb_stop_stream_in index a =
     (if ROLE_BRIDGE (build (core a)) then a
      else if index = avb_get_crf_input_index a then avb_stop_stream_in_crf index a
      else a\<lparr> stream_in_active := False \<rparr>)"

end
