(* ===== verification/Acmp.thy ===== *)
theory Acmp
  imports Acmp_State
begin

text \<open>
  The handlers of ACMP messages (\<open>atdecc.c\<close>): the listener's and the talker's side and the dispatch.  A
  handler that would index an array outside the streams returns \<open>None\<close>.
\<close>

section \<open>Listener side\<close>

definition avb_acquired_or_locked_by_other :: "atdecc_state \<Rightarrow> octets \<Rightarrow> bool" where
  "avb_acquired_or_locked_by_other a entity_id \<longleftrightarrow>
     entity_acquired a \<and> acquired_by a \<noteq> entity_id \<or> entity_locked a \<and> locked_by a \<noteq> entity_id"

definition listener_connect_flags :: "atdecc_state \<Rightarrow> u16 \<Rightarrow> u16" where
  "listener_connect_flags a flags =
     (if port_medium (port (core a) 0) = avb_port_medium_wifi_ftm then flags OR 1 else flags)"

definition avb_send_listener_talker_command ::
  "acmp_message_s \<Rightarrow> bool \<Rightarrow> bool \<Rightarrow> atdecc_state \<Rightarrow> bool \<times> atdecc_state" where
  "avb_send_listener_talker_command m disconnect mvu_bind a =
     (let c = (if disconnect then m
               else m\<lparr> msg_flags := u16_octets (listener_connect_flags a (octets_u16 (msg_flags m))) \<rparr>)
      in avb_send_acmp_command
           (if disconnect then acmp_msg_type_disconnect_tx_command else acmp_msg_type_connect_tx_command)
           c (\<not> mvu_bind \<and> \<not> disconnect) a)"

definition input_reset :: "avb_listener_stream_s \<Rightarrow> avb_listener_stream_s" where
  "input_reset t = listener_stream_zero\<lparr> ls_stream_format := ls_stream_format t, ls_vlan_id := ls_vlan_id t \<rparr>"

definition avb_disconnect_listener :: "acmp_message_s \<Rightarrow> atdecc_state \<Rightarrow> acmp_status_t \<times> atdecc_state" where
  "avb_disconnect_listener m a =
     (let index = unat (octets_u16 (msg_listener_uid m));
          a = avb_stop_stream_in index a;
          saved_stream_id = ls_stream_id (input_stream a index);
          a = upd_core (upd_input index input_reset) a
      in (acmp_status_success, upd_core (mrp_withdraw_listener 0 saved_stream_id) a))"

text \<open>The result says whether the command was carried out.\<close>

definition avb_process_acmp_connect_rx_command ::
  "acmp_message_s \<Rightarrow> bool \<Rightarrow> bool \<Rightarrow> atdecc_state \<Rightarrow> bool \<times> atdecc_state" where
  "avb_process_acmp_connect_rx_command m disconnect mvu_bind a =
     (let index = unat (octets_u16 (msg_listener_uid m));
          ty = (if disconnect then acmp_msg_type_disconnect_rx_response else acmp_msg_type_connect_rx_response);
          refuse = (\<lambda>st a. (False, if mvu_bind then a else avb_send_acmp_response ty m st a))
      in if \<not> avb_valid_listener_uid a index then refuse acmp_status_listener_unknown_id a
      else if avb_acquired_or_locked_by_other a (controller_entity_id m)
      then refuse acmp_status_controller_not_authorized a
      else
        let st = input_stream a index;
            has_binding = (ls_connected st \<or> pending_connection st);
            same_talker = (talker_id st = talker_entity_id m \<and> talker_uid st = msg_talker_uid m)
        in if \<not> disconnect \<and> has_binding \<and> \<not> same_talker then refuse acmp_status_listener_exclusive a
        else if disconnect \<and> has_binding \<and> \<not> same_talker then refuse acmp_status_not_connected a
        else if disconnect then
          let (status, a) = (if has_binding then avb_disconnect_listener m a
                             else (acmp_status_success, upd_core (upd_input index input_reset) a))
          in if status \<noteq> acmp_status_success then refuse status a
          else if mvu_bind then (True, a)
          else let (tx_ok, a) = avb_send_listener_talker_command m True False a;
                   a = avb_send_acmp_response ty m
                         (if tx_ok then acmp_status_success else acmp_status_listener_misbehaving) a
               in (True, persist_append True index a)
        else
          let a = upd_core (upd_input index (\<lambda>t. t\<lparr> talker_id := talker_entity_id m,
                    talker_uid := msg_talker_uid m, controller_id := controller_entity_id m,
                    pending_connection := True \<rparr>)) a
          in if mvu_bind then (True, a)
          else let (tx_ok, a) = avb_send_listener_talker_command m False False a;
                   a = avb_send_acmp_response ty m
                         (if tx_ok then acmp_status_success else acmp_status_listener_misbehaving) a
               in (True, persist_append True index a))"

definition avb_connect_listener :: "acmp_message_s \<Rightarrow> atdecc_state \<Rightarrow> acmp_status_t \<times> atdecc_state" where
  "avb_connect_listener r a =
     (let index = unat (octets_u16 (msg_listener_uid r)) in
      if msg_stream_id r = zeros 8 then (acmp_status_talker_misbehaving, a)
      else
        let class_b = (octets_u16 (msg_flags r) AND 1 \<noteq> 0);
            mappings = msrp_mappings (core a); mi = (if class_b then 1 else 0);
            a = upd_core (upd_input index (\<lambda>t. t\<lparr> talker_id := talker_entity_id r,
                  talker_uid := msg_talker_uid r, controller_id := controller_entity_id r,
                  ls_stream_id := msg_stream_id r, ls_stream_dest_addr := msg_stream_dest_addr r,
                  ls_class_b := class_b,
                  ls_vlan_id := (if octets_u16 (msg_stream_vlan_id r) = 0
                                 then (if mi < length mappings then map_vlan_id (mappings ! mi) else zeros 2)
                                 else msg_stream_vlan_id r),
                  ls_connected := True, provisional := False \<rparr>)) a
        in (acmp_status_success,
            upd_core (\<lambda>s. mrp_declare_listener 0 (ls_stream_id (input_streams s ! index))
                            (avb_listener_decl_event s index) s) a))"

text \<open>The response of the talker.  An input stream that does not exist is the case the code goes on
  with after setting a status: \<open>None\<close> stands for its accesses outside the input streams.\<close>

definition connect_tx_accept :: "nat \<Rightarrow> acmp_message_s \<Rightarrow> atdecc_state \<Rightarrow> bool \<times> atdecc_state" where
  "connect_tx_accept uid r a =
     (let was_connected = ls_connected (input_stream a uid);
          was_provisional = provisional (input_stream a uid);
          old_stream_id = ls_stream_id (input_stream a uid);
          (start, a) =
            (if status_valtime r = acmp_status_success
             then let (status, a) = avb_connect_listener r a in
               if status = acmp_status_success \<and> was_connected \<and> was_provisional
                  \<and> old_stream_id \<noteq> ls_stream_id (input_stream a uid)
               then (True, avb_stop_stream_in uid a)
               else (status = acmp_status_success \<and> \<not> was_connected, a)
             else (False, a))
      in (start, upd_core (upd_input uid (\<lambda>t. t\<lparr> pending_connection := False \<rparr>)) a))"

definition avb_process_acmp_connect_tx_response ::
  "acmp_message_s \<Rightarrow> bool \<Rightarrow> atdecc_state \<Rightarrow> atdecc_state option" where
  "avb_process_acmp_connect_tx_response r disconnect a =
     (let uid = unat (octets_u16 (msg_listener_uid r));
          rx_type = (if disconnect then acmp_msg_type_disconnect_rx_response
                     else acmp_msg_type_connect_rx_response)
      in if \<not> avb_valid_listener_uid a uid then (if disconnect then Some a else None)
      else
        let (start, a) = (if disconnect then (False, a) else connect_tx_accept uid r a);
            inbound = avb_find_inflight_command_by_data a (acmp_msg_type_code rx_type) r True;
            inbound_seq = (case inbound of None \<Rightarrow> 0 | Some i \<Rightarrow> if_acmp_seq_id (inflight_commands a ! i));
            tx_seq = octets_u16 (msg_seq_id r);
            a = (if avb_find_inflight_command a tx_seq False \<noteq> None
                 then avb_remove_inflight_command tx_seq False a else a);
            a = (if inbound \<noteq> None then avb_remove_inflight_command inbound_seq True a else a)
        in Some (if start then avb_start_stream_in uid a else a))"

definition avb_process_acmp_get_rx_state_command :: "acmp_message_s \<Rightarrow> atdecc_state \<Rightarrow> atdecc_state" where
  "avb_process_acmp_get_rx_state_command m a =
     (let uid = unat (octets_u16 (msg_listener_uid m)) in
      if \<not> avb_valid_listener_uid a uid
      then avb_send_acmp_response acmp_msg_type_get_rx_state_response m acmp_status_listener_unknown_id a
      else
        let st = input_stream a uid in
        avb_send_acmp_response acmp_msg_type_get_rx_state_response
          (m\<lparr> talker_entity_id := talker_id st, msg_talker_uid := talker_uid st,
              msg_stream_id := ls_stream_id st, msg_stream_dest_addr := ls_stream_dest_addr st,
              msg_stream_vlan_id := ls_vlan_id st,
              msg_connection_count := u16_octets (if ls_connected st then 1 else 0) \<rparr>)
          acmp_status_success a)"

section \<open>Talker side\<close>

definition listener_rows :: "avb_talker_stream_s \<Rightarrow> nat" where
  "listener_rows st = min (connected_count st) AVB_MAX_NUM_CONNECTED_LISTENERS"

definition find_talker_listener_by_identity :: "avb_talker_stream_s \<Rightarrow> octets \<Rightarrow> octets \<Rightarrow> nat option" where
  "find_talker_listener_by_identity st entity_id uid =
     first_index (\<lambda>i. cl_identity_id (connected_listeners st ! i) = entity_id
        \<and> cl_identity_uid (connected_listeners st ! i) = uid) (listener_rows st)"

definition find_talker_listener_by_entity :: "avb_talker_stream_s \<Rightarrow> octets \<Rightarrow> nat option" where
  "find_talker_listener_by_entity st entity_id =
     first_index (\<lambda>i. cl_identity_id (connected_listeners st ! i) = entity_id) (listener_rows st)"

definition count_acmp_connected_talker_listeners :: "avb_talker_stream_s \<Rightarrow> nat" where
  "count_acmp_connected_talker_listeners st =
     foreach (listener_rows st) (\<lambda>i n. if acmp_connected (connected_listeners st ! i) then n + 1 else n) 0"

text \<open>The sole row that is Ready by MSRP and not connected by ACMP.\<close>

definition pending_row :: "avb_talker_stream_s \<Rightarrow> nat option" where
  "pending_row st =
     (case filter (\<lambda>i. \<not> acmp_connected (connected_listeners st ! i) \<and> msrp_ready (connected_listeners st ! i))
             [0..<listener_rows st] of
        [i] \<Rightarrow> Some i | _ \<Rightarrow> None)"

definition find_or_add_talker_listener_by_identity ::
  "avb_talker_stream_s \<Rightarrow> octets \<Rightarrow> octets \<Rightarrow> nat option \<times> avb_talker_stream_s" where
  "find_or_add_talker_listener_by_identity st entity_id uid =
     (case find_talker_listener_by_identity st entity_id uid of
        Some i \<Rightarrow> (Some i, st)
      | None \<Rightarrow>
          let adopt = (\<lambda>i. upd_connected i (\<lambda>c. c\<lparr> cl_identity_id := entity_id, cl_identity_uid := uid \<rparr>) st);
              by_entity = find_talker_listener_by_entity st entity_id
          in if by_entity \<noteq> None \<and> \<not> acmp_connected (connected_listeners st ! the by_entity)
             then (by_entity, upd_connected (the by_entity) (\<lambda>c. c\<lparr> cl_identity_uid := uid \<rparr>) st)
             else case pending_row st of
                    Some i \<Rightarrow> (Some i, adopt i)
                  | None \<Rightarrow>
                      let count = connected_count st in
                      if count \<ge> AVB_MAX_NUM_CONNECTED_LISTENERS then (None, st)
                      else (Some count, (adopt count)\<lparr> connection_count := u16_octets (of_nat (count + 1)) \<rparr>))"

text \<open>The class a CONNECT_TX gets: the format's, Class B behind Wi-Fi, and the current one while
  another listener is connected.\<close>

definition connect_tx_class :: "atdecc_state \<Rightarrow> avb_talker_stream_s \<Rightarrow> nat option \<Rightarrow> acmp_message_s \<Rightarrow> bool" where
  "connect_tx_class a st listener_idx m =
     (let req = (octets_u16 (msg_flags m) AND 1 \<noteq> 0);
          req = (case avb_output_format_class (ts_stream_format st) of None \<Rightarrow> req | Some b \<Rightarrow> b);
          req = (if port_medium (port (core a) 0) = avb_port_medium_wifi_ftm then True else req);
          other_listeners = foreach (listener_rows st) (\<lambda>i n.
            if acmp_connected (connected_listeners st ! i) \<and> Some i \<noteq> listener_idx then n + 1 else n) (0 :: nat)
      in if other_listeners > 0 \<and> ts_class_b st \<noteq> req then ts_class_b st else req)"

definition connect_tx_answer :: "avb_talker_stream_s \<Rightarrow> acmp_message_s \<Rightarrow> acmp_message_s" where
  "connect_tx_answer st m =
     (let flags = octets_u16 (msg_flags m) in
      m\<lparr> msg_stream_id := ts_stream_id st, msg_stream_dest_addr := ts_stream_dest_addr st,
         msg_stream_vlan_id := ts_vlan_id st,
         msg_connection_count := u16_octets (of_nat (count_acmp_connected_talker_listeners st)),
         msg_flags := u16_octets (if ts_class_b st then flags OR 1 else flags AND NOT 1) \<rparr>)"

text \<open>The row of a listener that connects, and what its class changes.  \<open>None\<close>: no row is free.\<close>

definition connect_tx_row ::
  "nat \<Rightarrow> acmp_message_s \<Rightarrow> atdecc_state \<Rightarrow> atdecc_state option" where
  "connect_tx_row uid m a =
     (let st = output_stream a uid;
          class_b = connect_tx_class a st
            (find_talker_listener_by_identity st (listener_entity_id m) (msg_listener_uid m)) m
      in case find_or_add_talker_listener_by_identity st (listener_entity_id m) (msg_listener_uid m) of
           (None, st) \<Rightarrow> None
         | (Some idx, st) \<Rightarrow>
             let st = upd_connected idx (\<lambda>c. c\<lparr> acmp_connected := True, asking_failed := False,
                        last_seen_us := now_us (core a) \<rparr>) st;
                 a = upd_core (upd_output uid (\<lambda>_. st)) a;
                 a = (if ts_class_b st \<noteq> class_b
                      then upd_core (avb_output_stream_declare_now uid (Some idx))
                             (persist_append False uid
                                (upd_core (avb_output_stream_set_class uid class_b) a))
                      else a);
                 row = connected_listeners (output_stream a uid) ! idx
             in Some (if msrp_ready row \<and> \<not> streaming (output_stream a uid) \<and> \<not> avb_lite (core a)
                      then upd_core (avb_start_stream_out uid) a else a))"

definition disconnect_tx_row :: "nat \<Rightarrow> acmp_message_s \<Rightarrow> atdecc_state \<Rightarrow> atdecc_state" where
  "disconnect_tx_row uid m a =
     (let st = output_stream a uid;
          idx = (case find_talker_listener_by_identity st (listener_entity_id m) (msg_listener_uid m) of
                   Some i \<Rightarrow> Some i
                 | None \<Rightarrow> find_talker_listener_by_entity st (listener_entity_id m));
          a = (case idx of None \<Rightarrow> a
               | Some i \<Rightarrow> upd_core (upd_output uid (avb_remove_talker_listener_by_index i)) a)
      in if streaming (output_stream a uid) \<and> connected_count (output_stream a uid) = 0
         then upd_core (avb_stop_stream_out uid) a else a)"

definition avb_process_acmp_connect_tx_command ::
  "acmp_message_s \<Rightarrow> bool \<Rightarrow> atdecc_state \<Rightarrow> atdecc_state" where
  "avb_process_acmp_connect_tx_command m disconnect a =
     (let ty = (if disconnect then acmp_msg_type_disconnect_tx_response else acmp_msg_type_connect_tx_response);
          uid = unat (octets_u16 (msg_talker_uid m))
      in if \<not> avb_valid_talker_uid a uid
         then avb_send_acmp_response ty m acmp_status_talker_unknown_id a
         else if avb_acquired_or_locked_by_other a (controller_entity_id m)
         then avb_send_acmp_response ty m acmp_status_controller_not_authorized a
         else case (if disconnect then Some (disconnect_tx_row uid m a) else connect_tx_row uid m a) of
                None \<Rightarrow> avb_send_acmp_response ty m acmp_status_talker_exclusive a
              | Some a \<Rightarrow> avb_send_acmp_response ty (connect_tx_answer (output_stream a uid) m)
                            acmp_status_success a)"

definition avb_process_acmp_get_tx_state_command :: "acmp_message_s \<Rightarrow> atdecc_state \<Rightarrow> atdecc_state" where
  "avb_process_acmp_get_tx_state_command m a =
     (let uid = unat (octets_u16 (msg_talker_uid m)) in
      if \<not> avb_valid_talker_uid a uid
      then avb_send_acmp_response acmp_msg_type_get_tx_state_response m acmp_status_talker_unknown_id a
      else
        let st = output_stream a uid;
            r = (if milan_compliant (core a)
                 then m\<lparr> listener_entity_id := zeros 8, msg_listener_uid := zeros 2,
                         msg_connection_count := zeros 2, msg_flags := zeros 2 \<rparr>
                 else m\<lparr> msg_connection_count :=
                           u16_octets (of_nat (count_acmp_connected_talker_listeners st)),
                         msg_flags := zeros 2 \<rparr>);
            r = (if first_index (\<lambda>i. asking_failed (connected_listeners st ! i)) (connected_count st) \<noteq> None
                 then r\<lparr> msg_flags := u16_octets 0x0040 \<rparr> else r)
        in avb_send_acmp_response acmp_msg_type_get_tx_state_response
             (r\<lparr> msg_stream_id := ts_stream_id st, msg_stream_dest_addr := ts_stream_dest_addr st,
                 msg_stream_vlan_id := ts_vlan_id st \<rparr>) acmp_status_success a)"

text \<open>The row of the n-th ACMP connection.\<close>

definition acmp_connection_row :: "avb_talker_stream_s \<Rightarrow> nat \<Rightarrow> nat option" where
  "acmp_connection_row st n =
     snd (foreach (listener_rows st) (\<lambda>i (seen, entry).
       if entry \<noteq> None \<or> \<not> acmp_connected (connected_listeners st ! i) then (seen, entry)
       else (seen + 1, if seen = n then Some i else None)) (0, None))"

definition avb_process_acmp_get_tx_connection_command :: "acmp_message_s \<Rightarrow> atdecc_state \<Rightarrow> atdecc_state" where
  "avb_process_acmp_get_tx_connection_command m a =
     (let ty = acmp_msg_type_get_tx_connection_response; uid = unat (octets_u16 (msg_talker_uid m)) in
      if milan_compliant (core a) then avb_send_acmp_response ty m acmp_status_not_supported a
      else if \<not> avb_valid_talker_uid a uid then avb_send_acmp_response ty m acmp_status_talker_unknown_id a
      else
        let st = output_stream a uid in
        case acmp_connection_row st (unat (octets_u16 (msg_connection_count m))) of
          None \<Rightarrow> avb_send_acmp_response ty m acmp_status_no_such_connection a
        | Some i \<Rightarrow>
            avb_send_acmp_response ty
              (m\<lparr> listener_entity_id := cl_identity_id (connected_listeners st ! i),
                  msg_listener_uid := cl_identity_uid (connected_listeners st ! i),
                  msg_stream_id := ts_stream_id st, msg_stream_dest_addr := ts_stream_dest_addr st,
                  msg_stream_vlan_id := ts_vlan_id st,
                  msg_connection_count := u16_octets (of_nat (count_acmp_connected_talker_listeners st)) \<rparr>)
              acmp_status_success a)"

section \<open>Binding by MVU commands\<close>

text \<open>BIND_STREAM and UNBIND_STREAM of Milan go through the same handler.  The result is the AECP
  status; sending the AECP response and notifying the other controllers are left out.\<close>

record mvu_bind_cmd =
  mb_stream_input :: bool
  mb_descriptor_index :: u16
  mb_controller_entity_id :: octets
  mb_talker_entity_id :: octets
  mb_talker_stream_index :: octets
  mb_flags :: u16

datatype bind_status = bind_success | bind_no_such_descriptor | bind_bad_arguments

definition mvu_synth :: "mvu_bind_cmd \<Rightarrow> octets \<Rightarrow> octets \<Rightarrow> atdecc_state \<Rightarrow> acmp_message_s" where
  "mvu_synth c talker_entity uid a = acmp_message_zero\<lparr> talker_entity_id := talker_entity, msg_talker_uid := uid,
     listener_entity_id := own_entity_id a, msg_listener_uid := u16_octets (mb_descriptor_index c),
     controller_entity_id := mb_controller_entity_id c \<rparr>"

definition avb_process_aecp_cmd_mvu_bind_stream ::
  "mvu_bind_cmd \<Rightarrow> bool \<Rightarrow> atdecc_state \<Rightarrow> bind_status \<times> atdecc_state" where
  "avb_process_aecp_cmd_mvu_bind_stream c unbind a =
     (let index = unat (mb_descriptor_index c) in
      if \<not> mb_stream_input c \<or> \<not> avb_valid_listener_uid a index then (bind_no_such_descriptor, a)
      else
        let st = input_stream a index;
            synth = (if unbind then mvu_synth c (talker_id st) (talker_uid st) a
                     else mvu_synth c (mb_talker_entity_id c) (mb_talker_stream_index c) a);
            a = (if unbind then a
                 else upd_core (upd_input index (\<lambda>t. t\<lparr> streaming_wait := (mb_flags c AND 1 \<noteq> 0) \<rparr>)) a);
            (ok, a) = avb_process_acmp_connect_rx_command synth unbind True a;
            (status, a) = (if ok then (bind_success, snd (avb_send_listener_talker_command synth unbind True a))
                           else (bind_bad_arguments, a))
        in (status, persist_append True index a))"

section \<open>Reception\<close>

text \<open>A wireless station gets each message twice.  The ring has \<open>ACMP_RECENT_COUNT\<close> places, a
  time of 0 marking a free one.\<close>

definition avb_acmp_received_twice :: "acmp_message_s \<Rightarrow> atdecc_state \<Rightarrow> bool \<times> atdecc_state" where
  "avb_acmp_received_twice m a =
     (let now = now_us (core a) in
      if first_index (\<lambda>i. case s_recent a ! i of (r, t) \<Rightarrow> t \<noteq> 0 \<and> now - t < ACMP_COPY_WINDOW_US \<and> r = m)
           ACMP_RECENT_COUNT \<noteq> None
      then (True, a)
      else (False, a\<lparr> s_recent := (s_recent a)[s_next_recent a := (m, now)],
                      s_next_recent := (s_next_recent a + 1) mod ACMP_RECENT_COUNT \<rparr>))"

definition acmp_dispatch :: "acmp_message_s \<Rightarrow> atdecc_state \<Rightarrow> atdecc_state option" where
  "acmp_dispatch m a =
     (let to_listener = (listener_entity_id m = own_entity_id a);
          to_talker = (talker_entity_id m = own_entity_id a)
      in case msg_type m of
       acmp_msg_type_connect_rx_command \<Rightarrow>
         Some (if to_listener then snd (avb_process_acmp_connect_rx_command m False False a) else a)
     | acmp_msg_type_disconnect_rx_command \<Rightarrow>
         Some (if to_listener then snd (avb_process_acmp_connect_rx_command m True False a) else a)
     | acmp_msg_type_connect_tx_command \<Rightarrow>
         Some (if to_talker then avb_process_acmp_connect_tx_command m False a else a)
     | acmp_msg_type_connect_tx_response \<Rightarrow>
         (if to_listener then avb_process_acmp_connect_tx_response m False a else Some a)
     | acmp_msg_type_disconnect_tx_command \<Rightarrow>
         Some (if to_talker then avb_process_acmp_connect_tx_command m True a else a)
     | acmp_msg_type_disconnect_tx_response \<Rightarrow>
         (if to_listener then avb_process_acmp_connect_tx_response m True a else Some a)
     | acmp_msg_type_get_rx_state_command \<Rightarrow>
         Some (if to_listener then avb_process_acmp_get_rx_state_command m a else a)
     | acmp_msg_type_get_tx_state_command \<Rightarrow>
         Some (if to_talker then avb_process_acmp_get_tx_state_command m a else a)
     | acmp_msg_type_get_tx_connection_command \<Rightarrow>
         Some (if to_talker then avb_process_acmp_get_tx_connection_command m a else a)
     | _ \<Rightarrow> Some a)"

definition avb_process_acmp :: "acmp_message_s \<Rightarrow> atdecc_state \<Rightarrow> atdecc_state option" where
  "avb_process_acmp m a =
     (if ENDPOINT_WIRELESS (build (core a)) \<and> acmp_target_entity_id m = Some (own_entity_id a)
      then case avb_acmp_received_twice m a of
             (True, a) \<Rightarrow> Some a
           | (False, a) \<Rightarrow> acmp_dispatch m a
      else acmp_dispatch m a)"

end
