(* ===== verification/Acmp_Rows.thy ===== *)
theory Acmp_Rows
  imports Acmp Stream_Frame
begin

text \<open>
  The rows of an output stream as a set: the listeners an ACMP connection names.  Connecting
  inserts into it, disconnecting deletes from it, and moving to a new stream ID keeps it although
  rows are compacted.
\<close>

section \<open>Two-octet fields\<close>

lemma octets_u16_inverse [simp]: "octets_u16 (u16_octets v) = v"
  by (simp add: octets_u16_def u16_octets_def octets_roundtrip)
    (rule bit_word_eqI, simp add: bit_simps)

lemma connected_count_u16: "connected_count st = unat (octets_u16 (connection_count st))"
  by (simp add: connected_count_def octets_u16_def)

lemma u16_as_octets: "int_to_octets (of_nat n) 2 = u16_octets (of_nat n)" if "n < 65536"
proof -
  have "(ucast (of_nat n :: u16) :: u64) = of_nat n"
    using that by (simp add: word_unat_eq_iff unsigned_ucast_eq unsigned_of_nat take_bit_nat_eq_self)
  then show ?thesis by (simp add: u16_octets_def)
qed

section \<open>Rows\<close>

definition identity :: "connected_listener_s \<Rightarrow> octets \<times> octets" where
  "identity c = (cl_identity_id c, cl_identity_uid c)"

definition acmp_row :: "avb_talker_stream_s \<Rightarrow> nat \<Rightarrow> bool" where
  "acmp_row st i \<longleftrightarrow> i < connected_count st \<and> acmp_connected (connected_listeners st ! i)"

definition acmp_listeners :: "avb_talker_stream_s \<Rightarrow> (octets \<times> octets) set" where
  "acmp_listeners st = {identity (connected_listeners st ! i) | i. acmp_row st i}"

definition rows_fit :: "avb_talker_stream_s \<Rightarrow> bool" where
  "rows_fit st \<longleftrightarrow> length (connected_listeners st) = AVB_MAX_NUM_CONNECTED_LISTENERS
     \<and> connected_count st \<le> AVB_MAX_NUM_CONNECTED_LISTENERS"

text \<open>A connected row is the first with its identity.\<close>

definition rows_ok :: "avb_talker_stream_s \<Rightarrow> bool" where
  "rows_ok st \<longleftrightarrow> rows_fit st
     \<and> (\<forall>i j. i < j \<and> acmp_row st j
          \<longrightarrow> identity (connected_listeners st ! i) \<noteq> identity (connected_listeners st ! j))"

lemma rows_ok_unique:
  assumes "rows_ok st" and "acmp_row st i" and "acmp_row st j"
    and "identity (connected_listeners st ! i) = identity (connected_listeners st ! j)"
  shows "i = j"
  using assms unfolding rows_ok_def by (metis linorder_neqE_nat)

lemma fit_rows: "rows_fit st \<Longrightarrow> listener_rows st = connected_count st"
  by (simp add: rows_fit_def listener_rows_def)

text \<open>Removing a row shifts the later ones down.\<close>

lemma shift_down:
  assumes "k \<le> n" and "n < length xs"
  shows "length (fold (\<lambda>i l. l[i := l ! (i + 1)]) [k..<n] xs) = length xs"
    and "j < length xs \<Longrightarrow> fold (\<lambda>i l. l[i := l ! (i + 1)]) [k..<n] xs ! j
      = (if k \<le> j \<and> j < n then xs ! Suc j else xs ! j)"
proof -
  have "length (fold (\<lambda>i l. l[i := l ! (i + 1)]) [k..<n] xs) = length xs
    \<and> (\<forall>j < length xs. fold (\<lambda>i l. l[i := l ! (i + 1)]) [k..<n] xs ! j
        = (if k \<le> j \<and> j < n then xs ! Suc j else xs ! j))"
    using assms
  proof (induction n rule: dec_induct)
    case (step n)
    then show ?case by (auto simp: nth_list_update less_Suc_eq)
  qed auto
  then show "length (fold (\<lambda>i l. l[i := l ! (i + 1)]) [k..<n] xs) = length xs"
    and "j < length xs \<Longrightarrow> fold (\<lambda>i l. l[i := l ! (i + 1)]) [k..<n] xs ! j
      = (if k \<le> j \<and> j < n then xs ! Suc j else xs ! j)" by auto
qed

lemma remove_rows:
  assumes "rows_fit st" and "idx < connected_count st"
  defines "st' \<equiv> avb_remove_talker_listener_by_index idx st"
  shows "connected_count st' = connected_count st - 1" and "rows_fit st'"
    and "j < connected_count st' \<Longrightarrow>
      connected_listeners st' ! j = connected_listeners st ! (if j < idx then j else Suc j)"
proof -
  let ?n = "connected_count st"
  have n: "?n \<le> 10" "length (connected_listeners st) = 10" using assms(1)
    by (simp_all add: rows_fit_def AVB_MAX_NUM_CONNECTED_LISTENERS_def)
  obtain m where m: "?n = Suc m" using assms(2) by (cases ?n) auto
  have st': "connected_listeners st' = (fold (\<lambda>i l. l[i := l ! (i + 1)]) [idx..<?n - 1] (connected_listeners st))
        [?n - 1 := connected_listener_zero]"
    "connection_count st' = u16_octets (of_nat (?n - 1))"
    using assms(2) n by (simp_all add: st'_def avb_remove_talker_listener_by_index_def Let_def min_def
        AVB_MAX_NUM_CONNECTED_LISTENERS_def m u16_as_octets del: of_nat_diff)
  show c: "connected_count st' = ?n - 1"
    using n by (simp add: connected_count_u16 st'(2) unat_of_nat)
  have s: "idx \<le> ?n - 1" "?n - 1 < length (connected_listeners st)" using assms(2) n by auto
  show "rows_fit st'" unfolding rows_fit_def c
    using n shift_down(1) [OF s] by (simp add: st'(1) AVB_MAX_NUM_CONNECTED_LISTENERS_def)
  show "connected_listeners st' ! j = connected_listeners st ! (if j < idx then j else Suc j)"
    if "j < connected_count st'"
    using that n shift_down(2) [OF s, of j] by (auto simp: st'(1) c)
qed

lemma remove_acmp:
  assumes "rows_fit st" and "idx < connected_count st"
  defines "st' \<equiv> avb_remove_talker_listener_by_index idx st"
  shows "acmp_row st' j \<longleftrightarrow> j < connected_count st - 1 \<and> acmp_row st (if j < idx then j else Suc j)"
  using remove_rows [OF assms(1,2)] by (auto simp: acmp_row_def st'_def)

lemma remove_listeners:
  assumes "rows_fit st" and "idx < connected_count st"
  shows "acmp_listeners (avb_remove_talker_listener_by_index idx st)
    = {identity (connected_listeners st ! i) | i. acmp_row st i \<and> i \<noteq> idx}"
    (is "?L = ?R")
proof
  show "?L \<subseteq> ?R"
  proof
    fix x assume "x \<in> ?L"
    then obtain j where j: "acmp_row (avb_remove_talker_listener_by_index idx st) j"
      "x = identity (connected_listeners (avb_remove_talker_listener_by_index idx st) ! j)"
      by (auto simp: acmp_listeners_def)
    then have "x = identity (connected_listeners st ! (if j < idx then j else Suc j))"
      using remove_rows(3) [OF assms, of j] by (simp add: acmp_row_def)
    moreover have "acmp_row st (if j < idx then j else Suc j)" using j(1) remove_acmp [OF assms] by blast
    moreover have "(if j < idx then j else Suc j) \<noteq> idx" by auto
    ultimately show "x \<in> ?R" by blast
  qed
  show "?R \<subseteq> ?L"
  proof
    fix x assume "x \<in> ?R"
    then obtain i where i: "acmp_row st i" "i \<noteq> idx" "x = identity (connected_listeners st ! i)" by auto
    define j where "j = (if i < idx then i else i - 1)"
    have m: "(if j < idx then j else Suc j) = i" "j < connected_count st - 1"
      using i(1,2) assms(2) by (auto simp: j_def acmp_row_def)
    then have "acmp_row (avb_remove_talker_listener_by_index idx st) j"
      using remove_acmp [OF assms, of j] i(1) by simp
    moreover have "identity (connected_listeners (avb_remove_talker_listener_by_index idx st) ! j) = x"
      using remove_rows(1) [OF assms] remove_rows(3) [OF assms, of j] m i(3) by simp
    ultimately show "x \<in> ?L" by (auto simp: acmp_listeners_def)
  qed
qed

lemma remove_ok:
  assumes "rows_ok st"
  shows "rows_ok (avb_remove_talker_listener_by_index idx st)"
proof (cases "idx < connected_count st")
  case True
  let ?st = "avb_remove_talker_listener_by_index idx st" and ?f = "\<lambda>j. if j < idx then j else Suc j"
  have fit: "rows_fit st" using assms by (simp add: rows_ok_def)
  have "identity (connected_listeners ?st ! i) \<noteq> identity (connected_listeners ?st ! j)"
    if r: "i < j" "acmp_row ?st j" for i j
  proof -
    have "acmp_row st (?f j)" using r(2) remove_acmp [OF fit True] by blast
    moreover have "?f i < ?f j" using r(1) by auto
    ultimately have "identity (connected_listeners st ! ?f i) \<noteq> identity (connected_listeners st ! ?f j)"
      using assms unfolding rows_ok_def by blast
    then show ?thesis
      using r remove_rows(3) [OF fit True, of i] remove_rows(3) [OF fit True, of j] by (simp add: acmp_row_def)
  qed
  then show ?thesis using remove_rows(2) [OF fit True] by (auto simp: rows_ok_def)
next
  case False
  then have "avb_remove_talker_listener_by_index idx st = st"
    by (simp add: avb_remove_talker_listener_by_index_def Let_def)
  with assms show ?thesis by simp
qed

text \<open>Updates that keep what ACMP knows of a row.\<close>

definition row_kept :: "(connected_listener_s \<Rightarrow> connected_listener_s) \<Rightarrow> bool" where
  "row_kept f \<longleftrightarrow> (\<forall>c. identity (f c) = identity c \<and> acmp_connected (f c) = acmp_connected c)"

lemma upd_connected_fields [simp]:
  "connection_count (upd_connected i f st) = connection_count st"
  "connected_count (upd_connected i f st) = connected_count st"
  "rows_fit (upd_connected i f st) = rows_fit st"
  "listener_rows (upd_connected i f st) = listener_rows st"
  by (simp_all add: upd_connected_def connected_count_def rows_fit_def listener_rows_def)

lemma row_upd:
  assumes "rows_fit st" and "j < connected_count st"
  shows "connected_listeners (upd_connected i f st) ! j
    = (if i = j then f (connected_listeners st ! j) else connected_listeners st ! j)"
  using assms by (simp add: upd_connected_def nth_upd_at rows_fit_def)

lemma kept_rows:
  assumes "rows_fit st" and "row_kept f"
  shows "acmp_row (upd_connected i f st) j = acmp_row st j"
    and "j < connected_count st \<Longrightarrow>
      identity (connected_listeners (upd_connected i f st) ! j) = identity (connected_listeners st ! j)"
proof -
  have f: "identity (f c) = identity c" "acmp_connected (f c) = acmp_connected c" for c
    using assms(2) by (simp_all add: row_kept_def)
  note r = row_upd [OF assms(1), of j i f]
  show "acmp_row (upd_connected i f st) j = acmp_row st j"
    by (cases "j < connected_count st") (simp_all add: acmp_row_def r f)
  show "identity (connected_listeners (upd_connected i f st) ! j) = identity (connected_listeners st ! j)"
    if "j < connected_count st" using that by (simp add: r f)
qed

lemma kept_listeners:
  assumes "rows_fit st" and "row_kept f"
  shows "acmp_listeners (upd_connected i f st) = acmp_listeners st"
proof -
  have "acmp_row (upd_connected i f st) j \<and> x = identity (connected_listeners (upd_connected i f st) ! j)
      \<longleftrightarrow> acmp_row st j \<and> x = identity (connected_listeners st ! j)" for j x
    using kept_rows [OF assms, where i = i and j = j] by (auto simp: acmp_row_def)
  then show ?thesis by (auto simp: acmp_listeners_def)
qed

lemma kept_ok:
  assumes "rows_ok st" and "row_kept f"
  shows "rows_ok (upd_connected i f st)"
proof -
  have fit: "rows_fit st" using assms(1) by (simp add: rows_ok_def)
  have "identity (connected_listeners (upd_connected i f st) ! k) \<noteq> identity (connected_listeners (upd_connected i f st) ! j)"
    if "k < j" "acmp_row (upd_connected i f st) j" for k j
  proof -
    have j: "acmp_row st j" "j < connected_count st" using that(2) kept_rows(1) [OF fit assms(2), where i = i and j = j]
      by (auto simp: acmp_row_def)
    then have "identity (connected_listeners st ! k) \<noteq> identity (connected_listeners st ! j)"
      using assms(1) that(1) unfolding rows_ok_def by blast
    then show ?thesis using kept_rows(2) [OF fit assms(2), where i = i] j(2) that(1) by simp
  qed
  then show ?thesis using fit by (simp add: rows_ok_def)
qed

section \<open>Connecting\<close>

text \<open>What finding or adding a row gives: the row is the one of that identity, the others are as they
  were, and no other connected row, and none before it, has that identity.\<close>

definition named_row ::
  "avb_talker_stream_s \<Rightarrow> octets \<times> octets \<Rightarrow> nat \<Rightarrow> avb_talker_stream_s \<Rightarrow> bool" where
  "named_row st x idx st' \<longleftrightarrow> rows_fit st' \<and> idx < connected_count st'
     \<and> (connected_count st' = connected_count st \<or> connected_count st' = Suc (connected_count st) \<and> idx = connected_count st)
     \<and> identity (connected_listeners st' ! idx) = x
     \<and> (\<forall>j < connected_count st. j \<noteq> idx \<longrightarrow> connected_listeners st' ! j = connected_listeners st ! j)
     \<and> (\<forall>j. acmp_row st j \<and> j \<noteq> idx \<longrightarrow> identity (connected_listeners st ! j) \<noteq> x)
     \<and> (\<forall>j < idx. identity (connected_listeners st ! j) \<noteq> x)
     \<and> (acmp_row st idx \<longrightarrow> identity (connected_listeners st ! idx) = x)"

lemma named_adopt:
  assumes "rows_fit st" and "k < connected_count st" and "\<not> acmp_connected (connected_listeners st ! k)"
    and "\<forall>j < connected_count st. identity (connected_listeners st ! j) \<noteq> x"
    and "identity (g (connected_listeners st ! k)) = x"
  shows "named_row st x k (upd_connected k g st)"
  using assms row_upd [OF assms(1), where i = k and f = g]
  by (simp add: named_row_def acmp_row_def)

lemma named_append:
  fixes c :: connected_listener_s
  assumes "rows_fit st" and "connected_count st < AVB_MAX_NUM_CONNECTED_LISTENERS"
    and "\<forall>j < connected_count st. identity (connected_listeners st ! j) \<noteq> x" and "\<And>c. identity (g c) = x"
  shows "named_row st x (connected_count st)
    ((upd_connected (connected_count st) g st)\<lparr> connection_count := u16_octets (of_nat (connected_count st + 1)) \<rparr>)"
proof -
  let ?n = "connected_count st"
  define st1 where "st1 = (upd_connected ?n g st)\<lparr> connection_count := u16_octets (of_nat (?n + 1)) \<rparr>"
  have n: "?n < 10" "length (connected_listeners st) = 10"
    using assms(1,2) by (simp_all add: rows_fit_def AVB_MAX_NUM_CONNECTED_LISTENERS_def)
  have c: "connected_count st1 = Suc ?n" using n unfolding st1_def
    by (simp add: connected_count_u16 unat_of_nat del: of_nat_Suc of_nat_add)
  have rows: "connected_listeners st1 = upd_at ?n g (connected_listeners st)"
    by (simp add: st1_def upd_connected_def)
  have "rows_fit st1" unfolding rows_fit_def c rows using n by (simp add: AVB_MAX_NUM_CONNECTED_LISTENERS_def)
  then show ?thesis unfolding st1_def [symmetric]
    using n assms(3,4) by (simp add: named_row_def c rows acmp_row_def nth_upd_at)
qed

lemma pending_rowD:
  assumes "pending_row st = Some k"
  shows "k < listener_rows st" and "\<not> acmp_connected (connected_listeners st ! k)"
proof -
  have "filter (\<lambda>i. \<not> acmp_connected (connected_listeners st ! i) \<and> msrp_ready (connected_listeners st ! i))
      [0..<listener_rows st] = [k]"
    using assms by (auto simp: pending_row_def split: list.splits)
  then have "k \<in> set (filter (\<lambda>i. \<not> acmp_connected (connected_listeners st ! i) \<and> msrp_ready (connected_listeners st ! i))
      [0..<listener_rows st])" by simp
  then show "k < listener_rows st" and "\<not> acmp_connected (connected_listeners st ! k)" by auto
qed

lemma find_or_add:
  assumes "rows_ok st" and "find_or_add_talker_listener_by_identity st e u = (r, st')"
  shows "case r of None \<Rightarrow> st' = st \<and> connected_count st = AVB_MAX_NUM_CONNECTED_LISTENERS
      \<and> (e, u) \<notin> acmp_listeners st
    | Some idx \<Rightarrow> named_row st (e, u) idx st'"
proof (cases "find_talker_listener_by_identity st e u")
  case (Some i)
  have fit: "rows_fit st" using assms(1) by (simp add: rows_ok_def)
  have i: "i < connected_count st" "identity (connected_listeners st ! i) = (e, u)"
    "\<forall>j < i. identity (connected_listeners st ! j) \<noteq> (e, u)"
    using Some first_index_SomeD [of _ "listener_rows st" i] fit_rows [OF fit]
    unfolding find_talker_listener_by_identity_def identity_def by auto
  moreover have "identity (connected_listeners st ! j) \<noteq> (e, u)" if "acmp_row st j" "j \<noteq> i" for j
    using that i assms(1) unfolding rows_ok_def by (metis linorder_neqE_nat)
  ultimately have "named_row st (e, u) i st" using fit by (simp add: named_row_def)
  moreover have "r = Some i" "st' = st"
    using assms(2) Some by (simp_all add: find_or_add_talker_listener_by_identity_def)
  ultimately show ?thesis by simp
next
  case None
  have fit: "rows_fit st" using assms(1) by (simp add: rows_ok_def)
  note n = fit_rows [OF fit]
  have no: "\<forall>j < connected_count st. identity (connected_listeners st ! j) \<noteq> (e, u)"
    using None n by (simp add: find_talker_listener_by_identity_def first_index_None identity_def)
  have no2: "(e, u) \<notin> acmp_listeners st" using no by (auto simp: acmp_listeners_def acmp_row_def)
  note unfolded = assms(2) [unfolded find_or_add_talker_listener_by_identity_def Let_def None option.case]
  show ?thesis
  proof (cases "find_talker_listener_by_entity st e \<noteq> None
      \<and> \<not> acmp_connected (connected_listeners st ! the (find_talker_listener_by_entity st e))")
    case True
    then obtain k where k: "find_talker_listener_by_entity st e = Some k" by auto
    then have "k < connected_count st" "cl_identity_id (connected_listeners st ! k) = e"
      using first_index_SomeD [of _ "listener_rows st" k] n by (auto simp: find_talker_listener_by_entity_def)
    then have "named_row st (e, u) k (upd_connected k (\<lambda>c. c\<lparr> cl_identity_uid := u \<rparr>) st)"
      using True k no by (intro named_adopt [OF fit]) (simp_all add: identity_def)
    then show ?thesis using unfolded True by (auto simp: k)
  next
    case False
    show ?thesis
    proof (cases "pending_row st")
      case (Some k)
      have "named_row st (e, u) k (upd_connected k (\<lambda>c. c\<lparr> cl_identity_id := e, cl_identity_uid := u \<rparr>) st)"
        using pending_rowD [OF Some] n no by (intro named_adopt [OF fit]) (simp_all add: identity_def)
      then show ?thesis using unfolded False by (auto simp: Some)
    next
      case none: None
      show ?thesis
      proof (cases "connected_count st \<ge> AVB_MAX_NUM_CONNECTED_LISTENERS")
        case True
        then show ?thesis using unfolded False fit no2 by (auto simp: rows_fit_def none)
      next
        case room: False
        have "named_row st (e, u) (connected_count st)
          ((upd_connected (connected_count st) (\<lambda>c. c\<lparr> cl_identity_id := e, cl_identity_uid := u \<rparr>) st)
            \<lparr> connection_count := u16_octets (of_nat (connected_count st + 1)) \<rparr>)"
          using room no by (intro named_append [OF fit]) (simp_all add: identity_def)
        then show ?thesis using unfolded False room by (auto simp: none)
      qed
    qed
  qed
qed

text \<open>Marking the row as connected inserts the listener.\<close>

lemma connect_named:
  assumes "rows_ok st" and "named_row st x idx st'"
    and "\<And>c. identity (g c) = identity c" and "\<And>c. acmp_connected (g c)"
  shows "rows_ok (upd_connected idx g st')" and "acmp_listeners (upd_connected idx g st') = insert x (acmp_listeners st)"
proof -
  let ?st = "upd_connected idx g st'"
  have fit: "rows_fit st'" and idx: "idx < connected_count st'" and x: "identity (connected_listeners st' ! idx) = x"
    and cnt: "connected_count st' = connected_count st \<or> connected_count st' = Suc (connected_count st) \<and> idx = connected_count st"
    and others: "\<And>j. \<lbrakk>j < connected_count st; j \<noteq> idx\<rbrakk> \<Longrightarrow> connected_listeners st' ! j = connected_listeners st ! j"
    and no: "\<And>j. \<lbrakk>acmp_row st j; j \<noteq> idx\<rbrakk> \<Longrightarrow> identity (connected_listeners st ! j) \<noteq> x"
    and before: "\<And>j. j < idx \<Longrightarrow> identity (connected_listeners st ! j) \<noteq> x"
    and was: "acmp_row st idx \<Longrightarrow> identity (connected_listeners st ! idx) = x"
    using assms(2) by (auto simp: named_row_def)
  have row: "connected_listeners ?st ! j = (if idx = j then g (connected_listeners st' ! j) else connected_listeners st' ! j)"
    if "j < connected_count st'" for j using row_upd [OF fit that] .
  have new: "acmp_row ?st idx" "identity (connected_listeners ?st ! idx) = x"
    using row [OF idx] idx x assms(3,4) by (simp_all add: acmp_row_def)
  have old: "acmp_row ?st j = acmp_row st j" "acmp_row st j \<Longrightarrow> connected_listeners ?st ! j = connected_listeners st ! j"
    if "j \<noteq> idx" for j
  proof -
    have c: "j < connected_count st' \<longleftrightarrow> j < connected_count st" using cnt that by auto
    then have "connected_listeners ?st ! j = connected_listeners st ! j" if "j < connected_count st"
      using row [of j] others [of j] \<open>j \<noteq> idx\<close> that by simp
    then show "acmp_row ?st j = acmp_row st j" "acmp_row st j \<Longrightarrow> connected_listeners ?st ! j = connected_listeners st ! j"
      using c by (auto simp: acmp_row_def)
  qed
  have same: "identity (connected_listeners ?st ! i) = identity (connected_listeners st ! i)"
    if "i \<noteq> idx" "i < connected_count st" for i
    using row [of i] others [of i] cnt that by auto
  have "identity (connected_listeners ?st ! i) \<noteq> identity (connected_listeners ?st ! j)"
    if ij: "i < j" "acmp_row ?st j" for i j
  proof (cases "j = idx")
    case True
    then have "i < connected_count st" using ij(1) idx cnt by auto
    then show ?thesis using new(2) True same [of i] before [of i] ij(1) by simp
  next
    case j: False
    then have aj: "acmp_row st j" using old(1) ij(2) by simp
    then have jc: "j < connected_count st" by (simp add: acmp_row_def)
    show ?thesis
    proof (cases "i = idx")
      case True
      then show ?thesis using new(2) old(2) [OF j aj] no [OF aj j] by auto
    next
      case False
      then show ?thesis using same [of i] same [of j] j jc aj ij(1) assms(1) by (auto simp: rows_ok_def)
    qed
  qed
  then show "rows_ok ?st" using fit by (simp add: rows_ok_def)
  show "acmp_listeners ?st = insert x (acmp_listeners st)"
  proof (rule set_eqI)
    fix y
    have "(\<exists>j. acmp_row ?st j \<and> y = identity (connected_listeners ?st ! j))
      \<longleftrightarrow> y = x \<or> (\<exists>j. acmp_row st j \<and> y = identity (connected_listeners st ! j))"
      using new old was by metis
    then show "y \<in> acmp_listeners ?st \<longleftrightarrow> y \<in> insert x (acmp_listeners st)"
      by (auto simp: acmp_listeners_def)
  qed
qed

section \<open>What declaring and starting a stream keep\<close>

definition stream_kept :: "avb_talker_stream_s \<Rightarrow> avb_talker_stream_s \<Rightarrow> bool" where
  "stream_kept t t' \<longleftrightarrow> (rows_ok t \<longrightarrow> rows_ok t' \<and> acmp_listeners t' = acmp_listeners t)
     \<and> ts_class_b t' = ts_class_b t \<and> ts_vlan_id t' = ts_vlan_id t \<and> ts_stream_format t' = ts_stream_format t
     \<and> ts_stream_dest_addr t' = ts_stream_dest_addr t \<and> take 7 (ts_stream_id t') = take 7 (ts_stream_id t)"

definition streams_kept :: "avb_state \<Rightarrow> avb_state \<Rightarrow> bool" where
  "streams_kept s s' \<longleftrightarrow> length (output_streams s') = length (output_streams s)
     \<and> (\<forall>i < length (output_streams s). stream_kept (output_streams s ! i) (output_streams s' ! i))"

lemma kept_refl [simp]: "stream_kept t t" "streams_kept s s"
  by (simp_all add: stream_kept_def streams_kept_def)

lemma stream_kept_trans: "\<lbrakk>stream_kept t u; stream_kept u v\<rbrakk> \<Longrightarrow> stream_kept t v"
  by (simp add: stream_kept_def)

lemma streams_kept_trans: "\<lbrakk>streams_kept s t; streams_kept t u\<rbrakk> \<Longrightarrow> streams_kept s u"
  unfolding streams_kept_def using stream_kept_trans by fastforce

lemma streams_kept_same: "output_streams s' = output_streams s \<Longrightarrow> streams_kept s s'"
  by (simp add: streams_kept_def)

lemma streams_kept_upd: "(\<And>t. stream_kept t (f t)) \<Longrightarrow> streams_kept s (upd_output i f s)"
  by (auto simp: streams_kept_def upd_output_def nth_upd_at)

lemma rows_only:
  assumes "connected_listeners t' = connected_listeners t" and "connection_count t' = connection_count t"
  shows "rows_ok t' = rows_ok t" and "acmp_listeners t' = acmp_listeners t" and "connected_count t' = connected_count t"
    and "rows_fit t' = rows_fit t" and "acmp_row t' = acmp_row t" and "listener_rows t' = listener_rows t"
proof -
  show c: "connected_count t' = connected_count t" using assms by (simp add: connected_count_def)
  show a: "acmp_row t' = acmp_row t" using assms c by (auto simp: acmp_row_def)
  show f: "rows_fit t' = rows_fit t" using assms c by (simp add: rows_fit_def)
  show "rows_ok t' = rows_ok t" using assms a f by (simp add: rows_ok_def)
  show "acmp_listeners t' = acmp_listeners t" using assms a by (simp add: acmp_listeners_def)
  show "listener_rows t' = listener_rows t" using c by (simp add: listener_rows_def)
qed

lemma stream_keptI:
  assumes "connected_listeners t' = connected_listeners t" and "connection_count t' = connection_count t"
    and "ts_class_b t' = ts_class_b t" and "ts_vlan_id t' = ts_vlan_id t" and "ts_stream_format t' = ts_stream_format t"
    and "ts_stream_dest_addr t' = ts_stream_dest_addr t" and "take 7 (ts_stream_id t') = take 7 (ts_stream_id t)"
  shows "stream_kept t t'"
  using assms(3-) rows_only [OF assms(1,2)] by (simp add: stream_kept_def)

lemma remove_fields [simp]:
  "ts_class_b (avb_remove_talker_listener_by_index i t) = ts_class_b t"
  "ts_vlan_id (avb_remove_talker_listener_by_index i t) = ts_vlan_id t"
  "ts_stream_format (avb_remove_talker_listener_by_index i t) = ts_stream_format t"
  "ts_stream_dest_addr (avb_remove_talker_listener_by_index i t) = ts_stream_dest_addr t"
  "ts_stream_id (avb_remove_talker_listener_by_index i t) = ts_stream_id t"
  "streaming (avb_remove_talker_listener_by_index i t) = streaming t"
  by (simp_all add: avb_remove_talker_listener_by_index_def Let_def)

lemma upd_connected_stream [simp]:
  "ts_class_b (upd_connected i f t) = ts_class_b t" "ts_vlan_id (upd_connected i f t) = ts_vlan_id t"
  "ts_stream_format (upd_connected i f t) = ts_stream_format t"
  "ts_stream_dest_addr (upd_connected i f t) = ts_stream_dest_addr t"
  "ts_stream_id (upd_connected i f t) = ts_stream_id t" "streaming (upd_connected i f t) = streaming t"
  by (simp_all add: upd_connected_def)

lemma remove_unconnected:
  assumes "rows_ok t" and "\<not> acmp_row t i"
  shows "acmp_listeners (avb_remove_talker_listener_by_index i t) = acmp_listeners t"
proof (cases "i < connected_count t")
  case True
  have "rows_fit t" using assms(1) by (simp add: rows_ok_def)
  from remove_listeners [OF this True] assms(2) show ?thesis by (auto simp: acmp_listeners_def)
next
  case False
  then have "avb_remove_talker_listener_by_index i t = t"
    by (simp add: avb_remove_talker_listener_by_index_def Let_def)
  then show ?thesis by simp
qed

lemma renew_row_kept: "stream_kept t (renew_row i t)"
proof -
  have r: "row_kept (\<lambda>c. c\<lparr> msrp_ready := False, msrp_ready_live := False,
      asking_failed := False, asking_failed_since_us := 0 \<rparr>)" by (simp add: row_kept_def identity_def)
  have fit: "rows_ok t \<Longrightarrow> rows_fit t" by (simp add: rows_ok_def)
  consider "i \<ge> AVB_MAX_NUM_CONNECTED_LISTENERS" | "i < AVB_MAX_NUM_CONNECTED_LISTENERS" "\<not> acmp_connected (connected_listeners t ! i)"
    | "i < AVB_MAX_NUM_CONNECTED_LISTENERS" "acmp_connected (connected_listeners t ! i)" by linarith
  then show ?thesis
  proof cases
    case 1
    then show ?thesis by (simp add: renew_row_def)
  next
    case 2
    then have "renew_row i t = avb_remove_talker_listener_by_index i t" by (simp add: renew_row_def)
    then show ?thesis using remove_ok [of t i] remove_unconnected [of t i] 2
      by (simp add: stream_kept_def acmp_row_def)
  next
    case 3
    then show ?thesis using kept_ok [OF _ r, of t] kept_listeners [OF fit r]
      by (simp add: renew_row_def stream_kept_def)
  qed
qed

lemma renew_rows_kept: "stream_kept t (fold renew_row is t)"
  by (induction "is" arbitrary: t) (auto intro: stream_kept_trans renew_row_kept)

lemma renew_move_kept: "streams_kept s (renew_move index gen s)"
proof -
  have "stream_kept t (fold renew_row is (t\<lparr> stream_id_retired_us := r, stream_id_gen := gen,
      ts_stream_id := stream_id_set_generation (ts_stream_id t) gen \<rparr>))" for t "is" r
    by (rule stream_kept_trans [OF stream_keptI renew_rows_kept]) (simp_all add: stream_id_set_generation_def)
  then have "streams_kept t (upd_output index (\<lambda>st. fold renew_row is
      (st\<lparr> stream_id_retired_us := (stream_id_retired_us st)[stream_id_gen st := now], stream_id_gen := gen,
          ts_stream_id := stream_id_set_generation (ts_stream_id st) gen \<rparr>)) t)" for t now "is"
    by (intro streams_kept_upd)
  note body = this
  show ?thesis unfolding renew_move_def Let_def
    by (rule streams_kept_trans [OF streams_kept_same body]) (rule viewD, rule withdraw_talker_view)
qed

lemma renew_try_kept: "renew_try index steps s = (r, s') \<Longrightarrow> streams_kept s s'"
proof (induction steps arbitrary: s)
  case (Cons step steps)
  let ?gen = "(stream_id_gen (output_streams s ! index) + step) mod AVB_STREAM_ID_GENERATIONS"
  obtain ok t where f: "mrp_talker_forget 0 (stream_id_set_generation (ts_stream_id (output_streams s ! index)) ?gen) s = (ok, t)"
    by (rule prod.exhaust)
  have t: "streams_kept s t" using forget_view [OF f] by (intro streams_kept_same) (rule viewD)
  show ?case
  proof (cases "now_us s - stream_id_retired_us (output_streams s ! index) ! ?gen < AVB_STREAM_ID_REUSE_US")
    case True
    with Cons show ?thesis by (simp add: Let_def)
  next
    case False
    show ?thesis
    proof (cases ok)
      case True
      then have "s' = renew_move index ?gen t" using Cons.prems False f by (simp add: Let_def)
      with t show ?thesis by (auto intro: streams_kept_trans renew_move_kept)
    next
      case no: False
      then have "renew_try index steps t = (r, s')" using Cons.prems False f by (simp add: Let_def)
      with t Cons.IH show ?thesis by (blast intro: streams_kept_trans)
    qed
  qed
qed simp

lemma renew_id_kept: "streams_kept s (snd (avb_output_stream_renew_id index ex s))"
proof -
  have "streams_kept s (snd (renew_try index steps s))" for steps
    using renew_try_kept [of index steps s "fst (renew_try index steps s)" "snd (renew_try index steps s)"] by simp
  then show ?thesis by (simp add: avb_output_stream_renew_id_def Let_def)
qed

lemma declare_kept: "streams_kept s (avb_declare_output_stream index ex s)"
proof -
  have "streams_kept s (if b then snd (avb_output_stream_renew_id index ex s) else s)" for b
    using renew_id_kept by simp
  then show ?thesis unfolding avb_declare_output_stream_def Let_def
    by (rule streams_kept_trans) (rule streams_kept_same, simp add: view_fields)
qed

lemma declare_now_kept: "streams_kept s (avb_output_stream_declare_now index ex s)"
  using declare_kept by (simp add: avb_output_stream_declare_now_def)

lemma start_kept: "streams_kept s (avb_start_stream_out i s)"
proof -
  have "streams_kept s (upd_output i (\<lambda>t. t\<lparr> stop_streaming := False, streaming := True \<rparr>) s)"
    by (rule streams_kept_upd, rule stream_keptI) simp_all
  then show ?thesis by (simp add: avb_start_stream_out_def)
qed

lemma stop_kept: "streams_kept s (avb_stop_stream_out i s)"
proof -
  have "streams_kept s (upd_output i (\<lambda>t. t\<lparr> stop_streaming := True, streaming := False \<rparr>) s)"
    by (rule streams_kept_upd, rule stream_keptI) simp_all
  then show ?thesis by (simp add: avb_stop_stream_out_def)
qed

end
