(* ===== verification/Acmp_Talker.thy ===== *)
theory Acmp_Talker
  imports Acmp_Rows Boot
begin

text \<open>
  The talker's side of ACMP: its rows implement a set of listeners of bounded size, a stream keeps its
  class while another listener is connected, and what a DISCONNECT_TX of an unknown listener does.
\<close>

section \<open>The parts of a connection\<close>

lemma upd_core_simps [simp]:
  "core (upd_core f a) = f (core a)" "own_entity_id (upd_core f a) = own_entity_id a"
  "acmp_sent (upd_core f a) = acmp_sent a" "persist_log (upd_core f a) = persist_log a"
  "inflight_commands (upd_core f a) = inflight_commands a" "acmp_seq_id (upd_core f a) = acmp_seq_id a"
  "net_send_ok (upd_core f a) = net_send_ok a" "wall_clock (upd_core f a) = wall_clock a"
  "entity_acquired (upd_core f a) = entity_acquired a" "acquired_by (upd_core f a) = acquired_by a"
  "entity_locked (upd_core f a) = entity_locked a" "locked_by (upd_core f a) = locked_by a"
  "config_listener (upd_core f a) = config_listener a" "crf_rx_active (upd_core f a) = crf_rx_active a"
  "stream_in_active (upd_core f a) = stream_in_active a" "stream_in_ok (upd_core f a) = stream_in_ok a"
  "known_talkers (upd_core f a) = known_talkers a" "mono_ns (upd_core f a) = mono_ns a"
  by (simp_all add: upd_core_def)

lemma persist_simps [simp]:
  "core (persist_append i n a) = core a" "acmp_sent (persist_append i n a) = acmp_sent a"
  "own_entity_id (persist_append i n a) = own_entity_id a"
  "inflight_commands (persist_append i n a) = inflight_commands a"
  by (simp_all add: persist_append_def)

lemma send_response_core [simp]:
  "core (avb_send_acmp_response ty r st a) = core a" "own_entity_id (avb_send_acmp_response ty r st a) = own_entity_id a"
  "persist_log (avb_send_acmp_response ty r st a) = persist_log a"
  "inflight_commands (avb_send_acmp_response ty r st a) = inflight_commands a"
  by (simp_all add: avb_send_acmp_response_def acmp_net_send_def Let_def)

lemma find_or_add_fields:
  assumes "find_or_add_talker_listener_by_identity st e u = (r, st')"
  shows "ts_class_b st' = ts_class_b st" "ts_stream_id st' = ts_stream_id st" "ts_vlan_id st' = ts_vlan_id st"
    "ts_stream_dest_addr st' = ts_stream_dest_addr st" "ts_stream_format st' = ts_stream_format st"
    "streaming st' = streaming st"
  using assms by (auto simp: find_or_add_talker_listener_by_identity_def Let_def upd_connected_def
      split: option.splits if_splits)

lemma upd_output_nth:
  "i < length (output_streams s) \<Longrightarrow>
     output_streams (upd_output k f s) ! i = (if k = i then f (output_streams s ! i) else output_streams s ! i)"
  "length (output_streams (upd_output k f s)) = length (output_streams s)"
  by (simp_all add: upd_output_def nth_upd_at)

text \<open>Stream \<open>uid\<close> becomes \<open>t\<close>, up to what declaring and starting keep; the others are kept.\<close>

definition becomes :: "nat \<Rightarrow> avb_talker_stream_s \<Rightarrow> avb_state \<Rightarrow> avb_state \<Rightarrow> bool" where
  "becomes uid t s s' \<longleftrightarrow> length (output_streams s') = length (output_streams s)
     \<and> stream_kept t (output_streams s' ! uid)
     \<and> (\<forall>i < length (output_streams s). i \<noteq> uid \<longrightarrow> stream_kept (output_streams s ! i) (output_streams s' ! i))"

lemma becomes_upd:
  assumes "uid < length (output_streams s)" and "f (output_streams s ! uid) = t"
  shows "becomes uid t s (upd_output uid f s)"
  using assms by (simp add: becomes_def upd_output_nth)

lemma becomes_kept:
  assumes "uid < length (output_streams s)" and "becomes uid t s s'" and "streams_kept s' s''"
  shows "becomes uid t s s''"
  using assms unfolding becomes_def streams_kept_def by (metis stream_kept_trans)

lemma becomes_set_class:
  assumes "uid < length (output_streams s)" and "becomes uid t s s'" and "ts_class_b t \<noteq> c"
  shows "\<exists>v. becomes uid (t\<lparr> ts_class_b := c, ts_vlan_id := v \<rparr>) s (avb_output_stream_set_class uid c s')"
proof -
  let ?t = "output_streams s' ! uid"
  obtain v where s'': "output_streams (avb_output_stream_set_class uid c s')
      = upd_at uid (\<lambda>t. t\<lparr> ts_class_b := c, ts_vlan_id := v \<rparr>) (output_streams s')"
  proof -
    let ?m = "if c then 1 else 0 :: nat"
    have "output_streams (avb_output_stream_set_class uid c s')
      = upd_at uid (\<lambda>t. t\<lparr> ts_class_b := c, ts_vlan_id :=
          (if ?m < length (msrp_mappings s') then map_vlan_id (msrp_mappings s' ! ?m)
           else ts_vlan_id (output_streams s' ! uid)) \<rparr>) (output_streams s')"
      by (simp add: avb_output_stream_set_class_def Let_def upd_output_def upd_at_def)
    then show ?thesis by (rule that)
  qed
  have k: "stream_kept t ?t" "length (output_streams s') = length (output_streams s)"
    using assms(2) by (simp_all add: becomes_def)
  have "rows_ok (t\<lparr> ts_class_b := c, ts_vlan_id := v \<rparr>) = rows_ok t"
    "acmp_listeners (t\<lparr> ts_class_b := c, ts_vlan_id := v \<rparr>) = acmp_listeners t"
    "rows_ok (?t\<lparr> ts_class_b := c, ts_vlan_id := v \<rparr>) = rows_ok ?t"
    "acmp_listeners (?t\<lparr> ts_class_b := c, ts_vlan_id := v \<rparr>) = acmp_listeners ?t"
    by (rule rows_only; simp)+
  then have "stream_kept (t\<lparr> ts_class_b := c, ts_vlan_id := v \<rparr>) (?t\<lparr> ts_class_b := c, ts_vlan_id := v \<rparr>)"
    using k(1) by (simp add: stream_kept_def)
  then have "becomes uid (t\<lparr> ts_class_b := c, ts_vlan_id := v \<rparr>) s (avb_output_stream_set_class uid c s')"
    using assms(1,2) k(2) by (auto simp: becomes_def s'' nth_upd_at)
  then show ?thesis by blast
qed

lemma connect_tx_row_cases:
  fixes a :: atdecc_state and m :: acmp_message_s
  assumes uid: "avb_valid_talker_uid a uid" and ok: "rows_ok (output_stream a uid)"
  defines "x \<equiv> (listener_entity_id m, msg_listener_uid m)" and "st \<equiv> output_stream a uid"
  shows "case connect_tx_row uid m a of
      None \<Rightarrow> connected_count st = AVB_MAX_NUM_CONNECTED_LISTENERS \<and> x \<notin> acmp_listeners st
    | Some b \<Rightarrow> \<exists>t. becomes uid t (core a) (core b) \<and> rows_ok t \<and> acmp_listeners t = insert x (acmp_listeners st)
        \<and> ts_class_b t = connect_tx_class a st (find_talker_listener_by_identity st (listener_entity_id m) (msg_listener_uid m)) m
        \<and> ts_stream_id t = ts_stream_id st \<and> ts_stream_dest_addr t = ts_stream_dest_addr st
        \<and> own_entity_id b = own_entity_id a \<and> acmp_sent b = acmp_sent a \<and> inflight_commands b = inflight_commands a"
proof -
  let ?c = "connect_tx_class a st (find_talker_listener_by_identity st (listener_entity_id m) (msg_listener_uid m)) m"
  obtain r st1 where fa: "find_or_add_talker_listener_by_identity st (listener_entity_id m) (msg_listener_uid m) = (r, st1)"
    by (rule prod.exhaust)
  note spec = find_or_add [OF ok [folded st_def] fa] and fields = find_or_add_fields [OF fa]
  have l: "uid < length (output_streams (core a))" using uid by (simp add: avb_valid_talker_uid_def)
  show ?thesis
  proof (cases r)
    case None
    then have "connect_tx_row uid m a = None" using fa by (simp add: connect_tx_row_def Let_def st_def)
    then show ?thesis using spec None by (simp add: x_def)
  next
    case (Some idx)
    define g where "g = (\<lambda>c :: connected_listener_s. c\<lparr> acmp_connected := True, asking_failed := False, last_seen_us := now_us (core a) \<rparr>)"
    define t where "t = upd_connected idx g st1"
    have named: "named_row st x idx st1" using spec Some by (simp add: x_def)
    have "rows_ok t" "acmp_listeners t = insert x (acmp_listeners st)"
      using connect_named [OF ok [folded st_def] named, of g] by (simp_all add: t_def g_def identity_def)
    note t = this
    define s1 where "s1 = upd_output uid (\<lambda>_. t) (core a)"
    have b1: "becomes uid t (core a) s1" unfolding s1_def by (rule becomes_upd [OF l]) simp
    define a2 where "a2 = (if ts_class_b t \<noteq> ?c
        then upd_core (avb_output_stream_declare_now uid (Some idx))
               (persist_append False uid (upd_core (avb_output_stream_set_class uid ?c) (upd_core (\<lambda>_. s1) a)))
        else upd_core (\<lambda>_. s1) a)"
    obtain v where b2: "becomes uid (t\<lparr> ts_class_b := ?c, ts_vlan_id := v \<rparr>) (core a) (core a2)"
    proof (cases "ts_class_b t \<noteq> ?c")
      case True
      from becomes_set_class [OF l b1 True] obtain v where
        "becomes uid (t\<lparr> ts_class_b := ?c, ts_vlan_id := v \<rparr>) (core a) (avb_output_stream_set_class uid ?c s1)" by blast
      from becomes_kept [OF l this declare_now_kept] True show ?thesis by (intro that) (simp add: a2_def)
    next
      case False
      then have eq: "t\<lparr> ts_class_b := ?c, ts_vlan_id := ts_vlan_id t \<rparr> = t" by simp
      have "becomes uid (t\<lparr> ts_class_b := ?c, ts_vlan_id := ts_vlan_id t \<rparr>) (core a) (core a2)"
        unfolding eq using b1 False by (simp add: a2_def)
      then show ?thesis by (rule that)
    qed
    have e: "connect_tx_row uid m a = Some (if msrp_ready (connected_listeners (output_stream a2 uid) ! idx)
        \<and> \<not> streaming (output_stream a2 uid) \<and> \<not> avb_lite (core a2)
        then upd_core (avb_start_stream_out uid) a2 else a2)"
      using fa Some by (simp add: connect_tx_row_def Let_def st_def [symmetric] a2_def s1_def t_def g_def upd_core_def cong: if_cong)
    have "becomes uid (t\<lparr> ts_class_b := ?c, ts_vlan_id := v \<rparr>) (core a) (core (the (connect_tx_row uid m a)))"
      using becomes_kept [OF l b2 start_kept] b2 by (simp add: e)
    moreover have "rows_ok (t\<lparr> ts_class_b := ?c, ts_vlan_id := v \<rparr>) = rows_ok t"
      "acmp_listeners (t\<lparr> ts_class_b := ?c, ts_vlan_id := v \<rparr>) = acmp_listeners t"
      by (rule rows_only; simp)+
    moreover have "own_entity_id a2 = own_entity_id a" "acmp_sent a2 = acmp_sent a" "inflight_commands a2 = inflight_commands a"
      by (simp_all add: a2_def)
    moreover have "ts_stream_id t = ts_stream_id st" "ts_stream_dest_addr t = ts_stream_dest_addr st"
      using fields by (simp_all add: t_def)
    ultimately show ?thesis using t unfolding e option.case option.sel
      by (intro exI [of _ "t\<lparr> ts_class_b := ?c, ts_vlan_id := v \<rparr>"]) simp
  qed
qed

text \<open>The row a DISCONNECT_TX removes.\<close>

definition disconnect_row :: "avb_talker_stream_s \<Rightarrow> octets \<Rightarrow> octets \<Rightarrow> nat option" where
  "disconnect_row st e u = (case find_talker_listener_by_identity st e u of
     Some i \<Rightarrow> Some i | None \<Rightarrow> find_talker_listener_by_entity st e)"

lemma disconnect_row_bound: "\<lbrakk>rows_fit st; disconnect_row st e u = Some i\<rbrakk> \<Longrightarrow> i < connected_count st"
  using fit_rows [of st] by (auto simp: disconnect_row_def find_talker_listener_by_identity_def
      find_talker_listener_by_entity_def split: option.splits dest!: first_index_SomeD(1))

lemma disconnect_tx_row_becomes:
  fixes a :: atdecc_state and m :: acmp_message_s
  assumes uid: "avb_valid_talker_uid a uid"
  defines "st \<equiv> output_stream a uid"
  defines "t \<equiv> (case disconnect_row st (listener_entity_id m) (msg_listener_uid m) of
      None \<Rightarrow> st | Some i \<Rightarrow> avb_remove_talker_listener_by_index i st)"
  shows "becomes uid t (core a) (core (disconnect_tx_row uid m a))"
    and "own_entity_id (disconnect_tx_row uid m a) = own_entity_id a"
    and "acmp_sent (disconnect_tx_row uid m a) = acmp_sent a"
    and "inflight_commands (disconnect_tx_row uid m a) = inflight_commands a"
    and "persist_log (disconnect_tx_row uid m a) = persist_log a"
proof -
  have l: "uid < length (output_streams (core a))" using uid by (simp add: avb_valid_talker_uid_def)
  define a1 where "a1 = (case disconnect_row st (listener_entity_id m) (msg_listener_uid m) of
      None \<Rightarrow> a | Some i \<Rightarrow> upd_core (upd_output uid (avb_remove_talker_listener_by_index i)) a)"
  have b: "becomes uid t (core a) (core a1)"
  proof (cases "disconnect_row st (listener_entity_id m) (msg_listener_uid m)")
    case None
    then show ?thesis by (simp add: a1_def t_def st_def becomes_def)
  next
    case (Some i)
    then show ?thesis using becomes_upd [OF l, of "avb_remove_talker_listener_by_index i"]
      by (simp add: a1_def t_def st_def)
  qed
  have e: "disconnect_tx_row uid m a = (if streaming (output_stream a1 uid) \<and> connected_count (output_stream a1 uid) = 0
      then upd_core (avb_stop_stream_out uid) a1 else a1)"
    by (simp add: disconnect_tx_row_def Let_def a1_def disconnect_row_def st_def)
  show "becomes uid t (core a) (core (disconnect_tx_row uid m a))"
    using becomes_kept [OF l b stop_kept] b by (simp add: e)
  show "own_entity_id (disconnect_tx_row uid m a) = own_entity_id a"
    "acmp_sent (disconnect_tx_row uid m a) = acmp_sent a"
    "inflight_commands (disconnect_tx_row uid m a) = inflight_commands a"
    "persist_log (disconnect_tx_row uid m a) = persist_log a"
    by (simp_all add: e a1_def split: option.split)
qed

lemma connected_first:
  assumes "rows_ok st" and "(e, u) \<in> acmp_listeners st"
  obtains i where "disconnect_row st e u = Some i" "acmp_row st i" "identity (connected_listeners st ! i) = (e, u)"
    "find_talker_listener_by_identity st e u = Some i"
proof -
  have n: "listener_rows st = connected_count st" using assms(1) by (simp add: rows_ok_def fit_rows)
  obtain i where i: "acmp_row st i" "identity (connected_listeners st ! i) = (e, u)"
    using assms(2) by (auto simp: acmp_listeners_def)
  have "find_talker_listener_by_identity st e u = Some i"
    unfolding find_talker_listener_by_identity_def
  proof (rule first_index_SomeI)
    show "i < listener_rows st" using i n by (simp add: acmp_row_def)
    show "cl_identity_id (connected_listeners st ! i) = e \<and> cl_identity_uid (connected_listeners st ! i) = u"
      using i(2) by (simp add: identity_def)
    show "\<not> (cl_identity_id (connected_listeners st ! j) = e \<and> cl_identity_uid (connected_listeners st ! j) = u)"
      if "j < i" for j using assms(1) i that by (force simp: rows_ok_def identity_def)
  qed
  with i show ?thesis by (intro that) (simp_all add: disconnect_row_def)
qed

lemma disconnect_listeners:
  assumes "rows_ok st" and "disconnect_row st e u = Some i"
  shows "acmp_listeners (avb_remove_talker_listener_by_index i st)
    = acmp_listeners st - (if acmp_row st i then {identity (connected_listeners st ! i)} else {})"
proof -
  have fit: "rows_fit st" using assms(1) by (simp add: rows_ok_def)
  note L = remove_listeners [OF fit disconnect_row_bound [OF fit assms(2)]]
  have "j = i" if "acmp_row st i" "acmp_row st j"
    "identity (connected_listeners st ! j) = identity (connected_listeners st ! i)" for j
    using rows_ok_unique [OF assms(1) that(2,1,3)] .
  then show ?thesis unfolding L by (auto simp: acmp_listeners_def)
qed

text \<open>The count the talker reports.\<close>

lemma foreach_count: "foreach n (\<lambda>i k. if P i then k + 1 else k) (0 :: nat) = card {i. i < n \<and> P i}"
proof (induction n)
  case (Suc n)
  have "{i. i < Suc n \<and> P i} = (if P n then insert n {i. i < n \<and> P i} else {i. i < n \<and> P i})"
    by (auto simp: less_Suc_eq)
  then show ?case using Suc by (simp add: foreach_Suc)
qed simp

lemma count_listeners:
  assumes "rows_ok st"
  shows "count_acmp_connected_talker_listeners st = card (acmp_listeners st)"
proof -
  have n: "listener_rows st = connected_count st" using assms by (simp add: rows_ok_def fit_rows)
  have "acmp_listeners st = (\<lambda>i. identity (connected_listeners st ! i)) ` {i. i < connected_count st \<and> acmp_connected (connected_listeners st ! i)}"
    by (auto simp: acmp_listeners_def acmp_row_def)
  moreover have "inj_on (\<lambda>i. identity (connected_listeners st ! i)) {i. i < connected_count st \<and> acmp_connected (connected_listeners st ! i)}"
    using rows_ok_unique [OF assms] by (auto simp: inj_on_def acmp_row_def)
  ultimately show ?thesis
    unfolding count_acmp_connected_talker_listeners_def n foreach_count by (simp add: card_image)
qed

section \<open>The set of listeners\<close>

definition streams_ok :: "atdecc_state \<Rightarrow> bool" where
  "streams_ok a \<longleftrightarrow> (\<forall>i < length (output_streams (core a)). rows_ok (output_stream a i))"

abbreviation stream_listeners :: "atdecc_state \<Rightarrow> nat \<Rightarrow> (octets \<times> octets) set" where
  "stream_listeners a i \<equiv> acmp_listeners (output_stream a i)"

lemma becomes_ok:
  assumes "streams_ok a" and "becomes uid t (core a) (core b)" and "rows_ok t" and "avb_valid_talker_uid a uid"
  shows "streams_ok b" and "stream_listeners b uid = acmp_listeners t"
    and "\<lbrakk>i < length (output_streams (core a)); i \<noteq> uid\<rbrakk> \<Longrightarrow> stream_listeners b i = stream_listeners a i"
    and "rows_ok (output_stream b uid)"
  using assms by (auto simp: streams_ok_def becomes_def stream_kept_def avb_valid_talker_uid_def)

text \<open>C8. The rows of an output stream implement a set of at most ten listeners.  A CONNECT_TX of a
  controller that is not locked out inserts the listener, and is refused only when the set has no
  room; a DISCONNECT_TX of a connected listener deletes it; the other streams keep theirs; and the
  response counts the members.  Compaction, adoption of rows known from MSRP and the move to a new
  stream ID do not show.\<close>

theorem talker_rows_are_a_set:
  fixes a :: atdecc_state and m :: acmp_message_s and disconnect :: bool
  assumes "streams_ok a" and "avb_valid_talker_uid a uid" and "unat (octets_u16 (msg_talker_uid m)) = uid"
    and "\<not> avb_acquired_or_locked_by_other a (controller_entity_id m)"
  defines "b \<equiv> avb_process_acmp_connect_tx_command m disconnect a"
    and "x \<equiv> (listener_entity_id m, msg_listener_uid m)"
  shows "streams_ok b
    \<and> (\<forall>i < length (output_streams (core a)). i \<noteq> uid \<longrightarrow> stream_listeners b i = stream_listeners a i)
    \<and> (if status_valtime (fst (last (acmp_sent b))) = acmp_status_success
       then msg_connection_count (fst (last (acmp_sent b))) = u16_octets (of_nat (card (stream_listeners b uid)))
         \<and> (if disconnect then x \<in> stream_listeners a uid \<longrightarrow> stream_listeners b uid = stream_listeners a uid - {x}
            else stream_listeners b uid = insert x (stream_listeners a uid))
       else \<not> disconnect \<and> core b = core a \<and> x \<notin> stream_listeners a uid
         \<and> connected_count (output_stream a uid) = AVB_MAX_NUM_CONNECTED_LISTENERS)"
proof -
  let ?st = "output_stream a uid"
  let ?ty = "if disconnect then acmp_msg_type_disconnect_tx_response else acmp_msg_type_connect_tx_response"
  let ?o = "if disconnect then Some (disconnect_tx_row uid m a) else connect_tx_row uid m a"
  have ok: "rows_ok ?st" using assms(1,2) by (simp add: streams_ok_def avb_valid_talker_uid_def)
  have b: "b = (case ?o of None \<Rightarrow> avb_send_acmp_response ?ty m acmp_status_talker_exclusive a
      | Some c \<Rightarrow> avb_send_acmp_response ?ty (connect_tx_answer (output_stream c uid) m) acmp_status_success c)"
    using assms(2-4) by (simp add: b_def avb_process_acmp_connect_tx_command_def Let_def)
  have sent: "status_valtime (fst (last (acmp_sent (avb_send_acmp_response ty r s c)))) = s"
    "msg_connection_count (fst (last (acmp_sent (avb_send_acmp_response ty r s c)))) = msg_connection_count r" for ty r s c
    by (simp_all add: avb_send_acmp_response_def acmp_net_send_def Let_def)
  have core: "streams_ok (avb_send_acmp_response ty r s c) = streams_ok c" for ty r s c by (simp add: streams_ok_def)
  have finish: ?thesis if o: "?o = Some c" and bec: "becomes uid t (core a) (core c)" and t: "rows_ok t"
    and L: "if disconnect then x \<in> acmp_listeners ?st \<longrightarrow> acmp_listeners t = acmp_listeners ?st - {x}
            else acmp_listeners t = insert x (acmp_listeners ?st)" for c t
    using becomes_ok [OF assms(1) bec t assms(2)] L count_listeners [of "output_stream c uid"]
    unfolding b o option.case by (simp add: sent core connect_tx_answer_def Let_def)
  show ?thesis
  proof (cases disconnect)
    case True
    note bec = disconnect_tx_row_becomes(1) [OF assms(2), of m]
    show ?thesis
    proof (cases "disconnect_row ?st (listener_entity_id m) (msg_listener_uid m)")
      case None
      have "x \<notin> acmp_listeners ?st" using connected_first [OF ok] None by (metis option.distinct(1) x_def)
      then show ?thesis using bec None ok True by (intro finish [of "disconnect_tx_row uid m a" ?st]) simp_all
    next
      case (Some i)
      have "acmp_listeners (avb_remove_talker_listener_by_index i ?st) = acmp_listeners ?st - {x}" if "x \<in> acmp_listeners ?st"
      proof -
        from connected_first [OF ok that [unfolded x_def]] obtain k where
          "disconnect_row ?st (listener_entity_id m) (msg_listener_uid m) = Some k" "acmp_row ?st k"
          "identity (connected_listeners ?st ! k) = x" unfolding x_def by blast
        then show ?thesis using disconnect_listeners [OF ok Some] Some by simp
      qed
      then show ?thesis using bec Some remove_ok [OF ok] True
        by (intro finish [of "disconnect_tx_row uid m a" "avb_remove_talker_listener_by_index i ?st"]) simp_all
    qed
  next
    case False
    note row = connect_tx_row_cases [OF assms(2) ok, of m, folded x_def]
    show ?thesis
    proof (cases "connect_tx_row uid m a")
      case None
      then show ?thesis using row False assms(1) by (simp add: b sent core acmp_status_talker_exclusive_def acmp_status_success_def)
    next
      case (Some c)
      then obtain t where "becomes uid t (core a) (core c)" "rows_ok t" "acmp_listeners t = insert x (acmp_listeners ?st)"
        using row by auto
      then show ?thesis using Some False by (intro finish [of c t]) simp_all
    qed
  qed
qed

text \<open>A talker with one output stream and the given rows, and a message to it.\<close>

definition atdecc_zero :: "avb_state \<Rightarrow> atdecc_state" where
  "atdecc_zero s = \<lparr> core = s, config_listener = True, own_entity_id = replicate 8 7,
     entity_acquired = False, acquired_by = zeros 8, entity_locked = False, locked_by = zeros 8,
     known_talkers = [], acmp_seq_id = 0, inflight_commands = [],
     wall_clock = \<lparr> tv_sec = 0, tv_usec = 0 \<rparr>, mono_ns = 0, stream_in_active = False,
     crf_rx_active = False, stream_in_ok = (\<lambda>_. True),
     s_recent = replicate ACMP_RECENT_COUNT (acmp_message_zero, 0), s_next_recent = 0,
     net_send_ok = (\<lambda>_. True), acmp_sent = [], persist_log = [] \<rparr>"

definition talker_node :: "connected_listener_s list \<Rightarrow> atdecc_state" where
  "talker_node rows = atdecc_zero ((state_zero end_station)\<lparr> output_streams :=
     [talker_stream_zero\<lparr> ts_stream_id := replicate 8 5,
        connection_count := u16_octets (of_nat (length rows)),
        connected_listeners := rows @ replicate (10 - length rows) connected_listener_zero \<rparr>] \<rparr>)"

definition connected_as :: "octets \<Rightarrow> octets \<Rightarrow> connected_listener_s" where
  "connected_as e u = connected_listener_zero\<lparr> cl_identity_id := e, cl_identity_uid := u, acmp_connected := True \<rparr>"

definition from_listener :: "octets \<Rightarrow> octets \<Rightarrow> u16 \<Rightarrow> acmp_message_s" where
  "from_listener e u flags = acmp_message_zero\<lparr> talker_entity_id := replicate 8 7,
     listener_entity_id := e, msg_listener_uid := u, msg_flags := u16_octets flags \<rparr>"

lemma talker_node_simps [simp]:
  "length (output_streams (core (talker_node rows))) = 1"
  "connected_listeners (output_stream (talker_node rows) 0) = rows @ replicate (10 - length rows) connected_listener_zero"
  "length rows \<le> 10 \<Longrightarrow> connected_count (output_stream (talker_node rows) 0) = length rows"
  "ts_class_b (output_stream (talker_node rows) 0) = False"
  "avb_valid_talker_uid (talker_node rows) 0" "\<not> avb_acquired_or_locked_by_other (talker_node rows) e"
  by (simp_all add: talker_node_def atdecc_zero_def talker_stream_zero_def connected_count_u16 unat_of_nat
      avb_valid_talker_uid_def avb_acquired_or_locked_by_other_def)

lemma from_listener_simps [simp]:
  "listener_entity_id (from_listener e u f) = e" "msg_listener_uid (from_listener e u f) = u"
  "octets_u16 (msg_talker_uid (from_listener e u f)) = 0" "msg_flags (from_listener e u f) = u16_octets f"
proof -
  have "octets_u16 (zeros 2) = 0" by (simp add: octets_u16_def) code_simp
  then show "octets_u16 (msg_talker_uid (from_listener e u f)) = 0"
    by (simp add: from_listener_def acmp_message_zero_def)
qed (simp_all add: from_listener_def)

lemma talker_node_ok: "length rows \<le> 1 \<Longrightarrow> streams_ok (talker_node rows)"
  by (auto simp: streams_ok_def rows_ok_def rows_fit_def acmp_row_def AVB_MAX_NUM_CONNECTED_LISTENERS_def)

theorem talker_rows_are_a_set_witness:
  "stream_listeners (avb_process_acmp_connect_tx_command (from_listener (replicate 8 1) [0, 1] 0) False
      (talker_node [])) 0 = {(replicate 8 1, [0, 1])}"
  using talker_rows_are_a_set [of "talker_node []" 0 "from_listener (replicate 8 1) [0, 1] 0" False]
  by (simp add: talker_node_ok acmp_listeners_def acmp_row_def AVB_MAX_NUM_CONNECTED_LISTENERS_def split: if_splits)

section \<open>The class of a stream\<close>

lemma class_others:
  assumes "rows_ok st" and "y \<in> acmp_listeners st" and "y \<noteq> (e, u)"
  shows "connect_tx_class a st (find_talker_listener_by_identity st e u) m = ts_class_b st"
proof -
  have n: "listener_rows st = connected_count st" using assms(1) by (simp add: rows_ok_def fit_rows)
  obtain i where i: "acmp_row st i" "identity (connected_listeners st ! i) = y"
    using assms(2) by (auto simp: acmp_listeners_def)
  have "Some i \<noteq> find_talker_listener_by_identity st e u"
  proof
    assume "Some i = find_talker_listener_by_identity st e u"
    then have "first_index (\<lambda>i. cl_identity_id (connected_listeners st ! i) = e
        \<and> cl_identity_uid (connected_listeners st ! i) = u) (listener_rows st) = Some i"
      by (simp add: find_talker_listener_by_identity_def)
    from first_index_SomeD(2) [OF this] i(2) assms(3) show False by (simp add: identity_def)
  qed
  then have "i \<in> {i. i < listener_rows st \<and> acmp_connected (connected_listeners st ! i)
      \<and> Some i \<noteq> find_talker_listener_by_identity st e u}"
    using i(1) n by (simp add: acmp_row_def)
  moreover have "finite {i. i < listener_rows st \<and> acmp_connected (connected_listeners st ! i)
      \<and> Some i \<noteq> find_talker_listener_by_identity st e u}" by simp
  ultimately have "card {i. i < listener_rows st \<and> acmp_connected (connected_listeners st ! i)
      \<and> Some i \<noteq> find_talker_listener_by_identity st e u} > 0" by (metis card_gt_0_iff empty_iff)
  then show ?thesis unfolding connect_tx_class_def Let_def foreach_count by simp
qed

lemma class_bit: "(v OR 1) AND 1 \<noteq> (0 :: u16)" "(v AND NOT 1) AND 1 = (0 :: u16)"
proof -
  have "(v OR 1) AND 1 = (1 :: u16)" "(v AND NOT 1) AND 1 = (0 :: u16)"
    by (rule bit_word_eqI; auto simp: bit_simps)+
  then show "(v OR 1) AND 1 \<noteq> (0 :: u16)" "(v AND NOT 1) AND 1 = (0 :: u16)" by simp_all
qed



section \<open>A listener that was not named\<close>

text \<open>C37. A DISCONNECT_TX for an input the talker does not list disconnects another input of the same
  entity: without a row of the identity the first row of the entity goes, connected or not.\<close>

theorem disconnect_drops_other:
  fixes a :: atdecc_state and m :: acmp_message_s
  assumes "streams_ok a" and "avb_valid_talker_uid a uid" and "unat (octets_u16 (msg_talker_uid m)) = uid"
    and "\<not> avb_acquired_or_locked_by_other a (controller_entity_id m)"
    and "find_talker_listener_by_identity (output_stream a uid) (listener_entity_id m) (msg_listener_uid m) = None"
    and "find_talker_listener_by_entity (output_stream a uid) (listener_entity_id m) = Some i"
    and "acmp_row (output_stream a uid) i"
  defines "victim \<equiv> identity (connected_listeners (output_stream a uid) ! i)"
  shows "victim \<in> stream_listeners a uid \<and> snd victim \<noteq> msg_listener_uid m \<and> fst victim = listener_entity_id m
    \<and> stream_listeners (avb_process_acmp_connect_tx_command m True a) uid = stream_listeners a uid - {victim}"
proof -
  let ?st = "output_stream a uid"
  have ok: "rows_ok ?st" using assms(1,2) by (simp add: streams_ok_def avb_valid_talker_uid_def)
  have d: "disconnect_row ?st (listener_entity_id m) (msg_listener_uid m) = Some i"
    using assms(5,6) by (simp add: disconnect_row_def)
  have v: "victim \<in> stream_listeners a uid" using assms(7) by (auto simp: acmp_listeners_def victim_def)
  have f: "fst victim = listener_entity_id m"
    using assms(6) by (auto simp: victim_def identity_def find_talker_listener_by_entity_def dest: first_index_SomeD)
  have u: "snd victim \<noteq> msg_listener_uid m"
  proof
    assume "snd victim = msg_listener_uid m"
    with f v have "(listener_entity_id m, msg_listener_uid m) \<in> acmp_listeners ?st" by (metis prod.collapse)
    from connected_first [OF ok this] assms(5) show False by auto
  qed
  have "becomes uid (avb_remove_talker_listener_by_index i ?st) (core a) (core (disconnect_tx_row uid m a))"
    using disconnect_tx_row_becomes(1) [OF assms(2), of m] d by simp
  from becomes_ok(2) [OF assms(1) this remove_ok [OF ok] assms(2)] disconnect_listeners [OF ok d] assms(7)
  have "stream_listeners (disconnect_tx_row uid m a) uid = stream_listeners a uid - {victim}"
    by (simp add: victim_def)
  then show ?thesis using v f u assms(2-4) by (simp add: avb_process_acmp_connect_tx_command_def Let_def)
qed

theorem disconnect_drops_other_witness:
  "stream_listeners (avb_process_acmp_connect_tx_command (from_listener (replicate 8 1) [0, 1] 0) True
      (talker_node [connected_as (replicate 8 1) [0, 0]])) 0 = {}"
proof -
  let ?a = "talker_node [connected_as (replicate 8 1) [0, 0]]"
  have row: "connected_listeners (output_stream ?a 0) ! 0 = connected_as (replicate 8 1) [0, 0]" by simp
  have "acmp_row (output_stream ?a 0) i \<longleftrightarrow> i = 0" for i by (auto simp: acmp_row_def connected_as_def)
  note acmp = this
  have "find_talker_listener_by_identity (output_stream ?a 0) (replicate 8 1) [0, 1] = None"
    "find_talker_listener_by_entity (output_stream ?a 0) (replicate 8 1) = Some 0"
    by (auto simp: find_talker_listener_by_identity_def find_talker_listener_by_entity_def listener_rows_def
        AVB_MAX_NUM_CONNECTED_LISTENERS_def first_index_def connected_as_def)
  moreover have "stream_listeners ?a 0 = {identity (connected_as (replicate 8 1) [0, 0])}"
    unfolding acmp_listeners_def acmp using row by auto
  ultimately show ?thesis
    using disconnect_drops_other [of ?a 0 "from_listener (replicate 8 1) [0, 1] 0" 0] acmp row
    by (simp add: talker_node_ok)
qed

end
