(* ===== verification/Acmp_Connect.thy ===== *)
theory Acmp_Connect
  imports Acmp_Talker
begin

text \<open>
  ACMP between a controller, a listener and a talker: a connection made by CONNECT_RX, the answers to
  commands, and the response no one checks.
\<close>

section \<open>What the steps leave alone\<close>

lemma upd_input_nth:
  "i < length (input_streams s) \<Longrightarrow>
     input_streams (upd_input k f s) ! i = (if k = i then f (input_streams s ! i) else input_streams s ! i)"
  "length (input_streams (upd_input k f s)) = length (input_streams s)"
  by (simp_all add: upd_input_def nth_upd_at)

lemma upd_input_fields [simp]:
  "output_streams (upd_input k f s) = output_streams s" "build (upd_input k f s) = build s"
  "msrp_mappings (upd_input k f s) = msrp_mappings s"
  by (simp_all add: upd_input_def)

lemma stream_in_frame [simp]:
  "acmp_sent (avb_start_stream_in i a) = acmp_sent a" "inflight_commands (avb_start_stream_in i a) = inflight_commands a"
  "own_entity_id (avb_start_stream_in i a) = own_entity_id a" "output_streams (core (avb_start_stream_in i a)) = output_streams (core a)"
  "length (input_streams (core (avb_start_stream_in i a))) = length (input_streams (core a))"
  "acmp_sent (avb_stop_stream_in i a) = acmp_sent a" "inflight_commands (avb_stop_stream_in i a) = inflight_commands a"
  "own_entity_id (avb_stop_stream_in i a) = own_entity_id a" "output_streams (core (avb_stop_stream_in i a)) = output_streams (core a)"
  "length (input_streams (core (avb_stop_stream_in i a))) = length (input_streams (core a))"
  by (simp_all add: avb_start_stream_in_def avb_start_stream_in_crf_def avb_stop_stream_in_def avb_stop_stream_in_crf_def
      upd_input_nth)

lemma start_stream_in_keeps:
  assumes "i < length (input_streams (core a))" and "ls_connected (input_stream a i)"
  shows "input_stream (avb_start_stream_in k a) i = input_stream a i"
  using assms by (simp add: avb_start_stream_in_def avb_start_stream_in_crf_def upd_input_nth)

lemma remove_inflight_frame [simp]:
  "core (avb_remove_inflight_command s i a) = core a" "acmp_sent (avb_remove_inflight_command s i a) = acmp_sent a"
  "own_entity_id (avb_remove_inflight_command s i a) = own_entity_id a"
  by (simp_all add: avb_remove_inflight_command_def split: option.split)

lemma add_inflight_frame [simp]:
  "core (avb_add_inflight_command c i a) = core a" "acmp_sent (avb_add_inflight_command c i a) = acmp_sent a"
  "own_entity_id (avb_add_inflight_command c i a) = own_entity_id a"
  "acmp_seq_id (avb_add_inflight_command c i a) = acmp_seq_id a"
  "persist_log (avb_add_inflight_command c i a) = persist_log a"
  by (simp_all add: avb_add_inflight_command_def)

lemma send_command:
  assumes "avb_send_acmp_command ty c track a = (ok, b)"
  shows "core b = core a" "own_entity_id b = own_entity_id a"
    and "acmp_sent b = acmp_sent a @ [(c\<lparr> msg_type := ty, msg_sv := False, msg_version := 0, status_valtime := 0,
      control_data_len_h := 0, control_data_len := 84, msg_seq_id := u16_octets (acmp_seq_id a + 1) \<rparr>, 96)]"
    and "inflight_commands b = (if track then inflight_commands (avb_add_inflight_command
      (c\<lparr> msg_type := ty, msg_sv := False, msg_version := 0, status_valtime := 0,
         control_data_len_h := 0, control_data_len := 84, msg_seq_id := u16_octets (acmp_seq_id a + 1) \<rparr>) False a)
      else inflight_commands a)"
  using assms by (auto simp: avb_send_acmp_command_def acmp_net_send_def Let_def avb_add_inflight_command_def
      avb_find_inflight_command_by_data_def split: if_splits)

lemma send_response:
  "\<exists>x n. acmp_sent (avb_send_acmp_response ty r st a) = acmp_sent a @ [(x, n)]
     \<and> msg_type x = ty \<and> msg_seq_id x = msg_seq_id r \<and> controller_entity_id x = controller_entity_id r"
  by (simp add: avb_send_acmp_response_def acmp_net_send_def Let_def)

section \<open>The response no one checks\<close>

text \<open>A handler accesses memory outside the input streams exactly on a CONNECT_TX_RESPONSE to this
  entity whose listener unique ID is none of its inputs: the other messages are checked.\<close>

theorem acmp_unchecked_input:
  "acmp_dispatch m a = None \<longleftrightarrow>
     msg_type m = acmp_msg_type_connect_tx_response \<and> listener_entity_id m = own_entity_id a
     \<and> \<not> avb_valid_listener_uid a (unat (octets_u16 (msg_listener_uid m)))"
  by (cases "msg_type m") (auto simp: acmp_dispatch_def avb_process_acmp_connect_tx_response_def Let_def
      split: prod.split)

section \<open>Answers\<close>

primrec acmp_response_type :: "acmp_msg_type_t \<Rightarrow> acmp_msg_type_t option" where
  "acmp_response_type acmp_msg_type_connect_tx_command = Some acmp_msg_type_connect_tx_response"
| "acmp_response_type acmp_msg_type_connect_tx_response = None"
| "acmp_response_type acmp_msg_type_disconnect_tx_command = Some acmp_msg_type_disconnect_tx_response"
| "acmp_response_type acmp_msg_type_disconnect_tx_response = None"
| "acmp_response_type acmp_msg_type_get_tx_state_command = Some acmp_msg_type_get_tx_state_response"
| "acmp_response_type acmp_msg_type_get_tx_state_response = None"
| "acmp_response_type acmp_msg_type_connect_rx_command = Some acmp_msg_type_connect_rx_response"
| "acmp_response_type acmp_msg_type_connect_rx_response = None"
| "acmp_response_type acmp_msg_type_disconnect_rx_command = Some acmp_msg_type_disconnect_rx_response"
| "acmp_response_type acmp_msg_type_disconnect_rx_response = None"
| "acmp_response_type acmp_msg_type_get_rx_state_command = Some acmp_msg_type_get_rx_state_response"
| "acmp_response_type acmp_msg_type_get_rx_state_response = None"
| "acmp_response_type acmp_msg_type_get_tx_connection_command = Some acmp_msg_type_get_tx_connection_response"
| "acmp_response_type acmp_msg_type_get_tx_connection_response = None"
| "acmp_response_type acmp_msg_type_count = None"

definition answers :: "acmp_message_s \<Rightarrow> acmp_msg_type_t \<Rightarrow> acmp_message_s \<Rightarrow> bool" where
  "answers m ty r \<longleftrightarrow> msg_type r = ty \<and> msg_seq_id r = msg_seq_id m \<and> controller_entity_id r = controller_entity_id m"

definition answered :: "acmp_message_s \<Rightarrow> acmp_msg_type_t \<Rightarrow> atdecc_state \<Rightarrow> atdecc_state \<Rightarrow> bool" where
  "answered m ty a b \<longleftrightarrow> (\<exists>probe r n. acmp_sent b = acmp_sent a @ probe @ [(r, n)] \<and> answers m ty r
     \<and> (probe = [] \<or> (\<exists>c. probe = [(c, 96)] \<and> talker_entity_id c = talker_entity_id m
          \<and> msg_type c \<in> {acmp_msg_type_connect_tx_command, acmp_msg_type_disconnect_tx_command})))"

lemma answeredI:
  assumes "acmp_sent b = acmp_sent a" and "msg_seq_id r = msg_seq_id m"
    and "controller_entity_id r = controller_entity_id m"
  shows "answered m ty a (avb_send_acmp_response ty r st b)"
proof -
  obtain x n where "acmp_sent (avb_send_acmp_response ty r st b) = acmp_sent b @ [(x, n)]"
    "msg_type x = ty" "msg_seq_id x = msg_seq_id r" "controller_entity_id x = controller_entity_id r"
    using send_response by blast
  then show ?thesis unfolding answered_def answers_def using assms
    by (intro exI [of _ "[]"] exI [of _ x] exI [of _ n]) simp
qed

lemma answered_persist [simp]: "answered m ty a (persist_append i n b) = answered m ty a b"
  by (simp add: answered_def)

lemma answered_probe:
  assumes "avb_send_acmp_command pty c track b = (ok, b')" and "acmp_sent b = acmp_sent a"
    and "talker_entity_id c = talker_entity_id m"
    and "pty \<in> {acmp_msg_type_connect_tx_command, acmp_msg_type_disconnect_tx_command}"
  shows "answered m ty a (avb_send_acmp_response ty m st b')"
proof -
  let ?c = "c\<lparr> msg_type := pty, msg_sv := False, msg_version := 0, status_valtime := 0,
      control_data_len_h := 0, control_data_len := 84, msg_seq_id := u16_octets (acmp_seq_id b + 1) \<rparr>"
  obtain x n where x: "acmp_sent (avb_send_acmp_response ty m st b') = acmp_sent b' @ [(x, n)]"
    "msg_type x = ty" "msg_seq_id x = msg_seq_id m" "controller_entity_id x = controller_entity_id m"
    using send_response by blast
  then have "acmp_sent (avb_send_acmp_response ty m st b') = acmp_sent a @ [(?c, 96)] @ [(x, n)]"
    by (simp add: send_command(3) [OF assms(1)] assms(2))
  then show ?thesis unfolding answered_def answers_def using assms(3,4) x(2-4)
    by (intro exI [of _ "[(?c, 96)]"] exI [of _ x] exI [of _ n]) auto
qed

lemma connect_tx_row_sent: "connect_tx_row uid m a = Some b \<Longrightarrow> acmp_sent b = acmp_sent a"
  by (auto simp: connect_tx_row_def Let_def split: option.splits prod.splits if_splits)

lemma disconnect_tx_row_sent: "acmp_sent (disconnect_tx_row uid m a) = acmp_sent a"
  by (simp add: disconnect_tx_row_def Let_def split: option.split)

lemma connect_tx_answered:
  "answered m (if d then acmp_msg_type_disconnect_tx_response else acmp_msg_type_connect_tx_response) a
     (avb_process_acmp_connect_tx_command m d a)"
proof -
  define res where "res = (if d then Some (disconnect_tx_row (unat (octets_u16 (msg_talker_uid m))) m a)
      else connect_tx_row (unat (octets_u16 (msg_talker_uid m))) m a)"
  have s: "res = Some c \<Longrightarrow> acmp_sent c = acmp_sent a" for c
    using connect_tx_row_sent disconnect_tx_row_sent by (auto simp: res_def split: if_splits)
  show ?thesis unfolding avb_process_acmp_connect_tx_command_def Let_def res_def [symmetric]
    by (cases res) (auto intro!: answeredI dest!: s simp: connect_tx_answer_def Let_def)
qed

lemma disconnect_listener_sent: "acmp_sent (snd (avb_disconnect_listener m a)) = acmp_sent a"
  by (simp add: avb_disconnect_listener_def Let_def)

lemma listener_command_answered:
  assumes "avb_send_listener_talker_command m d False b = (ok, b')" and "acmp_sent b = acmp_sent a"
  shows "answered m ty a (avb_send_acmp_response ty m st b')"
  using assms(1) unfolding avb_send_listener_talker_command_def Let_def
  by (rule answered_probe) (use assms(2) in auto)

lemma command_tail_answered:
  assumes "acmp_sent b = acmp_sent a"
  shows "answered m ty a (snd (case avb_send_listener_talker_command m d False b of
    (ok, c) \<Rightarrow> (True, persist_append True i (avb_send_acmp_response ty m (st ok) c))))"
  using listener_command_answered [of m d b _ _ a ty] assms
  by (cases "avb_send_listener_talker_command m d False b") simp

lemma connect_rx_answered:
  "answered m (if d then acmp_msg_type_disconnect_rx_response else acmp_msg_type_connect_rx_response) a
     (snd (avb_process_acmp_connect_rx_command m d False a))"
proof -
  obtain b where d: "avb_disconnect_listener m a = (acmp_status_success, b)" and b: "acmp_sent b = acmp_sent a"
    using disconnect_listener_sent [of m a] by (auto simp: avb_disconnect_listener_def Let_def)
  have refuse: "answered m ty a (avb_send_acmp_response ty m st a)" for ty st by (rule answeredI) simp_all
  show ?thesis
    unfolding avb_process_acmp_connect_rx_command_def Let_def d
    by (cases d) (simp_all add: refuse command_tail_answered b if_distrib [of snd] cong: if_cong)
qed

text \<open>C11. Every command addressed to this entity is answered once, with the response of its type, its
  sequence number and its controller; a CONNECT_RX or DISCONNECT_RX may send one command to the
  named talker before.  A response is never answered.\<close>

theorem acmp_answers_once:
  assumes "acmp_dispatch m a = Some b"
  shows "case acmp_response_type (msg_type m) of
      None \<Rightarrow> acmp_sent b = acmp_sent a
    | Some ty \<Rightarrow> if acmp_target_entity_id m = Some (own_entity_id a) then answered m ty a b else b = a"
proof -
  have tx: "acmp_sent c = acmp_sent a" if "avb_process_acmp_connect_tx_response m d a = Some c" for d c
  proof -
    have acc: "acmp_sent (snd (connect_tx_accept uid m a)) = acmp_sent a" for uid
      by (simp add: connect_tx_accept_def avb_connect_listener_def Let_def)
    show ?thesis using that acc
      by (auto simp: avb_process_acmp_connect_tx_response_def Let_def split: if_splits prod.splits) (metis snd_conv)+
  qed
  have get: "answered m acmp_msg_type_get_rx_state_response a (avb_process_acmp_get_rx_state_command m a)"
    "answered m acmp_msg_type_get_tx_state_response a (avb_process_acmp_get_tx_state_command m a)"
    "answered m acmp_msg_type_get_tx_connection_response a (avb_process_acmp_get_tx_connection_command m a)"
    by (auto simp: avb_process_acmp_get_rx_state_command_def avb_process_acmp_get_tx_state_command_def
        avb_process_acmp_get_tx_connection_command_def Let_def intro!: answeredI split: option.split)
  show ?thesis using assms get tx connect_tx_answered [of m False a] connect_tx_answered [of m True a]
      connect_rx_answered [of m False a] connect_rx_answered [of m True a]
    by (cases "msg_type m") (auto simp: acmp_dispatch_def acmp_target_entity_id_def Let_def split: if_splits)
qed

lemma talker_node_dispatch:
  "acmp_dispatch (from_listener e u f) (talker_node rows)
     = Some (avb_process_acmp_connect_tx_command (from_listener e u f) False (talker_node rows))"
  "msg_type (from_listener e u f) = acmp_msg_type_connect_tx_command"
  "acmp_target_entity_id (from_listener e u f) = Some (own_entity_id (talker_node rows))"
  by (simp_all add: acmp_dispatch_def from_listener_def acmp_message_zero_def talker_node_def atdecc_zero_def
      acmp_target_entity_id_def)

theorem acmp_answers_once_witness:
  "answered (from_listener (replicate 8 1) [0, 1] 0) acmp_msg_type_connect_tx_response (talker_node [])
     (avb_process_acmp_connect_tx_command (from_listener (replicate 8 1) [0, 1] 0) False (talker_node []))"
  using acmp_answers_once [OF talker_node_dispatch(1) [of "replicate 8 1" "[0, 1]" 0 "[]"]] by (simp add: talker_node_dispatch)

section \<open>A connection\<close>

text \<open>What the listener keeps of a CONNECT_RX, and the command it sends.\<close>

lemma connect_rx_step:
  fixes a :: atdecc_state and m :: acmp_message_s
  defines "uid \<equiv> unat (octets_u16 (msg_listener_uid m))"
  assumes "avb_valid_listener_uid a uid" and "\<not> avb_acquired_or_locked_by_other a (controller_entity_id m)"
    and "\<not> ls_connected (input_stream a uid)" and "\<not> pending_connection (input_stream a uid)"
  obtains b c r where "avb_process_acmp_connect_rx_command m False False a = (True, b)"
    and "acmp_sent b = acmp_sent a @ [(c, 96), r]" and "msg_type c = acmp_msg_type_connect_tx_command"
    and "talker_entity_id c = talker_entity_id m" "msg_talker_uid c = msg_talker_uid m"
      "listener_entity_id c = listener_entity_id m" "msg_listener_uid c = msg_listener_uid m"
      "controller_entity_id c = controller_entity_id m" "msg_seq_id c = u16_octets (acmp_seq_id a + 1)"
    and "own_entity_id b = own_entity_id a" "length (input_streams (core b)) = length (input_streams (core a))"
      "input_stream b uid = (input_stream a uid)\<lparr> talker_id := talker_entity_id m, talker_uid := msg_talker_uid m,
         controller_id := controller_entity_id m, pending_connection := True \<rparr>"
      "config_listener b = config_listener a"
proof -
  let ?f = "\<lambda>t. t\<lparr> talker_id := talker_entity_id m, talker_uid := msg_talker_uid m,
         controller_id := controller_entity_id m, pending_connection := True \<rparr>"
  let ?a = "upd_core (upd_input uid ?f) a"
  let ?m = "m\<lparr> msg_flags := u16_octets (listener_connect_flags ?a (octets_u16 (msg_flags m))) \<rparr>"
  obtain ok b where s: "avb_send_acmp_command acmp_msg_type_connect_tx_command ?m True ?a = (ok, b)" by (rule prod.exhaust)
  note b = send_command [OF s]
  let ?st = "if ok then acmp_status_success else acmp_status_listener_misbehaving"
  let ?b = "persist_append True uid (avb_send_acmp_response acmp_msg_type_connect_rx_response m ?st b)"
  have cfg: "config_listener ?b = config_listener a"
    using s by (auto simp: avb_send_acmp_command_def acmp_net_send_def Let_def avb_add_inflight_command_def
        persist_append_def avb_send_acmp_response_def upd_core_def split: if_splits)
  have e: "avb_process_acmp_connect_rx_command m False False a = (True, ?b)"
    using assms(2-5) s unfolding avb_process_acmp_connect_rx_command_def Let_def uid_def [symmetric]
    by (simp add: avb_send_listener_talker_command_def)
  obtain x n where x: "acmp_sent (avb_send_acmp_response acmp_msg_type_connect_rx_response m ?st b) = acmp_sent b @ [(x, n)]"
    using send_response by blast
  let ?c = "?m\<lparr> msg_type := acmp_msg_type_connect_tx_command, msg_sv := False, msg_version := 0, status_valtime := 0,
      control_data_len_h := 0, control_data_len := 84, msg_seq_id := u16_octets (acmp_seq_id ?a + 1) \<rparr>"
  have sent: "acmp_sent ?b = acmp_sent a @ [(?c, 96), (x, n)]" using x by (simp add: b(3))
  have inp: "input_stream ?b uid = ?f (input_stream a uid)" "length (input_streams (core ?b)) = length (input_streams (core a))"
    using assms(2) by (simp_all add: b(1) upd_input_nth avb_valid_listener_uid_def)
  show ?thesis by (rule that [OF e sent]) (use inp cfg in \<open>simp_all add: b(2)\<close>)
qed

text \<open>What a CONNECT_TX adds to the stream, and the answer.\<close>

lemma connect_tx_step:
  fixes a :: atdecc_state and m :: acmp_message_s
  defines "uid \<equiv> unat (octets_u16 (msg_talker_uid m))"
  assumes "avb_valid_talker_uid a uid" and "\<not> avb_acquired_or_locked_by_other a (controller_entity_id m)"
    and "streams_ok a" and "connected_count (output_stream a uid) < AVB_MAX_NUM_CONNECTED_LISTENERS"
  obtains b r where "avb_process_acmp_connect_tx_command m False a = b"
    and "last (acmp_sent b) = (r, 96)" and "msg_type r = acmp_msg_type_connect_tx_response"
    and "status_valtime r = acmp_status_success"
    and "talker_entity_id r = talker_entity_id m" "msg_talker_uid r = msg_talker_uid m"
      "listener_entity_id r = listener_entity_id m" "msg_listener_uid r = msg_listener_uid m"
      "controller_entity_id r = controller_entity_id m" "msg_seq_id r = msg_seq_id m"
      "msg_stream_id r = ts_stream_id (output_stream b uid)" "msg_stream_dest_addr r = ts_stream_dest_addr (output_stream b uid)"
      "(octets_u16 (msg_flags r) AND 1 \<noteq> 0) = ts_class_b (output_stream b uid)"
    and "stream_listeners b uid = insert (listener_entity_id m, msg_listener_uid m) (stream_listeners a uid)"
      "take 7 (ts_stream_id (output_stream b uid)) = take 7 (ts_stream_id (output_stream a uid))"
proof -
  have ok: "rows_ok (output_stream a uid)" using assms(2,4) by (simp add: streams_ok_def avb_valid_talker_uid_def)
  note row = connect_tx_row_cases [OF assms(2) ok, of m]
  obtain c where c: "connect_tx_row uid m a = Some c" using row assms(5) by (cases "connect_tx_row uid m a") auto
  then obtain t where t: "becomes uid t (core a) (core c)" "rows_ok t"
    "acmp_listeners t = insert (listener_entity_id m, msg_listener_uid m) (stream_listeners a uid)"
    "ts_stream_id t = ts_stream_id (output_stream a uid)" using row by auto
  let ?b = "avb_send_acmp_response acmp_msg_type_connect_tx_response (connect_tx_answer (output_stream c uid) m) acmp_status_success c"
  have e: "avb_process_acmp_connect_tx_command m False a = ?b"
    using assms(2,3) c by (simp add: avb_process_acmp_connect_tx_command_def Let_def uid_def)
  have id: "take 7 (ts_stream_id (output_stream c uid)) = take 7 (ts_stream_id (output_stream a uid))"
    using t(1,4) by (simp add: becomes_def stream_kept_def)
  note L = becomes_ok(2) [OF assms(4) t(1,2) assms(2)]
  let ?r = "(connect_tx_answer (output_stream c uid) m)\<lparr> msg_type := acmp_msg_type_connect_tx_response,
    status_valtime := acmp_status_success, control_data_len := 84 \<rparr>"
  have l: "last (acmp_sent ?b) = (?r, 96)" by (simp add: avb_send_acmp_response_def acmp_net_send_def Let_def)
  show ?thesis
    by (rule that [OF e l]) (use L t(3) id in \<open>simp_all add: connect_tx_answer_def Let_def class_bit class_bit [simplified]\<close>)
qed

text \<open>What a successful response makes of an input that waits for it.\<close>

lemma connect_tx_response_step:
  fixes a :: atdecc_state and r :: acmp_message_s
  defines "uid \<equiv> unat (octets_u16 (msg_listener_uid r))"
  assumes "avb_valid_listener_uid a uid" and "status_valtime r = acmp_status_success"
    and "msg_stream_id r \<noteq> zeros 8" and "\<not> ls_connected (input_stream a uid)"
  obtains b where "avb_process_acmp_connect_tx_response r False a = Some b"
    and "ls_connected (input_stream b uid)" "\<not> pending_connection (input_stream b uid)" "\<not> provisional (input_stream b uid)"
      "talker_id (input_stream b uid) = talker_entity_id r" "talker_uid (input_stream b uid) = msg_talker_uid r"
      "ls_stream_id (input_stream b uid) = msg_stream_id r"
      "ls_stream_dest_addr (input_stream b uid) = msg_stream_dest_addr r"
      "ls_class_b (input_stream b uid) = (octets_u16 (msg_flags r) AND 1 \<noteq> 0)"
proof -
  have u: "uid < length (input_streams (core a))" using assms(2) by (simp add: avb_valid_listener_uid_def)
  let ?class_b = "octets_u16 (msg_flags r) AND 1 \<noteq> 0" and ?mappings = "msrp_mappings (core a)"
  let ?mi = "if ?class_b then 1 else 0 :: nat"
  let ?g = "\<lambda>t. t\<lparr> talker_id := talker_entity_id r, talker_uid := msg_talker_uid r,
      controller_id := controller_entity_id r, ls_stream_id := msg_stream_id r,
      ls_stream_dest_addr := msg_stream_dest_addr r, ls_class_b := ?class_b,
      ls_vlan_id := (if octets_u16 (msg_stream_vlan_id r) = 0
                     then (if ?mi < length ?mappings then map_vlan_id (?mappings ! ?mi) else zeros 2)
                     else msg_stream_vlan_id r),
      ls_connected := True, provisional := False \<rparr>"
  obtain st a1 where c: "avb_connect_listener r a = (st, a1)" by (rule prod.exhaust)
  have st: "st = acmp_status_success" and i1: "input_streams (core a1) = input_streams (upd_input uid ?g (core a))"
    using c assms(4) by (auto simp: avb_connect_listener_def Let_def uid_def [symmetric] viewD [OF listener_view(1)])
  define a2 where "a2 = upd_core (upd_input uid (\<lambda>t. t\<lparr> pending_connection := False \<rparr>)) a1"
  have acc: "connect_tx_accept uid r a = (True, a2)"
    using assms(3,5) c st by (simp add: connect_tx_accept_def Let_def a2_def)
  have l1: "length (input_streams (core a1)) = length (input_streams (core a))" by (simp add: i1 upd_input_nth)
  have i2: "input_stream a2 uid = (?g (input_stream a uid))\<lparr> pending_connection := False \<rparr>"
    and l2: "length (input_streams (core a2)) = length (input_streams (core a))"
    using u l1 by (simp_all add: a2_def upd_input_nth i1)
  obtain a3 where a3: "avb_process_acmp_connect_tx_response r False a = Some (avb_start_stream_in uid a3)"
    and c3: "core a3 = core a2"
    unfolding avb_process_acmp_connect_tx_response_def Let_def uid_def [symmetric] acc
    using assms(2) by (auto intro!: that)
  have "input_stream (avb_start_stream_in uid a3) uid = input_stream a2 uid"
    using start_stream_in_keeps [of uid a3 uid] u l2 i2 by (simp add: c3)
  with i2 show ?thesis by (intro that [OF a3]) simp_all
qed


definition listener_node :: atdecc_state where
  "listener_node = (atdecc_zero ((state_zero end_station)\<lparr> input_streams := [listener_stream_zero] \<rparr>))
     \<lparr> own_entity_id := replicate 8 3 \<rparr>"

definition connect_request :: acmp_message_s where
  "connect_request = (from_listener (replicate 8 3) (zeros 2) 1)\<lparr> msg_type := acmp_msg_type_connect_rx_command,
     controller_entity_id := replicate 8 9 \<rparr>"

lemma listener_node_simps [simp]:
  "own_entity_id listener_node = replicate 8 3" "avb_valid_listener_uid listener_node 0"
  "\<not> avb_acquired_or_locked_by_other listener_node e"
  "\<not> ls_connected (input_stream listener_node 0)" "\<not> pending_connection (input_stream listener_node 0)"
  by (simp_all add: listener_node_def atdecc_zero_def avb_valid_listener_uid_def avb_acquired_or_locked_by_other_def
      listener_stream_zero_def)


end
