(* ===== verification/Acmp_Timer.thy ===== *)
theory Acmp_Timer
  imports Acmp
begin

text \<open>
  The periodic part of ACMP (\<open>atdecc.c\<close>, \<open>avb.c\<close>): timeouts of commands in flight, the attempts to
  reconnect saved bindings, and the demotion of silent streams.
\<close>

section \<open>Timers\<close>

definition acmp_rx_response_for_tx_command :: "acmp_msg_type_t \<Rightarrow> acmp_msg_type_t option" where
  "acmp_rx_response_for_tx_command ty = (case ty of
       acmp_msg_type_connect_tx_command \<Rightarrow> Some acmp_msg_type_connect_rx_response
     | acmp_msg_type_disconnect_tx_command \<Rightarrow> Some acmp_msg_type_disconnect_rx_response
     | _ \<Rightarrow> None)"

definition inflight_expire :: "atdecc_inflight_command_s \<Rightarrow> atdecc_state \<Rightarrow> atdecc_state" where
  "inflight_expire e a =
     (let c = if_command e; uid = unat (octets_u16 (msg_listener_uid c));
          a = (if \<not> if_inbound e \<and> msg_type c = acmp_msg_type_connect_tx_command
                  \<and> uid < length (input_streams (core a))
               then upd_core (upd_input uid (\<lambda>t. t\<lparr> pending_connection := False \<rparr>)) a else a);
          a = (case (if if_inbound e then None else acmp_rx_response_for_tx_command (msg_type c)) of
                 None \<Rightarrow> a
               | Some ty \<Rightarrow>
                   (case avb_find_inflight_command_by_data a (acmp_msg_type_code ty) c True of
                      None \<Rightarrow> a
                    | Some i \<Rightarrow>
                        let seq = if_acmp_seq_id (inflight_commands a ! i)
                        in avb_remove_inflight_command seq True
                             (avb_send_acmp_response ty (c\<lparr> msg_type := ty, msg_seq_id := u16_octets seq \<rparr>)
                                acmp_status_listener_talker_timeout a)))
      in avb_remove_inflight_command (if_acmp_seq_id e) (if_inbound e) a)"

text \<open>An expired command always leaves the list: the walk over it ends.\<close>

lemma find_inflight_Some:
  assumes "avb_find_inflight_command a seq inb = Some i"
  shows "i < length (inflight_commands a)" and "if_acmp_seq_id (inflight_commands a ! i) = seq"
    and "if_inbound (inflight_commands a ! i) = inb"
  using assms by (auto simp: avb_find_inflight_command_def dest: first_index_SomeD)

lemma find_inflight_ex:
  "e \<in> set (inflight_commands a) \<Longrightarrow>
     \<exists>i. avb_find_inflight_command a (if_acmp_seq_id e) (if_inbound e) = Some i"
  unfolding avb_find_inflight_command_def in_set_conv_nth by (auto intro: first_index_ex)

lemma remove_inflight_length:
  assumes "e \<in> set (inflight_commands a)"
  shows "Suc (length (inflight_commands (avb_remove_inflight_command (if_acmp_seq_id e) (if_inbound e) a)))
    = length (inflight_commands a)"
  using find_inflight_ex [OF assms] find_inflight_Some(1)
  by (fastforce simp: avb_remove_inflight_command_def)

lemma remove_inflight_subset:
  "set (inflight_commands (avb_remove_inflight_command seq inb a)) \<subseteq> set (inflight_commands a)"
  by (auto simp: avb_remove_inflight_command_def split: option.split dest: in_set_takeD in_set_dropD)

lemma remove_inflight_le:
  "length (inflight_commands (avb_remove_inflight_command seq inb a)) \<le> length (inflight_commands a)"
  by (auto simp: avb_remove_inflight_command_def split: option.split)

lemma remove_inflight_other:
  assumes "e \<in> set (inflight_commands a)" and "if_inbound e \<noteq> inb"
  shows "e \<in> set (inflight_commands (avb_remove_inflight_command seq inb a))"
proof (cases "avb_find_inflight_command a seq inb")
  case None
  with assms show ?thesis by (simp add: avb_remove_inflight_command_def)
next
  case (Some i)
  note i = find_inflight_Some [OF Some]
  have "inflight_commands a = take i (inflight_commands a) @ inflight_commands a ! i # drop (Suc i) (inflight_commands a)"
    using i(1) by (simp add: id_take_nth_drop)
  with assms i(3) have "e \<in> set (take i (inflight_commands a) @ drop (Suc i) (inflight_commands a))"
    by (metis (no_types, lifting) Un_iff list.set_intros(1) set_ConsD set_append)
  then show ?thesis using Some by (simp add: avb_remove_inflight_command_def)
qed

lemma send_response_inflight [simp]:
  "inflight_commands (avb_send_acmp_response ty r st a) = inflight_commands a"
  by (simp add: avb_send_acmp_response_def acmp_net_send_def Let_def)

lemma upd_core_inflight [simp]: "inflight_commands (upd_core f a) = inflight_commands a"
  by (simp add: upd_core_def)

lemma expire_shrinks:
  assumes "i < length (inflight_commands a)"
  shows "length (inflight_commands (inflight_expire (inflight_commands a ! i) a)) < length (inflight_commands a)"
proof -
  let ?e = "inflight_commands a ! i" and ?uid = "unat (octets_u16 (msg_listener_uid (if_command (inflight_commands a ! i))))"
  have e: "?e \<in> set (inflight_commands a)" using assms by simp
  define b where "b = (if \<not> if_inbound ?e \<and> msg_type (if_command ?e) = acmp_msg_type_connect_tx_command
      \<and> ?uid < length (input_streams (core a))
      then upd_core (upd_input ?uid (\<lambda>t. t\<lparr> pending_connection := False \<rparr>)) a else a)"
  define c where "c = (case (if if_inbound ?e then None else acmp_rx_response_for_tx_command (msg_type (if_command ?e))) of
      None \<Rightarrow> b
    | Some ty \<Rightarrow>
        (case avb_find_inflight_command_by_data b (acmp_msg_type_code ty) (if_command ?e) True of
           None \<Rightarrow> b
         | Some i \<Rightarrow>
             let seq = if_acmp_seq_id (inflight_commands b ! i)
             in avb_remove_inflight_command seq True
                  (avb_send_acmp_response ty ((if_command ?e)\<lparr> msg_type := ty, msg_seq_id := u16_octets seq \<rparr>)
                     acmp_status_listener_talker_timeout b)))"
  have ib: "inflight_commands b = inflight_commands a" by (simp add: b_def)
  have "?e \<in> set (inflight_commands c) \<and> length (inflight_commands c) \<le> length (inflight_commands a)"
    using e remove_inflight_other [of ?e _ True] remove_inflight_le
    by (auto simp: c_def ib Let_def split: option.split) (metis ib send_response_inflight)+
  moreover have "inflight_expire ?e a = avb_remove_inflight_command (if_acmp_seq_id ?e) (if_inbound ?e) c"
    by (simp only: inflight_expire_def Let_def b_def c_def)
  ultimately show ?thesis using remove_inflight_length [of ?e c] by simp
qed

function inflight_walk :: "nat \<Rightarrow> atdecc_state \<Rightarrow> atdecc_state" where
  "inflight_walk i a =
     (if i \<ge> length (inflight_commands a) then a
      else if compare_timeval (wall_clock a) (if_timeout (inflight_commands a ! i)) < 0
      then inflight_walk (Suc i) a
      else inflight_walk i (inflight_expire (inflight_commands a ! i) a))"
  by pat_completeness auto

termination
proof (relation "measure (\<lambda>(i, a). length (inflight_commands a) - i)")
  fix i and a :: atdecc_state assume "\<not> length (inflight_commands a) \<le> i"
  then show "((i, inflight_expire (inflight_commands a ! i) a), i, a)
      \<in> measure (\<lambda>(i, a). length (inflight_commands a) - i)"
    using expire_shrinks [of i a] by simp
qed auto

declare inflight_walk.simps [simp del]

definition avb_process_inflight_timeouts :: "atdecc_state \<Rightarrow> atdecc_state" where
  "avb_process_inflight_timeouts a = inflight_walk 0 a"

text \<open>The periodic attempts to reach the talker of a saved binding.\<close>

definition avb_fast_connect_listener :: "nat \<Rightarrow> atdecc_state \<Rightarrow> bool \<times> atdecc_state" where
  "avb_fast_connect_listener index a =
     (let st = input_stream a index in
      if talker_id st = zeros 8 then (False, a)
      else if ls_connected st \<and> \<not> provisional st \<or> pending_connection st then (False, a)
      else if first_index (\<lambda>i. known_talkers a ! i = talker_id st) (length (known_talkers a)) = None
      then (False, a)
      else
        let c = acmp_message_zero\<lparr> talker_entity_id := talker_id st, msg_talker_uid := talker_uid st,
                  listener_entity_id := own_entity_id a, msg_listener_uid := u16_octets (of_nat index),
                  controller_entity_id := controller_id st,
                  msg_flags := u16_octets (listener_connect_flags a (if ls_class_b st then 1 else 0)) \<rparr>;
            (ok, a) = avb_send_acmp_command acmp_msg_type_connect_tx_command c True a
        in if \<not> ok then (False, a)
           else (True, upd_core (upd_input index (\<lambda>t. t\<lparr> pending_connection := True \<rparr>)) a))"

definition fast_connect_turn :: "nat \<Rightarrow> atdecc_state \<Rightarrow> atdecc_state" where
  "fast_connect_turn i a =
     (let st = input_stream a i; now = mono_ns a in
      if ls_connected st \<and> \<not> provisional st \<or> pending_connection st then a
      else if talker_id st = zeros 8 then a
      else if last_fast_connect_ns st div 1000000000 \<noteq> 0
           \<and> (now - last_fast_connect_ns st) div 1000000 < AVB_FAST_CONNECT_RETRY_MSEC then a
      else snd (avb_fast_connect_listener i
             (upd_core (upd_input i (\<lambda>t. t\<lparr> last_fast_connect_ns := now \<rparr>)) a)))"

definition avb_periodic_fast_connect :: "atdecc_state \<Rightarrow> atdecc_state" where
  "avb_periodic_fast_connect a = foreach (length (input_streams (core a))) fast_connect_turn a"

text \<open>A stream that is connected but shows no life for 10 s goes back to probing.  \<open>last_rx\<close> is what
  the stream driver reports, 0 for never.\<close>

definition AVB_LISTENER_DEMOTE_US :: int where "AVB_LISTENER_DEMOTE_US = 10 * 1000 * 1000"

definition demote_turn :: "(nat \<Rightarrow> int) \<Rightarrow> nat \<Rightarrow> atdecc_state \<Rightarrow> atdecc_state" where
  "demote_turn last_rx i a =
     (let st = input_stream a i; now = now_us (core a);
          alive = (last_rx i \<noteq> 0 \<and> now - last_rx i < 1000000
                   \<or> mrp_talker_advertise_active 0 (ls_stream_id st) (core a))
      in upd_core (upd_input i (\<lambda>t.
           if \<not> ls_connected st \<or> provisional st then t\<lparr> demote_ref_us := 0 \<rparr>
           else if alive \<or> demote_ref_us st = 0 then t\<lparr> demote_ref_us := now \<rparr>
           else if now - demote_ref_us st > AVB_LISTENER_DEMOTE_US
           then t\<lparr> provisional := True, demote_ref_us := 0 \<rparr>
           else t)) a)"

definition acmp_periodic :: "(nat \<Rightarrow> int) \<Rightarrow> atdecc_state \<Rightarrow> atdecc_state" where
  "acmp_periodic last_rx a =
     (let a = avb_process_inflight_timeouts a
      in if \<not> config_listener a then a
         else let a = avb_periodic_fast_connect a
              in foreach (length (input_streams (core a))) (demote_turn last_rx) a)"

end
