(* ===== verification/Acmp_Flight.thy ===== *)
theory Acmp_Flight
  imports Acmp_Connect Acmp_Timer
begin

text \<open>
  Commands in flight: an invariant of ACMP, what happens to a probe without an answer, and the
  binding that is probed once and never again.
\<close>

section \<open>The invariant\<close>

definition inflight_ok :: "atdecc_state \<Rightarrow> bool" where
  "inflight_ok a \<longleftrightarrow> length (inflight_commands a) \<le> AVB_MAX_NUM_INFLIGHT_COMMANDS
     \<and> (\<forall>e \<in> set (inflight_commands a). \<not> if_inbound e
          \<and> msg_type (if_command e) = acmp_msg_type_connect_tx_command
          \<and> if_acmp_seq_id e = octets_u16 (msg_seq_id (if_command e)))"

definition no_timeout_answer :: "atdecc_state \<Rightarrow> bool" where
  "no_timeout_answer a \<longleftrightarrow> (\<forall>(r, n) \<in> set (acmp_sent a). status_valtime r \<noteq> acmp_status_listener_talker_timeout)"

definition acmp_inv :: "atdecc_state \<Rightarrow> bool" where
  "acmp_inv a \<longleftrightarrow> streams_ok a \<and> inflight_ok a \<and> no_timeout_answer a"

named_theorems acmp_keeps \<open>operations that keep the invariant of ACMP\<close>

lemma inv_view:
  assumes "acmp_inv a" and "output_streams (core b) = output_streams (core a)"
    and "inflight_commands b = inflight_commands a" and "acmp_sent b = acmp_sent a"
  shows "acmp_inv b"
  using assms by (simp add: acmp_inv_def streams_ok_def inflight_ok_def no_timeout_answer_def)

lemma inv_core [acmp_keeps]:
  "\<lbrakk>acmp_inv a; output_streams (f (core a)) = output_streams (core a)\<rbrakk> \<Longrightarrow> acmp_inv (upd_core f a)"
  by (rule inv_view) simp_all

lemma inv_persist [acmp_keeps]: "acmp_inv a \<Longrightarrow> acmp_inv (persist_append i n a)"
  by (erule inv_view) simp_all

lemma inv_stream_in [acmp_keeps]:
  "acmp_inv a \<Longrightarrow> acmp_inv (avb_start_stream_in i a)" "acmp_inv a \<Longrightarrow> acmp_inv (avb_stop_stream_in i a)"
  by (erule inv_view; simp)+

lemma inv_respond [acmp_keeps]:
  "\<lbrakk>acmp_inv a; st \<noteq> acmp_status_listener_talker_timeout\<rbrakk> \<Longrightarrow> acmp_inv (avb_send_acmp_response ty r st a)"
  by (auto simp: acmp_inv_def streams_ok_def inflight_ok_def no_timeout_answer_def
      avb_send_acmp_response_def acmp_net_send_def Let_def)

lemma inv_remove [acmp_keeps]: "acmp_inv a \<Longrightarrow> acmp_inv (avb_remove_inflight_command s i a)"
  using remove_inflight_subset [of s i a] remove_inflight_le [of s i a]
  by (fastforce simp: acmp_inv_def streams_ok_def inflight_ok_def no_timeout_answer_def)

lemma inv_add:
  assumes "acmp_inv a" and "msg_type c = acmp_msg_type_connect_tx_command"
  shows "acmp_inv (avb_add_inflight_command c False a)"
  using assms by (auto simp: acmp_inv_def streams_ok_def inflight_ok_def no_timeout_answer_def avb_add_inflight_command_def)

lemma inv_command [acmp_keeps]:
  assumes "acmp_inv a" and "track \<Longrightarrow> ty = acmp_msg_type_connect_tx_command"
    and "avb_send_acmp_command ty c track a = (ok, b)"
  shows "acmp_inv b"
proof -
  let ?c = "c\<lparr> msg_type := ty, msg_sv := False, msg_version := 0, status_valtime := 0,
      control_data_len_h := 0, control_data_len := 84, msg_seq_id := u16_octets (acmp_seq_id a + 1) \<rparr>"
  let ?a = "a\<lparr> acmp_seq_id := acmp_seq_id a + 1, acmp_sent := acmp_sent a @ [(?c, 96)] \<rparr>"
  have a: "acmp_inv ?a" using assms(1)
    by (auto simp: acmp_inv_def streams_ok_def inflight_ok_def no_timeout_answer_def acmp_status_listener_talker_timeout_def)
  have "b = (if track then avb_add_inflight_command ?c False ?a else ?a)"
    using assms(3) by (cases track) (auto simp: avb_send_acmp_command_def acmp_net_send_def Let_def)
  then show ?thesis using a inv_add [OF a, of ?c] assms(2) by simp
qed

lemma inv_listener_command [acmp_keeps]:
  "\<lbrakk>acmp_inv a; avb_send_listener_talker_command m d bind a = (ok, b)\<rbrakk> \<Longrightarrow> acmp_inv b"
  unfolding avb_send_listener_talker_command_def Let_def by (erule (1) inv_command [rotated 2]) simp

lemma inv_disconnect_listener [acmp_keeps]: "acmp_inv a \<Longrightarrow> acmp_inv (snd (avb_disconnect_listener m a))"
  unfolding avb_disconnect_listener_def Let_def snd_conv
  by (intro inv_core inv_stream_in) (simp_all add: viewD(5) [OF listener_view(2)])

lemma inv_connect_listener [acmp_keeps]: "acmp_inv a \<Longrightarrow> acmp_inv (snd (avb_connect_listener m a))"
proof -
  assume a: "acmp_inv a"
  have "acmp_inv (upd_core (\<lambda>s. mrp_declare_listener p (i s) (ev s) s) (upd_core (upd_input k f) a))" for p i ev k f
    by (intro inv_core a) (simp_all add: viewD(5) [OF listener_view(1)])
  then show ?thesis using a by (simp add: avb_connect_listener_def Let_def)
qed

lemma status_ne [simp]:
  "acmp_status_success \<noteq> acmp_status_listener_talker_timeout"
  "acmp_status_listener_unknown_id \<noteq> acmp_status_listener_talker_timeout"
  "acmp_status_talker_unknown_id \<noteq> acmp_status_listener_talker_timeout"
  "acmp_status_talker_exclusive \<noteq> acmp_status_listener_talker_timeout"
  "acmp_status_listener_exclusive \<noteq> acmp_status_listener_talker_timeout"
  "acmp_status_not_connected \<noteq> acmp_status_listener_talker_timeout"
  "acmp_status_no_such_connection \<noteq> acmp_status_listener_talker_timeout"
  "acmp_status_listener_misbehaving \<noteq> acmp_status_listener_talker_timeout"
  "acmp_status_controller_not_authorized \<noteq> acmp_status_listener_talker_timeout"
  "acmp_status_not_supported \<noteq> acmp_status_listener_talker_timeout"
  by (simp_all add: acmp_status_success_def acmp_status_listener_unknown_id_def acmp_status_talker_unknown_id_def
    acmp_status_talker_exclusive_def acmp_status_listener_talker_timeout_def acmp_status_listener_exclusive_def
    acmp_status_not_connected_def acmp_status_no_such_connection_def
    acmp_status_listener_misbehaving_def acmp_status_controller_not_authorized_def acmp_status_not_supported_def)

lemma inv_connect_rx_tail:
  assumes "acmp_inv a" and "\<And>ok. st ok \<noteq> acmp_status_listener_talker_timeout"
  shows "acmp_inv (snd (case avb_send_listener_talker_command m d bind a of
    (ok, c) \<Rightarrow> (True, persist_append True i (avb_send_acmp_response ty m (st ok) c))))"
  using assms inv_listener_command [OF assms(1)]
  by (cases "avb_send_listener_talker_command m d bind a") (auto intro!: inv_persist inv_respond)

lemma inv_connect_rx [acmp_keeps]:
  assumes "acmp_inv a"
  shows "acmp_inv (snd (avb_process_acmp_connect_rx_command m d bind a))"
proof -
  obtain b where d: "avb_disconnect_listener m a = (acmp_status_success, b)" and b: "acmp_inv b"
    using inv_disconnect_listener [OF assms, of m] by (auto simp: avb_disconnect_listener_def Let_def)
  have refuse: "acmp_inv (avb_send_acmp_response ty m st a)" if "st \<noteq> acmp_status_listener_talker_timeout" for ty st
    using that assms by (rule inv_respond [rotated])
  have upd: "acmp_inv (upd_core (upd_input i f) a)" for i f using assms by (rule inv_core) simp
  have st: "(if ok then acmp_status_success else acmp_status_listener_misbehaving) \<noteq> acmp_status_listener_talker_timeout" for ok
    by simp
  show ?thesis
    unfolding avb_process_acmp_connect_rx_command_def Let_def d
    by (cases d; cases bind) (simp_all add: refuse inv_connect_rx_tail [OF _ st] upd b assms if_distrib [of snd] cong: if_cong)
qed

lemma inv_accept: "acmp_inv a \<Longrightarrow> acmp_inv (snd (connect_tx_accept uid r a))"
proof -
  assume a: "acmp_inv a"
  obtain st b where c: "avb_connect_listener r a = (st, b)" by (rule prod.exhaust)
  have b: "acmp_inv b" using inv_connect_listener [OF a, of r] c by simp
  have "acmp_inv (upd_core (upd_input uid (\<lambda>t. t\<lparr> pending_connection := False \<rparr>)) c)" if "acmp_inv c" for c
    using that by (rule inv_core) simp
  then show ?thesis using a b inv_stream_in(2) [OF b, of uid]
    by (simp add: connect_tx_accept_def Let_def c)
qed

lemma inv_connect_tx_response [acmp_keeps]:
  assumes "acmp_inv a" and "avb_process_acmp_connect_tx_response r d a = Some b"
  shows "acmp_inv b"
proof -
  let ?uid = "unat (octets_u16 (msg_listener_uid r))"
  define c where "c = (if d then a else snd (connect_tx_accept ?uid r a))"
  have c: "acmp_inv c" using assms(1) inv_accept [OF assms(1)] by (simp add: c_def)
  have rem: "acmp_inv (if x then avb_remove_inflight_command s i e else e)" if "acmp_inv e" for x s i e
    using that inv_remove by simp
  have st: "acmp_inv (if x then avb_start_stream_in i e else e)" if "acmp_inv e" for x i e
    using that inv_stream_in(1) by simp
  obtain start where sp: "(if d then (False, a) else connect_tx_accept ?uid r a) = (start, c)"
    by (cases d; cases "connect_tx_accept ?uid r a") (auto simp: c_def)
  show ?thesis
  proof (cases "avb_valid_listener_uid a ?uid")
    case False
    then show ?thesis using assms by (simp add: avb_process_acmp_connect_tx_response_def Let_def split: if_splits)
  next
    case True
    have "\<exists>start x s y t. b = (if start then avb_start_stream_in ?uid (if x then avb_remove_inflight_command s True
          (if y then avb_remove_inflight_command t False c else c) else (if y then avb_remove_inflight_command t False c else c))
        else (if x then avb_remove_inflight_command s True
          (if y then avb_remove_inflight_command t False c else c) else (if y then avb_remove_inflight_command t False c else c)))"
      using assms(2) True unfolding avb_process_acmp_connect_tx_response_def Let_def sp prod.case
      by (simp only: simp_thms if_False option.inject) metis
    then show ?thesis using c rem st by auto
  qed
qed

lemma inv_connect_tx [acmp_keeps]:
  assumes "acmp_inv a"
  shows "acmp_inv (avb_process_acmp_connect_tx_command m d a)"
proof -
  let ?uid = "unat (octets_u16 (msg_talker_uid m))"
  have ok: "streams_ok a" using assms by (simp add: acmp_inv_def)
  have move: "acmp_inv c" if "becomes ?uid t (core a) (core c)" "rows_ok t" "avb_valid_talker_uid a ?uid"
    "acmp_sent c = acmp_sent a" "inflight_commands c = inflight_commands a" for c t
    using becomes_ok(1) [OF ok that(1,2,3)] that(4,5) assms
    by (simp add: acmp_inv_def inflight_ok_def no_timeout_answer_def)
  have res: "acmp_inv c" if v: "avb_valid_talker_uid a ?uid"
    and c: "(if d then Some (disconnect_tx_row ?uid m a) else connect_tx_row ?uid m a) = Some c" for c
  proof -
    have r: "rows_ok (output_stream a ?uid)" using ok v by (simp add: streams_ok_def avb_valid_talker_uid_def)
    show ?thesis
    proof (cases d)
      case True
      have "rows_ok (case disconnect_row (output_stream a ?uid) (listener_entity_id m) (msg_listener_uid m) of
          None \<Rightarrow> output_stream a ?uid | Some i \<Rightarrow> avb_remove_talker_listener_by_index i (output_stream a ?uid))"
        using r remove_ok [OF r] by (simp split: option.split)
      from move [OF _ this v] disconnect_tx_row_becomes [OF v, of m] c True show ?thesis by simp
    next
      case False
      with c connect_tx_row_cases [OF v r, of m] obtain t where
        "becomes ?uid t (core a) (core c)" "rows_ok t" "acmp_sent c = acmp_sent a" "inflight_commands c = inflight_commands a"
        by auto
      then show ?thesis using move v by blast
    qed
  qed
  define o' where "o' = (if d then Some (disconnect_tx_row ?uid m a) else connect_tx_row ?uid m a)"
  note res = res [folded o'_def]
  show ?thesis unfolding avb_process_acmp_connect_tx_command_def Let_def o'_def [symmetric]
    using assms res by (cases o') (simp_all add: inv_respond)
qed

lemma inv_gets [acmp_keeps]:
  "acmp_inv a \<Longrightarrow> acmp_inv (avb_process_acmp_get_rx_state_command m a)"
  "acmp_inv a \<Longrightarrow> acmp_inv (avb_process_acmp_get_tx_state_command m a)"
  "acmp_inv a \<Longrightarrow> acmp_inv (avb_process_acmp_get_tx_connection_command m a)"
  by (simp_all add: avb_process_acmp_get_rx_state_command_def avb_process_acmp_get_tx_state_command_def
      avb_process_acmp_get_tx_connection_command_def Let_def inv_respond split: option.split)

lemma inv_dispatch:
  assumes "acmp_inv a" and "acmp_dispatch m a = Some b"
  shows "acmp_inv b"
  using assms(2) inv_gets [OF assms(1)] inv_connect_tx [OF assms(1)] inv_connect_rx [OF assms(1)] assms(1)
  by (cases "msg_type m") (auto simp: acmp_dispatch_def Let_def split: if_splits dest: inv_connect_tx_response [OF assms(1)])

lemma inv_process:
  assumes "acmp_inv a" and "avb_process_acmp m a = Some b"
  shows "acmp_inv b"
proof -
  have "acmp_inv (snd (avb_acmp_received_twice m a))" using assms(1)
    by (simp add: avb_acmp_received_twice_def Let_def inv_view)
  then show ?thesis using assms inv_dispatch
    by (cases "avb_acmp_received_twice m a") (auto simp: avb_process_acmp_def split: if_splits bool.splits)
qed

lemma inv_bind:
  assumes "acmp_inv a"
  shows "acmp_inv (snd (avb_process_aecp_cmd_mvu_bind_stream c unbind a))"
proof -
  have upd: "acmp_inv (upd_core (upd_input i f) a)" for i f using assms by (rule inv_core) simp
  have tail: "acmp_inv (snd (case avb_process_acmp_connect_rx_command x unbind True b of
      (ok, e) \<Rightarrow> case (if ok then (bind_success, snd (avb_send_listener_talker_command x unbind True e))
                     else (bind_bad_arguments, e)) of
          (status, e) \<Rightarrow> (status, persist_append True i e)))" if "acmp_inv b" for b x i
  proof -
    obtain ok e where e: "avb_process_acmp_connect_rx_command x unbind True b = (ok, e)" by (rule prod.exhaust)
    have "acmp_inv e" using inv_connect_rx [OF that, of x unbind True] e by simp
    moreover from this have "acmp_inv (snd (avb_send_listener_talker_command x unbind True e))"
      using inv_listener_command [of e x unbind True "fst (avb_send_listener_talker_command x unbind True e)"] by simp
    ultimately show ?thesis by (simp add: e inv_persist)
  qed
  show ?thesis
  proof (cases "\<not> mb_stream_input c \<or> \<not> avb_valid_listener_uid a (unat (mb_descriptor_index c))")
    case True
    then show ?thesis using assms by (simp add: avb_process_aecp_cmd_mvu_bind_stream_def Let_def)
  next
    case False
    then show ?thesis unfolding avb_process_aecp_cmd_mvu_bind_stream_def Let_def
      by (simp only: if_False, intro tail) (simp add: upd assms)
  qed
qed

section \<open>Timeouts\<close>

definition expired :: "atdecc_state \<Rightarrow> atdecc_inflight_command_s \<Rightarrow> bool" where
  "expired a e \<longleftrightarrow> \<not> compare_timeval (wall_clock a) (if_timeout e) < 0"

definition waiting_input :: "atdecc_inflight_command_s \<Rightarrow> nat" where
  "waiting_input e = unat (octets_u16 (msg_listener_uid (if_command e)))"

definition give_up :: "atdecc_inflight_command_s \<Rightarrow> atdecc_state \<Rightarrow> atdecc_state" where
  "give_up e a = (if waiting_input e < length (input_streams (core a))
     then upd_core (upd_input (waiting_input e) (\<lambda>t. t\<lparr> pending_connection := False \<rparr>)) a else a)"

lemma no_inbound:
  assumes "inflight_ok a"
  shows "avb_find_inflight_command_by_data a n d True = None"
  using assms by (auto simp: avb_find_inflight_command_by_data_def inflight_ok_def first_index_None Let_def)

text \<open>Without inbound commands a timeout only gives the input up and removes the command.\<close>

lemma expire_step:
  assumes "inflight_ok a" and "e \<in> set (inflight_commands a)"
  shows "inflight_expire e a = avb_remove_inflight_command (if_acmp_seq_id e) False (give_up e a)"
proof -
  have e: "\<not> if_inbound e" "msg_type (if_command e) = acmp_msg_type_connect_tx_command"
    using assms by (auto simp: inflight_ok_def)
  have "inflight_ok (give_up e a)" using assms(1) by (simp add: give_up_def inflight_ok_def)
  then show ?thesis
    by (simp add: inflight_expire_def Let_def e acmp_rx_response_for_tx_command_def no_inbound
        give_up_def [symmetric] waiting_input_def [symmetric] cong: if_cong)
qed

lemma give_up_frame [simp]:
  "inflight_commands (give_up e a) = inflight_commands a" "acmp_sent (give_up e a) = acmp_sent a"
  "wall_clock (give_up e a) = wall_clock a" "output_streams (core (give_up e a)) = output_streams (core a)"
  "length (input_streams (core (give_up e a))) = length (input_streams (core a))"
  by (simp_all add: give_up_def upd_input_nth)

lemma remove_exact:
  assumes "distinct (map if_acmp_seq_id (inflight_commands a))" and "i < length (inflight_commands a)"
    and "if_inbound (inflight_commands a ! i) = inb"
  shows "inflight_commands (avb_remove_inflight_command (if_acmp_seq_id (inflight_commands a ! i)) inb a)
    = take i (inflight_commands a) @ drop (Suc i) (inflight_commands a)"
proof -
  have "avb_find_inflight_command a (if_acmp_seq_id (inflight_commands a ! i)) inb = Some i"
    unfolding avb_find_inflight_command_def
  proof (rule first_index_SomeI)
    fix j assume j: "j < i"
    then have "map if_acmp_seq_id (inflight_commands a) ! j \<noteq> map if_acmp_seq_id (inflight_commands a) ! i"
      using assms(1,2) by (subst nth_eq_iff_index_eq) auto
    then show "\<not> (if_acmp_seq_id (inflight_commands a ! j) = if_acmp_seq_id (inflight_commands a ! i)
        \<and> if_inbound (inflight_commands a ! j) = inb)" using j assms(2) by simp
  qed (use assms in auto)
  then show ?thesis by (simp add: avb_remove_inflight_command_def)
qed

lemma inv_give_up: "acmp_inv a \<Longrightarrow> acmp_inv (give_up e a)"
  by (erule inv_view) simp_all

text \<open>What a step of the walk keeps of an input.\<close>

definition input_kept :: "avb_listener_stream_s \<Rightarrow> avb_listener_stream_s \<Rightarrow> bool" where
  "input_kept t t' \<longleftrightarrow> t' = t \<or> t' = t\<lparr> pending_connection := False \<rparr>"

lemma input_kept_trans: "\<lbrakk>input_kept t u; input_kept u v\<rbrakk> \<Longrightarrow> input_kept t v"
  unfolding input_kept_def by (elim disjE) simp_all

lemma give_up_input:
  assumes "i < length (input_streams (core a))"
  shows "input_kept (input_stream a i) (input_stream (give_up e a) i)"
    and "waiting_input e = i \<Longrightarrow> \<not> pending_connection (input_stream (give_up e a) i)"
    and "waiting_input e \<noteq> i \<Longrightarrow> input_stream (give_up e a) i = input_stream a i"
  using assms by (simp_all add: give_up_def upd_input_nth input_kept_def)

definition walk_post :: "nat \<Rightarrow> atdecc_state \<Rightarrow> atdecc_state \<Rightarrow> bool" where
  "walk_post i a b \<longleftrightarrow> acmp_inv b \<and> acmp_sent b = acmp_sent a
     \<and> inflight_commands b = take i (inflight_commands a) @ filter (\<lambda>e. \<not> expired a e) (drop i (inflight_commands a))
     \<and> length (input_streams (core b)) = length (input_streams (core a))
     \<and> (\<forall>k < length (input_streams (core a)). input_kept (input_stream a k) (input_stream b k)
          \<and> ((\<exists>e \<in> set (drop i (inflight_commands a)). expired a e \<and> waiting_input e = k)
               \<longrightarrow> \<not> pending_connection (input_stream b k))
          \<and> ((\<forall>e \<in> set (inflight_commands a). waiting_input e \<noteq> k) \<longrightarrow> input_stream b k = input_stream a k))
     \<and> known_talkers b = known_talkers a \<and> config_listener b = config_listener a \<and> mono_ns b = mono_ns a
     \<and> own_entity_id b = own_entity_id a \<and> wall_clock b = wall_clock a"

lemma walk_exact:
  assumes "acmp_inv a" and "distinct (map if_acmp_seq_id (inflight_commands a))"
  shows "walk_post i a (inflight_walk i a)"
  using assms
proof (induction i a rule: inflight_walk.induct)
  case (1 i a)
  let ?l = "inflight_commands a"
  consider "i \<ge> length ?l" | "i < length ?l" "\<not> expired a (?l ! i)" | "i < length ?l" "expired a (?l ! i)" by linarith
  then show ?case
  proof cases
    case 1
    then show ?thesis using "1.prems" by (subst inflight_walk.simps) (simp add: walk_post_def input_kept_def)
  next
    case 2
    have "walk_post (Suc i) a (inflight_walk (Suc i) a)"
      using "1.IH"(1) 2 "1.prems" by (simp add: expired_def)
    then show ?thesis using 2
      by (subst inflight_walk.simps) (simp add: walk_post_def expired_def take_Suc_conv_app_nth Cons_nth_drop_Suc [symmetric])
  next
    case 3
    let ?e = "?l ! i"
    define b where "b = inflight_expire ?e a"
    have e: "?e \<in> set ?l" "\<not> if_inbound ?e" using 3 "1.prems"(1) by (auto simp: acmp_inv_def inflight_ok_def)
    have b: "b = avb_remove_inflight_command (if_acmp_seq_id ?e) False (give_up ?e a)"
      using expire_step [OF _ e(1)] "1.prems"(1) by (simp add: acmp_inv_def b_def)
    have l: "inflight_commands b = take i ?l @ drop (Suc i) ?l"
      using remove_exact [of "give_up ?e a" i False] 3 e(2) "1.prems"(2) by (simp add: b)
    have inv: "acmp_inv b" unfolding b using "1.prems"(1) by (intro inv_remove inv_give_up)
    have d: "distinct (map if_acmp_seq_id (inflight_commands b))"
      using "1.prems"(2) 3 by (subst (asm) id_take_nth_drop [of i ?l]) (auto simp: l)
    have fr: "acmp_sent b = acmp_sent a" "wall_clock b = wall_clock a" "known_talkers b = known_talkers a"
      "config_listener b = config_listener a" "mono_ns b = mono_ns a" "own_entity_id b = own_entity_id a"
      "core b = core (give_up ?e a)"
      by (simp_all add: b avb_remove_inflight_command_def give_up_def split: option.split)
    have w: "inflight_walk i a = inflight_walk i b"
      using 3 by (subst inflight_walk.simps) (simp add: expired_def b_def)
    have ih: "walk_post i b (inflight_walk i b)" using "1.IH"(2) 3 inv d by (simp add: expired_def b_def)
    have ex: "expired b = expired a" by (simp add: fun_eq_iff expired_def fr)
    have dl: "drop i ?l = ?e # drop (Suc i) ?l" using 3(1) by (simp add: Cons_nth_drop_Suc)
    have li: "drop i (inflight_commands b) = drop (Suc i) ?l" "take i (inflight_commands b) = take i ?l"
      using 3(1) by (simp_all add: l)
    have sub: "set (inflight_commands b) \<subseteq> set ?l" by (auto simp: l dest: in_set_takeD in_set_dropD)
    show ?thesis unfolding walk_post_def w
    proof (intro conjI allI impI)
      show "acmp_inv (inflight_walk i b)" "acmp_sent (inflight_walk i b) = acmp_sent a"
        "length (input_streams (core (inflight_walk i b))) = length (input_streams (core a))"
        "known_talkers (inflight_walk i b) = known_talkers a" "config_listener (inflight_walk i b) = config_listener a"
        "mono_ns (inflight_walk i b) = mono_ns a" "own_entity_id (inflight_walk i b) = own_entity_id a"
        "wall_clock (inflight_walk i b) = wall_clock a"
        using ih by (simp_all add: walk_post_def fr)
      show "inflight_commands (inflight_walk i b) = take i ?l @ filter (\<lambda>e. \<not> expired a e) (drop i ?l)"
        using ih 3(2) by (simp add: walk_post_def ex li dl)
      fix k assume k: "k < length (input_streams (core a))"
      then have kb: "k < length (input_streams (core b))" by (simp add: fr)
      have ihk: "input_kept (input_stream b k) (input_stream (inflight_walk i b) k)"
        "(\<exists>e \<in> set (drop (Suc i) ?l). expired a e \<and> waiting_input e = k) \<Longrightarrow> \<not> pending_connection (input_stream (inflight_walk i b) k)"
        "(\<forall>e \<in> set (inflight_commands b). waiting_input e \<noteq> k) \<Longrightarrow> input_stream (inflight_walk i b) k = input_stream b k"
        using ih kb unfolding walk_post_def ex li by blast+
      note g = give_up_input [OF k, of ?e]
      show "input_kept (input_stream a k) (input_stream (inflight_walk i b) k)"
        using input_kept_trans [OF g(1)] ihk(1) by (simp add: fr)
      show "input_stream (inflight_walk i b) k = input_stream a k" if "\<forall>e \<in> set ?l. waiting_input e \<noteq> k"
        using ihk(3) g(3) that e(1) sub by (simp add: fr subset_iff)
      show "\<not> pending_connection (input_stream (inflight_walk i b) k)"
        if x: "\<exists>e \<in> set (drop i ?l). expired a e \<and> waiting_input e = k"
      proof (cases "waiting_input ?e = k")
        case True
        then have "\<not> pending_connection (input_stream b k)" using g(2) by (simp add: fr)
        then show ?thesis using ihk(1) by (auto simp: input_kept_def)
      next
        case False
        then show ?thesis using ihk(2) x by (simp add: dl)
      qed
    qed
  qed
qed

section \<open>Probing again\<close>

definition probe :: "nat \<Rightarrow> atdecc_state \<Rightarrow> acmp_message_s" where
  "probe j a = acmp_message_zero\<lparr> talker_entity_id := talker_id (input_stream a j), msg_talker_uid := talker_uid (input_stream a j),
     listener_entity_id := own_entity_id a, msg_listener_uid := u16_octets (of_nat j),
     controller_entity_id := controller_id (input_stream a j),
     msg_flags := u16_octets (listener_connect_flags a (if ls_class_b (input_stream a j) then 1 else 0)) \<rparr>"

lemma fast_connect_cases:
  assumes "avb_send_acmp_command acmp_msg_type_connect_tx_command (probe j a) True a = (ok, b)"
  shows "snd (avb_fast_connect_listener j a) = a \<or> snd (avb_fast_connect_listener j a) = b
    \<or> snd (avb_fast_connect_listener j a) = upd_core (upd_input j (\<lambda>t. t\<lparr> pending_connection := True \<rparr>)) b"
proof -
  have "avb_fast_connect_listener j a =
     (if talker_id (input_stream a j) = zeros 8 then (False, a)
      else if ls_connected (input_stream a j) \<and> \<not> provisional (input_stream a j) \<or> pending_connection (input_stream a j) then (False, a)
      else if first_index (\<lambda>i. known_talkers a ! i = talker_id (input_stream a j)) (length (known_talkers a)) = None
      then (False, a)
      else if \<not> ok then (False, b)
      else (True, upd_core (upd_input j (\<lambda>t. t\<lparr> pending_connection := True \<rparr>)) b))"
    unfolding avb_fast_connect_listener_def Let_def probe_def [symmetric] assms prod.case by (rule refl)
  then show ?thesis by (simp split: if_split)
qed

text \<open>A turn of the periodic probes touches its own input only.\<close>

lemma fast_connect_turn_frame:
  assumes "j < length (input_streams (core a))"
  shows "length (input_streams (core (fast_connect_turn j a))) = length (input_streams (core a))"
    and "k \<noteq> j \<Longrightarrow> k < length (input_streams (core a)) \<Longrightarrow> input_stream (fast_connect_turn j a) k = input_stream a k"
    and "known_talkers (fast_connect_turn j a) = known_talkers a" "mono_ns (fast_connect_turn j a) = mono_ns a"
    and "own_entity_id (fast_connect_turn j a) = own_entity_id a" "config_listener (fast_connect_turn j a) = config_listener a"
    and "\<exists>new. acmp_sent (fast_connect_turn j a) = acmp_sent a @ new \<and> (\<forall>(c, n) \<in> set new. msg_listener_uid c = u16_octets (of_nat j))"
    and "set (inflight_commands (fast_connect_turn j a)) \<subseteq> set (inflight_commands a)
      \<union> {e. msg_listener_uid (if_command e) = u16_octets (of_nat j)}"
    and "pending_connection (input_stream a j) \<Longrightarrow> fast_connect_turn j a = a"
proof -
  show "pending_connection (input_stream a j) \<Longrightarrow> fast_connect_turn j a = a" by (simp add: fast_connect_turn_def Let_def)
  define a1 where "a1 = upd_core (upd_input j (\<lambda>t. t\<lparr> last_fast_connect_ns := mono_ns a \<rparr>)) a"
  obtain ok b where b: "avb_send_acmp_command acmp_msg_type_connect_tx_command (probe j a1) True a1 = (ok, b)" by (rule prod.exhaust)
  have bf: "known_talkers b = known_talkers a1" "mono_ns b = mono_ns a1" "config_listener b = config_listener a1"
    using b by (auto simp: avb_send_acmp_command_def acmp_net_send_def Let_def avb_add_inflight_command_def split: if_splits)
  note sc = send_command [OF b]
  have uid: "msg_listener_uid (probe j a1) = u16_octets (of_nat j)" by (simp add: probe_def)
  have bi: "set (inflight_commands b) \<subseteq> set (inflight_commands a1) \<union> {e. msg_listener_uid (if_command e) = u16_octets (of_nat j)}"
    by (auto simp: sc(4) avb_add_inflight_command_def uid)
  have "fast_connect_turn j a = a \<or> fast_connect_turn j a = snd (avb_fast_connect_listener j a1)"
    by (simp add: fast_connect_turn_def Let_def a1_def)
  with fast_connect_cases [OF b] consider "fast_connect_turn j a = a" | "fast_connect_turn j a = a1" | "fast_connect_turn j a = b"
    | "fast_connect_turn j a = upd_core (upd_input j (\<lambda>t. t\<lparr> pending_connection := True \<rparr>)) b" by metis
  note cases = this
  show "length (input_streams (core (fast_connect_turn j a))) = length (input_streams (core a))"
    by (rule cases) (simp_all add: sc(1) upd_input_nth a1_def)
  show "input_stream (fast_connect_turn j a) k = input_stream a k" if "k \<noteq> j" "k < length (input_streams (core a))"
    by (rule cases) (use that in \<open>simp_all add: sc(1) upd_input_nth a1_def\<close>)
  show "known_talkers (fast_connect_turn j a) = known_talkers a"
    by (rule cases) (simp_all add: bf sc(2) a1_def)
  show "mono_ns (fast_connect_turn j a) = mono_ns a"
    by (rule cases) (simp_all add: bf sc(2) a1_def)
  show "own_entity_id (fast_connect_turn j a) = own_entity_id a"
    by (rule cases) (simp_all add: bf sc(2) a1_def)
  show "config_listener (fast_connect_turn j a) = config_listener a"
    by (rule cases) (simp_all add: bf sc(2) a1_def)
  show "\<exists>new. acmp_sent (fast_connect_turn j a) = acmp_sent a @ new \<and> (\<forall>(c, n) \<in> set new. msg_listener_uid c = u16_octets (of_nat j))"
  proof -
    obtain x where x: "acmp_sent b = acmp_sent a @ [(x, 96)]" "msg_listener_uid x = u16_octets (of_nat j)"
      using sc(3) uid by (auto simp: a1_def)
    show ?thesis by (rule cases) (use x in \<open>simp_all add: a1_def\<close>)
  qed
  show "set (inflight_commands (fast_connect_turn j a)) \<subseteq> set (inflight_commands a)
      \<union> {e. msg_listener_uid (if_command e) = u16_octets (of_nat j)}"
    by (rule cases) (use bi in \<open>auto simp: a1_def\<close>)
qed

text \<open>When a probe goes out.\<close>

definition probe_due :: "nat \<Rightarrow> atdecc_state \<Rightarrow> bool" where
  "probe_due i a \<longleftrightarrow> talker_id (input_stream a i) \<noteq> zeros 8 \<and> talker_id (input_stream a i) \<in> set (known_talkers a)
     \<and> (ls_connected (input_stream a i) \<longrightarrow> provisional (input_stream a i))
     \<and> (last_fast_connect_ns (input_stream a i) div 1000000000 = 0
        \<or> (mono_ns a - last_fast_connect_ns (input_stream a i)) div 1000000 \<ge> AVB_FAST_CONNECT_RETRY_MSEC)"

lemma fast_connect_turn_sends:
  assumes "i < length (input_streams (core a))" and "probe_due i a" and "\<not> pending_connection (input_stream a i)"
  shows "\<exists>c. acmp_sent (fast_connect_turn i a) = acmp_sent a @ [(c, 96)] \<and> msg_type c = acmp_msg_type_connect_tx_command
      \<and> talker_entity_id c = talker_id (input_stream a i) \<and> msg_listener_uid c = u16_octets (of_nat i)"
proof -
  define a1 where "a1 = upd_core (upd_input i (\<lambda>t. t\<lparr> last_fast_connect_ns := mono_ns a \<rparr>)) a"
  obtain ok b where b: "avb_send_acmp_command acmp_msg_type_connect_tx_command (probe i a1) True a1 = (ok, b)" by (rule prod.exhaust)
  have i1: "input_stream a1 i = (input_stream a i)\<lparr> last_fast_connect_ns := mono_ns a \<rparr>"
    using assms(1) by (simp add: a1_def upd_input_nth)
  have k1: "known_talkers a1 = known_talkers a" by (simp add: a1_def)
  have known: "first_index (\<lambda>k. known_talkers a1 ! k = talker_id (input_stream a1 i)) (length (known_talkers a1)) \<noteq> None"
    using assms(2) by (auto simp: k1 i1 probe_due_def first_index_None in_set_conv_nth)
  have "avb_fast_connect_listener i a1 = (if \<not> ok then (False, b)
      else (True, upd_core (upd_input i (\<lambda>t. t\<lparr> pending_connection := True \<rparr>)) b))"
  proof -
    have c: "(talker_id (input_stream a1 i) = zeros 8) = False"
      "(ls_connected (input_stream a1 i) \<and> \<not> provisional (input_stream a1 i) \<or> pending_connection (input_stream a1 i)) = False"
      "(first_index (\<lambda>k. known_talkers a1 ! k = talker_id (input_stream a1 i)) (length (known_talkers a1)) = None) = False"
      using assms(2,3) known by (auto simp: i1 probe_due_def)
    show ?thesis unfolding avb_fast_connect_listener_def Let_def probe_def [symmetric] b prod.case c if_False by (rule refl)
  qed
  moreover have "fast_connect_turn i a = snd (avb_fast_connect_listener i a1)"
    using assms(2,3) by (auto simp: fast_connect_turn_def Let_def a1_def probe_due_def)
  ultimately have "acmp_sent (fast_connect_turn i a) = acmp_sent b" by simp
  then show ?thesis using send_command(3) [OF b] by (simp add: probe_def i1) (simp add: a1_def)
qed

lemma u16_octets_inj:
  assumes "u16_octets (of_nat i) = u16_octets (of_nat j)" and "i < 65536" and "j < 65536"
  shows "i = j"
proof -
  from assms(1) have "(of_nat i :: u16) = of_nat j" by (metis octets_u16_inverse)
  then have "unat (of_nat i :: u16) = unat (of_nat j :: u16)" by simp
  with assms(2,3) show ?thesis by (simp add: unat_of_nat)
qed

text \<open>The probes of all inputs.\<close>

definition probing :: "atdecc_state \<Rightarrow> nat \<Rightarrow> nat set" where
  "probing a n = {j. j < n \<and> \<not> pending_connection (input_stream a j)}"

definition probes_post :: "nat \<Rightarrow> atdecc_state \<Rightarrow> atdecc_state \<Rightarrow> bool" where
  "probes_post n a b \<longleftrightarrow> length (input_streams (core b)) = length (input_streams (core a))
    \<and> known_talkers b = known_talkers a \<and> mono_ns b = mono_ns a \<and> own_entity_id b = own_entity_id a
    \<and> config_listener b = config_listener a
    \<and> (\<forall>k < length (input_streams (core a)). k \<notin> probing a n \<longrightarrow> input_stream b k = input_stream a k)
    \<and> (\<exists>new. acmp_sent b = acmp_sent a @ new \<and> (\<forall>x \<in> set new. msg_listener_uid (fst x) \<in> (\<lambda>j. u16_octets (of_nat j)) ` probing a n))
    \<and> (\<forall>e \<in> set (inflight_commands b). e \<in> set (inflight_commands a) \<or> waiting_input e \<in> probing a n)"

lemma probes_frame:
  assumes "n \<le> length (input_streams (core a))" and "n \<le> 65536"
  shows "probes_post n a (foreach n fast_connect_turn a)"
  using assms
proof (induction n)
  case 0
  show ?case by (simp add: probes_post_def)
next
  case (Suc n)
  let ?b = "foreach n fast_connect_turn a" and ?c = "foreach (Suc n) fast_connect_turn a"
  have ih: "probes_post n a ?b" using Suc by simp
  have n: "n < length (input_streams (core ?b))" using Suc.prems ih by (simp add: probes_post_def)
  have c: "?c = fast_connect_turn n ?b" by (simp add: foreach_Suc)
  note fr = fast_connect_turn_frame [OF n, folded c]
  have bn: "input_stream ?b n = input_stream a n" using ih Suc.prems by (simp add: probes_post_def probing_def)
  show ?case
  proof (cases "pending_connection (input_stream a n)")
    case True
    then have "?c = ?b" using fr(9) bn by simp
    moreover have "probing a (Suc n) = probing a n" using True by (auto simp: probing_def less_Suc_eq)
    ultimately show ?thesis using ih by (simp add: probes_post_def)
  next
    case False
    then have p: "probing a (Suc n) = insert n (probing a n)" by (auto simp: probing_def less_Suc_eq)
    obtain new where new: "acmp_sent ?b = acmp_sent a @ new"
      "\<forall>x \<in> set new. msg_listener_uid (fst x) \<in> (\<lambda>j. u16_octets (of_nat j)) ` probing a n"
      using ih by (auto simp: probes_post_def)
    obtain new' where new': "acmp_sent ?c = acmp_sent ?b @ new'" "\<forall>x \<in> set new'. msg_listener_uid (fst x) = u16_octets (of_nat n)"
      using fr(7) unfolding split_beta by auto
    have s: "acmp_sent ?c = acmp_sent a @ (new @ new')" using new(1) new'(1) by simp
    have sp: "\<forall>x \<in> set (new @ new'). msg_listener_uid (fst x) \<in> (\<lambda>j. u16_octets (of_nat j)) ` probing a (Suc n)"
      using new(2) new'(2) by (auto simp: p)
    have w: "waiting_input e = n" if "msg_listener_uid (if_command e) = u16_octets (of_nat n)" for e
      using that Suc.prems(2) by (simp add: waiting_input_def unat_of_nat)
    have fl: "\<forall>e \<in> set (inflight_commands ?c). e \<in> set (inflight_commands a) \<or> waiting_input e \<in> probing a (Suc n)"
    proof
      fix e assume "e \<in> set (inflight_commands ?c)"
      then have "e \<in> set (inflight_commands ?b) \<or> waiting_input e = n" using fr(8) w by auto
      then show "e \<in> set (inflight_commands a) \<or> waiting_input e \<in> probing a (Suc n)"
        using ih by (auto simp: probes_post_def p)
    qed
    have st: "input_stream ?c k = input_stream a k" if "k < length (input_streams (core a))" "k \<notin> probing a (Suc n)" for k
      using fr(2) [of k] ih that by (auto simp: probes_post_def p)
    show ?thesis unfolding probes_post_def
      using s sp fl st fr(1,3-6) ih by (auto simp: probes_post_def simp del: foreach_Suc)
  qed
qed

text \<open>The demotion touches neither messages nor the wait.\<close>

lemma demote_frame:
  fixes a :: atdecc_state and rx :: "nat \<Rightarrow> int"
  defines "b \<equiv> (\<lambda>n. foreach n (demote_turn rx) a)"
  shows "acmp_sent (b n) = acmp_sent a" and "inflight_commands (b n) = inflight_commands a"
    and "length (input_streams (core (b n))) = length (input_streams (core a))"
    and "output_streams (core (b n)) = output_streams (core a)" and "own_entity_id (b n) = own_entity_id a"
    and "k < length (input_streams (core a)) \<Longrightarrow>
      pending_connection (input_stream (b n) k) = pending_connection (input_stream a k)"
proof -
  have t: "acmp_sent (demote_turn rx i c) = acmp_sent c" "inflight_commands (demote_turn rx i c) = inflight_commands c"
    "length (input_streams (core (demote_turn rx i c))) = length (input_streams (core c))"
    "output_streams (core (demote_turn rx i c)) = output_streams (core c)" "own_entity_id (demote_turn rx i c) = own_entity_id c" for i c
    by (simp_all add: demote_turn_def Let_def upd_input_nth)
  show "acmp_sent (b n) = acmp_sent a" "inflight_commands (b n) = inflight_commands a"
    "output_streams (core (b n)) = output_streams (core a)" "own_entity_id (b n) = own_entity_id a"
    and l: "length (input_streams (core (b n))) = length (input_streams (core a))"
    unfolding b_def by (rule foreach_frame, rule t)+
  have p: "pending_connection (input_stream (demote_turn rx i c) k) = pending_connection (input_stream c k)"
    if "k < length (input_streams (core c))" for i c
    using that by (cases "i = k") (simp_all add: demote_turn_def Let_def upd_input_nth)
  show "pending_connection (input_stream (b n) k) = pending_connection (input_stream a k)"
    if "k < length (input_streams (core a))"
  proof (induction n)
    case (Suc n)
    have "length (input_streams (core (b n))) = length (input_streams (core a))"
      unfolding b_def by (rule foreach_frame, rule t)
    with that Suc p show ?case by (simp add: b_def foreach_Suc)
  qed (simp add: b_def)
qed

lemma periodic_stages:
  assumes "config_listener a" and "config_listener (avb_process_inflight_timeouts a)"
  defines "w \<equiv> avb_process_inflight_timeouts a"
  defines "p \<equiv> foreach (length (input_streams (core w))) fast_connect_turn w"
  shows "acmp_periodic rx a = foreach (length (input_streams (core p))) (demote_turn rx) p"
  using assms by (simp add: acmp_periodic_def Let_def avb_periodic_fast_connect_def)


definition probing_node :: atdecc_state where
  "probing_node = (atdecc_zero ((state_zero end_station)\<lparr> input_streams :=
       [listener_stream_zero\<lparr> talker_id := replicate 8 7, pending_connection := True \<rparr>] \<rparr>))
     \<lparr> known_talkers := [replicate 8 7],
        inflight_commands := [\<lparr> if_timeout = \<lparr> tv_sec = 0, tv_usec = 0 \<rparr>, if_retried = False, if_acmp_seq_id = 0,
          if_command = acmp_message_zero, if_inbound = False \<rparr>] \<rparr>"

lemma u16_zeros: "octets_u16 (zeros 2) = 0"
  by (simp add: octets_u16_def) code_simp


section \<open>A binding that is never probed again\<close>

record acmp_env =
  env_wall :: timeval
  env_now_us :: int
  env_mono_ns :: int
  env_known :: "octets list"
  env_last_rx :: "nat \<Rightarrow> int"

text \<open>A periodic run at a later time, with the talkers known then.\<close>

definition acmp_idle :: "acmp_env \<Rightarrow> atdecc_state \<Rightarrow> atdecc_state" where
  "acmp_idle v a = acmp_periodic (env_last_rx v)
     (upd_core (\<lambda>s. s\<lparr> now_us := env_now_us v \<rparr>)
        (a\<lparr> wall_clock := env_wall v, mono_ns := env_mono_ns v, known_talkers := env_known v \<rparr>))"

text \<open>An input that waits for an answer no command in flight can bring.\<close>

definition stuck :: "nat \<Rightarrow> atdecc_state \<Rightarrow> bool" where
  "stuck i a \<longleftrightarrow> i < length (input_streams (core a)) \<and> length (input_streams (core a)) \<le> 65536
     \<and> pending_connection (input_stream a i) \<and> (\<forall>e \<in> set (inflight_commands a). waiting_input e \<noteq> i) \<and> acmp_inv a"

lemma inflight_walk_rule:
  assumes "acmp_inv a" and "Q a"
    and "\<And>e b. \<lbrakk>acmp_inv b; Q b; e \<in> set (inflight_commands b)\<rbrakk> \<Longrightarrow>
      Q (avb_remove_inflight_command (if_acmp_seq_id e) False (give_up e b))"
  shows "acmp_inv (inflight_walk i a) \<and> Q (inflight_walk i a)"
  using assms(1,2)
proof (induction i a rule: inflight_walk.induct)
  case (1 i a)
  let ?e = "inflight_commands a ! i"
  consider "i \<ge> length (inflight_commands a)" | "i < length (inflight_commands a)" "\<not> expired a ?e"
    | "i < length (inflight_commands a)" "expired a ?e" by linarith
  then show ?case
  proof cases
    case 3
    let ?b = "avb_remove_inflight_command (if_acmp_seq_id ?e) False (give_up ?e a)"
    have e: "?e \<in> set (inflight_commands a)" using 3 by simp
    have ok: "inflight_ok a" using "1.prems"(1) by (simp add: acmp_inv_def)
    have "acmp_inv ?b" using "1.prems"(1) by (intro inv_remove inv_give_up)
    moreover have "Q ?b" using assms(3) [OF "1.prems" e] .
    moreover have "inflight_walk i a = inflight_walk i ?b"
      using 3 expire_step [OF ok e] by (subst inflight_walk.simps) (simp add: expired_def)
    ultimately show ?thesis using "1.IH"(2) 3 expire_step [OF ok e] by (simp add: expired_def)
  next
    case 2
    have "inflight_walk i a = inflight_walk (Suc i) a"
      using 2 by (subst inflight_walk.simps) (simp add: expired_def)
    then show ?thesis using "1.IH"(1) "1.prems" 2 by (simp add: expired_def)
  next
    case 1
    then have "inflight_walk i a = a" by (subst inflight_walk.simps) simp
    then show ?thesis using "1.prems" by simp
  qed
qed

lemma stuck_walk:
  assumes "stuck i a"
  defines "w \<equiv> avb_process_inflight_timeouts a"
  shows "stuck i w \<and> acmp_sent w = acmp_sent a \<and> input_stream w i = input_stream a i \<and> config_listener w = config_listener a"
proof -
  let ?Q = "\<lambda>b. (\<forall>e \<in> set (inflight_commands b). waiting_input e \<noteq> i) \<and> acmp_sent b = acmp_sent a
    \<and> length (input_streams (core b)) = length (input_streams (core a)) \<and> input_stream b i = input_stream a i
    \<and> config_listener b = config_listener a"
  have i: "i < length (input_streams (core a))" and ok: "acmp_inv a" using assms(1) by (simp_all add: stuck_def)
  have "acmp_inv w \<and> ?Q w" unfolding w_def avb_process_inflight_timeouts_def
  proof (rule inflight_walk_rule [OF ok])
    show "?Q a" using assms(1) by (simp add: stuck_def)
    fix e b assume b: "acmp_inv b" "?Q b" "e \<in> set (inflight_commands b)"
    have "config_listener (avb_remove_inflight_command (if_acmp_seq_id e) False (give_up e b)) = config_listener b"
      by (simp add: avb_remove_inflight_command_def give_up_def split: option.split)
    then show "?Q (avb_remove_inflight_command (if_acmp_seq_id e) False (give_up e b))"
      using b give_up_input(3) [of i b e] i remove_inflight_subset [of "if_acmp_seq_id e" False "give_up e b"] by auto
  qed
  with assms(1) show ?thesis by (auto simp: stuck_def)
qed

lemma inv_turn: "acmp_inv a \<Longrightarrow> acmp_inv (fast_connect_turn j a)"
proof -
  assume a: "acmp_inv a"
  define a1 where "a1 = upd_core (upd_input j (\<lambda>t. t\<lparr> last_fast_connect_ns := mono_ns a \<rparr>)) a"
  obtain ok b where b: "avb_send_acmp_command acmp_msg_type_connect_tx_command (probe j a1) True a1 = (ok, b)" by (rule prod.exhaust)
  have a1: "acmp_inv a1" unfolding a1_def using a by (rule inv_core) simp
  then have ib: "acmp_inv b" by (rule inv_command [OF _ _ b]) simp
  then have "acmp_inv (upd_core (upd_input j (\<lambda>t. t\<lparr> pending_connection := True \<rparr>)) b)" by (rule inv_core) simp
  moreover have "fast_connect_turn j a = a \<or> fast_connect_turn j a = snd (avb_fast_connect_listener j a1)"
    by (simp add: fast_connect_turn_def Let_def a1_def)
  ultimately show ?thesis using fast_connect_cases [OF b] a a1 ib by metis
qed

lemma inv_probes: "acmp_inv a \<Longrightarrow> acmp_inv (foreach n fast_connect_turn a)"
  by (rule foreach_invariant) (use inv_turn in auto)

lemma inv_demote: "acmp_inv a \<Longrightarrow> acmp_inv (foreach n (demote_turn rx) a)"
  by (erule inv_view) (simp_all add: demote_frame)

lemma inv_timeouts: "acmp_inv a \<Longrightarrow> acmp_inv (avb_process_inflight_timeouts a)"
  using inflight_walk_rule [of a "\<lambda>_. True" 0] by (simp add: avb_process_inflight_timeouts_def)

lemma inv_periodic: "acmp_inv a \<Longrightarrow> acmp_inv (acmp_periodic rx a)"
  by (simp add: acmp_periodic_def Let_def avb_periodic_fast_connect_def inv_timeouts inv_probes inv_demote)

lemma stuck_periodic:
  assumes "stuck i a"
  shows "stuck i (acmp_periodic rx a) \<and> (\<exists>new. acmp_sent (acmp_periodic rx a) = acmp_sent a @ new
    \<and> (\<forall>x \<in> set new. msg_listener_uid (fst x) \<noteq> u16_octets (of_nat i)))"
proof -
  define w where "w = avb_process_inflight_timeouts a"
  have w: "stuck i w" "acmp_sent w = acmp_sent a" "config_listener w = config_listener a"
    using stuck_walk [OF assms] by (simp_all add: w_def)
  show ?thesis
  proof (cases "config_listener a")
    case False
    then show ?thesis using w by (simp add: acmp_periodic_def Let_def w_def [symmetric])
  next
    case True
    let ?n = "length (input_streams (core w))"
    define p where "p = foreach ?n fast_connect_turn w"
    have n: "i < ?n" "?n \<le> 65536" and pend: "pending_connection (input_stream w i)" using w(1) by (simp_all add: stuck_def)
    have post: "probes_post ?n w p" unfolding p_def by (rule probes_frame) (use n in auto)
    have np: "i \<notin> probing w ?n" using pend by (simp add: probing_def)
    obtain new where new: "acmp_sent p = acmp_sent w @ new"
      "\<forall>x \<in> set new. msg_listener_uid (fst x) \<in> (\<lambda>j. u16_octets (of_nat j)) ` probing w ?n"
      using post by (auto simp: probes_post_def)
    have "\<forall>x \<in> set new. msg_listener_uid (fst x) \<noteq> u16_octets (of_nat i)"
    proof
      fix x assume "x \<in> set new"
      with new(2) obtain j where j: "msg_listener_uid (fst x) = u16_octets (of_nat j)" "j \<in> probing w ?n" by auto
      then have "j < 65536" "j \<noteq> i" using n np by (auto simp: probing_def)
      then show "msg_listener_uid (fst x) \<noteq> u16_octets (of_nat i)"
        using u16_octets_inj [of j i] n j(1) by auto
    qed
    moreover have "stuck i p" using post w(1) np n inv_probes [of w ?n]
      by (auto simp: stuck_def probes_post_def p_def)
    moreover have e: "acmp_periodic rx a = foreach (length (input_streams (core p))) (demote_turn rx) p"
      using periodic_stages [of a rx] True w(3) by (simp add: w_def p_def)
    ultimately show ?thesis using new(1) w(2) inv_demote [of p]
      by (auto simp: e demote_frame stuck_def)
  qed
qed

lemma stuck_idle:
  assumes "stuck i a"
  shows "stuck i (acmp_idle v a) \<and> (\<exists>new. acmp_sent (acmp_idle v a) = acmp_sent a @ new
    \<and> (\<forall>x \<in> set new. msg_listener_uid (fst x) \<noteq> u16_octets (of_nat i)))"
proof -
  let ?a = "upd_core (\<lambda>s. s\<lparr> now_us := env_now_us v \<rparr>)
      (a\<lparr> wall_clock := env_wall v, mono_ns := env_mono_ns v, known_talkers := env_known v \<rparr>)"
  have "acmp_inv a" using assms by (simp add: stuck_def)
  then have "acmp_inv ?a" by (rule inv_view) simp_all
  with assms have "stuck i ?a" by (simp add: stuck_def)
  from stuck_periodic [OF this] show ?thesis by (simp add: acmp_idle_def)
qed

lemma stuck_idles:
  assumes "stuck i b"
  shows "stuck i (fold acmp_idle envs b) \<and> (\<exists>new. acmp_sent (fold acmp_idle envs b) = acmp_sent b @ new
    \<and> (\<forall>x \<in> set new. msg_listener_uid (fst x) \<noteq> u16_octets (of_nat i)))"
  using assms
proof (induction envs arbitrary: b)
  case (Cons v envs)
  from stuck_idle [OF Cons.prems, of v] obtain new where n: "stuck i (acmp_idle v b)"
    "acmp_sent (acmp_idle v b) = acmp_sent b @ new" "\<forall>x \<in> set new. msg_listener_uid (fst x) \<noteq> u16_octets (of_nat i)" by blast
  from Cons.IH [OF n(1)] obtain new' where n': "stuck i (fold acmp_idle envs (acmp_idle v b))"
    "acmp_sent (fold acmp_idle envs (acmp_idle v b)) = acmp_sent (acmp_idle v b) @ new'"
    "\<forall>x \<in> set new'. msg_listener_uid (fst x) \<noteq> u16_octets (of_nat i)" by blast
  show ?case using n n' by (intro conjI exI [of _ "new @ new'"]) auto
qed simp

lemma bind_makes_stuck:
  assumes "acmp_inv a" and "length (input_streams (core a)) \<le> 65536"
    and "avb_process_aecp_cmd_mvu_bind_stream c False a = (bind_success, b)"
    and "\<forall>e \<in> set (inflight_commands a). waiting_input e \<noteq> unat (mb_descriptor_index c)"
  shows "stuck (unat (mb_descriptor_index c)) b"
proof -
  let ?i = "unat (mb_descriptor_index c)"
  let ?m = "mvu_synth c (mb_talker_entity_id c) (mb_talker_stream_index c) a"
  define a1 where "a1 = upd_core (upd_input ?i (\<lambda>t. t\<lparr> streaming_wait := (mb_flags c AND 1 \<noteq> 0) \<rparr>)) a"
  have v: "mb_stream_input c" "?i < length (input_streams (core a))"
    using assms(3) by (auto simp: avb_process_aecp_cmd_mvu_bind_stream_def Let_def avb_valid_listener_uid_def split: if_splits)
  obtain ok e where e: "avb_process_acmp_connect_rx_command ?m False True a1 = (ok, e)" by (rule prod.exhaust)
  have u: "octets_u16 (msg_listener_uid ?m) = mb_descriptor_index c" by (simp add: mvu_synth_def)
  have b: "(bind_success, b) = (if ok then (bind_success, persist_append True ?i (snd (avb_send_listener_talker_command ?m False True e)))
      else (bind_bad_arguments, persist_append True ?i e))"
    using assms(3) v e by (cases ok) (simp_all add: avb_process_aecp_cmd_mvu_bind_stream_def Let_def a1_def avb_valid_listener_uid_def)
  then have ok: ok by (auto split: if_splits)
  have e1: "e = upd_core (upd_input ?i (\<lambda>t. t\<lparr> talker_id := talker_entity_id ?m, talker_uid := msg_talker_uid ?m,
      controller_id := controller_entity_id ?m, pending_connection := True \<rparr>)) a1"
    using e ok unfolding avb_process_acmp_connect_rx_command_def Let_def u
    by (simp split: if_splits)
  obtain t f where s: "avb_send_listener_talker_command ?m False True e = (t, f)" by (rule prod.exhaust)
  obtain cmd where sc: "avb_send_acmp_command acmp_msg_type_connect_tx_command cmd False e = (t, f)"
    using s by (auto simp: avb_send_listener_talker_command_def Let_def)
  have f: "core f = core e" "inflight_commands f = inflight_commands e" using send_command [OF sc] by simp_all
  have bf: "b = persist_append True ?i f" using b ok s by simp
  have "acmp_inv b" using inv_bind [OF assms(1), of c False] assms(3) by simp
  then show ?thesis using v(2) assms(2,4) by (simp add: stuck_def bf f e1 a1_def upd_input_nth)
qed

text \<open>C38. A binding made by BIND_STREAM is probed once: the CONNECT_TX it sends is not tracked, so
  when no answer comes nothing ever ends the input's wait, and however long one waits, and whatever
  talkers are discovered, no further CONNECT_TX goes out for it.\<close>

theorem bind_probed_once:
  fixes a b :: atdecc_state and envs :: "acmp_env list"
  assumes "acmp_inv a" and "length (input_streams (core a)) \<le> 65536"
    and "avb_process_aecp_cmd_mvu_bind_stream c False a = (bind_success, b)"
    and "\<forall>e \<in> set (inflight_commands a). waiting_input e \<noteq> unat (mb_descriptor_index c)"
  shows "pending_connection (input_stream (fold acmp_idle envs b) (unat (mb_descriptor_index c)))
    \<and> (\<forall>x \<in> set (drop (length (acmp_sent b)) (acmp_sent (fold acmp_idle envs b))).
         msg_listener_uid (fst x) \<noteq> u16_octets (mb_descriptor_index c))"
proof -
  from stuck_idles [OF bind_makes_stuck [OF assms], of envs] obtain new where
    "stuck (unat (mb_descriptor_index c)) (fold acmp_idle envs b)" "acmp_sent (fold acmp_idle envs b) = acmp_sent b @ new"
    "\<forall>x \<in> set new. msg_listener_uid (fst x) \<noteq> u16_octets (mb_descriptor_index c)" by auto
  then show ?thesis by (simp add: stuck_def)
qed

definition bind_request :: mvu_bind_cmd where
  "bind_request = \<lparr> mb_stream_input = True, mb_descriptor_index = 0, mb_controller_entity_id = replicate 8 9,
     mb_talker_entity_id = replicate 8 7, mb_talker_stream_index = zeros 2, mb_flags = 0 \<rparr>"

text \<open>An hour later the talker is known.\<close>

definition acmp_hour :: acmp_env where
  "acmp_hour = \<lparr> env_wall = \<lparr> tv_sec = 3600, tv_usec = 0 \<rparr>, env_now_us = 3600000000, env_mono_ns = 3600000000000,
     env_known = [replicate 8 7], env_last_rx = (\<lambda>_. 0) \<rparr>"

lemma listener_node_inv: "acmp_inv listener_node"
  by (simp add: acmp_inv_def streams_ok_def inflight_ok_def no_timeout_answer_def listener_node_def atdecc_zero_def
      state_zero_def)

theorem bind_probed_once_witness:
  "pending_connection (input_stream (fold acmp_idle [acmp_hour] (snd (avb_process_aecp_cmd_mvu_bind_stream bind_request False listener_node))) 0)"
proof -
  have "fst (avb_process_aecp_cmd_mvu_bind_stream bind_request False listener_node) = bind_success"
    by (simp add: avb_process_aecp_cmd_mvu_bind_stream_def bind_request_def Let_def mvu_synth_def
        avb_process_acmp_connect_rx_command_def avb_valid_listener_uid_def avb_acquired_or_locked_by_other_def
        listener_node_def atdecc_zero_def upd_core_def upd_input_def upd_at_def listener_stream_zero_def)
  then have "avb_process_aecp_cmd_mvu_bind_stream bind_request False listener_node
      = (bind_success, snd (avb_process_aecp_cmd_mvu_bind_stream bind_request False listener_node))"
    by (metis prod.collapse)
  from bind_probed_once [OF listener_node_inv _ this, of "[acmp_hour]"] show ?thesis
    by (simp add: listener_node_def atdecc_zero_def bind_request_def)
qed

section \<open>Runs\<close>

datatype acmp_event =
    received acmp_message_s
  | idle acmp_env
  | bound mvu_bind_cmd bool

primrec acmp_step :: "acmp_event \<Rightarrow> atdecc_state \<Rightarrow> atdecc_state option" where
  "acmp_step (received m) a = avb_process_acmp m a"
| "acmp_step (idle v) a = Some (acmp_idle v a)"
| "acmp_step (bound c unbind) a = Some (snd (avb_process_aecp_cmd_mvu_bind_stream c unbind a))"

primrec acmp_run :: "acmp_event list \<Rightarrow> atdecc_state \<Rightarrow> atdecc_state option" where
  "acmp_run [] a = Some a"
| "acmp_run (v # vs) a = (case acmp_step v a of None \<Rightarrow> None | Some b \<Rightarrow> acmp_run vs b)"

text \<open>C10. Over any run of messages, bindings and periodic runs, the rows of every output stream stay
  a set of at most ten listeners, at most twenty commands are in flight, each of them a CONNECT_TX of
  this station's own, and no controller is ever told that a talker timed out.\<close>

theorem acmp_invariant:
  assumes "acmp_inv a" and "acmp_run vs a = Some b"
  shows "acmp_inv b"
  using assms
proof (induction vs arbitrary: a)
  case (Cons v vs)
  then obtain c where c: "acmp_step v a = Some c" "acmp_run vs c = Some b" by (auto split: option.splits)
  have "acmp_inv c"
  proof (cases v)
    case (received m)
    then show ?thesis using c(1) inv_process [OF Cons.prems(1)] by simp
  next
    case (idle e)
    have "acmp_inv (upd_core (\<lambda>s. s\<lparr> now_us := env_now_us e \<rparr>)
        (a\<lparr> wall_clock := env_wall e, mono_ns := env_mono_ns e, known_talkers := env_known e \<rparr>))"
      using Cons.prems(1) by (rule inv_view) simp_all
    then show ?thesis using c(1) idle inv_periodic by (auto simp: acmp_idle_def)
  next
    case (bound d u)
    then show ?thesis using c(1) inv_bind [OF Cons.prems(1), of d u] by auto
  qed
  then show ?case using Cons.IH c(2) by blast
qed simp

theorem acmp_invariant_witness:
  "\<exists>b. acmp_run [received connect_request] listener_node = Some b \<and> acmp_inv b"
proof -
  have "acmp_process \<noteq> None" if "acmp_process = avb_process_acmp connect_request listener_node" for acmp_process
    unfolding that by (simp add: avb_process_acmp_def acmp_dispatch_def connect_request_def listener_node_def
        atdecc_zero_def state_zero_def end_station_def)
  then obtain b where "acmp_run [received connect_request] listener_node = Some b" by auto
  with acmp_invariant [OF listener_node_inv this] show ?thesis by blast
qed

end
