(* ===== verification/Formats.thy ===== *)
theory Formats
  imports Acmp_Talker
begin

text \<open>
  Stream formats (\<open>avb.c\<close>, \<open>avb.h\<close>): the formats built for the supported sample rates, and the
  checks a saved or requested format goes through.  A format is its eight octets.
\<close>

section \<open>Sample rates\<close>

definition avb_cip_sfc_from_hz :: "u32 \<Rightarrow> u8" where
  "avb_cip_sfc_from_hz hz =
     (if hz = 32000 then 0 else if hz = 44100 then 1 else if hz = 48000 then 2 else if hz = 88200 then 3
      else if hz = 96000 then 4 else if hz = 176400 then 5 else if hz = 192000 then 6 else 2)"

definition avb_aaf_rate_from_hz :: "u32 \<Rightarrow> u8" where
  "avb_aaf_rate_from_hz hz =
     (if hz = 8000 then 1 else if hz = 16000 then 2 else if hz = 24000 then 10 else if hz = 32000 then 3
      else if hz = 44100 then 4 else if hz = 48000 then 5 else if hz = 88200 then 6 else if hz = 96000 then 7
      else if hz = 176400 then 8 else if hz = 192000 then 9 else 5)"

definition avb_samples_per_frame_from_hz :: "u32 \<Rightarrow> nat" where
  "avb_samples_per_frame_from_hz hz =
     (if hz = 88200 \<or> hz = 96000 then 12 else if hz = 176400 \<or> hz = 192000 then 24 else 6)"

definition avb_class_b_samples_per_frame :: "u32 \<Rightarrow> nat" where
  "avb_class_b_samples_per_frame hz =
     (if hz = 48000 then 12 else if hz = 96000 then 24 else if hz = 192000 then 48 else 0)"

text \<open>A table of rates is the list of its entries.\<close>

definition AEM_MAX_NUM_SAMPLE_RATES :: nat where "AEM_MAX_NUM_SAMPLE_RATES = 10"

definition avb_sample_rate_supported :: "u32 list \<Rightarrow> u32 \<Rightarrow> bool" where
  "avb_sample_rate_supported rates hz \<longleftrightarrow> hz \<in> set (take AEM_MAX_NUM_SAMPLE_RATES rates)"

definition avb_intersect_sample_rates :: "u32 list \<Rightarrow> u32 list \<Rightarrow> u32 list" where
  "avb_intersect_sample_rates xs ys =
     fold (\<lambda>hz out. if avb_sample_rate_supported ys hz \<and> length out < AEM_MAX_NUM_SAMPLE_RATES
                     then out @ [hz] else out)
       (take AEM_MAX_NUM_SAMPLE_RATES xs) []"

section \<open>Formats\<close>

definition AVB_AAF_MAX_PAYLOAD :: nat where "AVB_AAF_MAX_PAYLOAD = 1500 - 24"
definition AEM_MAX_NUM_FORMATS :: nat where "AEM_MAX_NUM_FORMATS = 35"

definition AVB_DEFAULT_FORMAT_AM824 :: "u8 \<Rightarrow> u8 \<Rightarrow> octets" where
  "AVB_DEFAULT_FORMAT_AM824 sfc channels = [0, 0xA0, sfc, channels, 0x40, 0, channels, 0]"

definition AVB_DEFAULT_FORMAT_AAF :: "u8 \<Rightarrow> u8 \<Rightarrow> u8 \<Rightarrow> nat \<Rightarrow> octets" where
  "AVB_DEFAULT_FORMAT_AAF bit_depth rate channels spf =
     [2, rate, 2, bit_depth, drop_bit 2 channels,
      push_bit 6 (channels AND 3) OR (of_nat (spf div 16) AND 0x3F), push_bit 4 (of_nat spf AND 0x0F), 0]"

definition avb_add_aaf_format :: "nat \<Rightarrow> u8 \<Rightarrow> u32 \<Rightarrow> u8 \<Rightarrow> nat \<Rightarrow> octets list \<Rightarrow> octets list" where
  "avb_add_aaf_format max_formats bit_depth hz channels spf formats =
     (if spf = 0 \<or> length formats \<ge> max_formats \<or> spf * unat channels * 4 > AVB_AAF_MAX_PAYLOAD then formats
      else formats @ [AVB_DEFAULT_FORMAT_AAF bit_depth (avb_aaf_rate_from_hz hz) channels spf])"

definition add_rate_formats :: "nat \<Rightarrow> u8 \<Rightarrow> u32 \<Rightarrow> octets list \<Rightarrow> octets list" where
  "add_rate_formats max_formats channels hz formats =
     (let depths = (\<lambda>ch spf fs. avb_add_aaf_format max_formats 24 hz ch spf
                                  (avb_add_aaf_format max_formats 32 hz ch spf fs));
          cadences = (\<lambda>ch fs. if ch = 0 then fs
                       else depths ch (avb_class_b_samples_per_frame hz)
                              (depths ch (avb_samples_per_frame_from_hz hz) fs))
      in cadences (if channels > 2 then 2 else 0)
           (cadences channels (formats @ [AVB_DEFAULT_FORMAT_AM824 (avb_cip_sfc_from_hz hz) channels])))"

definition avb_build_audio_formats :: "nat \<Rightarrow> u32 list \<Rightarrow> u8 \<Rightarrow> octets list" where
  "avb_build_audio_formats max_formats sample_rates channels_per_stream =
     fold (\<lambda>hz fs. if length fs < max_formats then add_rate_formats max_formats channels_per_stream hz fs
                    else fs) sample_rates []"

text \<open>The format of a media clock stream does not depend on the audio rate.\<close>

definition avb_crf_format_for_rate :: "u32 \<Rightarrow> octets" where
  "avb_crf_format_for_rate rate =
     (let interval = (48000 div 500 :: u16); freq = (48000 :: u32) in
      [0x04, 0x10 OR (ucast (drop_bit 8 interval) AND 0x0F), ucast interval AND 0xFF, of_nat AVB_CRF_TS_PER_PDU,
       ucast (drop_bit 24 freq) AND 0x1F, ucast (drop_bit 16 freq), ucast (drop_bit 8 freq), ucast freq])"

definition avb_am824_same_but_upto :: "octets \<Rightarrow> octets \<Rightarrow> bool" where
  "avb_am824_same_but_upto requested listed \<longleftrightarrow>
     requested ! 0 AND 0x7f = subtype_61883 \<and> requested ! 0 = listed ! 0
     \<and> (\<forall>i \<in> {1..<8}. let mask = (if i = 4 then NOT 0x20 else 0xff)
          in requested ! i AND mask = listed ! i AND mask)"

definition any_nonzero8 :: "octets \<Rightarrow> bool" where
  "any_nonzero8 b \<longleftrightarrow>
     b ! 0 OR b ! 1 OR b ! 2 OR b ! 3 OR b ! 4 OR b ! 5 OR b ! 6 OR b ! 7 \<noteq> 0"

definition avb_stream_format_rate_hz :: "octets \<Rightarrow> u32" where
  "avb_stream_format_rate_hz f =
     (if fmt_subtype f = subtype_61883 then cip_sfc_to_sample_rate (am824_fdf_sfc f)
      else if fmt_subtype f = subtype_aaf then aaf_code_to_sample_rate (aaf_sample_rate f)
      else 0)"

definition avb_stream_formats_same_family :: "octets \<Rightarrow> octets \<Rightarrow> bool" where
  "avb_stream_formats_same_family one other \<longleftrightarrow>
     (if fmt_subtype one \<noteq> fmt_subtype other then False
      else if fmt_subtype one = subtype_61883 then am824_dbs one = am824_dbs other
      else if fmt_subtype one \<noteq> subtype_aaf then False
      else
        let class_b = (\<lambda>f. aaf_samples_per_frame f =
              avb_class_b_samples_per_frame (aaf_code_to_sample_rate (aaf_sample_rate f)))
        in one ! 2 = other ! 2 \<and> aaf_bit_depth one = aaf_bit_depth other \<and> one ! 4 = other ! 4
           \<and> drop_bit 6 (one ! 5) = drop_bit 6 (other ! 5) \<and> class_b one = class_b other)"

definition avb_stream_format_channels :: "octets \<Rightarrow> nat" where
  "avb_stream_format_channels f =
     (if fmt_subtype f = subtype_61883 then am824_dbs f
      else if fmt_subtype f = subtype_aaf then aaf_channels f else 0)"

section \<open>The formats of this entity\<close>

record audio_state =
  default_sample_rate :: u32
  supported_sample_rates :: "u32 list"
  supported_formats_in :: "octets list"
  supported_formats_out :: "octets list"
  codec_enabled :: bool
  set_rate_ok :: "u32 \<Rightarrow> bool"

definition AVB_DEFAULT_CRF_OUTPUT_INDEX :: nat where "AVB_DEFAULT_CRF_OUTPUT_INDEX = 1"

definition avb_get_crf_output_index :: "atdecc_state \<Rightarrow> nat" where
  "avb_get_crf_output_index a = AVB_DEFAULT_CRF_OUTPUT_INDEX"

definition is_crf_stream :: "atdecc_state \<Rightarrow> bool \<Rightarrow> nat \<Rightarrow> bool" where
  "is_crf_stream a is_output index \<longleftrightarrow>
     \<not> is_output \<and> index = avb_get_crf_input_index a \<or> is_output \<and> index = avb_get_crf_output_index a"

definition supported_formats :: "audio_state \<Rightarrow> bool \<Rightarrow> octets list" where
  "supported_formats au is_output = (if is_output then supported_formats_out au else supported_formats_in au)"

definition avb_persist_stream_format_supported ::
  "audio_state \<Rightarrow> atdecc_state \<Rightarrow> bool \<Rightarrow> nat \<Rightarrow> octets \<Rightarrow> bool" where
  "avb_persist_stream_format_supported au a is_output index format \<longleftrightarrow>
     (if \<not> any_nonzero8 format then False
      else if is_output \<and> index \<ge> length (output_streams (core a))
            \<or> \<not> is_output \<and> index \<ge> length (input_streams (core a)) then False
      else if is_crf_stream a is_output index
      then format = avb_crf_format_for_rate (default_sample_rate au)
      else \<exists>f \<in> set (supported_formats au is_output). format = f \<or> avb_am824_same_but_upto format f)"

text \<open>Both look for the first listed format of a rate and family; a format taken is the listed one.\<close>

definition listed_at_rate :: "octets list \<Rightarrow> u32 \<Rightarrow> octets \<Rightarrow> octets option" where
  "listed_at_rate formats rate_hz format =
     List.find (\<lambda>f. avb_stream_format_rate_hz f = rate_hz \<and> avb_stream_formats_same_family format f) formats"

definition avb_stream_format_at_rate ::
  "audio_state \<Rightarrow> atdecc_state \<Rightarrow> bool \<Rightarrow> nat \<Rightarrow> octets \<Rightarrow> u32 \<Rightarrow> octets option" where
  "avb_stream_format_at_rate au a is_output index format rate_hz =
     (if is_crf_stream a is_output index then Some (avb_crf_format_for_rate rate_hz)
      else if avb_stream_format_rate_hz format = rate_hz then Some format
      else listed_at_rate (supported_formats au is_output) rate_hz format)"

definition avb_persist_normalize_stream_format ::
  "audio_state \<Rightarrow> atdecc_state \<Rightarrow> bool \<Rightarrow> nat \<Rightarrow> octets \<Rightarrow> octets option" where
  "avb_persist_normalize_stream_format au a is_output index format =
     (if \<not> avb_persist_stream_format_supported au a is_output index format then None
      else if is_crf_stream a is_output index then Some format
      else if avb_stream_format_rate_hz format = default_sample_rate au then Some format
      else case listed_at_rate (supported_formats au is_output) (default_sample_rate au) format of
             Some f \<Rightarrow> Some f
           | None \<Rightarrow>
               if \<exists>f \<in> set (supported_formats au is_output).
                    avb_stream_format_rate_hz f = default_sample_rate au
               then None else Some format)"

section \<open>What the formats are\<close>

lemma octet_masks: "(3 :: u8) = mask 2" "(0x0F :: u8) = mask 4" "(0x3F :: u8) = mask 6"
  by (simp_all add: mask_eq_decr_exp)

lemma aaf_octet5:
  "drop_bit 6 (push_bit 6 (c AND 3) OR (w AND 0x3F)) = (c AND 3 :: u8)"
  "(push_bit 6 (c AND 3) OR (w AND 0x3F)) AND 0x3F = (w AND 0x3F :: u8)"
  unfolding octet_masks by (rule bit_word_eqI; auto simp: bit_simps)+

lemma aaf_octet6: "drop_bit 4 (push_bit 4 (w AND 0x0F)) = (w AND 0x0F :: u8)"
  unfolding octet_masks by (rule bit_word_eqI) (auto simp: bit_simps)

lemma channels_split: "unat (drop_bit 2 c) * 4 + unat (c AND 3) = unat (c :: u8)"
proof -
  have "unat (drop_bit 2 c) = unat c div 4" by (simp add: unat_drop_bit_eq) (simp add: drop_bit_eq_div)
  moreover have "unat (c AND 3) = unat c mod 4"
    unfolding octet_masks by (simp add: take_bit_eq_mask [symmetric] unsigned_take_bit_eq) (simp add: take_bit_eq_mod)
  ultimately show ?thesis by simp
qed

lemma aaf_format_fields:
  fixes depth channels rate :: u8
  assumes "spf < 1024" and "rate < 16"
  defines "f \<equiv> AVB_DEFAULT_FORMAT_AAF depth rate channels spf"
  shows "length f = 8" and "fmt_subtype f = subtype_aaf" and "aaf_channels f = unat channels"
    and "aaf_samples_per_frame f = spf" and "aaf_sample_rate f = rate" and "aaf_bit_depth f = unat depth"
proof -
  have 0: "(of_nat n AND mask k :: u8) = of_nat (n mod 2 ^ k)" for k n
    unfolding take_bit_eq_mask [symmetric] take_bit_of_nat by (simp add: take_bit_eq_mod)
  have "(of_nat (spf div 16) AND 0x3F :: u8) = of_nat (spf div 16)" and "(of_nat spf AND 0x0F :: u8) = of_nat (spf mod 16)"
    using 0 [of "spf div 16" 6] 0 [of spf 4] assms(1) by (simp_all add: mask_eq_decr_exp)
  moreover have "unat (of_nat (spf div 16) :: u8) = spf div 16" "unat (of_nat (spf mod 16) :: u8) = spf mod 16"
    using assms(1) by (auto simp: unat_of_nat)
  moreover have f5: "f ! 5 = push_bit 6 (channels AND 3) OR (of_nat (spf div 16) AND 0x3F)"
    and f6: "f ! 6 = push_bit 4 (of_nat spf AND 0x0F)"
    by (simp_all add: f_def AVB_DEFAULT_FORMAT_AAF_def)
  ultimately show "aaf_samples_per_frame f = spf"
    unfolding aaf_samples_per_frame_def f5 f6 aaf_octet5 aaf_octet6 by simp
  have "f ! 4 = drop_bit 2 channels" by (simp add: f_def AVB_DEFAULT_FORMAT_AAF_def)
  then show "aaf_channels f = unat channels"
    unfolding aaf_channels_def f5 aaf_octet5 by (simp add: channels_split)
  have "unat (rate AND 0x0F) = unat rate"
    unfolding octet_masks take_bit_eq_mask [symmetric] unsigned_take_bit_eq
    using assms(2) by (simp add: take_bit_nat_eq_self_iff word_less_nat_alt)
  then have "rate AND 0x0F = rate" by (simp only: unsigned_word_eqI)
  then show "aaf_sample_rate f = rate"
    by (simp add: f_def AVB_DEFAULT_FORMAT_AAF_def aaf_sample_rate_def)
qed (simp_all add: f_def AVB_DEFAULT_FORMAT_AAF_def fmt_subtype_def subtype_aaf_def aaf_bit_depth_def)


definition audio_rates :: "u32 set" where
  "audio_rates = {32000, 44100, 48000, 88200, 96000, 176400, 192000}"

lemma rate_codes:
  assumes "hz \<in> audio_rates"
  shows "cip_sfc_to_sample_rate (avb_cip_sfc_from_hz hz AND 7) = hz"
    and "aaf_code_to_sample_rate (avb_aaf_rate_from_hz hz) = hz" and "avb_aaf_rate_from_hz hz < 16"
  using assms by (auto simp: audio_rates_def cip_sfc_to_sample_rate_def avb_cip_sfc_from_hz_def
      aaf_code_to_sample_rate_def avb_aaf_rate_from_hz_def)

text \<open>What a listed format is: at one of the rates, with the given channels, in frames that fit.\<close>

definition listed_format :: "u32 set \<Rightarrow> u8 \<Rightarrow> octets \<Rightarrow> bool" where
  "listed_format rates channels f \<longleftrightarrow>
     length f = 8 \<and> avb_stream_format_rate_hz f \<in> rates
     \<and> avb_stream_format_channels f \<in> {unat channels, 2}
     \<and> (fmt_subtype f = subtype_61883
        \<or> fmt_subtype f = subtype_aaf
          \<and> 24 + aaf_samples_per_frame f * aaf_channels f * 4 \<le> 1500
          \<and> (avb_stream_format_rate_hz f \<in> {48000, 96000, 192000} \<longrightarrow> avb_output_format_class f \<noteq> None))"

lemma listed_am824:
  "hz \<in> rates \<Longrightarrow> hz \<in> audio_rates \<Longrightarrow> listed_format rates ch (AVB_DEFAULT_FORMAT_AM824 (avb_cip_sfc_from_hz hz) ch)"
  by (simp add: listed_format_def AVB_DEFAULT_FORMAT_AM824_def avb_stream_format_rate_hz_def fmt_subtype_def
      subtype_61883_def am824_fdf_sfc_def rate_codes avb_stream_format_channels_def am824_dbs_def)

lemma listed_aaf:
  assumes "hz \<in> rates" and "hz \<in> audio_rates" and "c = ch \<or> c = 2"
    and "spf = avb_samples_per_frame_from_hz hz \<or> spf = avb_class_b_samples_per_frame hz"
    and "spf * unat c * 4 \<le> AVB_AAF_MAX_PAYLOAD" and "spf \<noteq> 0"
  shows "listed_format rates ch (AVB_DEFAULT_FORMAT_AAF depth (avb_aaf_rate_from_hz hz) c spf)"
proof -
  have small: "spf < 1024" using assms(4)
    by (auto simp: avb_samples_per_frame_from_hz_def avb_class_b_samples_per_frame_def split: if_splits)
  note f = aaf_format_fields [OF small rate_codes(3) [OF assms(2)], of depth c]
  have ne: "subtype_aaf \<noteq> subtype_61883" by (simp add: subtype_aaf_def subtype_61883_def)
  have r: "avb_stream_format_rate_hz (AVB_DEFAULT_FORMAT_AAF depth (avb_aaf_rate_from_hz hz) c spf) = hz"
    using ne by (simp add: avb_stream_format_rate_hz_def f rate_codes(2) [OF assms(2)])
  have "hz \<in> {48000, 96000, 192000} \<longrightarrow>
      avb_output_format_class (AVB_DEFAULT_FORMAT_AAF depth (avb_aaf_rate_from_hz hz) c spf) \<noteq> None"
    using assms(4,6) by (auto simp: avb_output_format_class_def f Let_def rate_codes(2) [OF assms(2)]
        avb_samples_per_frame_from_hz_def avb_class_b_samples_per_frame_def)
  then show ?thesis
    using assms(1,3,5) ne
    by (auto simp: listed_format_def r f avb_stream_format_channels_def AVB_AAF_MAX_PAYLOAD_def)
qed

definition listed_all :: "nat \<Rightarrow> u32 set \<Rightarrow> u8 \<Rightarrow> octets list \<Rightarrow> bool" where
  "listed_all n rates ch fs \<longleftrightarrow> length fs \<le> n \<and> (\<forall>f \<in> set fs. listed_format rates ch f)"

lemma add_aaf_listed:
  assumes "listed_all n rates ch fs" and "hz \<in> rates" and "hz \<in> audio_rates" and "c = ch \<or> c = 2"
    and "spf = avb_samples_per_frame_from_hz hz \<or> spf = avb_class_b_samples_per_frame hz"
  shows "listed_all n rates ch (avb_add_aaf_format n depth hz c spf fs)"
  using assms listed_aaf [OF assms(2,3,4,5)] by (auto simp: avb_add_aaf_format_def listed_all_def)

lemma add_rate_listed:
  assumes "listed_all n rates ch fs" and "hz \<in> rates" and "hz \<in> audio_rates" and "length fs < n"
  shows "listed_all n rates ch (add_rate_formats n ch hz fs)"
proof -
  note step = add_aaf_listed [OF _ assms(2,3)]
  have "listed_all n rates ch (fs @ [AVB_DEFAULT_FORMAT_AM824 (avb_cip_sfc_from_hz hz) ch])"
    using assms listed_am824 by (simp add: listed_all_def)
  then show ?thesis
    unfolding add_rate_formats_def Let_def by (auto intro!: step)
qed



lemma listed_at_rate_Some:
  assumes "listed_at_rate fs r f = Some g"
  shows "g \<in> set fs" and "avb_stream_format_rate_hz g = r" and "avb_stream_formats_same_family f g"
  using assms by (auto simp: listed_at_rate_def find_Some_iff)

text \<open>A saved format that is accepted at boot was supported; a media clock format stays as it is, and
  an audio format is at the operating rate afterwards, the same or one listed for the same
  family, unless nothing is listed at the operating rate at all.\<close>

theorem normalized_format:
  assumes "avb_persist_normalize_stream_format au a is_output i f = Some g"
  shows "avb_persist_stream_format_supported au a is_output i f
    \<and> (is_crf_stream a is_output i \<longrightarrow> g = f \<and> f = avb_crf_format_for_rate (default_sample_rate au))
    \<and> (\<not> is_crf_stream a is_output i \<longrightarrow>
         (g = f \<or> g \<in> set (supported_formats au is_output) \<and> avb_stream_formats_same_family f g)
         \<and> (avb_stream_format_rate_hz g = default_sample_rate au
            \<or> (\<forall>h \<in> set (supported_formats au is_output). avb_stream_format_rate_hz h \<noteq> default_sample_rate au)))"
  using assms listed_at_rate_Some [of "supported_formats au is_output" "default_sample_rate au" f]
  by (auto simp: avb_persist_normalize_stream_format_def avb_persist_stream_format_supported_def
      split: if_splits option.splits)

definition example_audio :: audio_state where
  "example_audio = \<lparr> default_sample_rate = 48000, supported_sample_rates = [48000, 96000],
     supported_formats_in = [AVB_DEFAULT_FORMAT_AM824 2 8, AVB_DEFAULT_FORMAT_AM824 4 8],
     supported_formats_out = [], codec_enabled = True, set_rate_ok = (\<lambda>_. True) \<rparr>"

definition example_listener :: atdecc_state where
  "example_listener = atdecc_zero ((state_zero end_station)\<lparr> input_streams := [listener_stream_zero, listener_stream_zero] \<rparr>)"

lemma example_normalized:
  "avb_persist_normalize_stream_format example_audio example_listener False 0 (AVB_DEFAULT_FORMAT_AM824 4 8)
     = Some (AVB_DEFAULT_FORMAT_AM824 2 8)"
  by (simp add: avb_persist_normalize_stream_format_def avb_persist_stream_format_supported_def example_audio_def
      example_listener_def atdecc_zero_def AVB_DEFAULT_FORMAT_AM824_def any_nonzero8_def is_crf_stream_def
      avb_get_crf_input_index_def supported_formats_def listed_at_rate_def avb_stream_format_rate_hz_def
      fmt_subtype_def subtype_61883_def am824_fdf_sfc_def cip_sfc_to_sample_rate_def am824_dbs_def
      avb_stream_formats_same_family_def)

theorem normalized_format_witness:
  "avb_persist_normalize_stream_format example_audio example_listener False 0 (AVB_DEFAULT_FORMAT_AM824 4 8)
     = Some (AVB_DEFAULT_FORMAT_AM824 2 8)
   \<and> avb_stream_formats_same_family (AVB_DEFAULT_FORMAT_AM824 4 8) (AVB_DEFAULT_FORMAT_AM824 2 8)"
  using normalized_format [OF example_normalized] example_normalized
  by (simp add: is_crf_stream_def example_listener_def atdecc_zero_def avb_get_crf_input_index_def
      AVB_DEFAULT_FORMAT_AM824_def)

end
