(* ===== verification/Registry.thy ===== *)
theory Registry
  imports Prelude
begin

text \<open>
  The device registry (\<open>avbregistry.c\<close>): the addresses assigned to the known boards, keyed by the
  factory MAC of the chip, which is a parameter (\<open>None\<close> when it cannot be read).
\<close>

record avb_registry_device_s =
  factory :: octets
  base :: octets

definition s_devices :: "avb_registry_device_s list" where
  "s_devices =
     [\<lparr> factory = [0xe8, 0xf6, 0x0a, 0xe0, 0x92, 0x20], base = [0x8c, 0x1f, 0x64, 0x36, 0xc1, 0x10] \<rparr>,
      \<lparr> factory = [0xe8, 0xf6, 0x0a, 0xe8, 0x16, 0xf5], base = [0x8c, 0x1f, 0x64, 0x36, 0xc1, 0x20] \<rparr>,
      \<lparr> factory = [0xe8, 0xf6, 0x0a, 0xe0, 0x97, 0x21], base = [0x8c, 0x1f, 0x64, 0x36, 0xc1, 0x30] \<rparr>,
      \<lparr> factory = [0xe8, 0xf6, 0x0a, 0xe0, 0x97, 0x20], base = [0x8c, 0x1f, 0x64, 0x36, 0xc1, 0x40] \<rparr>,
      \<lparr> factory = [0xfc, 0x01, 0x2c, 0xfd, 0xfe, 0x80], base = [0x8c, 0x1f, 0x64, 0x36, 0xc1, 0x50] \<rparr>,
      \<lparr> factory = [0x80, 0xf1, 0xb2, 0xd2, 0xca, 0xa9], base = [0x8c, 0x1f, 0x64, 0x36, 0xc1, 0x60] \<rparr>]"

definition device_of :: "octets \<Rightarrow> avb_registry_device_s option" where
  "device_of mac = List.find (\<lambda>d. factory d = mac) s_devices"

definition avb_registry_base_mac :: "octets option \<Rightarrow> octets option" where
  "avb_registry_base_mac factory_mac =
     (case factory_mac of None \<Rightarrow> None | Some mac \<Rightarrow> map_option base (device_of mac))"

text \<open>The result says whether the identifier changed.\<close>

definition avb_registry_translate_entity_id :: "octets \<Rightarrow> bool \<times> octets" where
  "avb_registry_translate_entity_id entity_id =
     (if entity_id ! 6 \<noteq> 0 \<or> entity_id ! 7 \<noteq> 0 then (False, entity_id)
      else case device_of (take 6 entity_id) of
             None \<Rightarrow> (False, entity_id)
           | Some d \<Rightarrow> (True, base d @ drop 6 entity_id))"

section \<open>Translation\<close>

lemma device_of_Some:
  "device_of mac = Some d \<Longrightarrow> d \<in> set s_devices \<and> factory d = mac"
  by (auto simp: device_of_def find_Some_iff)

lemma devices_disjoint: "\<lbrakk>d \<in> set s_devices; e \<in> set s_devices\<rbrakk> \<Longrightarrow> base d \<noteq> factory e"
  by (auto simp: s_devices_def)

lemma device_lengths: "d \<in> set s_devices \<Longrightarrow> length (base d) = 6 \<and> length (factory d) = 6"
  by (auto simp: s_devices_def)

lemma bases_distinct: "\<lbrakk>d \<in> set s_devices; e \<in> set s_devices; base d = base e\<rbrakk> \<Longrightarrow> d = e"
  by (auto simp: s_devices_def)

lemma device_of_base: "d \<in> set s_devices \<Longrightarrow> device_of (base d) = None"
  using devices_disjoint by (fastforce simp: device_of_def find_None_iff)

lemma translate_length [simp]: "length x = 8 \<Longrightarrow> length (snd (avb_registry_translate_entity_id x)) = 8"
  by (auto simp: avb_registry_translate_entity_id_def split: option.split dest!: device_of_Some device_lengths)

lemma translate_twice:
  assumes "length x = 8"
  shows "avb_registry_translate_entity_id (snd (avb_registry_translate_entity_id x))
    = (False, snd (avb_registry_translate_entity_id x))"
proof (cases "x ! 6 = 0 \<and> x ! 7 = 0")
  case True
  show ?thesis
  proof (cases "device_of (take 6 x)")
    case (Some d)
    then have d: "d \<in> set s_devices" "length (base d) = 6" using device_of_Some device_lengths by blast+
    have "(base d @ drop 6 x) ! 6 = x ! 6" "(base d @ drop 6 x) ! 7 = x ! 7"
      using d(2) assms by (simp_all add: nth_append)
    then show ?thesis
      using True Some d device_of_base [OF d(1)] by (simp add: avb_registry_translate_entity_id_def)
  qed (use True in \<open>simp add: avb_registry_translate_entity_id_def\<close>)
qed (auto simp: avb_registry_translate_entity_id_def)

end
