(* ===== verification/Persist.thy ===== *)
theory Persist
  imports Formats Registry
begin

text \<open>
  Persistence (\<open>avb.c\<close>, \<open>avb.h\<close>): the snapshot of the configuration and the journal of stream
  records in the flash store.  The store (NVS of ESP-IDF) is a parameter, the operations \<open>nvs_ops\<close>
  on a state \<open>'n\<close>; a value in it is a structure, not its octets.  The two volume controls, which are
  floating point, are left out of the snapshot.
\<close>

section \<open>What is saved\<close>

definition AVB_PERSIST_MAX_NAMES :: nat where "AVB_PERSIST_MAX_NAMES = 16"
definition AVB_PERSIST_MAX_INPUT_STREAMS :: nat where "AVB_PERSIST_MAX_INPUT_STREAMS = 8"
definition AVB_PERSIST_MAX_OUTPUT_STREAMS :: nat where "AVB_PERSIST_MAX_OUTPUT_STREAMS = 8"
definition AVB_PERSIST_VERSION :: nat where "AVB_PERSIST_VERSION = 6"
definition AVB_NAME_COUNT :: nat where "AVB_NAME_COUNT = 11"
definition AVB_INPUT_CLUSTER_CHANNELS :: nat where "AVB_INPUT_CLUSTER_CHANNELS = 2"

text \<open>The size of the snapshot structure with its padding.\<close>

definition AVB_PERSISTENT_DATA_SIZE :: nat where "AVB_PERSISTENT_DATA_SIZE = 1396"

record avb_persist_input_stream_s =
  pi_talker_id :: octets
  pi_talker_uid :: octets
  pi_controller_id :: octets
  pi_stream_format :: octets
  pi_connected :: bool
  pi_streaming_wait :: bool
  pi_class_b :: bool

record avb_persist_output_stream_s =
  po_stream_format :: octets
  po_presentation_time_offset_ns :: u32

record avb_persist_output_stream_journal_s = avb_persist_output_stream_s +
  class_valid :: bool
  oj_class_b :: bool

record avb_persistent_data_s =
  pd_version :: nat
  pd_descriptor_names :: "octets list"
  pd_input_streams :: "avb_persist_input_stream_s list"
  pd_output_streams :: "avb_persist_output_stream_s list"
  pd_active_clock_source_index :: u16
  pd_pll_trim_ppm_q16 :: int
  pd_pll_trim_btc_id :: octets
  pd_lite_config_flags :: u8

definition persist_input_zero :: avb_persist_input_stream_s where
  "persist_input_zero = \<lparr> pi_talker_id = zeros 8, pi_talker_uid = zeros 2, pi_controller_id = zeros 8,
     pi_stream_format = zeros 8, pi_connected = False, pi_streaming_wait = False, pi_class_b = False \<rparr>"

definition persist_output_zero :: avb_persist_output_stream_s where
  "persist_output_zero = \<lparr> po_stream_format = zeros 8, po_presentation_time_offset_ns = 0 \<rparr>"

definition persist_journal_zero :: avb_persist_output_stream_journal_s where
  "persist_journal_zero = avb_persist_output_stream_s.extend persist_output_zero
     (avb_persist_output_stream_journal_s.fields False False)"

definition persistent_data_zero :: avb_persistent_data_s where
  "persistent_data_zero = \<lparr> pd_version = 0, pd_descriptor_names = replicate AVB_PERSIST_MAX_NAMES (zeros 64),
     pd_input_streams = replicate AVB_PERSIST_MAX_INPUT_STREAMS persist_input_zero,
     pd_output_streams = replicate AVB_PERSIST_MAX_OUTPUT_STREAMS persist_output_zero,
     pd_active_clock_source_index = 0, pd_pll_trim_ppm_q16 = 0, pd_pll_trim_btc_id = zeros 8,
     pd_lite_config_flags = 0 \<rparr>"

section \<open>The flash store\<close>

datatype esp_err_t = ESP_OK | ESP_ERR_NVS_NOT_ENOUGH_SPACE | ESP_ERR_INVALID_ARG | ESP_FAIL

datatype nvs_value =
    nvs_rate u32
  | nvs_input_map "u16 list"
  | nvs_input avb_persist_input_stream_s
  | nvs_output avb_persist_output_stream_journal_s
  | nvs_snapshot nat avb_persistent_data_s

text \<open>\<open>nvs_open\<close> is asked with whether the store is to be written; \<open>nvs_blobs\<close> are the keys of the
  blobs in the order of iteration.\<close>

record 'n nvs_ops =
  nvs_open :: "bool \<Rightarrow> 'n \<Rightarrow> bool"
  nvs_blobs :: "'n \<Rightarrow> string list"
  nvs_get :: "'n \<Rightarrow> string \<Rightarrow> nvs_value option"
  nvs_set :: "string \<Rightarrow> nvs_value \<Rightarrow> 'n \<Rightarrow> esp_err_t \<times> 'n"
  nvs_erase :: "string \<Rightarrow> 'n \<Rightarrow> esp_err_t \<times> 'n"
  nvs_commit :: "'n \<Rightarrow> esp_err_t \<times> 'n"

definition AVB_NVS_KEY :: string where "AVB_NVS_KEY = ''persist''"
definition AVB_NVS_RATE_KEY :: string where "AVB_NVS_RATE_KEY = ''rate''"
definition AVB_NVS_INPUT_MAP_KEY :: string where "AVB_NVS_INPUT_MAP_KEY = ''imap''"

section \<open>State\<close>

record 'n config_state =
  node :: atdecc_state
  audio :: audio_state
  nvs :: 'n
  persist :: avb_persistent_data_s
  descriptor_names :: "octets list"
  entity_name :: octets
  group_name :: octets
  interface_name :: octets
  input_map :: "u16 list"
  active_clock_source_index :: u16
  pll_converged_trim_q16 :: int
  pll_trim_btc_id :: octets
  persist_dirty :: bool
  persist_lazy :: bool
  persist_dirty_since_tick :: u32
  tick_count :: u32
  s_persist_journal_seq :: u32
  s_output_class_journaled :: "nat list"
  s_ingress_quiet :: bool
  s_ingress_busy_until_us :: int
  s_ingress_sample_us :: int
  s_ingress_sample_count :: u32
  s_journal_pending :: "bool \<Rightarrow> nat \<Rightarrow> bool"
  s_rate_pending :: bool
  s_input_map_pending :: bool
  s_journal_pending_since_us :: int
  rx_total :: u32

abbreviation persist_now :: "'n config_state \<Rightarrow> int" where
  "persist_now c \<equiv> now_us (core (node c))"

section \<open>Snapshot\<close>

definition persist_fill_input :: "avb_listener_stream_s \<Rightarrow> avb_persist_input_stream_s" where
  "persist_fill_input src = \<lparr> pi_talker_id = talker_id src, pi_talker_uid = talker_uid src,
     pi_controller_id = controller_id src, pi_stream_format = ls_stream_format src,
     pi_connected = ls_connected src, pi_streaming_wait = streaming_wait src, pi_class_b = ls_class_b src \<rparr>"

definition persist_fill_output :: "avb_talker_stream_s \<Rightarrow> avb_persist_output_stream_s" where
  "persist_fill_output src = \<lparr> po_stream_format = ts_stream_format src,
     po_presentation_time_offset_ns = presentation_time_offset_ns src \<rparr>"

definition avb_persist_gather :: "'n config_state \<Rightarrow> 'n config_state" where
  "avb_persist_gather c =
     (let n = min AVB_NAME_COUNT AVB_PERSIST_MAX_NAMES;
          ins = input_streams (core (node c)); n_in = min (length ins) AVB_PERSIST_MAX_INPUT_STREAMS;
          outs = output_streams (core (node c)); n_out = min (length outs) AVB_PERSIST_MAX_OUTPUT_STREAMS
      in c\<lparr> persist := persistent_data_zero\<lparr> pd_version := AVB_PERSIST_VERSION,
              pd_descriptor_names := take n (descriptor_names c) @ replicate (AVB_PERSIST_MAX_NAMES - n) (zeros 64),
              pd_input_streams := map persist_fill_input (take n_in ins)
                @ replicate (AVB_PERSIST_MAX_INPUT_STREAMS - n_in) persist_input_zero,
              pd_output_streams := map persist_fill_output (take n_out outs)
                @ replicate (AVB_PERSIST_MAX_OUTPUT_STREAMS - n_out) persist_output_zero,
              pd_active_clock_source_index := active_clock_source_index c,
              pd_pll_trim_ppm_q16 := pll_converged_trim_q16 c,
              pd_pll_trim_btc_id := pll_trim_btc_id c,
              pd_lite_config_flags := (if lite_escalation_allowed (core (node c)) then 1 else 0) \<rparr> \<rparr>)"

text \<open>A saved input stream whose format is not supported is passed over; its binding replaces the
  one of the stream otherwise, also by none.\<close>

definition apply_input :: "audio_state \<Rightarrow> avb_persistent_data_s \<Rightarrow> nat \<Rightarrow> atdecc_state \<Rightarrow> atdecc_state" where
  "apply_input au p i a =
     (let src = pd_input_streams p ! i;
          norm = avb_persist_normalize_stream_format au a False i (pi_stream_format src);
          binding = (\<lambda>t. t\<lparr> talker_id := snd (avb_registry_translate_entity_id (pi_talker_id src)),
            talker_uid := pi_talker_uid src, controller_id := pi_controller_id src,
            streaming_wait := pi_streaming_wait src, ls_class_b := pi_class_b src \<rparr>)
      in case norm of
           Some f \<Rightarrow> upd_core (upd_input i (\<lambda>t. binding (t\<lparr> ls_stream_format := f \<rparr>))) a
         | None \<Rightarrow>
             if any_nonzero8 (pi_stream_format src) \<or> any_nonzero8 (pi_talker_id src) then a
             else upd_core (upd_input i binding) a)"

definition apply_output :: "audio_state \<Rightarrow> avb_persistent_data_s \<Rightarrow> nat \<Rightarrow> atdecc_state \<Rightarrow> atdecc_state" where
  "apply_output au p i a =
     (let src = pd_output_streams p ! i;
          a = (case avb_persist_normalize_stream_format au a True i (po_stream_format src) of
                 Some f \<Rightarrow> upd_core (upd_output i (\<lambda>t. t\<lparr> ts_stream_format := f \<rparr>)) a
               | None \<Rightarrow> a)
      in if pd_version p < 3 \<and> po_presentation_time_offset_ns src = 0 then a
         else if po_presentation_time_offset_ns src \<le> 0x7FFFFFFF
         then upd_core (upd_output i (\<lambda>t. t\<lparr> presentation_time_offset_ns :=
                po_presentation_time_offset_ns src \<rparr>)) a
         else a)"

definition avb_persist_apply :: "'n config_state \<Rightarrow> 'n config_state" where
  "avb_persist_apply c =
     (let p = persist c; n = min AVB_NAME_COUNT AVB_PERSIST_MAX_NAMES;
          names = take n (pd_descriptor_names p) @ drop n (descriptor_names c);
          named = (\<lambda>i old. if names ! i ! 0 \<noteq> 0 then names ! i else old);
          a = node c;
          a = foreach (min (length (input_streams (core a))) AVB_PERSIST_MAX_INPUT_STREAMS)
                (apply_input (audio c) p) a;
          a = foreach (min (length (output_streams (core a))) AVB_PERSIST_MAX_OUTPUT_STREAMS)
                (apply_output (audio c) p) a;
          a = (if pd_version p \<ge> 6
               then upd_core (\<lambda>s. s\<lparr> lite_escalation_allowed := (pd_lite_config_flags p AND 1 \<noteq> 0) \<rparr>) a else a);
          c = c\<lparr> node := a, descriptor_names := names, entity_name := named 0 (entity_name c),
                group_name := named 1 (group_name c), interface_name := named 2 (interface_name c),
                active_clock_source_index := pd_active_clock_source_index p \<rparr>
      in if pd_pll_trim_ppm_q16 p \<noteq> 0
         then c\<lparr> pll_converged_trim_q16 := pd_pll_trim_ppm_q16 p, pll_trim_btc_id := pd_pll_trim_btc_id p \<rparr>
         else c)"

end
