(* ===== verification/Journal.thy ===== *)
theory Journal
  imports Persist
begin

text \<open>
  The stream journal and the saving of the configuration (\<open>avb.c\<close>): a record per change of a stream
  under a numbered key, replayed and compacted at boot; the writes that wait until the ingress
  calms down; and the task that saves the snapshot.
\<close>

section \<open>Keys\<close>

definition hex_value :: "char \<Rightarrow> nat option" where
  "hex_value ch =
     (let n = (of_char ch :: nat) in
      if 48 \<le> n \<and> n \<le> 57 then Some (n - 48)
      else if 97 \<le> n \<and> n \<le> 102 then Some (n - 87)
      else if 65 \<le> n \<and> n \<le> 70 then Some (n - 55) else None)"

fun hex_run :: "nat \<Rightarrow> string \<Rightarrow> nat \<times> string" where
  "hex_run acc [] = (acc, [])"
| "hex_run acc (ch # s) = (case hex_value ch of None \<Rightarrow> (acc, ch # s) | Some v \<Rightarrow> hex_run (acc * 16 + v) s)"

text \<open>The C function \<open>strtoul\<close> in base 16, as far as six characters can go.\<close>

definition strtoul16 :: "string \<Rightarrow> u32 \<times> string" where
  "strtoul16 s =
     (let t = dropWhile (\<lambda>ch. of_char ch \<in> {32 :: nat, 9, 10, 11, 12, 13}) s;
          neg = (take 1 t = ''-'');
          t = (if take 1 t = ''-'' \<or> take 1 t = ''+'' then drop 1 t else t);
          t = (if (take 2 t = ''0x'' \<or> take 2 t = ''0X'') \<and> length t > 2 \<and> hex_value (t ! 2) \<noteq> None
               then drop 2 t else t);
          (n, rest) = hex_run 0 t
      in if rest = t then (0, s) else (if neg then - of_nat n else of_nat n, rest))"

definition avb_persist_parse_stream_journal_key :: "string \<Rightarrow> (bool \<times> nat \<times> u32) option" where
  "avb_persist_parse_stream_journal_key key =
     (if length key \<noteq> 9 then None
      else if take 2 key \<noteq> ''si'' \<and> take 2 key \<noteq> ''so'' then None
      else
        let n = (of_char (key ! 2) :: nat); (seq, rest) = strtoul16 (drop 3 key) in
        if n < 48 \<or> n > 55 then None
        else if rest \<noteq> [] then None
        else Some (take 2 key = ''si'', n - 48, seq))"

definition low_hex :: "nat \<Rightarrow> char" where "low_hex n = ''0123456789abcdef'' ! n"

definition journal_key :: "bool \<Rightarrow> nat \<Rightarrow> u32 \<Rightarrow> string" where
  "journal_key input index seq =
     (if input then ''si'' else ''so'') @ [low_hex index]
     @ map (\<lambda>k. low_hex (unat seq div 16 ^ k mod 16)) [5, 4, 3, 2, 1, 0]"

section \<open>Reading the journal\<close>

record journal_scan =
  sc_seq :: u32
  sc_latest :: "bool \<Rightarrow> nat \<Rightarrow> u32"
  sc_rec :: "bool \<Rightarrow> nat \<Rightarrow> nvs_value"

definition journal_value :: "bool \<Rightarrow> nvs_value \<Rightarrow> bool" where
  "journal_value input v =
     (case v of nvs_input _ \<Rightarrow> input | nvs_output _ \<Rightarrow> \<not> input | _ \<Rightarrow> False)"

definition scan_zero :: "u32 \<Rightarrow> journal_scan" where
  "scan_zero seq = \<lparr> sc_seq = seq, sc_latest = (\<lambda>_ _. 0),
     sc_rec = (\<lambda>input _. if input then nvs_input persist_input_zero else nvs_output persist_journal_zero) \<rparr>"

definition scan_key :: "'n nvs_ops \<Rightarrow> 'n \<Rightarrow> string \<Rightarrow> journal_scan \<Rightarrow> journal_scan" where
  "scan_key nv n key sc =
     (case avb_persist_parse_stream_journal_key key of
        None \<Rightarrow> sc
      | Some (input, index, seq) \<Rightarrow>
          let sc = sc\<lparr> sc_seq := (if seq > sc_seq sc then seq else sc_seq sc) \<rparr> in
          if index < AVB_PERSIST_MAX_INPUT_STREAMS \<and> seq \<ge> sc_latest sc input index
          then case nvs_get nv n key of
                 None \<Rightarrow> sc
               | Some v \<Rightarrow>
                   if journal_value input v
                   then sc\<lparr> sc_latest := (sc_latest sc)(input := (sc_latest sc input)(index := seq)),
                            sc_rec := (sc_rec sc)(input := (sc_rec sc input)(index := v)) \<rparr>
                   else sc
          else sc)"

definition journal_scan_all :: "'n nvs_ops \<Rightarrow> 'n \<Rightarrow> u32 \<Rightarrow> journal_scan" where
  "journal_scan_all nv n seq = fold (scan_key nv n) (nvs_blobs nv n) (scan_zero seq)"

section \<open>Writing the journal\<close>

text \<open>Erasing starts the iteration again; each turn takes one key away.\<close>

primrec erase_journal :: "'n nvs_ops \<Rightarrow> nat \<Rightarrow> 'n \<Rightarrow> 'n" where
  "erase_journal nv 0 n = n"
| "erase_journal nv (Suc k) n =
     (case List.find (\<lambda>key. avb_persist_parse_stream_journal_key key \<noteq> None) (nvs_blobs nv n) of
        None \<Rightarrow> n
      | Some victim \<Rightarrow>
          (case nvs_erase nv victim n of
             (ESP_OK, n) \<Rightarrow> erase_journal nv k n
           | (_, n) \<Rightarrow> n))"

definition rewrite_turn ::
  "'n nvs_ops \<Rightarrow> journal_scan \<Rightarrow> bool \<Rightarrow> nat \<Rightarrow> u32 \<times> 'n \<Rightarrow> u32 \<times> 'n" where
  "rewrite_turn nv sc input i = (\<lambda>(seq, n).
     if sc_latest sc input i = 0 then (seq, n)
     else (seq + 1, snd (nvs_set nv (journal_key input i ((seq + 1) AND 0xFFFFFF)) (sc_rec sc input i) n)))"

definition avb_persist_compact_stream_journal :: "'n nvs_ops \<Rightarrow> 'n config_state \<Rightarrow> esp_err_t \<times> 'n config_state" where
  "avb_persist_compact_stream_journal nv c =
     (if \<not> nvs_open nv True (nvs c) then (ESP_FAIL, c)
      else
        let sc = journal_scan_all nv (nvs c) 0;
            n = erase_journal nv (length (nvs_blobs nv (nvs c))) (nvs c);
            (seq, n) = foreach AVB_PERSIST_MAX_INPUT_STREAMS (rewrite_turn nv sc True) (0, n);
            (seq, n) = foreach AVB_PERSIST_MAX_OUTPUT_STREAMS (rewrite_turn nv sc False) (seq, n);
            (err, n) = nvs_commit nv n
        in (err, c\<lparr> nvs := n, s_persist_journal_seq := seq \<rparr>))"

text \<open>One attempt to add a record under the next number.\<close>

definition journal_put ::
  "'n nvs_ops \<Rightarrow> bool \<Rightarrow> nat \<Rightarrow> nvs_value \<Rightarrow> 'n config_state \<Rightarrow> esp_err_t \<times> 'n config_state" where
  "journal_put nv input index rec c =
     (let seq = s_persist_journal_seq c + 1;
          (err, n) = nvs_set nv (journal_key input index (seq AND 0xFFFFFF)) rec (nvs c);
          (err, n) = (if err = ESP_OK then nvs_commit nv n else (err, n))
      in (err, c\<lparr> s_persist_journal_seq := seq, nvs := n \<rparr>))"

definition avb_persist_append_stream_record ::
  "'n nvs_ops \<Rightarrow> bool \<Rightarrow> nat \<Rightarrow> nvs_value \<Rightarrow> 'n config_state \<Rightarrow> esp_err_t \<times> 'n config_state" where
  "avb_persist_append_stream_record nv input index rec c =
     (if index \<ge> 8 then (ESP_ERR_INVALID_ARG, c)
      else if \<not> nvs_open nv True (nvs c) then (ESP_FAIL, c)
      else
        let (err, c) = journal_put nv input index rec c in
        if err = ESP_ERR_NVS_NOT_ENOUGH_SPACE then
          let (compacted, c) = avb_persist_compact_stream_journal nv c in
          if compacted = ESP_OK \<and> nvs_open nv True (nvs c) then journal_put nv input index rec c
          else (err, c)
        else (err, c))"

definition journal_record :: "bool \<Rightarrow> nat \<Rightarrow> 'n config_state \<Rightarrow> nvs_value" where
  "journal_record input index c =
     (if input
      then nvs_input (if index < length (input_streams (core (node c)))
             then persist_fill_input (input_stream (node c) index) else persist_input_zero)
      else nvs_output (if index < length (output_streams (core (node c)))
             then avb_persist_output_stream_s.extend (persist_fill_output (output_stream (node c) index))
                    (avb_persist_output_stream_journal_s.fields True (ts_class_b (output_stream (node c) index)))
             else persist_journal_zero))"

definition avb_persist_write_journal ::
  "'n nvs_ops \<Rightarrow> bool \<Rightarrow> nat \<Rightarrow> 'n config_state \<Rightarrow> esp_err_t \<times> 'n config_state" where
  "avb_persist_write_journal nv input index c =
     avb_persist_append_stream_record nv input index (journal_record input index c) c"

section \<open>Waiting for the ingress to calm\<close>

definition AVB_PERSIST_BUSY_FRAMES_PER_S :: int where "AVB_PERSIST_BUSY_FRAMES_PER_S = 1000"
definition AVB_PERSIST_QUIET_US :: int where "AVB_PERSIST_QUIET_US = 300 * 1000"
definition AVB_PERSIST_QUIET_MAX_US :: int where "AVB_PERSIST_QUIET_MAX_US = 3 * 1000 * 1000"
definition AVB_PERSIST_INGRESS_SAMPLE_US :: int where "AVB_PERSIST_INGRESS_SAMPLE_US = 50 * 1000"

definition avb_persist_sample_ingress :: "'n config_state \<Rightarrow> 'n config_state" where
  "avb_persist_sample_ingress c =
     (let now = persist_now c in
      if now - s_ingress_sample_us c < AVB_PERSIST_INGRESS_SAMPLE_US then c
      else
        let frames = uint (rx_total c - s_ingress_sample_count c);
            elapsed_us = now - s_ingress_sample_us c;
            busy_until = (if s_ingress_sample_us c \<noteq> 0
                             \<and> frames * 1000000 > AVB_PERSIST_BUSY_FRAMES_PER_S * elapsed_us
                          then now + AVB_PERSIST_QUIET_US else s_ingress_busy_until_us c)
        in c\<lparr> s_ingress_busy_until_us := busy_until, s_ingress_sample_us := now,
              s_ingress_sample_count := rx_total c, s_ingress_quiet := (now \<ge> busy_until) \<rparr>)"

text \<open>The first write that waits sets the time the others count from.\<close>

definition pending_since :: "'n config_state \<Rightarrow> 'n config_state" where
  "pending_since c =
     (if s_journal_pending_since_us c = 0 then c\<lparr> s_journal_pending_since_us := persist_now c \<rparr> else c)"

definition avb_persist_append_stream ::
  "'n nvs_ops \<Rightarrow> bool \<Rightarrow> nat \<Rightarrow> 'n config_state \<Rightarrow> esp_err_t \<times> 'n config_state" where
  "avb_persist_append_stream nv input index c =
     (if index \<ge> AVB_PERSIST_MAX_INPUT_STREAMS then (ESP_ERR_INVALID_ARG, c)
      else
        let c = avb_persist_sample_ingress c in
        if s_ingress_quiet c then avb_persist_write_journal nv input index c
        else
          let c = pending_since c in
          (ESP_OK, c\<lparr> s_journal_pending :=
             (s_journal_pending c)(input := (s_journal_pending c input)(index := True)) \<rparr>))"

text \<open>A value of its own key.\<close>

definition put_value :: "'n nvs_ops \<Rightarrow> string \<Rightarrow> nvs_value \<Rightarrow> 'n config_state \<Rightarrow> esp_err_t \<times> 'n config_state" where
  "put_value nv key v c =
     (if \<not> nvs_open nv True (nvs c) then (ESP_FAIL, c)
      else
        let (err, n) = nvs_set nv key v (nvs c);
            (err, n) = (if err = ESP_OK then nvs_commit nv n else (err, n))
        in (err, c\<lparr> nvs := n \<rparr>))"

definition avb_persist_write_rate :: "'n nvs_ops \<Rightarrow> 'n config_state \<Rightarrow> esp_err_t \<times> 'n config_state" where
  "avb_persist_write_rate nv c = put_value nv AVB_NVS_RATE_KEY (nvs_rate (default_sample_rate (audio c))) c"

definition avb_persist_write_input_map :: "'n nvs_ops \<Rightarrow> 'n config_state \<Rightarrow> esp_err_t \<times> 'n config_state" where
  "avb_persist_write_input_map nv c = put_value nv AVB_NVS_INPUT_MAP_KEY (nvs_input_map (input_map c)) c"

definition avb_persist_save_input_map :: "'n nvs_ops \<Rightarrow> 'n config_state \<Rightarrow> esp_err_t \<times> 'n config_state" where
  "avb_persist_save_input_map nv c =
     (let c = avb_persist_sample_ingress c in
      if s_ingress_quiet c then avb_persist_write_input_map nv c
      else (ESP_OK, (pending_since c)\<lparr> s_input_map_pending := True \<rparr>))"

definition avb_persist_save_rate :: "'n nvs_ops \<Rightarrow> 'n config_state \<Rightarrow> esp_err_t \<times> 'n config_state" where
  "avb_persist_save_rate nv c =
     (let c = avb_persist_sample_ingress c in
      if s_ingress_quiet c then avb_persist_write_rate nv c
      else (ESP_OK, (pending_since c)\<lparr> s_rate_pending := True \<rparr>))"

definition journal_tick_turn :: "'n nvs_ops \<Rightarrow> bool \<Rightarrow> nat \<Rightarrow> 'n config_state \<Rightarrow> 'n config_state" where
  "journal_tick_turn nv input index c =
     (if \<not> s_journal_pending c input index then c
      else snd (avb_persist_write_journal nv input index
             (c\<lparr> s_journal_pending := (s_journal_pending c)(input := (s_journal_pending c input)(index := False)) \<rparr>)))"

definition avb_persist_journal_tick :: "'n nvs_ops \<Rightarrow> 'n config_state \<Rightarrow> 'n config_state" where
  "avb_persist_journal_tick nv c =
     (let now = persist_now c; c = avb_persist_sample_ingress c in
      if s_journal_pending_since_us c = 0 then c
      else if \<not> s_ingress_quiet c \<and> \<not> now - s_journal_pending_since_us c > AVB_PERSIST_QUIET_MAX_US then c
      else
        let c = c\<lparr> s_journal_pending_since_us := 0 \<rparr>;
            c = (if s_rate_pending c then snd (avb_persist_write_rate nv (c\<lparr> s_rate_pending := False \<rparr>)) else c);
            c = (if s_input_map_pending c
                 then snd (avb_persist_write_input_map nv (c\<lparr> s_input_map_pending := False \<rparr>)) else c);
            c = foreach AVB_PERSIST_MAX_INPUT_STREAMS (journal_tick_turn nv False) c
        in foreach AVB_PERSIST_MAX_INPUT_STREAMS (journal_tick_turn nv True) c)"

section \<open>Loading\<close>

definition replay_input :: "journal_scan \<Rightarrow> nat \<Rightarrow> avb_persistent_data_s \<Rightarrow> avb_persistent_data_s" where
  "replay_input sc i p =
     (if sc_latest sc True i = 0 then p
      else case sc_rec sc True i of
             nvs_input r \<Rightarrow> p\<lparr> pd_input_streams := (pd_input_streams p)[i := r] \<rparr>
           | _ \<Rightarrow> p)"

definition replay_output :: "journal_scan \<Rightarrow> nat \<Rightarrow> 'n config_state \<Rightarrow> 'n config_state" where
  "replay_output sc i c =
     (if sc_latest sc False i = 0 then c
      else case sc_rec sc False i of
             nvs_output r \<Rightarrow>
               c\<lparr> persist := (persist c)\<lparr> pd_output_streams :=
                    (pd_output_streams (persist c))[i := avb_persist_output_stream_s.truncate r] \<rparr>,
                  s_output_class_journaled := (s_output_class_journaled c)
                    [i := if class_valid r then (if oj_class_b r then 2 else 1) else 0] \<rparr>
           | _ \<Rightarrow> c)"

definition avb_persist_replay_stream_journal :: "'n nvs_ops \<Rightarrow> 'n config_state \<Rightarrow> 'n config_state" where
  "avb_persist_replay_stream_journal nv c =
     (if \<not> nvs_open nv False (nvs c) then c
      else
        let sc = journal_scan_all nv (nvs c) (s_persist_journal_seq c);
            s = core (node c);
            c = c\<lparr> s_persist_journal_seq := sc_seq sc,
                   persist := foreach (min (length (input_streams s)) AVB_PERSIST_MAX_INPUT_STREAMS)
                                (replay_input sc) (persist c) \<rparr>;
            c = foreach (min (length (output_streams s)) AVB_PERSIST_MAX_OUTPUT_STREAMS) (replay_output sc) c;
            c = avb_persist_apply c
        in snd (avb_persist_compact_stream_journal nv c))"

definition avb_persist_restore_input_map :: "'n nvs_ops \<Rightarrow> 'n config_state \<Rightarrow> 'n config_state" where
  "avb_persist_restore_input_map nv c =
     (if \<not> nvs_open nv False (nvs c) then c
      else case nvs_get nv (nvs c) AVB_NVS_INPUT_MAP_KEY of
             Some (nvs_input_map m) \<Rightarrow>
               if length m = AVB_INPUT_CLUSTER_CHANNELS then c\<lparr> input_map := m \<rparr> else c
           | _ \<Rightarrow> c)"

definition avb_persist_restore_rate :: "'n nvs_ops \<Rightarrow> 'n config_state \<Rightarrow> 'n config_state" where
  "avb_persist_restore_rate nv c =
     (if \<not> nvs_open nv False (nvs c) then c
      else case nvs_get nv (nvs c) AVB_NVS_RATE_KEY of
             Some (nvs_rate rate) \<Rightarrow>
               let au = audio c in
               if rate = default_sample_rate au then c
               else if \<not> codec_enabled au \<or> \<not> avb_sample_rate_supported (supported_sample_rates au) rate then c
               else if set_rate_ok au rate then c\<lparr> audio := au\<lparr> default_sample_rate := rate \<rparr> \<rparr> else c
           | _ \<Rightarrow> c)"

definition avb_persist_write_blob ::
  "'n nvs_ops \<Rightarrow> avb_persistent_data_s \<Rightarrow> 'n config_state \<Rightarrow> esp_err_t \<times> 'n config_state" where
  "avb_persist_write_blob nv blob c = put_value nv AVB_NVS_KEY (nvs_snapshot AVB_PERSISTENT_DATA_SIZE blob) c"

definition avb_persist_save :: "'n nvs_ops \<Rightarrow> 'n config_state \<Rightarrow> esp_err_t \<times> 'n config_state" where
  "avb_persist_save nv c = (let c = avb_persist_gather c in avb_persist_write_blob nv (persist c) c)"

text \<open>The snapshot is read into a zeroed structure: what an older layout does not have is zero.  When
  there is none that can be used, a fresh one is written and the journal is left as it is.\<close>

definition avb_persist_load :: "'n nvs_ops \<Rightarrow> bool \<Rightarrow> 'n config_state \<Rightarrow> 'n config_state" where
  "avb_persist_load nv init_ok c =
     (if \<not> init_ok then c
      else
        let c = avb_persist_restore_input_map nv (avb_persist_restore_rate nv c) in
        if \<not> nvs_open nv False (nvs c) then snd (avb_persist_save nv c)
        else case nvs_get nv (nvs c) AVB_NVS_KEY of
               Some (nvs_snapshot stored_size p) \<Rightarrow>
                 if pd_version p < 2 \<or> pd_version p > AVB_PERSIST_VERSION \<or> stored_size > AVB_PERSISTENT_DATA_SIZE
                 then snd (avb_persist_save nv (c\<lparr> persist := persistent_data_zero \<rparr>))
                 else avb_persist_replay_stream_journal nv (avb_persist_apply (c\<lparr> persist := p \<rparr>))
             | _ \<Rightarrow> snd (avb_persist_save nv (c\<lparr> persist := persistent_data_zero \<rparr>)))"

section \<open>The saving task\<close>

definition AVB_PERSIST_FORCED_FLUSH_MSEC :: nat where "AVB_PERSIST_FORCED_FLUSH_MSEC = 10 * 60 * 1000"

definition avb_persist_request_save :: "'n config_state \<Rightarrow> 'n config_state" where
  "avb_persist_request_save c =
     (let c = avb_persist_gather c;
          c = (if \<not> persist_dirty c \<or> persist_lazy c then c\<lparr> persist_dirty_since_tick := tick_count c \<rparr> else c)
      in c\<lparr> persist_lazy := False, persist_dirty := True \<rparr>)"

definition avb_persist_request_lazy_save :: "'n config_state \<Rightarrow> 'n config_state" where
  "avb_persist_request_lazy_save c =
     (let c = avb_persist_gather c;
          c = (if \<not> persist_dirty c then c\<lparr> persist_lazy := True \<rparr> else c)
      in c\<lparr> persist_dirty := True \<rparr>)"

text \<open>A task's turn; \<open>rate\<close> is the number of ticks a second.\<close>

definition persist_gate :: "nat \<Rightarrow> 'n config_state \<Rightarrow> bool" where
  "persist_gate rate c =
     (let a = node c;
          streaming = (stream_in_active a \<or> (\<exists>t \<in> set (output_streams (core a)). streaming t) \<or> \<not> s_ingress_quiet c)
      in persist_dirty c
         \<and> (\<not> streaming
            \<or> \<not> persist_lazy c
              \<and> \<not> tick_count c - persist_dirty_since_tick c < of_nat (AVB_PERSIST_FORCED_FLUSH_MSEC * rate div 1000)))"

definition avb_persist_task :: "'n nvs_ops \<Rightarrow> nat \<Rightarrow> 'n config_state \<Rightarrow> 'n config_state" where
  "avb_persist_task nv rate c =
     (if \<not> persist_gate rate c then c
      else let c = c\<lparr> persist_lazy := False, persist_dirty := False \<rparr>
           in snd (avb_persist_write_blob nv (persist c) c))"

end
