(* ===== verification/Journal_Map.thy ===== *)
theory Journal_Map
  imports Journal
begin

text \<open>
  The journal as a map: its keys are read back as they are printed, and the records under the
  highest numbers form a map from streams to records, which each new record updates.
\<close>

section \<open>Keys\<close>

lemma digit_cases: "n < 16 \<Longrightarrow> n \<in> {0 :: nat, 1, 2, 3, 4, 5, 6, 7, 8, 9, 10, 11, 12, 13, 14, 15}"
  by (simp, presburger)

lemma hex_value_low: "n < 16 \<Longrightarrow> hex_value (low_hex n) = Some n"
  by (drule digit_cases) (auto simp: low_hex_def hex_value_def)

lemma low_hex_plain:
  assumes "n < 16"
  shows "(of_char (low_hex n) :: nat) \<notin> {32, 9, 10, 11, 12, 13}" and "low_hex n \<noteq> CHR ''-''"
    and "low_hex n \<noteq> CHR ''+''" and "low_hex n \<noteq> CHR ''x''" and "low_hex n \<noteq> CHR ''X''"
  using digit_cases [OF assms] by (auto simp: low_hex_def)

lemma low_hex_index: "i < 8 \<Longrightarrow> (of_char (low_hex i) :: nat) = 48 + i"
proof -
  assume "i < 8"
  then have "i \<in> {0, 1, 2, 3, 4, 5, 6, 7}" by auto
  then show ?thesis by (auto simp: low_hex_def)
qed

lemma hex_run_digits:
  "(\<forall>d \<in> set ds. d < 16) \<Longrightarrow> hex_run acc (map low_hex ds) = (foldl (\<lambda>a d. a * 16 + d) acc ds, [])"
  by (induction ds arbitrary: acc) (simp_all add: hex_value_low)

lemma six_digits:
  assumes "n < 16 ^ 6"
  shows "foldl (\<lambda>a d. a * 16 + d) 0 (map (\<lambda>k. n div 16 ^ k mod 16) [5, 4, 3, 2, 1, 0]) = (n :: nat)"
proof -
  have "n mod 16 + 16 * (n div 16) = n" by simp
  moreover have "n div 16 mod 16 + 16 * (n div 16 div 16) = n div 16" by simp
  moreover have "n div 16 div 16 mod 16 + 16 * (n div 16 div 16 div 16) = n div 16 div 16" by simp
  moreover have "n div 16 div 16 div 16 mod 16 + 16 * (n div 16 div 16 div 16 div 16) = n div 16 div 16 div 16" by simp
  moreover have "n div 16 div 16 div 16 div 16 mod 16 + 16 * (n div 16 div 16 div 16 div 16 div 16)
      = n div 16 div 16 div 16 div 16" by simp
  moreover have "n div 16 div 16 div 16 div 16 div 16 mod 16 = n div 16 div 16 div 16 div 16 div 16"
    using assms by (simp add: div_mult2_eq [symmetric])
  moreover have "n div 16 ^ 2 = n div 16 div 16" "n div 16 ^ 3 = n div 16 div 16 div 16"
      "n div 16 ^ 4 = n div 16 div 16 div 16 div 16" "n div 16 ^ 5 = n div 16 div 16 div 16 div 16 div 16"
    by (simp_all add: div_mult2_eq [symmetric])
  ultimately show ?thesis by (simp only: list.map foldl.simps power_0 power_one_right div_by_1) simp
qed

lemma strtoul_digits:
  assumes "\<forall>d \<in> set ds. d < 16" and "ds \<noteq> []"
  shows "strtoul16 (map low_hex ds) = (of_nat (foldl (\<lambda>a d. a * 16 + d) 0 ds), [])"
proof -
  obtain d es where ds: "ds = d # es" using assms(2) by (cases ds) auto
  let ?t = "map low_hex ds"
  note d = low_hex_plain [of d]
  have a: "dropWhile (\<lambda>ch. of_char ch \<in> {32 :: nat, 9, 10, 11, 12, 13}) ?t = ?t"
    using d(1) assms(1) by (simp add: ds)
  have b: "take 1 ?t \<noteq> ''-''" "take 1 ?t \<noteq> ''+''" using d assms(1) by (auto simp: ds)
  have c: "take 2 ?t \<noteq> ''0x''" "take 2 ?t \<noteq> ''0X''"
    using assms(1) low_hex_plain(4,5) by (cases es; auto simp: ds)+
  have r: "hex_run 0 ?t = (foldl (\<lambda>a d. a * 16 + d) 0 ds, [])"
    using hex_run_digits [of ds 0] assms(1) by simp
  have ne: "[] \<noteq> ?t" using ds by simp
  show ?thesis
    unfolding strtoul16_def Let_def a using b c ne by (simp only: r if_False simp_thms prod.case)
qed

lemma parse_digits:
  assumes "i < 8" and "length t = 6" and "strtoul16 t = (seq, [])"
  shows "avb_persist_parse_stream_journal_key ((if input then ''si'' else ''so'') @ [low_hex i] @ t) = Some (input, i, seq)"
  using low_hex_index [OF assms(1)] assms by (simp add: avb_persist_parse_stream_journal_key_def)

text \<open>C28. A journal key is read back as it was printed: stream, direction and 24-bit number.\<close>

theorem journal_key_roundtrip:
  assumes "i < 8" and "seq < 2 ^ 24"
  shows "avb_persist_parse_stream_journal_key (journal_key input i seq) = Some (input, i, seq)"
proof -
  let ?ds = "map (\<lambda>k. unat seq div 16 ^ k mod 16) [5, 4, 3, 2, 1, 0]"
  have "unat seq < 16 ^ 6" using assms(2) by (simp add: word_less_nat_alt)
  then have v: "of_nat (foldl (\<lambda>a d. a * 16 + d) 0 ?ds) = seq" by (simp only: six_digits) simp
  have "strtoul16 (map low_hex ?ds) = (seq, [])"
    using strtoul_digits [of ?ds] v by simp
  moreover have "map (\<lambda>k. low_hex (unat seq div 16 ^ k mod 16)) [5, 4, 3, 2, 1, 0] = map low_hex ?ds" by simp
  moreover have "length (map low_hex ?ds) = 6" by simp
  ultimately show ?thesis
    unfolding journal_key_def using parse_digits [OF assms(1)] by metis
qed

theorem journal_key_roundtrip_witness:
  "avb_persist_parse_stream_journal_key (journal_key True 3 0xA5) = Some (True, 3, 0xA5)"
  by (rule journal_key_roundtrip) simp_all

section \<open>The latest records\<close>

abbreviation parse_key :: "string \<Rightarrow> (bool \<times> nat \<times> u32) option" where
  "parse_key \<equiv> avb_persist_parse_stream_journal_key"

lemma parse_index: "parse_key k = Some (input, i, seq) \<Longrightarrow> i < 8"
  by (auto simp: avb_persist_parse_stream_journal_key_def Let_def split: if_splits prod.splits)

type_synonym store = "string \<Rightarrow> nvs_value option"

definition journal_seqs :: "store \<Rightarrow> bool \<Rightarrow> nat \<Rightarrow> u32 set" where
  "journal_seqs G input i = {seq. \<exists>k \<in> dom G. parse_key k = Some (input, i, seq)}"

definition journal_latest :: "store \<Rightarrow> bool \<Rightarrow> nat \<Rightarrow> u32" where
  "journal_latest G input i = Max (insert 0 (journal_seqs G input i))"

definition journal_map :: "store \<Rightarrow> bool \<times> nat \<Rightarrow> nvs_value option" where
  "journal_map G = (\<lambda>(input, i).
     if journal_latest G input i = 0 then None else G (journal_key input i (journal_latest G input i)))"

text \<open>The keys of a journal whose highest number is at most \<open>s\<close>.\<close>

definition journal_ok :: "store \<Rightarrow> u32 \<Rightarrow> bool" where
  "journal_ok G s \<longleftrightarrow> finite (dom G)
     \<and> (\<forall>k v input i seq. G k = Some v \<longrightarrow> parse_key k = Some (input, i, seq) \<longrightarrow>
          k = journal_key input i seq \<and> 0 < seq \<and> seq \<le> s \<and> seq < 2 ^ 24 \<and> journal_value input v)"

lemma journal_okD:
  assumes "journal_ok G s" and "G k = Some v" and "parse_key k = Some (input, i, seq)"
  shows "k = journal_key input i seq" and "0 < seq" and "seq \<le> s" and "seq < 2 ^ 24" and "journal_value input v"
  using assms by (auto simp: journal_ok_def)

lemma finite_journal_seqs: "finite (dom G) \<Longrightarrow> finite (journal_seqs G input i)"
proof -
  assume f: "finite (dom G)"
  have "journal_seqs G input i \<subseteq> (\<lambda>k. snd (snd (the (parse_key k)))) ` dom G"
    by (force simp: journal_seqs_def)
  with f show ?thesis by (meson finite_imageI finite_subset)
qed

lemma latest_Suc:
  assumes "journal_ok G s" and "s + 1 < 2 ^ 24" and "s < s + 1" and "i < 8" and "journal_value input v"
  defines "G' \<equiv> G(journal_key input i (s + 1) \<mapsto> v)"
  shows "journal_ok G' (s + 1)" and "journal_map G' = (journal_map G)((input, i) \<mapsto> v)"
    and "\<And>k. parse_key k = None \<Longrightarrow> G' k = G k"
proof -
  note key = journal_key_roundtrip [OF assms(4,2), of input]
  have pos: "0 < s + 1" using assms(3) by (metis word_coorder.not_eq_extremum word_not_simps(1))
  have fin: "finite (dom G)" using assms(1) by (simp add: journal_ok_def)
  have le: "seq \<le> s" if "G k = Some u" "parse_key k = Some (p, j, seq)" for k u p j seq
    using journal_okD(3) [OF assms(1) that] .
  show "journal_ok G' (s + 1)"
    unfolding journal_ok_def
  proof (intro conjI allI impI)
    fix k u p j seq assume k: "G' k = Some u" "parse_key k = Some (p, j, seq)"
    show "k = journal_key p j seq" "0 < seq" "seq \<le> s + 1" "seq < 2 ^ 24" "journal_value p u"
      using k key pos assms(2,5) journal_okD [OF assms(1), of k u p j seq] assms(3)
      by (auto simp: G'_def split: if_splits)
  qed (simp add: G'_def fin)
  have seqs: "journal_seqs G' p j = (if (p, j) = (input, i) then insert (s + 1) (journal_seqs G p j) else journal_seqs G p j)"
    for p j using key by (auto simp: journal_seqs_def G'_def split: if_splits)
  have below: "\<forall>seq \<in> journal_seqs G p j. seq \<le> s" for p j using le by (fastforce simp: journal_seqs_def)
  have below': "seq \<le> s + 1" if "seq \<in> journal_seqs G p j" for seq p j
    using below [of p j] that assms(3) by (meson less_imp_le order.trans)
  have L: "journal_latest G' input i = s + 1"
  proof -
    have "insert 0 (journal_seqs G' input i) = insert (s + 1) (insert 0 (journal_seqs G input i))" by (auto simp: seqs)
    moreover have "Max (insert (s + 1) (insert 0 (journal_seqs G input i))) = s + 1"
      by (rule Max_eqI) (use finite_journal_seqs [OF fin] below' in auto)
    ultimately show ?thesis by (simp add: journal_latest_def)
  qed
  have other: "journal_latest G' p j = journal_latest G p j" if "(p, j) \<noteq> (input, i)" for p j
    unfolding journal_latest_def seqs if_not_P [OF that] ..
  have key_other: "journal_key p j (journal_latest G p j) \<noteq> journal_key input i (s + 1)"
    if "journal_latest G p j \<noteq> 0" for p j
  proof -
    have "journal_latest G p j \<in> insert 0 (journal_seqs G p j)"
      unfolding journal_latest_def by (rule Max_in) (simp_all add: finite_journal_seqs [OF fin])
    with that have "journal_latest G p j \<in> journal_seqs G p j" by simp
    then obtain k u where k: "G k = Some u" "parse_key k = Some (p, j, journal_latest G p j)"
      by (auto simp: journal_seqs_def)
    have "journal_latest G p j \<noteq> s + 1" using journal_okD(3) [OF assms(1) k] assms(3) by auto
    then have "k \<noteq> journal_key input i (s + 1)" using k(2) key by (metis option.inject prod.inject)
    then show ?thesis using journal_okD(1) [OF assms(1) k] by metis
  qed
  show "journal_map G' = (journal_map G)((input, i) \<mapsto> v)"
  proof
    fix x show "journal_map G' x = ((journal_map G)((input, i) \<mapsto> v)) x"
    proof (cases "x = (input, i)")
      case True
      then show ?thesis using L pos by (simp add: journal_map_def G'_def)
    next
      case False
      obtain p j where x: "x = (p, j)" by (cases x)
      have "journal_map G' x = journal_map G x"
        using other [of p j] key_other [of p j] False x by (auto simp: journal_map_def G'_def)
      then show ?thesis using False by simp
    qed
  qed
  show "G' k = G k" if "parse_key k = None" for k using that key by (auto simp: G'_def)
qed

end
