(* ===== verification/Journal_Store.thy ===== *)
theory Journal_Store
  imports Journal_Map "HOL-Library.AList"
begin

text \<open>
  What the flash store promises, and with it that the journal keeps the latest record of every
  stream: through appending, through the compaction a full store forces, and through the replay.
\<close>

section \<open>The store\<close>

definition is_blob :: "nvs_value \<Rightarrow> bool" where
  "is_blob v = (case v of nvs_rate _ \<Rightarrow> False | _ \<Rightarrow> True)"

lemma journal_value_blob: "journal_value input v \<Longrightarrow> is_blob v"
  by (auto simp: journal_value_def is_blob_def split: nvs_value.splits)

text \<open>A working store with room for \<open>cap\<close> values: a value that is set is read back, a failed write
  changes nothing, and the only reason for one is that the store is full.\<close>

locale nvs_store =
  fixes nv :: "'n nvs_ops" and store_ok :: "'n \<Rightarrow> bool" and cap :: nat
  assumes store_open: "store_ok n \<Longrightarrow> nvs_open nv w n"
    and store_finite: "store_ok n \<Longrightarrow> finite (dom (nvs_get nv n))"
    and store_blobs: "store_ok n \<Longrightarrow> distinct (nvs_blobs nv n)"
      "store_ok n \<Longrightarrow> set (nvs_blobs nv n) = {k. \<exists>v. nvs_get nv n k = Some v \<and> is_blob v}"
    and store_set: "\<lbrakk>store_ok n; nvs_set nv k v n = (err, n')\<rbrakk> \<Longrightarrow>
      store_ok n' \<and> (err = ESP_OK \<and> nvs_get nv n' = (nvs_get nv n)(k \<mapsto> v)
                     \<or> err = ESP_ERR_NVS_NOT_ENOUGH_SPACE \<and> nvs_get nv n' = nvs_get nv n)"
    and store_room: "\<lbrakk>store_ok n; card (dom (nvs_get nv n)) < cap\<rbrakk> \<Longrightarrow> fst (nvs_set nv k v n) = ESP_OK"
    and store_erase: "\<lbrakk>store_ok n; k \<in> dom (nvs_get nv n)\<rbrakk> \<Longrightarrow>
      \<exists>n'. nvs_erase nv k n = (ESP_OK, n') \<and> store_ok n' \<and> nvs_get nv n' = (nvs_get nv n)(k := None)"
    and store_commit: "store_ok n \<Longrightarrow>
      \<exists>n'. nvs_commit nv n = (ESP_OK, n') \<and> store_ok n' \<and> nvs_get nv n' = nvs_get nv n"

text \<open>A list of at most \<open>cap\<close> values is such a store.\<close>

type_synonym list_nvs = "(string \<times> nvs_value) list"

definition list_store :: "nat \<Rightarrow> list_nvs nvs_ops" where
  "list_store cap = \<lparr> nvs_open = (\<lambda>_ _. True),
     nvs_blobs = (\<lambda>n. map fst (filter (\<lambda>x. is_blob (snd x)) n)),
     nvs_get = map_of,
     nvs_set = (\<lambda>k v n. if map_of n k \<noteq> None \<or> length n < cap then (ESP_OK, AList.update k v n)
                         else (ESP_ERR_NVS_NOT_ENOUGH_SPACE, n)),
     nvs_erase = (\<lambda>k n. (ESP_OK, AList.delete k n)),
     nvs_commit = (\<lambda>n. (ESP_OK, n)) \<rparr>"

interpretation list_nvs: nvs_store "list_store cap" "\<lambda>n. distinct (map fst n)" cap
proof
  fix n :: list_nvs and k v err n' assume d: "distinct (map fst n)"
  show "distinct (nvs_blobs (list_store cap) n)"
    using d by (simp add: list_store_def distinct_map inj_on_def)
  show "set (nvs_blobs (list_store cap) n) = {k. \<exists>v. nvs_get (list_store cap) n k = Some v \<and> is_blob v}"
    using d by (force simp: list_store_def)
  show "card (dom (nvs_get (list_store cap) n)) < cap \<Longrightarrow> fst (nvs_set (list_store cap) k v n) = ESP_OK"
    using distinct_card [OF d] by (simp add: list_store_def dom_map_of_conv_image_fst)
  show "nvs_set (list_store cap) k v n = (err, n') \<Longrightarrow> distinct (map fst n')
      \<and> (err = ESP_OK \<and> nvs_get (list_store cap) n' = (nvs_get (list_store cap) n)(k \<mapsto> v)
         \<or> err = ESP_ERR_NVS_NOT_ENOUGH_SPACE \<and> nvs_get (list_store cap) n' = nvs_get (list_store cap) n)"
    using d by (auto simp: list_store_def update_conv' distinct_update split: if_splits)
  show "\<exists>n'. nvs_erase (list_store cap) k n = (ESP_OK, n') \<and> distinct (map fst n')
      \<and> nvs_get (list_store cap) n' = (nvs_get (list_store cap) n)(k := None)"
    using d by (simp add: list_store_def delete_conv' distinct_delete)
qed (auto simp: list_store_def finite_dom_map_of)

section \<open>Scanning\<close>

definition keys_seqs :: "string set \<Rightarrow> bool \<Rightarrow> nat \<Rightarrow> u32 set" where
  "keys_seqs K p i = {seq. \<exists>k \<in> K. parse_key k = Some (p, i, seq)}"

definition scan_inv :: "store \<Rightarrow> string set \<Rightarrow> journal_scan \<Rightarrow> bool" where
  "scan_inv G K sc \<longleftrightarrow> finite K
     \<and> (\<forall>p i. sc_latest sc p i = Max (insert 0 (keys_seqs K p i))
          \<and> (sc_latest sc p i \<noteq> 0 \<longrightarrow> G (journal_key p i (sc_latest sc p i)) = Some (sc_rec sc p i)))
     \<and> (\<forall>p i. \<forall>seq \<in> keys_seqs K p i. seq \<le> sc_seq sc)"

lemma finite_keys_seqs: "finite K \<Longrightarrow> finite (keys_seqs K p i)"
proof -
  assume f: "finite K"
  have "keys_seqs K p i \<subseteq> (\<lambda>k. snd (snd (the (parse_key k)))) ` K" by (force simp: keys_seqs_def)
  with f show ?thesis by (meson finite_imageI finite_subset)
qed

lemma keys_seqs_insert:
  "keys_seqs (insert k K) p i =
     (case parse_key k of Some (q, j, seq) \<Rightarrow> if (q, j) = (p, i) then insert seq (keys_seqs K p i) else keys_seqs K p i
      | None \<Rightarrow> keys_seqs K p i)"
  by (auto simp: keys_seqs_def split: option.splits)

lemma scan_key_inv:
  assumes "scan_inv G K sc" and "nvs_get nv n = G" and "journal_ok G s" and "k \<in> dom G"
  shows "scan_inv G (insert k K) (scan_key nv n k sc)"
proof (cases "parse_key k")
  case None
  then have k: "scan_key nv n k sc = sc" and q: "keys_seqs (insert k K) p i = keys_seqs K p i" for p i
    by (simp_all add: scan_key_def keys_seqs_insert)
  show ?thesis using assms(1) unfolding k scan_inv_def finite_insert q .
next
  case (Some x)
  obtain q j seq where x: "x = (q, j, seq)" by (cases x) auto
  obtain v where v: "G k = Some v" using assms(4) by auto
  note k = journal_okD [OF assms(3) v Some [unfolded x]]
  have j: "j < 8" using parse_index [OF Some [unfolded x]] .
  have fin: "finite K" and f2: "finite (keys_seqs K p i)" for p i
    using assms(1) finite_keys_seqs by (auto simp: scan_inv_def)
  have L: "sc_latest sc p i = Max (insert 0 (keys_seqs K p i))" for p i using assms(1) by (simp add: scan_inv_def)
  have R: "sc_latest sc p i \<noteq> 0 \<Longrightarrow> G (journal_key p i (sc_latest sc p i)) = Some (sc_rec sc p i)" for p i
    using assms(1) unfolding scan_inv_def by blast
  have S: "\<forall>t \<in> keys_seqs K p i. t \<le> sc_seq sc" for p i using assms(1) by (simp add: scan_inv_def)
  have M: "Max (insert 0 (insert seq (keys_seqs K q j))) = max seq (sc_latest sc q j)"
    unfolding L using f2 by (simp add: insert_commute [of 0 seq])
  define sc' where "sc' = sc\<lparr> sc_seq := (if seq > sc_seq sc then seq else sc_seq sc) \<rparr>"
  have e: "scan_key nv n k sc =
      (if seq \<ge> sc_latest sc q j
       then sc'\<lparr> sc_latest := (sc_latest sc)(q := (sc_latest sc q)(j := seq)),
                sc_rec := (sc_rec sc)(q := (sc_rec sc q)(j := v)) \<rparr>
       else sc')"
    using Some x v k(5) j assms(2) by (simp add: scan_key_def sc'_def Let_def AVB_PERSIST_MAX_INPUT_STREAMS_def)
  have seqs: "keys_seqs (insert k K) p i = (if (p, i) = (q, j) then insert seq (keys_seqs K p i) else keys_seqs K p i)"
    for p i using Some x by (auto simp: keys_seqs_insert)
  have top: "\<forall>p i. \<forall>t \<in> keys_seqs (insert k K) p i. t \<le> sc_seq sc'"
  proof (intro allI ballI)
    fix p i t assume "t \<in> keys_seqs (insert k K) p i"
    then have "t = seq \<or> t \<in> keys_seqs K p i" by (auto simp: seqs split: if_splits)
    then have "t = seq \<or> t \<le> sc_seq sc" using S by blast
    then show "t \<le> sc_seq sc'" by (auto simp: sc'_def)
  qed
  show ?thesis
  proof (cases "seq \<ge> sc_latest sc q j")
    case True
    let ?n = "scan_key nv n k sc"
    have l: "sc_latest ?n p i = (if (p, i) = (q, j) then seq else sc_latest sc p i)"
      and r: "sc_rec ?n p i = (if (p, i) = (q, j) then v else sc_rec sc p i)" for p i
      using True by (auto simp: e sc'_def)
    have m: "Max (insert 0 (keys_seqs (insert k K) p i)) = sc_latest ?n p i" for p i
      using M True L [of p i] by (auto simp: l seqs)
    have g: "G (journal_key p i (sc_latest ?n p i)) = Some (sc_rec ?n p i)" if "sc_latest ?n p i \<noteq> 0" for p i
    proof (cases "(p, i) = (q, j)")
      case True
      have "G (journal_key q j seq) = Some v" using v k(1) by metis
      with True show ?thesis by (simp add: l r)
    next
      case False
      then have "sc_latest ?n p i = sc_latest sc p i" "sc_rec ?n p i = sc_rec sc p i"
        unfolding l r by (rule if_not_P)+
      then show ?thesis using that R [of p i] by simp
    qed
    have "sc_seq ?n = sc_seq sc'" using True by (simp add: e)
    then show ?thesis using fin m g top unfolding scan_inv_def by simp
  next
    case False
    let ?n = "scan_key nv n k sc"
    from False have l: "sc_latest ?n p i = sc_latest sc p i" and r: "sc_rec ?n p i = sc_rec sc p i"
      and q: "sc_seq ?n = sc_seq sc'" for p i by (simp_all add: e sc'_def)
    have "Max (insert 0 (keys_seqs (insert k K) p i)) = sc_latest sc p i" for p i
    proof (cases "(p, i) = (q, j)")
      case True
      then show ?thesis using M False by (simp add: seqs)
    next
      case False
      then have "keys_seqs (insert k K) p i = keys_seqs K p i" unfolding seqs by (rule if_not_P)
      then show ?thesis by (simp add: L)
    qed
    then show ?thesis using fin R top unfolding scan_inv_def l r q finite_insert by simp
  qed
qed

lemma scan_fold_inv:
  assumes "nvs_get nv n = G" and "journal_ok G s" and "set ks \<subseteq> dom G" and "scan_inv G K sc"
  shows "scan_inv G (set ks \<union> K) (fold (scan_key nv n) ks sc)"
  using assms(3,4)
proof (induction ks arbitrary: K sc)
  case (Cons k ks)
  then have "scan_inv G (insert k K) (scan_key nv n k sc)" by (intro scan_key_inv [OF _ assms(1,2)]) simp_all
  then have "scan_inv G (set ks \<union> insert k K) (fold (scan_key nv n) ks (scan_key nv n k sc))"
    using Cons.prems(1) by (intro Cons.IH) simp_all
  then show ?case by simp
qed simp

context nvs_store
begin

lemma scan_result:
  assumes "store_ok n" and "journal_ok (nvs_get nv n) s"
  defines "G \<equiv> nvs_get nv n"
  shows "sc_latest (journal_scan_all nv n q) p i = journal_latest G p i"
    and "journal_latest G p i \<noteq> 0 \<Longrightarrow> journal_map G (p, i) = Some (sc_rec (journal_scan_all nv n q) p i)"
    and "seq \<in> journal_seqs G p i \<Longrightarrow> seq \<le> sc_seq (journal_scan_all nv n q)"
proof -
  have K: "set (nvs_blobs nv n) \<subseteq> dom G" using store_blobs(2) [OF assms(1)] by (auto simp: G_def)
  have "keys_seqs (set (nvs_blobs nv n)) p i = journal_seqs G p i" for p i
    unfolding keys_seqs_def journal_seqs_def
    using store_blobs(2) [OF assms(1)] journal_okD(5) [OF assms(2)] journal_value_blob
    by (fastforce simp: G_def)
  note ks = this
  have "scan_inv G {} (scan_zero q)" by (simp add: scan_inv_def scan_zero_def keys_seqs_def)
  from scan_fold_inv [of nv n G, OF _ assms(2) [folded G_def] K this]
  have "scan_inv G (set (nvs_blobs nv n)) (journal_scan_all nv n q)" by (simp add: journal_scan_all_def G_def)
  then have inv: "\<forall>p i. sc_latest (journal_scan_all nv n q) p i = journal_latest G p i
        \<and> (sc_latest (journal_scan_all nv n q) p i \<noteq> 0 \<longrightarrow>
             G (journal_key p i (sc_latest (journal_scan_all nv n q) p i)) = Some (sc_rec (journal_scan_all nv n q) p i))"
    and top: "\<forall>p i. \<forall>seq \<in> journal_seqs G p i. seq \<le> sc_seq (journal_scan_all nv n q)"
    unfolding scan_inv_def journal_latest_def ks by blast+
  show L: "sc_latest (journal_scan_all nv n q) p i = journal_latest G p i" using inv by blast
  show "journal_latest G p i \<noteq> 0 \<Longrightarrow> journal_map G (p, i) = Some (sc_rec (journal_scan_all nv n q) p i)"
  proof -
    assume ne: "journal_latest G p i \<noteq> 0"
    then have "G (journal_key p i (journal_latest G p i)) = Some (sc_rec (journal_scan_all nv n q) p i)"
      using inv unfolding L [symmetric] by blast
    then show ?thesis using ne by (simp add: journal_map_def)
  qed
  show "seq \<in> journal_seqs G p i \<Longrightarrow> seq \<le> sc_seq (journal_scan_all nv n q)" using top by blast
qed

end

section \<open>Erasing and rewriting\<close>

definition others :: "store \<Rightarrow> store" where
  "others G = (\<lambda>k. if parse_key k = None then G k else None)"

lemma seq_next:
  assumes "unat (q :: u32) + 1 < 2 ^ 24"
  shows "q + 1 < 2 ^ 24" and "q < q + 1" and "unat (q + 1) = unat q + 1" and "(q + 1) AND 0xFFFFFF = q + 1"
proof -
  show u: "unat (q + 1) = unat q + 1" using assms by (simp add: unat_word_ariths unat_plus_simple [THEN iffD1])
  show "q + 1 < 2 ^ 24" "q < q + 1" using assms u by (simp_all add: word_less_nat_alt)
  have "unat ((q + 1) AND mask 24) = unat (q + 1)"
    unfolding take_bit_eq_mask [symmetric] unsigned_take_bit_eq
    using assms u by (simp add: take_bit_nat_eq_self_iff)
  then have "(q + 1) AND mask 24 = q + 1" by (rule unsigned_word_eqI)
  then show "(q + 1) AND 0xFFFFFF = q + 1" by (simp add: mask_eq_decr_exp)
qed

end
