(* ===== verification/Journal_Latest.thy ===== *)
theory Journal_Latest
  imports Journal_Store
begin

text \<open>
  Appending to the journal is an update of the map of latest records, whether the store has
  room or is compacted first; and a deferred record is written by the next tick that may write.
\<close>

context nvs_store
begin

lemma set_record:
  assumes "store_ok n" and "journal_ok (nvs_get nv n) q" and "unat q + 1 < 2 ^ 24" and "i < 8"
    and "journal_value p v" and "nvs_set nv (journal_key p i ((q + 1) AND 0xFFFFFF)) v n = (ESP_OK, n')"
  shows "store_ok n'" and "journal_ok (nvs_get nv n') (q + 1)"
    and "journal_map (nvs_get nv n') = (journal_map (nvs_get nv n))((p, i) \<mapsto> v)"
    and "others (nvs_get nv n') = others (nvs_get nv n)"
    and "card (dom (nvs_get nv n')) \<le> card (dom (nvs_get nv n)) + 1"
proof -
  note q = seq_next [OF assms(3)]
  have "nvs_set nv (journal_key p i (q + 1)) v n = (ESP_OK, n')" using assms(6) unfolding q(4) .
  from store_set [OF assms(1) this]
  have ok: "store_ok n'" and G: "nvs_get nv n' = (nvs_get nv n)(journal_key p i (q + 1) \<mapsto> v)" by simp_all
  show "store_ok n'" by (rule ok)
  show "journal_ok (nvs_get nv n') (q + 1)"
    and "journal_map (nvs_get nv n') = (journal_map (nvs_get nv n))((p, i) \<mapsto> v)"
    unfolding G using latest_Suc [OF assms(2) q(1,2) assms(4,5)] by blast+
  show "others (nvs_get nv n') = others (nvs_get nv n)"
    unfolding G others_def using latest_Suc(3) [OF assms(2) q(1,2) assms(4,5)] by (auto simp: fun_eq_iff)
  show "card (dom (nvs_get nv n')) \<le> card (dom (nvs_get nv n)) + 1"
    unfolding G using store_finite [OF assms(1)] by (simp add: card_insert_if)
qed

lemma set_fits:
  assumes "store_ok n" and "card (dom (nvs_get nv n)) < cap"
  obtains n' where "nvs_set nv k v n = (ESP_OK, n')"
  using store_room [OF assms, of k v] by (metis prod.collapse)

lemma erase_all:
  assumes "store_ok n" and "journal_ok (nvs_get nv n) s"
    and "card {k \<in> dom (nvs_get nv n). parse_key k \<noteq> None} \<le> m"
  shows "store_ok (erase_journal nv m n) \<and> nvs_get nv (erase_journal nv m n) = others (nvs_get nv n)"
  using assms
proof (induction m arbitrary: n)
  case 0
  then have "{k \<in> dom (nvs_get nv n). parse_key k \<noteq> None} = {}" using store_finite by simp
  then have "nvs_get nv n = others (nvs_get nv n)" by (force simp: others_def fun_eq_iff)
  with 0 show ?case by simp
next
  case (Suc m)
  let ?G = "nvs_get nv n"
  have blob: "k \<in> set (nvs_blobs nv n)" if "k \<in> dom ?G" "parse_key k \<noteq> None" for k
    using that store_blobs(2) [OF Suc.prems(1)] journal_okD(5) [OF Suc.prems(2)] journal_value_blob by fastforce
  show ?case
  proof (cases "List.find (\<lambda>key. parse_key key \<noteq> None) (nvs_blobs nv n)")
    case None
    then have "\<forall>k \<in> dom ?G. parse_key k = None" using blob unfolding find_None_iff by blast
    then have "?G = others ?G" by (force simp: others_def fun_eq_iff)
    with None Suc.prems(1) show ?thesis by simp
  next
    case (Some victim)
    then have v: "victim \<in> set (nvs_blobs nv n)" "parse_key victim \<noteq> None" by (auto simp: find_Some_iff)
    then have dom: "victim \<in> dom ?G" using store_blobs(2) [OF Suc.prems(1)] by auto
    then obtain n' where n': "nvs_erase nv victim n = (ESP_OK, n')" "store_ok n'" "nvs_get nv n' = ?G(victim := None)"
      using store_erase [OF Suc.prems(1)] by blast
    have j: "journal_ok (nvs_get nv n') s"
      using Suc.prems(2) unfolding n'(3) journal_ok_def by auto
    have "{k \<in> dom (nvs_get nv n'). parse_key k \<noteq> None} = {k \<in> dom ?G. parse_key k \<noteq> None} - {victim}"
      unfolding n'(3) by auto
    then have "card {k \<in> dom (nvs_get nv n'). parse_key k \<noteq> None} \<le> m"
      using Suc.prems(3) dom v(2) store_finite [OF Suc.prems(1)] by (simp add: card_Diff_singleton)
    from Suc.IH [OF n'(2) j this] have "store_ok (erase_journal nv m n')"
      "nvs_get nv (erase_journal nv m n') = others (?G(victim := None))" unfolding n'(3) by blast+
    moreover have "others (?G(victim := None)) = others ?G" using v(2) by (auto simp: others_def fun_eq_iff)
    ultimately show ?thesis using Some n'(1) by simp
  qed
qed

lemma rewrite_loop:
  assumes "store_ok n" and "journal_ok (nvs_get nv n) q" and "unat q + j < 2 ^ 24" and "j \<le> 8"
    and "card (dom (nvs_get nv n)) + j \<le> cap"
    and "\<And>i. sc_latest sc p i \<noteq> 0 \<Longrightarrow> journal_value p (sc_rec sc p i)"
  shows "\<exists>q' n'. foreach j (rewrite_turn nv sc p) (q, n) = (q', n') \<and> store_ok n' \<and> journal_ok (nvs_get nv n') q'
    \<and> unat q' \<le> unat q + j \<and> others (nvs_get nv n') = others (nvs_get nv n)
    \<and> card (dom (nvs_get nv n')) \<le> card (dom (nvs_get nv n)) + j
    \<and> journal_map (nvs_get nv n') = (\<lambda>x. if fst x = p \<and> snd x < j \<and> sc_latest sc p (snd x) \<noteq> 0
         then Some (sc_rec sc p (snd x)) else journal_map (nvs_get nv n) x)"
  using assms(3-5)
proof (induction j)
  case 0
  with assms(1,2) show ?case by simp
next
  case (Suc j)
  then obtain q1 n1 where n1: "foreach j (rewrite_turn nv sc p) (q, n) = (q1, n1)" "store_ok n1"
    "journal_ok (nvs_get nv n1) q1" "unat q1 \<le> unat q + j" "others (nvs_get nv n1) = others (nvs_get nv n)"
    "card (dom (nvs_get nv n1)) \<le> card (dom (nvs_get nv n)) + j"
    and m1: "journal_map (nvs_get nv n1) = (\<lambda>x. if fst x = p \<and> snd x < j \<and> sc_latest sc p (snd x) \<noteq> 0
         then Some (sc_rec sc p (snd x)) else journal_map (nvs_get nv n) x)"
    by force
  show ?case
  proof (cases "sc_latest sc p j = 0")
    case True
    have "(\<lambda>x. if fst x = p \<and> snd x < Suc j \<and> sc_latest sc p (snd x) \<noteq> 0
         then Some (sc_rec sc p (snd x)) else journal_map (nvs_get nv n) x) = journal_map (nvs_get nv n1)"
      using True by (auto simp: m1 fun_eq_iff less_Suc_eq)
    moreover have "foreach (Suc j) (rewrite_turn nv sc p) (q, n) = (q1, n1)"
      by (simp add: foreach_Suc n1(1)) (simp add: rewrite_turn_def True)
    ultimately show ?thesis using n1 by simp
  next
    case False
    obtain n2 where n2: "nvs_set nv (journal_key p j ((q1 + 1) AND 0xFFFFFF)) (sc_rec sc p j) n1 = (ESP_OK, n2)"
      using set_fits [OF n1(2)] n1(6) Suc.prems by (metis add_Suc_right le_imp_less_Suc order_less_le_trans)
    have u: "unat q1 + 1 < 2 ^ 24" using n1(4) Suc.prems by simp
    note s = set_record [OF n1(2,3) u _ assms(6) [OF False] n2]
    have "journal_map (nvs_get nv n2) = (\<lambda>x. if fst x = p \<and> snd x < Suc j \<and> sc_latest sc p (snd x) \<noteq> 0
         then Some (sc_rec sc p (snd x)) else journal_map (nvs_get nv n) x)"
      using s(3) Suc.prems False by (auto simp: m1 fun_eq_iff less_Suc_eq)
    moreover have "foreach (Suc j) (rewrite_turn nv sc p) (q, n) = (q1 + 1, n2)"
      by (simp add: foreach_Suc n1(1)) (simp add: rewrite_turn_def False n2)
    ultimately show ?thesis using n1 s Suc.prems seq_next(3) [OF u] by simp
  qed
qed

text \<open>A compaction keeps the latest records and leaves at most sixteen of them.\<close>

lemma journal_map_range:
  assumes "journal_ok G s" and "8 \<le> i"
  shows "journal_latest G p i = 0"
proof -
  have "journal_seqs G p i = {}" using parse_index assms(2) by (fastforce simp: journal_seqs_def)
  then show ?thesis by (simp add: journal_latest_def)
qed

lemma journal_map_value:
  assumes "journal_ok G s" and "journal_map G (p, i) = Some v"
  shows "journal_value p v"
proof -
  have "journal_latest G p i \<in> insert 0 (journal_seqs G p i)"
    unfolding journal_latest_def using assms(1) finite_journal_seqs by (intro Max_in) (auto simp: journal_ok_def)
  with assms(2) have "journal_latest G p i \<in> journal_seqs G p i" by (auto simp: journal_map_def split: if_splits)
  then obtain k u where k: "G k = Some u" "parse_key k = Some (p, i, journal_latest G p i)"
    by (auto simp: journal_seqs_def)
  have "k = journal_key p i (journal_latest G p i)" using journal_okD(1) [OF assms(1) k] .
  with k(1) assms(2) have "u = v" by (auto simp: journal_map_def split: if_splits)
  with journal_okD(5) [OF assms(1) k] show ?thesis by simp
qed

lemma compaction:
  assumes "store_ok (nvs c)" and "journal_ok (nvs_get nv (nvs c)) s"
    and "card (dom (others (nvs_get nv (nvs c)))) + 16 \<le> cap"
  defines "G \<equiv> nvs_get nv (nvs c)"
  shows "\<exists>q n. avb_persist_compact_stream_journal nv c = (ESP_OK, c\<lparr> nvs := n, s_persist_journal_seq := q \<rparr>)
    \<and> store_ok n \<and> journal_ok (nvs_get nv n) q \<and> unat q \<le> 16 \<and> others (nvs_get nv n) = others G
    \<and> card (dom (nvs_get nv n)) \<le> card (dom (others G)) + 16 \<and> journal_map (nvs_get nv n) = journal_map G"
proof -
  define sc where "sc = journal_scan_all nv (nvs c) 0"
  note sc = scan_result [OF assms(1,2), where q = 0, folded sc_def G_def]
  have val: "journal_value p (sc_rec sc p i)" if "sc_latest sc p i \<noteq> 0" for p i
    using sc(2) [of p i] that journal_map_value [of G s p i] assms(2) unfolding sc(1) G_def by simp
  define n0 where "n0 = erase_journal nv (length (nvs_blobs nv (nvs c))) (nvs c)"
  have "{k \<in> dom G. parse_key k \<noteq> None} \<subseteq> set (nvs_blobs nv (nvs c))"
    using store_blobs(2) [OF assms(1)] journal_okD(5) [OF assms(2)] journal_value_blob by (fastforce simp: G_def)
  then have "card {k \<in> dom G. parse_key k \<noteq> None} \<le> length (nvs_blobs nv (nvs c))"
    by (meson List.finite_set card_length card_mono order_trans)
  from erase_all [OF assms(1,2) this [unfolded G_def]]
  have n0: "store_ok n0" "nvs_get nv n0 = others G" by (simp_all add: n0_def G_def)
  have fin: "finite (dom (others G))" using store_finite [OF n0(1)] by (simp add: n0(2))
  have none: "parse_key k = None" if "others G k = Some v" for k v using that by (simp add: others_def split: if_splits)
  have j0: "journal_ok (nvs_get nv n0) 0" using fin none by (fastforce simp: n0(2) journal_ok_def)
  have "journal_seqs (others G) p i = {}" for p i using none by (fastforce simp: journal_seqs_def)
  then have m0: "journal_map (nvs_get nv n0) = Map.empty"
    by (simp add: n0(2) journal_map_def journal_latest_def fun_eq_iff)
  have "card (dom (nvs_get nv n0)) + 8 \<le> cap" using assms(3) by (simp add: n0(2) G_def)
  from rewrite_loop [OF n0(1) j0, of 8 sc True, OF _ _ this val] obtain q1 n1 where
    r1: "foreach 8 (rewrite_turn nv sc True) (0, n0) = (q1, n1)" "store_ok n1" "journal_ok (nvs_get nv n1) q1"
      "unat q1 \<le> 8" "others (nvs_get nv n1) = others G" "card (dom (nvs_get nv n1)) \<le> card (dom (others G)) + 8"
    and m1: "journal_map (nvs_get nv n1) = (\<lambda>x. if fst x = True \<and> snd x < 8 \<and> sc_latest sc True (snd x) \<noteq> 0
         then Some (sc_rec sc True (snd x)) else journal_map (nvs_get nv n0) x)"
    by (auto simp: n0(2) others_def cong: if_cong)
  have "card (dom (nvs_get nv n1)) + 8 \<le> cap" "unat q1 + 8 < 2 ^ 24" using r1(4,6) assms(3) by (simp_all add: G_def)
  from rewrite_loop [OF r1(2,3) this(2) _ this(1), of sc False, OF _ val] obtain q2 n2 where
    r2: "foreach 8 (rewrite_turn nv sc False) (q1, n1) = (q2, n2)" "store_ok n2" "journal_ok (nvs_get nv n2) q2"
      "unat q2 \<le> unat q1 + 8" "others (nvs_get nv n2) = others G" "card (dom (nvs_get nv n2)) \<le> card (dom (nvs_get nv n1)) + 8"
    and m2: "journal_map (nvs_get nv n2) = (\<lambda>x. if fst x = False \<and> snd x < 8 \<and> sc_latest sc False (snd x) \<noteq> 0
         then Some (sc_rec sc False (snd x)) else journal_map (nvs_get nv n1) x)"
    by (auto simp: r1(5))
  obtain n3 where n3: "nvs_commit nv n2 = (ESP_OK, n3)" "store_ok n3" "nvs_get nv n3 = nvs_get nv n2"
    using store_commit [OF r2(2)] by blast
  have "journal_map (nvs_get nv n2) x = journal_map G x" for x
  proof (cases x)
    case (Pair p i)
    have "journal_map G (p, i) = (if journal_latest G p i = 0 then None else Some (sc_rec sc p i))"
      using sc(2) [of p i] by (simp add: journal_map_def)
    then show ?thesis
      using journal_map_range [OF assms(2) [folded G_def], of i p]
      by (cases p; cases "i < 8"; simp add: Pair m2 m1 m0 sc(1))
  qed
  then have m: "journal_map (nvs_get nv n3) = journal_map G" by (simp add: n3(3) fun_eq_iff)
  have "avb_persist_compact_stream_journal nv c = (ESP_OK, c\<lparr> nvs := n3, s_persist_journal_seq := q2 \<rparr>)"
    using store_open [OF assms(1)] r1(1) r2(1) n3(1)
    by (simp add: avb_persist_compact_stream_journal_def sc_def [symmetric] n0_def [symmetric]
        AVB_PERSIST_MAX_INPUT_STREAMS_def AVB_PERSIST_MAX_OUTPUT_STREAMS_def)
  then show ?thesis using m n3 r1 r2 by (intro exI [of _ q2] exI [of _ n3]) simp
qed

section \<open>Appending\<close>

text \<open>A journal in a working store with room for its latest records and one more.\<close>

definition journal_state :: "'n config_state \<Rightarrow> bool" where
  "journal_state c \<longleftrightarrow> store_ok (nvs c) \<and> journal_ok (nvs_get nv (nvs c)) (s_persist_journal_seq c)
     \<and> card (dom (others (nvs_get nv (nvs c)))) + 17 \<le> cap"

lemma journal_put_cases:
  assumes "journal_state c" and "unat (s_persist_journal_seq c) + 1 < 2 ^ 24" and "i < 8" and "journal_value p v"
  defines "G \<equiv> nvs_get nv (nvs c)" and "q \<equiv> s_persist_journal_seq c + 1"
  shows "\<exists>n. journal_put nv p i v c = (ESP_OK, c\<lparr> s_persist_journal_seq := q, nvs := n \<rparr>)
        \<and> store_ok n \<and> journal_ok (nvs_get nv n) q \<and> journal_map (nvs_get nv n) = (journal_map G)((p, i) \<mapsto> v)
        \<and> others (nvs_get nv n) = others G
      \<or> cap \<le> card (dom G) \<and> journal_put nv p i v c = (ESP_ERR_NVS_NOT_ENOUGH_SPACE, c\<lparr> s_persist_journal_seq := q, nvs := n \<rparr>)
        \<and> store_ok n \<and> nvs_get nv n = G"
proof -
  have c: "store_ok (nvs c)" "journal_ok G (s_persist_journal_seq c)" using assms(1) by (simp_all add: journal_state_def G_def)
  obtain err n where n: "nvs_set nv (journal_key p i (q AND 0xFFFFFF)) v (nvs c) = (err, n)" by (metis prod.collapse)
  show ?thesis
  proof (cases "err = ESP_OK")
    case True
    note s = set_record [OF c(1) c(2) [unfolded G_def] assms(2-4) n [unfolded True q_def]]
    obtain n' where "nvs_commit nv n = (ESP_OK, n')" "store_ok n'" "nvs_get nv n' = nvs_get nv n"
      using store_commit [OF s(1)] by blast
    with s n True show ?thesis
      unfolding journal_put_def Let_def G_def by (intro exI [of _ n']) (simp add: q_def)
  next
    case False
    then have e: "err = ESP_ERR_NVS_NOT_ENOUGH_SPACE" "store_ok n" "nvs_get nv n = G"
      using store_set [OF c(1) n] by (auto simp: G_def)
    have "cap \<le> card (dom G)"
      using store_room [OF c(1), of "journal_key p i (q AND 0xFFFFFF)" v] n False by (fastforce simp: G_def)
    with e n show ?thesis unfolding journal_put_def Let_def by (intro exI [of _ n]) (simp add: q_def)
  qed
qed

lemma append_record:
  assumes "journal_state c" and "unat (s_persist_journal_seq c) + 1 < 2 ^ 24" and "i < 8" and "journal_value p v"
  defines "G \<equiv> nvs_get nv (nvs c)"
  shows "\<exists>q n. avb_persist_append_stream_record nv p i v c = (ESP_OK, c\<lparr> s_persist_journal_seq := q, nvs := n \<rparr>)
    \<and> journal_state (c\<lparr> s_persist_journal_seq := q, nvs := n \<rparr>)
    \<and> unat q \<le> max (unat (s_persist_journal_seq c) + 1) 17
    \<and> (card (dom G) < cap \<longrightarrow> q = s_persist_journal_seq c + 1)
    \<and> journal_map (nvs_get nv n) = (journal_map G)((p, i) \<mapsto> v) \<and> others (nvs_get nv n) = others G"
proof -
  note c = assms(1) [unfolded journal_state_def]
  let ?q = "s_persist_journal_seq c + 1"
  note u = seq_next(3) [OF assms(2)]
  have open_ok: "nvs_open nv True (nvs c)" using store_open c by blast
  from journal_put_cases [OF assms(1-4), folded G_def] obtain n where
    "journal_put nv p i v c = (ESP_OK, c\<lparr> s_persist_journal_seq := ?q, nvs := n \<rparr>) \<and> store_ok n
        \<and> journal_ok (nvs_get nv n) ?q \<and> journal_map (nvs_get nv n) = (journal_map G)((p, i) \<mapsto> v)
        \<and> others (nvs_get nv n) = others G
      \<or> cap \<le> card (dom G) \<and> journal_put nv p i v c = (ESP_ERR_NVS_NOT_ENOUGH_SPACE, c\<lparr> s_persist_journal_seq := ?q, nvs := n \<rparr>)
        \<and> store_ok n \<and> nvs_get nv n = G" by blast
  then show ?thesis
  proof (elim disjE conjE)
    assume p: "journal_put nv p i v c = (ESP_OK, c\<lparr> s_persist_journal_seq := ?q, nvs := n \<rparr>)"
      "store_ok n" "journal_ok (nvs_get nv n) ?q" "journal_map (nvs_get nv n) = (journal_map G)((p, i) \<mapsto> v)"
      "others (nvs_get nv n) = others G"
    then show ?thesis
      using c open_ok assms(3) u by (intro exI [of _ ?q] exI [of _ n])
        (simp add: avb_persist_append_stream_record_def journal_state_def G_def)
  next
    let ?c = "c\<lparr> s_persist_journal_seq := ?q, nvs := n \<rparr>"
    assume full: "cap \<le> card (dom G)"
    assume p: "journal_put nv p i v c = (ESP_ERR_NVS_NOT_ENOUGH_SPACE, ?c)" "store_ok n" "nvs_get nv n = G"
    from compaction [of ?c "s_persist_journal_seq c"] p c obtain q1 n1 where
      k: "avb_persist_compact_stream_journal nv ?c = (ESP_OK, ?c\<lparr> nvs := n1, s_persist_journal_seq := q1 \<rparr>)"
        "store_ok n1" "journal_ok (nvs_get nv n1) q1" "unat q1 \<le> 16" "others (nvs_get nv n1) = others G"
        "card (dom (nvs_get nv n1)) \<le> card (dom (others G)) + 16" "journal_map (nvs_get nv n1) = journal_map G"
      by (auto simp: G_def)
    let ?d = "c\<lparr> s_persist_journal_seq := q1, nvs := n1 \<rparr>"
    have d: "journal_state ?d" "unat (s_persist_journal_seq ?d) + 1 < 2 ^ 24" "card (dom (nvs_get nv (nvs ?d))) < cap"
      using k c by (simp_all add: journal_state_def G_def)
    from journal_put_cases [OF d(1,2) assms(3,4)] d(3) obtain n2 where
      n2: "journal_put nv p i v ?d = (ESP_OK, ?d\<lparr> s_persist_journal_seq := q1 + 1, nvs := n2 \<rparr>)" "store_ok n2"
        "journal_ok (nvs_get nv n2) (q1 + 1)" "journal_map (nvs_get nv n2) = (journal_map (nvs_get nv n1))((p, i) \<mapsto> v)"
        "others (nvs_get nv n2) = others (nvs_get nv n1)"
      by auto
    have e: "?c\<lparr> nvs := n1, s_persist_journal_seq := q1 \<rparr> = ?d" by simp
    have "unat (q1 + 1) \<le> 17" using k(4) seq_next(3) [of q1] by simp
    then show ?thesis
      using p(1) k(1) [unfolded e] n2 k(2,5,7) c open_ok full assms(3) store_open [OF k(2)]
      by (intro exI [of _ "q1 + 1"] exI [of _ n2])
        (simp add: avb_persist_append_stream_record_def journal_state_def G_def)
  qed
qed

end

end
