(* ===== verification/Journal_Boot.thy ===== *)
theory Journal_Boot
  imports Journal_Latest
begin

text \<open>
  What the journal is for: a record that was written is the one the next boot restores, a write that
  waits for the ingress is made by the tick, and what happens to the journal of a discarded snapshot.
\<close>

section \<open>An example\<close>

definition config_at :: "atdecc_state \<Rightarrow> 'n \<Rightarrow> 'n config_state" where
  "config_at a n = \<lparr> node = a, audio = example_audio, nvs = n, persist = persistent_data_zero,
     descriptor_names = replicate AVB_NAME_COUNT (zeros 64), entity_name = zeros 64, group_name = zeros 64,
     interface_name = zeros 64, input_map = [0, 1], active_clock_source_index = 0, pll_converged_trim_q16 = 0,
     pll_trim_btc_id = zeros 8, persist_dirty = False, persist_lazy = False, persist_dirty_since_tick = 0,
     tick_count = 0, s_persist_journal_seq = 0, s_output_class_journaled = replicate 8 0, s_ingress_quiet = True,
     s_ingress_busy_until_us = 0, s_ingress_sample_us = 0, s_ingress_sample_count = 0,
     s_journal_pending = (\<lambda>_ _. False), s_rate_pending = False, s_input_map_pending = False,
     s_journal_pending_since_us = 0, rx_total = 0 \<rparr>"

definition saved_store :: list_nvs where
  "saved_store = [(AVB_NVS_KEY, nvs_snapshot AVB_PERSISTENT_DATA_SIZE (persistent_data_zero\<lparr> pd_version := 6 \<rparr>))]"

definition bound_node :: atdecc_state where
  "bound_node = upd_core (upd_input 0 (\<lambda>t. t\<lparr> talker_id := replicate 8 5,
     ls_stream_format := AVB_DEFAULT_FORMAT_AM824 4 8 \<rparr>)) example_listener"

lemma parse_snapshot_key: "parse_key AVB_NVS_KEY = None"
  by (simp add: AVB_NVS_KEY_def avb_persist_parse_stream_journal_key_def)

lemma list_store_get: "nvs_get (list_store cap) = map_of"
  by (simp add: list_store_def)

lemma saved_store_ok:
  "distinct (map fst saved_store)" "journal_ok (map_of saved_store) 0" "card (dom (others (map_of saved_store))) = 1"
proof -
  show "distinct (map fst saved_store)" by (simp add: saved_store_def)
  show "journal_ok (map_of saved_store) 0"
    by (auto simp: saved_store_def journal_ok_def parse_snapshot_key split: if_splits)
  have "dom (others (map_of saved_store)) = {AVB_NVS_KEY}"
    using parse_snapshot_key by (auto simp: saved_store_def others_def dom_def split: if_splits)
  then show "card (dom (others (map_of saved_store))) = 1" by simp
qed

section \<open>A record written\<close>

lemma journal_record_value: "journal_value p (journal_record p i c)"
  by (simp add: journal_record_def journal_value_def)

text \<open>C16. Writing the record of a stream succeeds on a working store with room for the latest records
  and one more, also when the journal has to be compacted for it, and updates the map of the latest
  records at that stream; nothing else in the store changes and the journal stays well formed.\<close>

theorem journal_keeps_latest:
  assumes "nvs_store nv ok cap" and "ok (nvs c)" and "journal_ok (nvs_get nv (nvs c)) (s_persist_journal_seq c)"
    and "card (dom (others (nvs_get nv (nvs c)))) + 17 \<le> cap"
    and "unat (s_persist_journal_seq c) + 1 < 2 ^ 24" and "i < 8"
  shows "\<exists>q n. avb_persist_write_journal nv p i c = (ESP_OK, c\<lparr> s_persist_journal_seq := q, nvs := n \<rparr>)
    \<and> ok n \<and> journal_ok (nvs_get nv n) q \<and> others (nvs_get nv n) = others (nvs_get nv (nvs c))
    \<and> journal_map (nvs_get nv n) = (journal_map (nvs_get nv (nvs c)))((p, i) \<mapsto> journal_record p i c)"
proof -
  have "nvs_store.journal_state nv ok cap c"
    using assms(2-4) by (simp add: nvs_store.journal_state_def [OF assms(1)])
  from nvs_store.append_record [OF assms(1) this assms(5,6) journal_record_value]
  show ?thesis
    by (fastforce simp: avb_persist_write_journal_def nvs_store.journal_state_def [OF assms(1)])
qed

theorem journal_keeps_latest_witness:
  "\<exists>q n. avb_persist_write_journal (list_store 32) True 0 (config_at bound_node saved_store)
      = (ESP_OK, (config_at bound_node saved_store)\<lparr> s_persist_journal_seq := q, nvs := n \<rparr>)
    \<and> distinct (map fst n) \<and> journal_ok (map_of n) q \<and> others (map_of n) = others (map_of saved_store)
    \<and> journal_map (map_of n) = (journal_map (map_of saved_store))
        ((True, 0) \<mapsto> journal_record True 0 (config_at bound_node saved_store))"
  using journal_keeps_latest [OF list_nvs.nvs_store_axioms [of 32], of "config_at bound_node saved_store" 0 True]
    saved_store_ok by (simp add: config_at_def list_store_get)

section \<open>Boot\<close>

text \<open>A loop of which only turn \<open>i\<close> touches what \<open>g\<close> sees; \<open>K\<close> is what the turns depend on.\<close>

lemma foreach_at:
  assumes "i < n" and "K x = k" and "\<And>j y. K (f j y) = K y" and "\<And>j y. j \<noteq> i \<Longrightarrow> g (f j y) = g y"
    and "\<And>y. K y = k \<Longrightarrow> g (f i y) = h (g y)"
  shows "g (foreach n f x) = h (g x)"
  using assms(1)
proof (induction n)
  case (Suc n)
  have K: "K (foreach m f x) = k" for m using assms(2) foreach_frame [of K f m x] assms(3) by simp
  show ?case
  proof (cases "i = n")
    case True
    have "m \<le> i \<Longrightarrow> g (foreach m f x) = g x" for m
      by (induction m) (simp_all add: foreach_Suc assms(4))
    then show ?thesis using K assms(5) by (simp add: foreach_Suc True [symmetric])
  next
    case False
    then show ?thesis using Suc by (simp add: foreach_Suc assms(4))
  qed
qed simp

definition replayed :: "journal_scan \<Rightarrow> nat \<Rightarrow> avb_persist_input_stream_s \<Rightarrow> avb_persist_input_stream_s" where
  "replayed sc i r = (if sc_latest sc True i = 0 then r else case sc_rec sc True i of nvs_input x \<Rightarrow> x | _ \<Rightarrow> r)"

lemma replay_inputs:
  assumes "i < n" and "i < length (pd_input_streams p)"
  shows "pd_input_streams (foreach n (replay_input sc) p) ! i = replayed sc i (pd_input_streams p ! i)"
  by (rule foreach_at [OF assms(1), where K = "\<lambda>p. length (pd_input_streams p)" and k = "length (pd_input_streams p)"])
    (use assms(2) in \<open>auto simp: replay_input_def replayed_def split: nvs_value.split\<close>)

definition binding_of :: "avb_persist_input_stream_s \<Rightarrow> octets \<Rightarrow> avb_listener_stream_s \<Rightarrow> avb_listener_stream_s" where
  "binding_of src f t = t\<lparr> ls_stream_format := f, talker_id := snd (avb_registry_translate_entity_id (pi_talker_id src)),
     talker_uid := pi_talker_uid src, controller_id := pi_controller_id src,
     streaming_wait := pi_streaming_wait src, ls_class_b := pi_class_b src \<rparr>"

definition node_shape :: "atdecc_state \<Rightarrow> nat \<times> nat \<times> bool" where
  "node_shape a = (length (input_streams (core a)), length (output_streams (core a)), config_listener a)"

lemma normalize_shape:
  assumes "node_shape a = node_shape b"
  shows "avb_persist_normalize_stream_format au a out i f = avb_persist_normalize_stream_format au b out i f"
proof -
  have "is_crf_stream a out i = is_crf_stream b out i"
    using assms by (simp add: is_crf_stream_def avb_get_crf_input_index_def avb_get_crf_output_index_def node_shape_def)
  moreover from this have "avb_persist_stream_format_supported au a out i f = avb_persist_stream_format_supported au b out i f"
    using assms by (simp add: avb_persist_stream_format_supported_def node_shape_def)
  ultimately show ?thesis by (simp only: avb_persist_normalize_stream_format_def)
qed

lemma apply_input_shape: "node_shape (apply_input au p j a) = node_shape a"
  by (simp add: apply_input_def node_shape_def upd_core_def upd_input_def Let_def split: option.split)

lemma apply_input_other: "j \<noteq> i \<Longrightarrow> input_stream (apply_input au p j a) i = input_stream a i"
  by (simp add: apply_input_def upd_core_def upd_input_def Let_def split: option.split)

lemma apply_output_inputs: "input_streams (core (apply_output au p j a)) = input_streams (core a)"
  by (simp add: apply_output_def upd_core_def upd_output_def Let_def split: option.split)

lemma apply_restores:
  assumes "i < length (input_streams (core (node c)))" and "i < 8"
    and "avb_persist_normalize_stream_format (audio c) (node c) False i (pi_stream_format (pd_input_streams (persist c) ! i)) = Some f"
  shows "input_stream (node (avb_persist_apply c)) i = binding_of (pd_input_streams (persist c) ! i) f (input_stream (node c) i)"
proof -
  let ?n = "min (length (input_streams (core (node c)))) AVB_PERSIST_MAX_INPUT_STREAMS"
  let ?a = "foreach ?n (apply_input (audio c) (persist c)) (node c)"
  have "input_stream ?a i = binding_of (pd_input_streams (persist c) ! i) f (input_stream (node c) i)"
  proof (rule foreach_at [where K = node_shape and k = "node_shape (node c)"])
    fix y assume y: "node_shape y = node_shape (node c)"
    then have "i < length (input_streams (core y))" using assms(1) by (simp add: node_shape_def)
    then show "input_stream (apply_input (audio c) (persist c) i y) i
        = binding_of (pd_input_streams (persist c) ! i) f (input_stream y i)"
      using assms(3) normalize_shape [OF y]
      by (simp add: apply_input_def upd_core_def upd_input_def binding_of_def Let_def)
  qed (use assms in \<open>simp_all add: AVB_PERSIST_MAX_INPUT_STREAMS_def apply_input_shape apply_input_other\<close>)
  moreover have "input_streams (core (foreach m (apply_output au p) a)) = input_streams (core a)" for m au p a
    by (rule foreach_frame) (rule apply_output_inputs)
  ultimately show ?thesis
    by (simp add: avb_persist_apply_def Let_def upd_core_def)
qed

lemma apply_frame:
  "node_shape (node (avb_persist_apply c)) = node_shape (node c)" "nvs (avb_persist_apply c) = nvs c"
  "persist (avb_persist_apply c) = persist c" "audio (avb_persist_apply c) = audio c"
  "s_persist_journal_seq (avb_persist_apply c) = s_persist_journal_seq c"
proof -
  have i: "node_shape (foreach m (apply_input au p) a) = node_shape a" for m au p a
    by (rule foreach_frame) (rule apply_input_shape)
  have o: "node_shape (foreach m (apply_output au p) a) = node_shape a" for m au p a
    by (rule foreach_frame)
      (simp add: apply_output_def node_shape_def upd_core_def upd_output_def Let_def split: option.split)
  have l: "node_shape (upd_core (\<lambda>s. s\<lparr> lite_escalation_allowed := b \<rparr>) a) = node_shape a" for a b
    by (simp add: node_shape_def upd_core_def)
  show "node_shape (node (avb_persist_apply c)) = node_shape (node c)"
    by (simp add: avb_persist_apply_def Let_def i o l)
qed (simp_all add: avb_persist_apply_def Let_def)

lemma compact_frame:
  "node (snd (avb_persist_compact_stream_journal nv c)) = node c"
  "audio (snd (avb_persist_compact_stream_journal nv c)) = audio c"
  by (simp_all add: avb_persist_compact_stream_journal_def Let_def split: prod.split)

lemma replay_output_frame:
  "node (replay_output sc i c) = node c" "audio (replay_output sc i c) = audio c"
  "pd_input_streams (persist (replay_output sc i c)) = pd_input_streams (persist c)"
  by (simp_all add: replay_output_def split: nvs_value.split)

lemma replay_restores:
  assumes "nvs_store nv ok cap" and "ok (nvs d)" and "journal_ok (nvs_get nv (nvs d)) s"
    and "journal_map (nvs_get nv (nvs d)) (True, i) = Some (nvs_input r)"
    and "i < length (input_streams (core (node d)))" and "i < 8" and "length (pd_input_streams (persist d)) = 8"
    and "avb_persist_normalize_stream_format (audio d) (node d) False i (pi_stream_format r) = Some f"
  shows "input_stream (node (avb_persist_replay_stream_journal nv d)) i = binding_of r f (input_stream (node d) i)"
proof -
  define sc where "sc = journal_scan_all nv (nvs d) (s_persist_journal_seq d)"
  note scan = nvs_store.scan_result [OF assms(1-3), where q = "s_persist_journal_seq d", folded sc_def]
  have "journal_latest (nvs_get nv (nvs d)) True i \<noteq> 0"
    using assms(4) by (auto simp: journal_map_def)
  then have l: "sc_latest sc True i \<noteq> 0" and "sc_rec sc True i = nvs_input r"
    using scan(1) [of True i] scan(2) [of True i] assms(4) by simp_all
  then have r: "replayed sc i x = r" for x by (simp add: replayed_def)
  define d1 where "d1 = d\<lparr> s_persist_journal_seq := sc_seq sc,
    persist := foreach (min (length (input_streams (core (node d)))) AVB_PERSIST_MAX_INPUT_STREAMS) (replay_input sc) (persist d) \<rparr>"
  define d2 where "d2 = foreach (min (length (output_streams (core (node d)))) AVB_PERSIST_MAX_OUTPUT_STREAMS) (replay_output sc) d1"
  have f2: "node d2 = node d1" "audio d2 = audio d1" "pd_input_streams (persist d2) = pd_input_streams (persist d1)"
    unfolding d2_def
    using foreach_frame [where g = node and f = "replay_output sc"] foreach_frame [where g = audio and f = "replay_output sc"]
      foreach_frame [where g = "\<lambda>c. pd_input_streams (persist c)" and f = "replay_output sc"] replay_output_frame
    by metis+
  have f1: "node d1 = node d" "audio d1 = audio d" "pd_input_streams (persist d1) ! i = r"
    using assms(5-7) by (simp_all add: d1_def replay_inputs r AVB_PERSIST_MAX_INPUT_STREAMS_def)
  have "avb_persist_replay_stream_journal nv d = snd (avb_persist_compact_stream_journal nv (avb_persist_apply d2))"
    using nvs_store.store_open [OF assms(1,2), of False]
    unfolding avb_persist_replay_stream_journal_def Let_def sc_def [symmetric] d1_def [symmetric] d2_def [symmetric]
    by (simp add: d2_def d1_def)
  then show ?thesis
    using apply_restores [of i d2 f] assms(5,6,8) by (simp add: compact_frame f1 f2)
qed


lemma restore_frame:
  "node (avb_persist_restore_rate nv c) = node c" "nvs (avb_persist_restore_rate nv c) = nvs c"
  "persist (avb_persist_restore_rate nv c) = persist c"
  "s_persist_journal_seq (avb_persist_restore_rate nv c) = s_persist_journal_seq c"
  "node (avb_persist_restore_input_map nv c) = node c" "nvs (avb_persist_restore_input_map nv c) = nvs c"
  "persist (avb_persist_restore_input_map nv c) = persist c"
  "s_persist_journal_seq (avb_persist_restore_input_map nv c) = s_persist_journal_seq c"
  "audio (avb_persist_restore_input_map nv c) = audio c"
  by (simp_all add: avb_persist_restore_rate_def avb_persist_restore_input_map_def Let_def
      split: option.split nvs_value.split)

lemma load_replays:
  assumes "nvs_open nv False (nvs d)" and "nvs_get nv (nvs d) AVB_NVS_KEY = Some (nvs_snapshot sz p)"
    and "2 \<le> pd_version p" and "pd_version p \<le> AVB_PERSIST_VERSION" and "sz \<le> AVB_PERSISTENT_DATA_SIZE"
  shows "avb_persist_load nv True d = avb_persist_replay_stream_journal nv
    (avb_persist_apply ((avb_persist_restore_input_map nv (avb_persist_restore_rate nv d))\<lparr> persist := p \<rparr>))"
  using assms by (simp add: avb_persist_load_def Let_def restore_frame)

text \<open>C15. A binding survives the reboot: when the record of an input stream has been written, a boot on
  that store with a snapshot it can use gives the stream the saved talker (under its new identity where
  the registry has one), controller, waiting flag and class again, with the saved format adapted to the
  operating rate; whatever the snapshot says of the stream.\<close>

theorem binding_survives_reboot:
  assumes "nvs_store nv ok cap" and "ok (nvs c)" and "journal_ok (nvs_get nv (nvs c)) (s_persist_journal_seq c)"
    and "card (dom (others (nvs_get nv (nvs c)))) + 17 \<le> cap"
    and "unat (s_persist_journal_seq c) + 1 < 2 ^ 24" and "i < 8" and "i < length (input_streams (core (node c)))"
    and "nvs d = nvs (snd (avb_persist_write_journal nv True i c))"
    and "nvs_get nv (nvs c) AVB_NVS_KEY = Some (nvs_snapshot sz p)" and "2 \<le> pd_version p"
    and "pd_version p \<le> AVB_PERSIST_VERSION" and "sz \<le> AVB_PERSISTENT_DATA_SIZE" and "length (pd_input_streams p) = 8"
    and "i < length (input_streams (core (node d)))"
    and "avb_persist_normalize_stream_format (audio (avb_persist_restore_rate nv d)) (node d) False i
           (ls_stream_format (input_stream (node c) i)) = Some f"
  shows "let old = input_stream (node c) i; new = input_stream (node (avb_persist_load nv True d)) i in
    talker_id new = snd (avb_registry_translate_entity_id (talker_id old)) \<and> talker_uid new = talker_uid old
    \<and> controller_id new = controller_id old \<and> streaming_wait new = streaming_wait old
    \<and> ls_class_b new = ls_class_b old \<and> ls_stream_format new = f"
proof -
  define old where "old = input_stream (node c) i"
  define new where "new = input_stream (node (avb_persist_load nv True d)) i"
  have "nvs_store.journal_state nv ok cap c"
    using assms(2-4) by (simp add: nvs_store.journal_state_def [OF assms(1)])
  from nvs_store.append_record [OF assms(1) this assms(5,6) journal_record_value [of True i c]]
  obtain q n where n: "nvs d = n" "ok n" "journal_ok (nvs_get nv n) q"
      "others (nvs_get nv n) = others (nvs_get nv (nvs c))"
      "journal_map (nvs_get nv n) = (journal_map (nvs_get nv (nvs c)))((True, i) \<mapsto> journal_record True i c)"
    using assms(8) by (fastforce simp: avb_persist_write_journal_def nvs_store.journal_state_def [OF assms(1)])
  have m: "journal_map (nvs_get nv (nvs d)) (True, i) = Some (nvs_input (persist_fill_input old))"
    using n assms(7) by (simp add: journal_record_def old_def)
  have "parse_key AVB_NVS_KEY = None" by (simp add: AVB_NVS_KEY_def avb_persist_parse_stream_journal_key_def)
  then have "nvs_get nv n AVB_NVS_KEY = nvs_get nv (nvs c) AVB_NVS_KEY"
    using n(4) unfolding others_def by (metis (mono_tags))
  then have g: "nvs_get nv (nvs d) AVB_NVS_KEY = Some (nvs_snapshot sz p)" using assms(9) n(1) by simp
  let ?b = "(avb_persist_restore_input_map nv (avb_persist_restore_rate nv d))\<lparr> persist := p \<rparr>"
  have l: "avb_persist_load nv True d = avb_persist_replay_stream_journal nv (avb_persist_apply ?b)"
    using load_replays [OF _ g assms(10-12)] nvs_store.store_open [OF assms(1) n(2)] n(1) by simp
  have "node_shape (node (avb_persist_apply ?b)) = node_shape (node d)" by (simp add: apply_frame restore_frame)
  then have "new = binding_of (persist_fill_input old) f (input_stream (node (avb_persist_apply ?b)) i)"
    unfolding new_def l
    using n m assms(6,13-15) normalize_shape [of "node (avb_persist_apply ?b)" "node d"]
    by (intro replay_restores [OF assms(1), where s = q])
      (simp_all add: apply_frame restore_frame persist_fill_input_def old_def node_shape_def)
  then show ?thesis by (simp add: Let_def old_def [symmetric] new_def [symmetric])
    (simp add: binding_of_def persist_fill_input_def)
qed

theorem binding_survives_reboot_witness:
  "let c = config_at bound_node saved_store;
       d = config_at example_listener (nvs (snd (avb_persist_write_journal (list_store 32) True 0 c)));
       new = input_stream (node (avb_persist_load (list_store 32) True d)) 0
   in talker_id new = replicate 8 5 \<and> ls_stream_format new = AVB_DEFAULT_FORMAT_AM824 2 8"
proof -
  let ?c = "config_at bound_node saved_store"
  let ?d = "config_at example_listener (nvs (snd (avb_persist_write_journal (list_store 32) True 0 ?c)))"
  have "input_stream bound_node 0 = (input_stream example_listener 0)\<lparr> talker_id := replicate 8 5,
      ls_stream_format := AVB_DEFAULT_FORMAT_AM824 4 8 \<rparr>" and l: "length (input_streams (core example_listener)) > 0"
      "length (input_streams (core bound_node)) > 0"
    by (simp_all add: bound_node_def upd_core_def upd_input_def example_listener_def atdecc_zero_def)
  then have b: "ls_stream_format (input_stream bound_node 0) = AVB_DEFAULT_FORMAT_AM824 4 8"
    "talker_id (input_stream bound_node 0) = replicate 8 5" by simp_all
  have t: "snd (avb_registry_translate_entity_id (replicate 8 5)) = replicate 8 5"
    by (simp add: avb_registry_translate_entity_id_def)
  have k: "journal_key True 0 1 = ''si0000001''" by (simp add: journal_key_def low_hex_def)
  have "nvs ?d = saved_store @ [(''si0000001'', journal_record True 0 ?c)]"
    by (simp add: config_at_def avb_persist_write_journal_def avb_persist_append_stream_record_def journal_put_def
        list_store_def saved_store_def k AVB_NVS_KEY_def)
  then have a: "audio (avb_persist_restore_rate (list_store 32) ?d) = example_audio"
    by (simp add: avb_persist_restore_rate_def list_store_def saved_store_def AVB_NVS_KEY_def AVB_NVS_RATE_KEY_def)
      (simp add: config_at_def)
  show ?thesis
    using binding_survives_reboot [OF list_nvs.nvs_store_axioms [of 32], of ?c 0 ?d AVB_PERSISTENT_DATA_SIZE
        "persistent_data_zero\<lparr> pd_version := 6 \<rparr>" "AVB_DEFAULT_FORMAT_AM824 2 8"]
      saved_store_ok l b t a example_normalized
    by (simp add: config_at_def list_store_get saved_store_def persistent_data_zero_def Let_def
        AVB_PERSIST_VERSION_def AVB_PERSIST_MAX_INPUT_STREAMS_def)
qed

section \<open>Values under other keys\<close>

lemma put_value_cases:
  assumes "nvs_store nv ok cap" and "ok (nvs c)" and "parse_key k = None"
  shows "\<exists>e n. put_value nv k v c = (e, c\<lparr> nvs := n \<rparr>) \<and> ok n
    \<and> (nvs_get nv n = (nvs_get nv (nvs c))(k \<mapsto> v) \<or> nvs_get nv n = nvs_get nv (nvs c))"
proof -
  note st = assms(1)
  obtain e n where n: "nvs_set nv k v (nvs c) = (e, n)" by (metis prod.collapse)
  note s = nvs_store.store_set [OF st assms(2) n]
  obtain n' where "nvs_commit nv n = (ESP_OK, n')" "ok n'" "nvs_get nv n' = nvs_get nv n"
    using nvs_store.store_commit [OF st] s by blast
  with s n nvs_store.store_open [OF st assms(2)] show ?thesis
    by (cases "e = ESP_OK") (auto simp: put_value_def)
qed

lemma seqs_update:
  assumes "parse_key k = Some (p, i, seq)"
  shows "journal_seqs (G(k \<mapsto> v)) p i = insert seq (journal_seqs G p i)"
  using assms by (auto simp: journal_seqs_def)

lemma latest_key:
  assumes "journal_ok G s" and "journal_latest G p i \<noteq> 0"
  shows "parse_key (journal_key p i (journal_latest G p i)) = Some (p, i, journal_latest G p i)"
    and "\<exists>v. G (journal_key p i (journal_latest G p i)) = Some v"
proof -
  have "journal_latest G p i \<in> insert 0 (journal_seqs G p i)"
    unfolding journal_latest_def using assms(1) finite_journal_seqs by (intro Max_in) (auto simp: journal_ok_def)
  with assms(2) obtain k v where k: "G k = Some v" "parse_key k = Some (p, i, journal_latest G p i)"
    by (auto simp: journal_seqs_def)
  have "k = journal_key p i (journal_latest G p i)" using journal_okD(1) [OF assms(1) k] .
  with k show "parse_key (journal_key p i (journal_latest G p i)) = Some (p, i, journal_latest G p i)"
    and "\<exists>v. G (journal_key p i (journal_latest G p i)) = Some v" by auto
qed

lemma journal_other_key:
  assumes "journal_ok G s" and "parse_key k = None"
  shows "journal_latest (G(k \<mapsto> v)) = journal_latest G" and "journal_map (G(k \<mapsto> v)) = journal_map G"
    and "journal_ok (G(k \<mapsto> v)) s"
proof -
  have "journal_seqs (G(k \<mapsto> v)) = journal_seqs G" using assms(2) by (auto simp: journal_seqs_def fun_eq_iff)
  then show l: "journal_latest (G(k \<mapsto> v)) = journal_latest G" by (simp add: journal_latest_def fun_eq_iff)
  show "journal_ok (G(k \<mapsto> v)) s"
    using assms unfolding journal_ok_def by (auto split: if_splits)
  have "journal_key p i (journal_latest G p i) \<noteq> k" if "journal_latest G p i \<noteq> 0" for p i
    using latest_key(1) [OF assms(1) that] assms(2) by auto
  then show "journal_map (G(k \<mapsto> v)) = journal_map G"
    unfolding journal_map_def l by (auto simp: fun_eq_iff)
qed

section \<open>Writes that wait\<close>

lemma still_waiting:
  fixes A :: "'a \<Rightarrow> nat \<Rightarrow> bool"
  shows "\<not> A p m \<Longrightarrow> (\<lambda>r i. A r i \<and> \<not> (r = p \<and> i < m)) = (\<lambda>r i. A r i \<and> \<not> (r = p \<and> i < Suc m))"
  by (auto simp: fun_eq_iff less_Suc_eq)

lemma one_written:
  fixes A :: "'a \<Rightarrow> nat \<Rightarrow> bool"
  shows "(\<lambda>r i. A r i \<and> \<not> (r = p \<and> i < m))(p := ((\<lambda>r i. A r i \<and> \<not> (r = p \<and> i < m)) p)(m := False))
    = (\<lambda>r i. A r i \<and> \<not> (r = p \<and> i < Suc m))"
  by (auto simp: fun_eq_iff less_Suc_eq)

context nvs_store
begin

lemma journal_tick_loop:
  assumes "journal_state c" and "m \<le> 8" and "unat (s_persist_journal_seq c) + m + 17 < 2 ^ 24"
  shows "\<exists>q n P. foreach m (journal_tick_turn nv p) c = c\<lparr> s_persist_journal_seq := q, nvs := n, s_journal_pending := P \<rparr>
    \<and> journal_state (c\<lparr> s_persist_journal_seq := q, nvs := n, s_journal_pending := P \<rparr>)
    \<and> unat q \<le> max (unat (s_persist_journal_seq c)) 17 + m
    \<and> P = (\<lambda>r i. s_journal_pending c r i \<and> \<not> (r = p \<and> i < m))
    \<and> journal_map (nvs_get nv n) = (\<lambda>x. if fst x = p \<and> snd x < m \<and> s_journal_pending c p (snd x)
         then Some (journal_record p (snd x) c) else journal_map (nvs_get nv (nvs c)) x)"
  using assms(2,3)
proof (induction m)
  case 0
  show ?case using assms(1)
    by (intro exI [of _ "s_persist_journal_seq c"] exI [of _ "nvs c"] exI [of _ "s_journal_pending c"]) simp
next
  case (Suc m)
  then obtain q n P where IH: "foreach m (journal_tick_turn nv p) c = c\<lparr> s_persist_journal_seq := q, nvs := n, s_journal_pending := P \<rparr>"
      "journal_state (c\<lparr> s_persist_journal_seq := q, nvs := n, s_journal_pending := P \<rparr>)"
      "unat q \<le> max (unat (s_persist_journal_seq c)) 17 + m"
      "P = (\<lambda>r i. s_journal_pending c r i \<and> \<not> (r = p \<and> i < m))"
    and M: "journal_map (nvs_get nv n) = (\<lambda>x. if fst x = p \<and> snd x < m \<and> s_journal_pending c p (snd x)
         then Some (journal_record p (snd x) c) else journal_map (nvs_get nv (nvs c)) x)"
    by force
  show ?case
  proof (cases "s_journal_pending c p m")
    case False
    then have "foreach (Suc m) (journal_tick_turn nv p) c = c\<lparr> s_persist_journal_seq := q, nvs := n, s_journal_pending := P \<rparr>"
      by (simp add: foreach_Suc IH(1)) (simp add: journal_tick_turn_def IH(4))
    moreover have "P = (\<lambda>r i. s_journal_pending c r i \<and> \<not> (r = p \<and> i < Suc m))"
      unfolding IH(4) using False by (rule still_waiting)
    moreover have "journal_map (nvs_get nv n) = (\<lambda>x. if fst x = p \<and> snd x < Suc m \<and> s_journal_pending c p (snd x)
         then Some (journal_record p (snd x) c) else journal_map (nvs_get nv (nvs c)) x)"
      using False by (auto simp: M fun_eq_iff less_Suc_eq)
    moreover have "unat q \<le> max (unat (s_persist_journal_seq c)) 17 + Suc m" using IH(3) by simp
    ultimately show ?thesis using IH(2) by blast
  next
    case True
    let ?P = "P(p := (P p)(m := False))"
    let ?c = "c\<lparr> s_persist_journal_seq := q, nvs := n, s_journal_pending := ?P \<rparr>"
    have rec: "journal_record p m ?c = journal_record p m c" by (simp add: journal_record_def)
    have "journal_state ?c" using IH(2) by (simp add: journal_state_def)
    moreover have "unat (s_persist_journal_seq ?c) + 1 < 2 ^ 24" using IH(3) Suc.prems by simp
    ultimately obtain q' n' where w: "avb_persist_append_stream_record nv p m (journal_record p m c) ?c
          = (ESP_OK, ?c\<lparr> s_persist_journal_seq := q', nvs := n' \<rparr>)"
        "journal_state (?c\<lparr> s_persist_journal_seq := q', nvs := n' \<rparr>)" "unat q' \<le> max (unat q + 1) 17"
        "journal_map (nvs_get nv n') = (journal_map (nvs_get nv n))((p, m) \<mapsto> journal_record p m c)"
      using append_record [of ?c m p "journal_record p m c", OF _ _ _ journal_record_value] Suc.prems(1) by fastforce
    have "foreach (Suc m) (journal_tick_turn nv p) c = c\<lparr> s_persist_journal_seq := q', nvs := n', s_journal_pending := ?P \<rparr>"
      using True w(1) unfolding foreach_Suc IH(1) journal_tick_turn_def avb_persist_write_journal_def
      by (simp add: rec [simplified]) (simp add: IH(4))
    moreover have "?P = (\<lambda>r i. s_journal_pending c r i \<and> \<not> (r = p \<and> i < Suc m))"
      unfolding IH(4) by (rule one_written)
    moreover have "journal_map (nvs_get nv n') = (\<lambda>x. if fst x = p \<and> snd x < Suc m \<and> s_journal_pending c p (snd x)
         then Some (journal_record p (snd x) c) else journal_map (nvs_get nv (nvs c)) x)"
      using True by (auto simp: w(4) M fun_eq_iff less_Suc_eq)
    moreover have "unat q' \<le> max (unat (s_persist_journal_seq c)) 17 + Suc m" using w(3) IH(3) by simp
    moreover have "journal_state (c\<lparr> s_persist_journal_seq := q', nvs := n', s_journal_pending := ?P \<rparr>)"
      using w(2) by (simp add: journal_state_def)
    ultimately show ?thesis by blast
  qed
qed

end

lemma put_value_journal:
  assumes "nvs_store nv ok cap" and "ok (nvs c)" and "journal_ok (nvs_get nv (nvs c)) s" and "parse_key k = None"
  obtains e n where "put_value nv k v c = (e, c\<lparr> nvs := n \<rparr>)" and "ok n" and "journal_ok (nvs_get nv n) s"
    and "journal_map (nvs_get nv n) = journal_map (nvs_get nv (nvs c))"
    and "card (dom (others (nvs_get nv n))) \<le> card (dom (others (nvs_get nv (nvs c)))) + 1"
proof -
  let ?G = "nvs_get nv (nvs c)"
  obtain e n where n: "put_value nv k v c = (e, c\<lparr> nvs := n \<rparr>)" "ok n"
      "nvs_get nv n = ?G(k \<mapsto> v) \<or> nvs_get nv n = ?G"
    using put_value_cases [OF assms(1,2,4)] by blast
  have "dom (others (?G(k \<mapsto> v))) = insert k (dom (others ?G))"
    using assms(4) by (auto simp: others_def split: if_splits)
  moreover have "finite (dom (others ?G))"
    using nvs_store.store_finite [OF assms(1,2)] by (rule finite_subset [rotated]) (auto simp: others_def split: if_splits)
  ultimately have "card (dom (others (nvs_get nv n))) \<le> card (dom (others ?G)) + 1"
    using n(3) by (auto simp: card_insert_if)
  with n journal_other_key [OF assms(3,4)] assms(3) show ?thesis by (intro that) auto
qed

lemma sample_frame:
  "nvs (avb_persist_sample_ingress c) = nvs c" "node (avb_persist_sample_ingress c) = node c"
  "s_persist_journal_seq (avb_persist_sample_ingress c) = s_persist_journal_seq c"
  "s_journal_pending (avb_persist_sample_ingress c) = s_journal_pending c"
  "s_journal_pending_since_us (avb_persist_sample_ingress c) = s_journal_pending_since_us c"
  by (simp_all add: avb_persist_sample_ingress_def Let_def)

lemma journal_record_node: "node c = node d \<Longrightarrow> journal_record p i c = journal_record p i d"
  by (simp add: journal_record_def)

text \<open>What a pending value of its own key leaves of the journal.\<close>

definition tick_start :: "'n config_state \<Rightarrow> 'n config_state" where
  "tick_start c = (avb_persist_sample_ingress c)\<lparr> s_journal_pending_since_us := 0 \<rparr>"

definition tick_values :: "'n nvs_ops \<Rightarrow> 'n config_state \<Rightarrow> 'n config_state" where
  "tick_values nv c =
     (let c = (if s_rate_pending c then snd (avb_persist_write_rate nv (c\<lparr> s_rate_pending := False \<rparr>)) else c)
      in if s_input_map_pending c
         then snd (avb_persist_write_input_map nv (c\<lparr> s_input_map_pending := False \<rparr>)) else c)"

lemma tick_values_journal:
  assumes "nvs_store nv ok cap" and "ok (nvs c)" and "journal_ok (nvs_get nv (nvs c)) s"
  obtains n where "tick_values nv c = c\<lparr> nvs := n, s_rate_pending := False, s_input_map_pending := False \<rparr>" and "ok n"
    and "journal_ok (nvs_get nv n) s" and "journal_map (nvs_get nv n) = journal_map (nvs_get nv (nvs c))"
    and "card (dom (others (nvs_get nv n))) \<le> card (dom (others (nvs_get nv (nvs c)))) + 2"
proof -
  have k: "parse_key AVB_NVS_RATE_KEY = None" "parse_key AVB_NVS_INPUT_MAP_KEY = None"
    by (simp_all add: AVB_NVS_RATE_KEY_def AVB_NVS_INPUT_MAP_KEY_def avb_persist_parse_stream_journal_key_def)
  let ?c = "c\<lparr> s_rate_pending := False \<rparr>"
  obtain n where n: "(if s_rate_pending c then snd (avb_persist_write_rate nv ?c) else c) = ?c\<lparr> nvs := n \<rparr>" "ok n"
      "journal_ok (nvs_get nv n) s" "journal_map (nvs_get nv n) = journal_map (nvs_get nv (nvs c))"
      "card (dom (others (nvs_get nv n))) \<le> card (dom (others (nvs_get nv (nvs c)))) + 1"
  proof (cases "s_rate_pending c")
    case True
    show ?thesis
      by (rule put_value_journal [OF assms(1) _ _ k(1), of ?c s "nvs_rate (default_sample_rate (audio ?c))"])
        (use True assms(2,3) that in \<open>auto simp: avb_persist_write_rate_def\<close>)
  next
    case False
    then show ?thesis using assms(2,3) that [of "nvs c"] by simp
  qed
  let ?d = "?c\<lparr> nvs := n, s_input_map_pending := False \<rparr>"
  show ?thesis
  proof (cases "s_input_map_pending c")
    case True
    have "nvs ?d = n" by simp
    obtain e n' where n': "put_value nv AVB_NVS_INPUT_MAP_KEY (nvs_input_map (input_map ?d)) ?d = (e, ?d\<lparr> nvs := n' \<rparr>)" "ok n'"
        "journal_ok (nvs_get nv n') s" "journal_map (nvs_get nv n') = journal_map (nvs_get nv n)"
        "card (dom (others (nvs_get nv n'))) \<le> card (dom (others (nvs_get nv n))) + 1"
      by (rule put_value_journal [OF assms(1) _ _ k(2), of ?d s]) (use n(2,3) in auto)
    have "tick_values nv c = ?d\<lparr> nvs := n' \<rparr>"
      unfolding tick_values_def Let_def n(1) avb_persist_write_input_map_def using True n'(1) by simp
    then show ?thesis using n n' by (intro that [of n']) simp_all
  next
    case False
    then have "tick_values nv c = ?d" unfolding tick_values_def Let_def n(1) by simp
    then show ?thesis using n by (intro that [of n]) simp_all
  qed
qed



section \<open>A discarded snapshot\<close>

text \<open>C40. When the snapshot cannot be used, the records of the journal are neither replayed nor erased and
  the numbering starts at 1 again: while an older record with a higher number is in the store, the record
  of a new binding is not the latest one, and the next boot brings the old binding back.\<close>

theorem discarded_snapshot_stale:
  assumes "nvs_store nv ok cap" and "ok (nvs c)" and "journal_ok (nvs_get nv (nvs c)) s" and "s_persist_journal_seq c = 0"
    and "\<And>sz q. nvs_get nv (nvs c) AVB_NVS_KEY = Some (nvs_snapshot sz q) \<Longrightarrow>
           pd_version q < 2 \<or> AVB_PERSIST_VERSION < pd_version q \<or> AVB_PERSISTENT_DATA_SIZE < sz"
    and "1 < journal_latest (nvs_get nv (nvs c)) p i" and "i < 8" and "card (dom (nvs_get nv (nvs c))) + 1 < cap"
    and "nvs d = nvs (avb_persist_load nv True c)"
    and "s_persist_journal_seq d = s_persist_journal_seq (avb_persist_load nv True c)"
  shows "fst (avb_persist_write_journal nv p i d) = ESP_OK
    \<and> journal_map (nvs_get nv (nvs (snd (avb_persist_write_journal nv p i d)))) (p, i)
        = journal_map (nvs_get nv (nvs c)) (p, i)"
proof -
  let ?G = "nvs_get nv (nvs c)"
  let ?b = "avb_persist_restore_input_map nv (avb_persist_restore_rate nv c)"
  let ?g = "avb_persist_gather (?b\<lparr> persist := persistent_data_zero \<rparr>)"
  note st = assms(1)
  have pk: "parse_key AVB_NVS_KEY = None" by (simp add: AVB_NVS_KEY_def avb_persist_parse_stream_journal_key_def)
  have gf: "nvs ?g = nvs c" "s_persist_journal_seq ?g = 0"
    using assms(4) by (simp_all add: avb_persist_gather_def Let_def restore_frame)
  have "avb_persist_load nv True c = snd (avb_persist_save nv (?b\<lparr> persist := persistent_data_zero \<rparr>))"
    using assms(5) nvs_store.store_open [OF st assms(2), of False]
    by (auto simp: avb_persist_load_def Let_def restore_frame split: option.split nvs_value.split)
  then have l: "avb_persist_load nv True c
      = snd (put_value nv AVB_NVS_KEY (nvs_snapshot AVB_PERSISTENT_DATA_SIZE (persist ?g)) ?g)"
    by (simp add: avb_persist_save_def avb_persist_write_blob_def Let_def)
  obtain e n where n: "put_value nv AVB_NVS_KEY (nvs_snapshot AVB_PERSISTENT_DATA_SIZE (persist ?g)) ?g
        = (e, ?g\<lparr> nvs := n \<rparr>)" "ok n"
      "nvs_get nv n = ?G(AVB_NVS_KEY \<mapsto> nvs_snapshot AVB_PERSISTENT_DATA_SIZE (persist ?g)) \<or> nvs_get nv n = ?G"
    using put_value_cases [OF st _ pk, of ?g "nvs_snapshot AVB_PERSISTENT_DATA_SIZE (persist ?g)"] assms(2)
    unfolding gf by blast
  define G where "G = nvs_get nv n"
  have G: "journal_ok G s" "journal_latest G = journal_latest ?G" "journal_map G = journal_map ?G" "card (dom G) < cap"
    using n(3) journal_other_key [OF assms(3) pk] assms(3,8) nvs_store.store_finite [OF st assms(2)]
    by (auto simp: G_def card_insert_if)
  have d: "nvs d = n" "s_persist_journal_seq d = 0" using assms(9,10) l n(1) gf by simp_all
  let ?k = "journal_key p i 1" and ?v = "journal_record p i d"
  obtain n1 where n1: "nvs_set nv ?k ?v n = (ESP_OK, n1)"
    using nvs_store.set_fits [OF st n(2)] G(4) unfolding G_def by metis
  have g1: "ok n1" "nvs_get nv n1 = G(?k \<mapsto> ?v)" using nvs_store.store_set [OF st n(2) n1] by (simp_all add: G_def)
  obtain n2 where n2: "nvs_commit nv n1 = (ESP_OK, n2)" "nvs_get nv n2 = nvs_get nv n1"
    using nvs_store.store_commit [OF st g1(1)] by blast
  have w: "avb_persist_write_journal nv p i d = (ESP_OK, d\<lparr> s_persist_journal_seq := 1, nvs := n2 \<rparr>)"
    using assms(7) n1 n2 d nvs_store.store_open [OF st n(2), of True]
    by (simp add: avb_persist_write_journal_def avb_persist_append_stream_record_def journal_put_def Let_def)
  have p1: "parse_key ?k = Some (p, i, 1)" by (rule journal_key_roundtrip) (simp_all add: assms(7))
  have L: "1 < journal_latest G p i" using assms(6) G(2) by simp
  then have L0: "journal_latest G p i \<noteq> 0" by (metis word_coorder.not_eq_extremum word_coorder.extremum_strict)
  have "journal_latest (G(?k \<mapsto> ?v)) p i = journal_latest G p i"
  proof -
    have "finite (journal_seqs G p i)" using G(1) by (simp add: finite_journal_seqs journal_ok_def)
    then have "Max (insert 1 (insert 0 (journal_seqs G p i))) = max 1 (journal_latest G p i)"
      by (simp add: journal_latest_def)
    moreover have "insert 0 (insert 1 (journal_seqs G p i)) = insert 1 (insert 0 (journal_seqs G p i))" by blast
    ultimately show ?thesis using L unfolding journal_latest_def [of "G(?k \<mapsto> ?v)"] seqs_update [OF p1] by simp
  qed
  moreover have "journal_key p i (journal_latest G p i) \<noteq> ?k"
    using latest_key(1) [OF G(1) L0] p1 L by auto
  ultimately have "journal_map (G(?k \<mapsto> ?v)) (p, i) = journal_map G (p, i)" by (simp add: journal_map_def)
  then show ?thesis by (simp add: w n2 g1 G)
qed


theorem discarded_snapshot_stale_witness:
  "let store = [(''si0000005'', nvs_input persist_input_zero)];
       c = avb_persist_load (list_store 32) True (config_at bound_node store);
       d = snd (avb_persist_write_journal (list_store 32) True 0 c)
   in journal_map (map_of (nvs d)) (True, 0) = journal_map (map_of store) (True, 0)"
proof -
  let ?s = "[(''si0000005'', nvs_input persist_input_zero)]"
  let ?c = "config_at bound_node ?s"
  have p: "parse_key ''si0000005'' = Some (True, 0, 5)" and k: "journal_key True 0 5 = ''si0000005''"
    using journal_key_roundtrip [of 0 5 True] by (simp_all add: journal_key_def low_hex_def)
  have j: "journal_ok (map_of ?s) 5"
    using p k by (auto simp: journal_ok_def journal_value_def split: if_splits)
  have "journal_seqs (map_of ?s) True 0 = {5}" using p by (auto simp: journal_seqs_def)
  then have L: "1 < journal_latest (map_of ?s) True 0" by (simp add: journal_latest_def)
  show ?thesis
    using discarded_snapshot_stale [OF list_nvs.nvs_store_axioms [of 32], of ?c 5 True 0 "avb_persist_load (list_store 32) True ?c"]
      j L by (simp add: Let_def list_store_get AVB_NVS_KEY_def) (simp add: config_at_def AVB_NVS_KEY_def)
qed

end
