(* ===== verification/Save_Task.thy ===== *)
theory Save_Task
  imports Journal_Boot
begin

text \<open>
  The saving task beside the tasks that ask it to save: their steps in every order, and that no
  snapshot is lost between them (\<open>avb_persist_request_save\<close>, \<open>avb_persist_request_lazy_save\<close>,
  \<open>avb_persist_task\<close>).
\<close>

section \<open>Steps\<close>

text \<open>A request gathers the snapshot, stamps the time (or notes that it is lazy) and marks; the task
  clears the two flags, copies the snapshot and writes the copy.  The mutex makes a gathering and the
  copy one step each.\<close>

datatype task_phase = Polling | Due | Lazy_cleared | Dirty_cleared | Copied avb_persistent_data_s

record 'n save_state =
  sv :: "'n config_state"
  to_stamp :: "bool list"
  to_mark :: nat
  phase :: task_phase
  write_failed :: bool

definition request_stamp :: "bool \<Rightarrow> 'n config_state \<Rightarrow> 'n config_state" where
  "request_stamp lazy c =
     (if lazy then (if \<not> persist_dirty c then c\<lparr> persist_lazy := True \<rparr> else c)
      else (if \<not> persist_dirty c \<or> persist_lazy c then c\<lparr> persist_dirty_since_tick := tick_count c \<rparr> else c)
             \<lparr> persist_lazy := False \<rparr>)"

text \<open>In between, the state changes as it likes in what is not the saving's own.\<close>

definition saving_fields :: "'n config_state \<Rightarrow> 'n \<times> avb_persistent_data_s \<times> bool \<times> bool \<times> u32" where
  "saving_fields c = (nvs c, persist c, persist_dirty c, persist_lazy c, persist_dirty_since_tick c)"

inductive save_step :: "'n nvs_ops \<Rightarrow> nat \<Rightarrow> 'n save_state \<Rightarrow> 'n save_state \<Rightarrow> bool" for nv rate where
  run: "saving_fields c = saving_fields (sv s) \<Longrightarrow> save_step nv rate s (s\<lparr> sv := c \<rparr>)"
| gather: "save_step nv rate s (s\<lparr> sv := avb_persist_gather (sv s), to_stamp := lazy # to_stamp s \<rparr>)"
| stamp: "to_stamp s = xs @ lazy # ys \<Longrightarrow>
    save_step nv rate s (s\<lparr> sv := request_stamp lazy (sv s), to_stamp := xs @ ys, to_mark := to_mark s + 1 \<rparr>)"
| mark: "to_mark s = Suc k \<Longrightarrow>
    save_step nv rate s (s\<lparr> sv := (sv s)\<lparr> persist_dirty := True \<rparr>, to_mark := k \<rparr>)"
| due: "\<lbrakk>phase s = Polling; persist_gate rate (sv s)\<rbrakk> \<Longrightarrow> save_step nv rate s (s\<lparr> phase := Due \<rparr>)"
| clear_lazy: "phase s = Due \<Longrightarrow>
    save_step nv rate s (s\<lparr> sv := (sv s)\<lparr> persist_lazy := False \<rparr>, phase := Lazy_cleared \<rparr>)"
| clear_dirty: "phase s = Lazy_cleared \<Longrightarrow>
    save_step nv rate s (s\<lparr> sv := (sv s)\<lparr> persist_dirty := False \<rparr>, phase := Dirty_cleared \<rparr>)"
| copy: "phase s = Dirty_cleared \<Longrightarrow> save_step nv rate s (s\<lparr> phase := Copied (persist (sv s)) \<rparr>)"
| flush: "\<lbrakk>phase s = Copied p; avb_persist_write_blob nv p (sv s) = (err, c)\<rbrakk> \<Longrightarrow>
    save_step nv rate s (s\<lparr> sv := c, phase := Polling, write_failed := (write_failed s \<or> err \<noteq> ESP_OK) \<rparr>)"

inductive save_reach :: "'n nvs_ops \<Rightarrow> nat \<Rightarrow> 'n save_state \<Rightarrow> 'n save_state \<Rightarrow> bool" for nv rate s0 where
  start: "save_reach nv rate s0 s0"
| further: "\<lbrakk>save_reach nv rate s0 s; save_step nv rate s t\<rbrakk> \<Longrightarrow> save_reach nv rate s0 t"

text \<open>The steps of one task alone are the functions of the code.\<close>

lemma request_steps:
  "avb_persist_request_save c = (request_stamp False (avb_persist_gather c))\<lparr> persist_dirty := True \<rparr>"
  "avb_persist_request_lazy_save c = (request_stamp True (avb_persist_gather c))\<lparr> persist_dirty := True \<rparr>"
  by (simp_all add: avb_persist_request_save_def avb_persist_request_lazy_save_def request_stamp_def Let_def)

section \<open>Nothing is lost\<close>

definition snapshot_stored :: "'n nvs_ops \<Rightarrow> 'n config_state \<Rightarrow> bool" where
  "snapshot_stored nv c \<longleftrightarrow> nvs_get nv (nvs c) AVB_NVS_KEY = Some (nvs_snapshot AVB_PERSISTENT_DATA_SIZE (persist c))"

text \<open>A snapshot is asked for from the gathering until the task clears the mark.\<close>

definition save_asked :: "'n save_state \<Rightarrow> bool" where
  "save_asked s \<longleftrightarrow> persist_dirty (sv s) \<or> to_stamp s \<noteq> [] \<or> 0 < to_mark s"

definition save_inv :: "'n nvs_ops \<Rightarrow> ('n \<Rightarrow> bool) \<Rightarrow> 'n save_state \<Rightarrow> bool" where
  "save_inv nv ok s \<longleftrightarrow> ok (nvs (sv s))
     \<and> (\<forall>p. phase s = Copied p \<longrightarrow> p = persist (sv s) \<or> save_asked s)
     \<and> (phase s \<in> {Polling, Due, Lazy_cleared} \<longrightarrow> snapshot_stored nv (sv s) \<or> save_asked s \<or> write_failed s)"

lemma gather_frame:
  "nvs (avb_persist_gather c) = nvs c" "persist_dirty (avb_persist_gather c) = persist_dirty c"
  "persist_lazy (avb_persist_gather c) = persist_lazy c"
  by (simp_all add: avb_persist_gather_def Let_def)

lemma stamp_frame:
  "nvs (request_stamp l c) = nvs c" "persist (request_stamp l c) = persist c"
  "persist_dirty (request_stamp l c) = persist_dirty c"
  by (simp_all add: request_stamp_def)

lemma write_blob_cases:
  assumes "nvs_store nv ok cap" and "ok (nvs c)" and "avb_persist_write_blob nv p c = (err, d)"
  shows "ok (nvs d)" and "persist d = persist c" and "persist_dirty d = persist_dirty c"
    and "err = ESP_OK \<Longrightarrow> nvs_get nv (nvs d) AVB_NVS_KEY = Some (nvs_snapshot AVB_PERSISTENT_DATA_SIZE p)"
proof -
  let ?v = "nvs_snapshot AVB_PERSISTENT_DATA_SIZE p"
  obtain e n where n: "nvs_set nv AVB_NVS_KEY ?v (nvs c) = (e, n)" by (metis prod.collapse)
  note s = nvs_store.store_set [OF assms(1,2) n]
  obtain n' where n': "nvs_commit nv n = (ESP_OK, n')" "ok n'" "nvs_get nv n' = nvs_get nv n"
    using nvs_store.store_commit [OF assms(1)] s by blast
  have "(err, d) = (if e = ESP_OK then (ESP_OK, c\<lparr> nvs := n' \<rparr>) else (e, c\<lparr> nvs := n \<rparr>))"
    using assms(3) n n' nvs_store.store_open [OF assms(1,2), of True]
    by (simp add: avb_persist_write_blob_def put_value_def split: if_splits)
  then show "ok (nvs d)" and "persist d = persist c" and "persist_dirty d = persist_dirty c"
    and "err = ESP_OK \<Longrightarrow> nvs_get nv (nvs d) AVB_NVS_KEY = Some ?v"
    using s n' by (auto split: if_splits)
qed

lemma save_step_inv:
  assumes "nvs_store nv ok cap" and "save_step nv rate s t" and "save_inv nv ok s"
  shows "save_inv nv ok t"
  using assms(2,3)
proof cases
  case (run c)
  then have "nvs c = nvs (sv s)" "persist c = persist (sv s)" "persist_dirty c = persist_dirty (sv s)"
    by (simp_all add: saving_fields_def)
  with assms(3) run(1) show ?thesis by (simp add: save_inv_def snapshot_stored_def save_asked_def)
next
  case (flush p err c)
  have "ok (nvs (sv s))" using assms(3) by (simp add: save_inv_def)
  note w = write_blob_cases [OF assms(1) this flush(3)]
  have "p = persist (sv s) \<or> save_asked s" using assms(3) flush(2) by (simp add: save_inv_def)
  then have "snapshot_stored nv c \<or> save_asked t" if "err = ESP_OK"
    using w that flush(1) by (auto simp: snapshot_stored_def save_asked_def)
  then show ?thesis using w flush by (auto simp: save_inv_def save_asked_def)
qed (use assms(3) in \<open>auto simp: save_inv_def snapshot_stored_def save_asked_def gather_frame stamp_frame\<close>)

lemma save_reach_inv:
  assumes "nvs_store nv ok cap" and "save_reach nv rate s0 s" and "save_inv nv ok s0"
  shows "save_inv nv ok s"
  using assms(2,3) by induction (auto intro: save_step_inv [OF assms(1)])

definition save_start :: "'n config_state \<Rightarrow> 'n save_state" where
  "save_start c = \<lparr> sv = c, to_stamp = [], to_mark = 0, phase = Polling, write_failed = False \<rparr>"

text \<open>C17. No snapshot is lost between the tasks that ask for saving and the one that saves, in whatever
  order their steps come: when the saving task polls and no write has failed, the store holds the
  snapshot gathered last, or a mark for it is set or about to be.\<close>

theorem no_snapshot_lost:
  assumes "nvs_store nv ok cap" and "ok (nvs c)" and "snapshot_stored nv c"
    and "save_reach nv rate (save_start c) s" and "phase s = Polling" and "\<not> write_failed s"
    and "\<not> persist_dirty (sv s)" and "to_stamp s = []" and "to_mark s = 0"
  shows "nvs_get nv (nvs (sv s)) AVB_NVS_KEY = Some (nvs_snapshot AVB_PERSISTENT_DATA_SIZE (persist (sv s)))"
proof -
  have "save_inv nv ok (save_start c)" using assms(2,3) by (simp add: save_inv_def save_start_def)
  from save_reach_inv [OF assms(1,4) this] show ?thesis
    using assms(5-) by (simp add: save_inv_def save_asked_def snapshot_stored_def)
qed


definition configured :: "list_nvs config_state" where
  "configured = (config_at bound_node saved_store)\<lparr> persist := persistent_data_zero\<lparr> pd_version := 6 \<rparr> \<rparr>"

theorem no_snapshot_lost_witness:
  "\<exists>s. save_reach (list_store 32) 100 (save_start configured) s
     \<and> nvs_get (list_store 32) (nvs (sv s)) AVB_NVS_KEY
         = Some (nvs_snapshot AVB_PERSISTENT_DATA_SIZE (persist (avb_persist_gather configured)))"
proof -
  let ?nv = "list_store 32"
  let ?R = "save_reach ?nv 100 (save_start configured)"
  let ?g = "avb_persist_gather configured"
  let ?d = "(request_stamp False ?g)\<lparr> persist_dirty := True \<rparr>"
  let ?c = "?d\<lparr> persist_lazy := False, persist_dirty := False \<rparr>"
  have c: "distinct (map fst (nvs configured))" "snapshot_stored ?nv configured"
    by (simp_all add: configured_def config_at_def saved_store_def snapshot_stored_def list_store_def)
  note R1 = save_reach.further [OF save_reach.start [of ?nv 100 "save_start configured"] save_step.gather [where lazy = False]]
  note R2 = save_reach.further [OF R1 save_step.stamp [where xs = "[]" and ys = "[]" and lazy = False]]
  have "?R (save_start configured\<lparr> sv := request_stamp False ?g, to_mark := 1 \<rparr>)"
    using R2 by (simp add: save_start_def)
  from save_reach.further [OF this save_step.mark [where k = 0]]
  have R3: "?R (save_start ?d)" by (simp add: save_start_def)
  have "persist_gate 100 (sv (save_start ?d))"
    by (simp add: persist_gate_def save_start_def request_stamp_def avb_persist_gather_def Let_def configured_def
        config_at_def bound_node_def upd_core_def upd_input_def example_listener_def atdecc_zero_def state_zero_def)
  from save_reach.further [OF R3 save_step.due [OF _ this]]
  have R4: "?R ((save_start ?d)\<lparr> phase := Due \<rparr>)" by (simp add: save_start_def)
  from save_reach.further [OF R4 save_step.clear_lazy]
  have R5: "?R ((save_start (?d\<lparr> persist_lazy := False \<rparr>))\<lparr> phase := Lazy_cleared \<rparr>)" by (simp add: save_start_def)
  from save_reach.further [OF R5 save_step.clear_dirty]
  have R6: "?R ((save_start ?c)\<lparr> phase := Dirty_cleared \<rparr>)" by (simp add: save_start_def)
  from save_reach.further [OF R6 save_step.copy]
  have R7: "?R ((save_start ?c)\<lparr> phase := Copied (persist ?c) \<rparr>)" by (simp add: save_start_def)
  obtain e d where w: "avb_persist_write_blob ?nv (persist ?c) ?c = (e, d)" by (metis prod.collapse)
  then have e: "e = ESP_OK"
    by (auto simp: avb_persist_write_blob_def put_value_def list_store_def request_stamp_def avb_persist_gather_def
        Let_def configured_def config_at_def saved_store_def)
  from save_reach.further [OF R7 save_step.flush [of _ "persist ?c" ?nv e d]] w
  have R8: "?R (save_start d)" by (simp add: save_start_def e)
  have n: "nvs ?c = nvs configured" by (simp add: stamp_frame gather_frame)
  have k: "distinct (map fst (nvs ?c))" unfolding n by (rule c(1))
  note d = write_blob_cases [OF list_nvs.nvs_store_axioms [of 32] k w]
  from no_snapshot_lost [OF list_nvs.nvs_store_axioms c R8] d(2,3)
  have "nvs_get ?nv (nvs d) AVB_NVS_KEY = Some (nvs_snapshot AVB_PERSISTENT_DATA_SIZE (persist d))"
    by (simp add: save_start_def)
  moreover have "persist d = persist ?g" using d(2) by (simp add: stamp_frame)
  ultimately show ?thesis using R8 by (auto simp: save_start_def)
qed

end
