(* ===== verification/Aecp_State.thy ===== *)
theory Aecp_State
  imports Save_Task Unsol Wifi_Bundle
begin

text \<open>
  AECP messages and the state of their handlers (\<open>atdecc.h\<close>, \<open>atdecc.c\<close>).  A message is the octets of
  its buffer, \<open>aecp_message_u\<close>; what is sent is the part of it the handler sends, recorded with its
  destination in the log that the notifications go to as well, so their order is seen.
\<close>

section \<open>Codes\<close>

datatype aecp_cmd_code_t =
    aecp_cmd_code_acquire_entity | aecp_cmd_code_lock_entity | aecp_cmd_code_entity_available
  | aecp_cmd_code_controller_available | aecp_cmd_code_read_descriptor | aecp_cmd_code_set_configuration
  | aecp_cmd_code_get_configuration | aecp_cmd_code_set_stream_format | aecp_cmd_code_get_stream_format
  | aecp_cmd_code_get_stream_info | aecp_cmd_code_set_name | aecp_cmd_code_get_name
  | aecp_cmd_code_set_sampling_rate | aecp_cmd_code_get_sampling_rate | aecp_cmd_code_set_clock_source
  | aecp_cmd_code_get_clock_source | aecp_cmd_code_set_control | aecp_cmd_code_get_control
  | aecp_cmd_code_start_streaming | aecp_cmd_code_stop_streaming | aecp_cmd_code_register_unsol_notif
  | aecp_cmd_code_deregister_unsol_notif | aecp_cmd_code_get_avb_info | aecp_cmd_code_get_as_path
  | aecp_cmd_code_get_counters | aecp_cmd_code_get_audio_map | aecp_cmd_code_add_audio_mappings
  | aecp_cmd_code_remove_audio_mappings | aecp_cmd_code_get_dynamic_info | aecp_cmd_code_set_max_transit_time
  | aecp_cmd_code_get_max_transit_time

text \<open>The handlers read the low octet of the command type only.\<close>

definition aecp_cmd_codes :: "(u8 \<times> aecp_cmd_code_t) list" where
  "aecp_cmd_codes = [(0x00, aecp_cmd_code_acquire_entity), (0x01, aecp_cmd_code_lock_entity),
     (0x02, aecp_cmd_code_entity_available), (0x03, aecp_cmd_code_controller_available),
     (0x04, aecp_cmd_code_read_descriptor), (0x06, aecp_cmd_code_set_configuration),
     (0x07, aecp_cmd_code_get_configuration), (0x08, aecp_cmd_code_set_stream_format),
     (0x09, aecp_cmd_code_get_stream_format), (0x0f, aecp_cmd_code_get_stream_info),
     (0x10, aecp_cmd_code_set_name), (0x11, aecp_cmd_code_get_name), (0x14, aecp_cmd_code_set_sampling_rate),
     (0x15, aecp_cmd_code_get_sampling_rate), (0x16, aecp_cmd_code_set_clock_source),
     (0x17, aecp_cmd_code_get_clock_source), (0x18, aecp_cmd_code_set_control),
     (0x19, aecp_cmd_code_get_control), (0x22, aecp_cmd_code_start_streaming),
     (0x23, aecp_cmd_code_stop_streaming), (0x24, aecp_cmd_code_register_unsol_notif),
     (0x25, aecp_cmd_code_deregister_unsol_notif), (0x27, aecp_cmd_code_get_avb_info),
     (0x28, aecp_cmd_code_get_as_path), (0x29, aecp_cmd_code_get_counters), (0x2b, aecp_cmd_code_get_audio_map),
     (0x2c, aecp_cmd_code_add_audio_mappings), (0x2d, aecp_cmd_code_remove_audio_mappings),
     (0x4b, aecp_cmd_code_get_dynamic_info), (0x4c, aecp_cmd_code_set_max_transit_time),
     (0x4d, aecp_cmd_code_get_max_transit_time)]"

datatype aecp_status_t =
    aecp_status_success | aecp_status_not_implemented | aecp_status_no_such_descriptor
  | aecp_status_entity_locked | aecp_status_entity_acquired | aecp_status_not_authenticated
  | aecp_status_authentication_disabled | aecp_status_bad_arguments | aecp_status_no_resources
  | aecp_status_in_progress | aecp_status_entity_misbehaving | aecp_status_not_supported
  | aecp_status_stream_is_running

primrec aecp_status_value :: "aecp_status_t \<Rightarrow> u8" where
  "aecp_status_value aecp_status_success = 0"
| "aecp_status_value aecp_status_not_implemented = 1"
| "aecp_status_value aecp_status_no_such_descriptor = 2"
| "aecp_status_value aecp_status_entity_locked = 3"
| "aecp_status_value aecp_status_entity_acquired = 4"
| "aecp_status_value aecp_status_not_authenticated = 5"
| "aecp_status_value aecp_status_authentication_disabled = 6"
| "aecp_status_value aecp_status_bad_arguments = 7"
| "aecp_status_value aecp_status_no_resources = 8"
| "aecp_status_value aecp_status_in_progress = 9"
| "aecp_status_value aecp_status_entity_misbehaving = 10"
| "aecp_status_value aecp_status_not_supported = 11"
| "aecp_status_value aecp_status_stream_is_running = 12"

definition aem_desc_type_entity :: u16 where "aem_desc_type_entity = 0x0000"
definition aem_desc_type_audio_unit :: u16 where "aem_desc_type_audio_unit = 0x0002"
definition aem_desc_type_stream_input :: u16 where "aem_desc_type_stream_input = 0x0005"
definition aem_desc_type_stream_output :: u16 where "aem_desc_type_stream_output = 0x0006"
definition aem_desc_type_avb_interface :: u16 where "aem_desc_type_avb_interface = 0x0009"
definition aem_desc_type_stream_port_input :: u16 where "aem_desc_type_stream_port_input = 0x000e"
definition aem_desc_type_stream_port_output :: u16 where "aem_desc_type_stream_port_output = 0x000f"
definition aem_desc_type_control :: u16 where "aem_desc_type_control = 0x001a"
definition aem_desc_type_clock_domain :: u16 where "aem_desc_type_clock_domain = 0x0024"

section \<open>Messages\<close>

definition AVB_MAX_MSG_LEN :: nat where "AVB_MAX_MSG_LEN = 600"
definition AVTP_CDL_PREAMBLE_LEN :: nat where "AVTP_CDL_PREAMBLE_LEN = 12"

definition put :: "nat \<Rightarrow> octets \<Rightarrow> octets \<Rightarrow> octets" where
  "put off bs m = take off m @ bs @ drop (off + length bs) m"

definition get16 :: "nat \<Rightarrow> octets \<Rightarrow> u16" where "get16 off m = octets_u16 (part off 2 m)"

definition aecp_msg_type :: "octets \<Rightarrow> u8" where "aecp_msg_type m = m ! 1 AND 0x0F"
definition aecp_target :: "octets \<Rightarrow> octets" where "aecp_target m = part 4 8 m"
definition aecp_controller :: "octets \<Rightarrow> octets" where "aecp_controller m = part 12 8 m"
definition aecp_seq :: "octets \<Rightarrow> u16" where "aecp_seq m = get16 20 m"

definition aecp_command :: "octets \<Rightarrow> aecp_cmd_code_t option" where
  "aecp_command m = map_of aecp_cmd_codes (m ! 23)"

definition avb_aecp_msg_len :: "octets \<Rightarrow> nat" where
  "avb_aecp_msg_len m = AVTP_CDL_PREAMBLE_LEN + (unat (m ! 2 AND 7) * 256 + unat (m ! 3))"

definition set_aem_response :: "octets \<Rightarrow> octets" where
  "set_aem_response m = m[1 := (m ! 1 AND 0xF0) OR 1]"

definition set_status :: "aecp_status_t \<Rightarrow> octets \<Rightarrow> octets" where
  "set_status status m = m[2 := push_bit 3 (aecp_status_value status) OR (m ! 2 AND 7)]"

definition set_msg_len :: "nat \<Rightarrow> octets \<Rightarrow> octets" where
  "set_msg_len len m =
     (let cdl = len - AVTP_CDL_PREAMBLE_LEN
      in m[2 := (m ! 2 AND 0xF8) OR (of_nat (cdl div 256) AND 7), 3 := of_nat cdl])"

section \<open>State\<close>

text \<open>\<open>config_at\<close> is the configuration with the streams, \<open>unsol\<close> the registered controllers and the
  log of sent frames.  The lock is a field of both, written together by \<open>set_lock\<close>.\<close>

record 'n aecp_state =
  cfg :: "'n config_state"
  unsol :: unsol_state
  crf_stream_valid :: bool
  reply_ok :: bool

abbreviation acfg_node :: "'n aecp_state \<Rightarrow> atdecc_state" where "acfg_node s \<equiv> node (cfg s)"

abbreviation aecp_now :: "'n aecp_state \<Rightarrow> int" where "aecp_now s \<equiv> persist_now (cfg s)"

definition upd_cfg :: "('n config_state \<Rightarrow> 'n config_state) \<Rightarrow> 'n aecp_state \<Rightarrow> 'n aecp_state" where
  "upd_cfg f s = s\<lparr> cfg := f (cfg s) \<rparr>"

definition upd_node :: "(atdecc_state \<Rightarrow> atdecc_state) \<Rightarrow> 'n aecp_state \<Rightarrow> 'n aecp_state" where
  "upd_node f = upd_cfg (\<lambda>c. c\<lparr> node := f (node c) \<rparr>)"

definition upd_unsol :: "(unsol_state \<Rightarrow> unsol_state) \<Rightarrow> 'n aecp_state \<Rightarrow> 'n aecp_state" where
  "upd_unsol f s = s\<lparr> unsol := f (unsol s) \<rparr>"

definition aecp_reply :: "octets \<Rightarrow> nat \<Rightarrow> octets \<Rightarrow> 'n aecp_state \<Rightarrow> 'n aecp_state" where
  "aecp_reply m len dst = upd_unsol (\<lambda>u. u\<lparr> us_sent := us_sent u @ [(dst, take len m)] \<rparr>)"

text \<open>The controllers that are told: all, or all but the one whose command it was.\<close>

definition aecp_notify :: "octets \<Rightarrow> nat \<Rightarrow> (octets \<times> octets) option \<Rightarrow> 'n aecp_state \<Rightarrow> 'n aecp_state" where
  "aecp_notify m len requester =
     upd_unsol (avb_unsol_notify (take len m) avb_unsol_kind_aem (map_option (\<lambda>(i, a). (i, Some a)) requester))"

definition set_lock :: "bool \<Rightarrow> octets \<Rightarrow> 'n aecp_state \<Rightarrow> 'n aecp_state" where
  "set_lock lock by s = upd_unsol (\<lambda>u. u\<lparr> us_locked := lock, us_locked_by := by \<rparr>)
     (upd_node (\<lambda>a. a\<lparr> entity_locked := lock, locked_by := by \<rparr>) s)"

definition any_output_streaming :: "'n aecp_state \<Rightarrow> bool" where
  "any_output_streaming s \<longleftrightarrow> (\<exists>t \<in> set (output_streams (core (acfg_node s))). streaming t)"

definition any_input_connected :: "'n aecp_state \<Rightarrow> bool" where
  "any_input_connected s \<longleftrightarrow> (\<exists>t \<in> set (input_streams (core (acfg_node s))). ls_connected t)"

end
