(* ===== verification/Aecp.thy ===== *)
theory Aecp
  imports Aecp_State
begin

text \<open>
  The AECP commands that read and change the state of the entity (\<open>atdecc.c\<close> 1482 to 4282), and their
  dispatch.  The descriptors, counters, stream and path information, the controls and the
  vendor-unique commands are not modelled; the dispatch is \<open>None\<close> for them.
\<close>

section \<open>Registration, acquisition and lock\<close>

definition avb_process_aecp_cmd_register_unsol_notif :: "octets \<Rightarrow> octets \<Rightarrow> 'n aecp_state \<Rightarrow> 'n aecp_state" where
  "avb_process_aecp_cmd_register_unsol_notif m src s =
     (let has_flags = (avb_aecp_msg_len m \<ge> 28);
          rsp = set_aem_response (if has_flags then take 28 m else take 24 m @ zeros 4);
          (registered, u) = avb_unsol_register (aecp_controller m) src (bit (rsp ! 27) 0) (aecp_now s) (unsol s);
          rsp = set_status (if registered then aecp_status_success else aecp_status_no_resources) rsp
      in aecp_reply (set_msg_len 28 rsp) 28 src (s\<lparr> unsol := u \<rparr>))"

definition avb_process_aecp_cmd_deregister_unsol_notif :: "octets \<Rightarrow> octets \<Rightarrow> 'n aecp_state \<Rightarrow> 'n aecp_state" where
  "avb_process_aecp_cmd_deregister_unsol_notif m src s =
     upd_unsol (avb_unsol_deregister (aecp_controller m) src)
       (aecp_reply (set_msg_len 28 (set_aem_response m)) 28 src s)"

text \<open>Nothing asks whether another controller holds the entity.\<close>

definition avb_process_aecp_cmd_acquire_entity :: "octets \<Rightarrow> octets \<Rightarrow> 'n aecp_state \<Rightarrow> 'n aecp_state" where
  "avb_process_aecp_cmd_acquire_entity m src s =
     (let refused = us_milan (unsol s); release = bit (m ! 24) 7; who = aecp_controller m;
          rsp = set_aem_response m;
          rsp = (if refused then set_status aecp_status_not_supported rsp
                 else if \<not> release then put 28 who rsp else rsp);
          s = aecp_reply rsp 40 src s;
          was_acquired = entity_acquired (acfg_node s)
      in if \<not> reply_ok s \<or> refused then s
         else
           let s = (if release then upd_node (\<lambda>a. a\<lparr> entity_acquired := False \<rparr>) s
                    else upd_unsol (\<lambda>u. snd (avb_unsol_register who src False (aecp_now s) u))
                           (upd_node (\<lambda>a. a\<lparr> entity_acquired := True, acquired_by := who \<rparr>) s))
           in if was_acquired \<noteq> entity_acquired (acfg_node s) then aecp_notify rsp 40 (Some (who, src)) s else s)"

definition AVB_LOCK_TIMEOUT_US :: int where "AVB_LOCK_TIMEOUT_US = 60 * 1000000"

definition avb_process_aecp_cmd_lock_entity :: "octets \<Rightarrow> octets \<Rightarrow> 'n aecp_state \<Rightarrow> 'n aecp_state" where
  "avb_process_aecp_cmd_lock_entity m src s =
     (let who = aecp_controller m;
          was_locked = entity_locked (acfg_node s);
          owner = (was_locked \<and> locked_by (acfg_node s) = who);
          (status, s) =
            (if get16 36 m \<noteq> aem_desc_type_entity then (aecp_status_not_supported, s)
             else if was_locked \<and> \<not> owner then (aecp_status_entity_locked, s)
             else if bit (m ! 27) 0 then (aecp_status_success, set_lock False (zeros 8) s)
             else (aecp_status_success,
                   upd_unsol (\<lambda>u. u\<lparr> us_lock_expires_us := aecp_now s + AVB_LOCK_TIMEOUT_US \<rparr>) (set_lock True who s)));
          rsp = put 28 (locked_by (acfg_node s)) (set_status status (set_aem_response m));
          s = aecp_reply rsp 40 src s
      in if status = aecp_status_success \<and> was_locked \<noteq> entity_locked (acfg_node s)
         then aecp_notify rsp 40 (Some (who, src)) s else s)"

definition avb_process_aecp_cmd_entity_available :: "octets \<Rightarrow> octets \<Rightarrow> 'n aecp_state \<Rightarrow> 'n aecp_state" where
  "avb_process_aecp_cmd_entity_available m src s =
     (let a = acfg_node s;
          rsp = set_aem_response (take 24 m
            @ [0, 0, 0, (if entity_acquired a then 1 else 0) OR (if entity_locked a then 2 else 0)]
            @ (if entity_acquired a then acquired_by a else zeros 8)
            @ (if entity_locked a then locked_by a else zeros 8))
      in aecp_reply (set_msg_len 44 rsp) 44 src s)"

section \<open>Configuration and streaming\<close>

definition DEFAULT_CONFIG_INDEX :: u16 where "DEFAULT_CONFIG_INDEX = 0"

definition avb_process_aecp_cmd_get_configuration :: "octets \<Rightarrow> octets \<Rightarrow> 'n aecp_state \<Rightarrow> 'n aecp_state" where
  "avb_process_aecp_cmd_get_configuration m src s =
     aecp_reply (set_msg_len 28 (set_aem_response (take 24 m @ zeros 2 @ u16_octets DEFAULT_CONFIG_INDEX))) 28 src s"

definition avb_process_aecp_cmd_set_configuration :: "octets \<Rightarrow> octets \<Rightarrow> 'n aecp_state \<Rightarrow> 'n aecp_state" where
  "avb_process_aecp_cmd_set_configuration m src s =
     (let any_running = (any_output_streaming s
            \<or> (\<exists>t \<in> set (input_streams (core (acfg_node s))). talker_id t \<noteq> zeros 8));
          status = (if any_running then aecp_status_stream_is_running
                    else if get16 26 m \<noteq> DEFAULT_CONFIG_INDEX then aecp_status_no_such_descriptor
                    else aecp_status_success)
      in aecp_reply (set_msg_len 28 (set_status status (set_aem_response (put 26 (u16_octets DEFAULT_CONFIG_INDEX) m))))
           28 src s)"

definition avb_process_aecp_cmd_streaming ::
  "'n nvs_ops \<Rightarrow> octets \<Rightarrow> octets \<Rightarrow> 'n aecp_state \<Rightarrow> 'n aecp_state" where
  "avb_process_aecp_cmd_streaming nv m src s =
     (let start = (aecp_command m = Some aecp_cmd_code_start_streaming);
          type = get16 24 m; index = unat (get16 26 m); a = acfg_node s;
          (status, changed) =
            (if type = aem_desc_type_stream_output \<and> index < length (output_streams (core a))
             then (aecp_status_not_supported, False)
             else if type \<noteq> aem_desc_type_stream_input \<or> index \<ge> length (input_streams (core a))
             then (aecp_status_no_such_descriptor, False)
             else (aecp_status_success,
                   talker_id (input_stream a index) \<noteq> zeros 8
                   \<and> streaming_wait (input_stream a index) \<noteq> (\<not> start)));
          s = (if changed then upd_node (upd_core (upd_input index (\<lambda>t. t\<lparr> streaming_wait := \<not> start \<rparr>))) s else s);
          rsp = set_msg_len 28 (set_status status (set_aem_response m));
          s = aecp_reply rsp 28 src s
      in if changed
         then upd_cfg (\<lambda>c. snd (avb_persist_append_stream nv True index c))
                (aecp_notify rsp 28 (Some (aecp_controller m, src)) s)
         else s)"

section \<open>Audio mappings\<close>

definition AVB_INPUT_MAP_UNMAPPED :: u16 where "AVB_INPUT_MAP_UNMAPPED = 0xFFFF"
definition AVB_AEM_MAX_MSG_MAPPINGS :: nat where "AVB_AEM_MAX_MSG_MAPPINGS = 62"

definition avb_audio_map_port_status :: "u16 \<Rightarrow> u16 \<Rightarrow> 'n aecp_state \<Rightarrow> aecp_status_t" where
  "avb_audio_map_port_status type index s =
     (if index \<noteq> 0 then aecp_status_no_such_descriptor
      else if type = aem_desc_type_stream_port_input then aecp_status_success
      else if type = aem_desc_type_stream_port_output \<and> config_talker (core (acfg_node s))
      then aecp_status_not_supported
      else aecp_status_no_such_descriptor)"

definition avb_input_mapping_valid :: "octets \<Rightarrow> 'n aecp_state \<Rightarrow> bool" where
  "avb_input_mapping_valid mapping s =
     (let a = acfg_node s in
      if get16 0 mapping \<noteq> 0 \<or> length (input_streams (core a)) = 0 \<or> avb_get_crf_input_index a = 0 then False
      else if get16 4 mapping \<noteq> 0 \<or> unat (get16 6 mapping) \<ge> AVB_INPUT_CLUSTER_CHANNELS then False
      else unat (get16 2 mapping) < avb_stream_format_channels (ls_stream_format (input_stream a 0)))"

definition avb_fill_input_mapping :: "u16 \<Rightarrow> nat \<Rightarrow> octets" where
  "avb_fill_input_mapping stream_channel cluster_channel =
     u16_octets 0 @ u16_octets stream_channel @ u16_octets 0 @ u16_octets (of_nat cluster_channel)"

definition mappings_of :: "u16 list \<Rightarrow> octets list" where
  "mappings_of channels = map (\<lambda>ch. avb_fill_input_mapping (channels ! ch) ch)
     (filter (\<lambda>ch. channels ! ch \<noteq> AVB_INPUT_MAP_UNMAPPED) [0..<AVB_INPUT_CLUSTER_CHANNELS])"

definition avb_process_aecp_cmd_get_audio_map :: "octets \<Rightarrow> octets \<Rightarrow> 'n aecp_state \<Rightarrow> 'n aecp_state" where
  "avb_process_aecp_cmd_get_audio_map m src s =
     (let status = avb_audio_map_port_status (get16 24 m) (get16 26 m) s;
          status = (if status = aecp_status_success \<and> get16 28 m \<noteq> 0 then aecp_status_bad_arguments else status);
          maps = (if status = aecp_status_success then mappings_of (input_map (cfg s)) else []);
          len = 36 + 8 * length maps;
          rsp = put 36 (concat maps) (put 30 (u16_octets 1 @ u16_octets (of_nat (length maps)) @ zeros 2) m)
      in aecp_reply (set_msg_len len (set_status status (set_aem_response rsp))) len src s)"

text \<open>The mappings a command names, one after the other: the map they make, the sources they replace
  and name.\<close>

record mapping_walk =
  mw_status :: aecp_status_t
  mw_next :: "u16 list"
  mw_replaced :: "u16 list"
  mw_named :: "u16 list"

definition mapping_step :: "bool \<Rightarrow> 'n aecp_state \<Rightarrow> octets \<Rightarrow> mapping_walk \<Rightarrow> mapping_walk" where
  "mapping_step add s mapping w =
     (if mw_status w \<noteq> aecp_status_success then w
      else if \<not> avb_input_mapping_valid mapping s then w\<lparr> mw_status := aecp_status_bad_arguments \<rparr>
      else
        let source = get16 2 mapping; channel = unat (get16 6 mapping); current = input_map (cfg s) ! channel in
        if add then
          if mw_named w ! channel \<noteq> AVB_INPUT_MAP_UNMAPPED \<and> mw_named w ! channel \<noteq> source
          then w\<lparr> mw_status := aecp_status_bad_arguments \<rparr>
          else w\<lparr> mw_named := (mw_named w)[channel := source],
                  mw_replaced := (if current \<noteq> AVB_INPUT_MAP_UNMAPPED \<and> current \<noteq> source
                                  then (mw_replaced w)[channel := current] else mw_replaced w),
                  mw_next := (mw_next w)[channel := source] \<rparr>
        else if current \<noteq> source then w\<lparr> mw_status := aecp_status_bad_arguments \<rparr>
        else w\<lparr> mw_next := (mw_next w)[channel := AVB_INPUT_MAP_UNMAPPED] \<rparr>)"

definition mapping_walk_all :: "bool \<Rightarrow> 'n aecp_state \<Rightarrow> aecp_status_t \<Rightarrow> octets list \<Rightarrow> mapping_walk" where
  "mapping_walk_all add s status maps =
     fold (mapping_step add s) maps
       \<lparr> mw_status = status, mw_next = take AVB_INPUT_CLUSTER_CHANNELS (input_map (cfg s)),
         mw_replaced = replicate AVB_INPUT_CLUSTER_CHANNELS AVB_INPUT_MAP_UNMAPPED,
         mw_named = replicate AVB_INPUT_CLUSTER_CHANNELS AVB_INPUT_MAP_UNMAPPED \<rparr>"

definition carried_mappings :: "octets \<Rightarrow> nat" where
  "carried_mappings m = (if avb_aecp_msg_len m > 32 then (avb_aecp_msg_len m - 32) div 8 else 0)"

text \<open>The removal an addition that replaces causes, as a message of its own.\<close>

definition replaced_note :: "octets \<Rightarrow> u16 list \<Rightarrow> octets" where
  "replaced_note m replaced =
     (let maps = mappings_of replaced in
      set_msg_len (32 + 8 * length maps) (set_status aecp_status_success (set_aem_response
        (put 28 (u16_octets (of_nat (length maps))) ((take 32 m)[23 := 0x2d])))) @ concat maps)"

definition avb_process_aecp_cmd_audio_mappings ::
  "'n nvs_ops \<Rightarrow> octets \<Rightarrow> octets \<Rightarrow> 'n aecp_state \<Rightarrow> 'n aecp_state" where
  "avb_process_aecp_cmd_audio_mappings nv m src s =
     (let add = (aecp_command m = Some aecp_cmd_code_add_audio_mappings);
          count = unat (get16 28 m); carried = carried_mappings m;
          status = avb_audio_map_port_status (get16 24 m) (get16 26 m) s;
          status = (if status = aecp_status_success \<and> (count > AVB_AEM_MAX_MSG_MAPPINGS \<or> count > carried)
                    then aecp_status_bad_arguments else status);
          w = mapping_walk_all add s status
                (if status = aecp_status_success then map (\<lambda>i. part (32 + 8 * i) 8 m) [0..<count] else []);
          changed = (mw_status w = aecp_status_success \<and> mw_next w \<noteq> take AVB_INPUT_CLUSTER_CHANNELS (input_map (cfg s)));
          s = (if changed \<and> add \<and> mappings_of (mw_replaced w) \<noteq> []
               then aecp_notify (replaced_note m (mw_replaced w)) (length (replaced_note m (mw_replaced w))) None s else s);
          s = (if changed then upd_cfg (\<lambda>c. c\<lparr> input_map := mw_next w \<rparr>) s else s);
          echoed = min (min count carried) AVB_AEM_MAX_MSG_MAPPINGS;
          len = 32 + 8 * echoed;
          rsp = set_msg_len len (set_status (mw_status w) (set_aem_response m));
          s = aecp_reply rsp len src s
      in if changed
         then upd_cfg (\<lambda>c. snd (avb_persist_save_input_map nv c)) (aecp_notify rsp len (Some (aecp_controller m, src)) s)
         else s)"

end
