(* ===== verification/Aecp_Format.thy ===== *)
theory Aecp_Format
  imports Aecp
begin

text \<open>
  The AECP commands for stream formats, the sample rate, the clock source, presentation times and names,
  and the dispatch of AECP messages (\<open>atdecc.c\<close>).
\<close>

section \<open>Stream formats\<close>

text \<open>The hardware's answer to a new rate is \<open>set_rate_ok\<close>; the rate is committed when it agrees.\<close>

definition avb_audio_set_rate :: "u32 \<Rightarrow> audio_state \<Rightarrow> bool \<times> audio_state" where
  "avb_audio_set_rate rate au =
     (if rate = default_sample_rate au then (True, au)
      else if set_rate_ok au rate then (True, au\<lparr> default_sample_rate := rate \<rparr>) else (False, au))"

definition avb_reflect_aem_command :: "octets \<Rightarrow> octets \<Rightarrow> aecp_status_t \<Rightarrow> 'n aecp_state \<Rightarrow> 'n aecp_state" where
  "avb_reflect_aem_command m src status s =
     aecp_reply (set_status status (set_aem_response m)) (avb_aecp_msg_len m) src s"

definition avb_send_aecp_rsp_set_stream_format :: "octets \<Rightarrow> octets \<Rightarrow> 'n aecp_state \<Rightarrow> 'n aecp_state" where
  "avb_send_aecp_rsp_set_stream_format m src s = aecp_reply (set_msg_len 36 (set_aem_response m)) 36 src s"

definition stream_exists :: "bool \<Rightarrow> nat \<Rightarrow> 'n aecp_state \<Rightarrow> bool" where
  "stream_exists is_output index s \<longleftrightarrow>
     (if is_output then index < length (output_streams (core (acfg_node s)))
      else index < length (input_streams (core (acfg_node s))))"

definition stream_format_of :: "bool \<Rightarrow> nat \<Rightarrow> 'n aecp_state \<Rightarrow> octets" where
  "stream_format_of is_output index s =
     (if is_output then ts_stream_format (output_stream (acfg_node s) index)
      else ls_stream_format (input_stream (acfg_node s) index))"

definition set_stream_format_of :: "bool \<Rightarrow> nat \<Rightarrow> octets \<Rightarrow> 'n aecp_state \<Rightarrow> 'n aecp_state" where
  "set_stream_format_of is_output index f =
     upd_node (upd_core (if is_output then upd_output index (\<lambda>t. t\<lparr> ts_stream_format := f \<rparr>)
                         else upd_input index (\<lambda>t. t\<lparr> ls_stream_format := f \<rparr>)))"

definition avb_process_aecp_cmd_get_stream_format :: "octets \<Rightarrow> octets \<Rightarrow> 'n aecp_state \<Rightarrow> 'n aecp_state" where
  "avb_process_aecp_cmd_get_stream_format m src s =
     (let type = get16 24 m; index = unat (get16 26 m); is_output = (type = aem_desc_type_stream_output) in
      if type \<noteq> aem_desc_type_stream_input \<and> type \<noteq> aem_desc_type_stream_output
      then avb_reflect_aem_command m src aecp_status_no_such_descriptor s
      else if \<not> stream_exists is_output index s then avb_reflect_aem_command m src aecp_status_no_such_descriptor s
      else avb_send_aecp_rsp_set_stream_format (put 28 (stream_format_of is_output index s) m) src s)"

text \<open>Whether a requested format is listed, and the rate it asks for.\<close>

definition requested_format_supported :: "bool \<Rightarrow> nat \<Rightarrow> octets \<Rightarrow> 'n aecp_state \<Rightarrow> bool" where
  "requested_format_supported is_output index requested s \<longleftrightarrow>
     (if is_crf_stream (acfg_node s) is_output index
      then requested = avb_crf_format_for_rate (default_sample_rate (audio (cfg s)))
      else \<exists>f \<in> set (supported_formats (audio (cfg s)) is_output).
             requested = f \<or> avb_am824_same_but_upto requested f)"

definition requested_rate :: "bool \<Rightarrow> nat \<Rightarrow> octets \<Rightarrow> 'n aecp_state \<Rightarrow> u32" where
  "requested_rate is_output index requested s =
     (if requested_format_supported is_output index requested s \<and> \<not> is_crf_stream (acfg_node s) is_output index
      then if fmt_subtype requested = subtype_61883 then cip_sfc_to_sample_rate (am824_fdf_sfc requested)
           else aaf_code_to_sample_rate (aaf_sample_rate requested)
      else default_sample_rate (audio (cfg s)))"

definition take_stream_format :: "bool \<Rightarrow> nat \<Rightarrow> octets \<Rightarrow> 'n aecp_state \<Rightarrow> 'n aecp_state" where
  "take_stream_format is_output index requested s =
     (if is_output then
        let current = stream_format_of True index s;
            old_class = avb_output_format_class current; new_class = avb_output_format_class requested;
            s = set_stream_format_of True index requested s;
            s = (if new_class \<noteq> None \<and> (old_class = None \<or> old_class \<noteq> new_class)
                 then upd_node (upd_core (\<lambda>c. snd (avb_output_stream_class_from_format index c))) s else s)
        in if current \<noteq> requested then upd_node (upd_core (avb_output_stream_declare_now index None)) s else s
      else set_stream_format_of False index requested s)"

text \<open>What \<open>SET_STREAM_FORMAT\<close> does to an existing stream: its status, whether the format changed, and
  the state before the answer.\<close>

definition set_format_step ::
  "'n nvs_ops \<Rightarrow> bool \<Rightarrow> nat \<Rightarrow> octets \<Rightarrow> 'n aecp_state \<Rightarrow> aecp_status_t \<times> bool \<times> 'n aecp_state" where
  "set_format_step nv is_output index requested s =
     (let target_running = (if is_output then streaming (output_stream (acfg_node s) index)
                            else ls_connected (input_stream (acfg_node s) index));
          any_running = (any_output_streaming s \<or> any_input_connected s);
          new_rate = requested_rate is_output index requested s;
          rate_change = (new_rate \<noteq> default_sample_rate (audio (cfg s)));
          changed = (stream_format_of is_output index s \<noteq> requested)
      in if target_running then (aecp_status_stream_is_running, False, s)
         else if \<not> requested_format_supported is_output index requested s
         then (aecp_status_bad_arguments, False, s)
         else if rate_change \<and> any_running then (aecp_status_stream_is_running, False, s)
         else
           let (rate_ok, au) = avb_audio_set_rate new_rate (audio (cfg s)) in
           if rate_change \<and> \<not> rate_ok then (aecp_status_entity_misbehaving, changed, s)
           else
             let s = take_stream_format is_output index requested (upd_cfg (\<lambda>c. c\<lparr> audio := au \<rparr>) s);
                 s = (if rate_change then upd_cfg (\<lambda>c. snd (avb_persist_save_rate nv c)) s else s)
             in (aecp_status_success, changed, s))"

definition avb_process_aecp_cmd_set_stream_format ::
  "'n nvs_ops \<Rightarrow> octets \<Rightarrow> octets \<Rightarrow> 'n aecp_state \<Rightarrow> 'n aecp_state" where
  "avb_process_aecp_cmd_set_stream_format nv m src s =
     (let type = get16 24 m; index = unat (get16 26 m); is_output = (type = aem_desc_type_stream_output);
          requested = part 28 8 m in
      if type \<noteq> aem_desc_type_stream_input \<and> type \<noteq> aem_desc_type_stream_output \<or> \<not> stream_exists is_output index s
      then avb_send_aecp_rsp_set_stream_format (set_status aecp_status_no_such_descriptor m) src s
      else
        let (status, changed, s) = set_format_step nv is_output index requested s;
            m = (if status \<noteq> aecp_status_success then put 28 (stream_format_of is_output index s) m else m);
            m = set_status status m;
            s = avb_send_aecp_rsp_set_stream_format m src s;
            s = (if status = aecp_status_success \<and> changed
                 then aecp_notify (set_msg_len 36 (set_aem_response m)) 36 (Some (aecp_controller m, src)) s else s)
        in if status \<noteq> aecp_status_success then s
           else upd_cfg (\<lambda>c. snd (avb_persist_append_stream nv (\<not> is_output) index c)) s)"

section \<open>Clock source\<close>

definition avb_process_aecp_cmd_get_clock_source :: "octets \<Rightarrow> octets \<Rightarrow> 'n aecp_state \<Rightarrow> 'n aecp_state" where
  "avb_process_aecp_cmd_get_clock_source m src s =
     aecp_reply (set_msg_len 30 (set_status aecp_status_success (set_aem_response
       (put 28 (u16_octets (active_clock_source_index (cfg s))) m)))) 30 src s"

definition avb_process_aecp_cmd_set_clock_source :: "octets \<Rightarrow> octets \<Rightarrow> 'n aecp_state \<Rightarrow> 'n aecp_state" where
  "avb_process_aecp_cmd_set_clock_source m src s =
     (let requested = get16 28 m; a = acfg_node s; crf = avb_get_crf_input_index a;
          active = active_clock_source_index (cfg s);
          (status, changed) =
            (if get16 24 m \<noteq> aem_desc_type_clock_domain \<or> get16 26 m \<noteq> 0
             then (aecp_status_no_such_descriptor, False)
             else if requested > 1 then (aecp_status_bad_arguments, False)
             else if requested \<noteq> active \<and> any_output_streaming s then (aecp_status_stream_is_running, False)
             else if requested = 1 \<and> (\<not> (crf < length (input_streams (core a)) \<and> ls_connected (input_stream a crf))
                                        \<or> \<not> crf_stream_valid s)
             then (aecp_status_not_supported, False)
             else (aecp_status_success, requested \<noteq> active));
          s = (if status = aecp_status_success
               then upd_cfg (\<lambda>c. avb_persist_request_save (c\<lparr> active_clock_source_index := requested \<rparr>)) s else s);
          rsp = set_msg_len 32 (set_status status (set_aem_response (put 30 (zeros 2) m)));
          s = aecp_reply rsp 32 src s
      in if status = aecp_status_success \<and> changed then aecp_notify rsp 32 (Some (aecp_controller m, src)) s else s)"

section \<open>Sample rate\<close>

definition avb_unsol_notify_stream_format :: "octets \<Rightarrow> bool \<Rightarrow> nat \<Rightarrow> 'n aecp_state \<Rightarrow> 'n aecp_state" where
  "avb_unsol_notify_stream_format from is_output index s =
     aecp_notify (set_msg_len 36 (set_status aecp_status_success (set_aem_response
         (take 22 from @ [0, 0x08]
          @ u16_octets (if is_output then aem_desc_type_stream_output else aem_desc_type_stream_input)
          @ u16_octets (of_nat index) @ stream_format_of is_output index s)))) 36 None s"

text \<open>The formats every stream has at a rate, when each has one.\<close>

definition formats_at_rate :: "bool \<Rightarrow> u32 \<Rightarrow> 'n aecp_state \<Rightarrow> octets list option" where
  "formats_at_rate is_output rate s =
     (let n = (if is_output then length (output_streams (core (acfg_node s)))
               else length (input_streams (core (acfg_node s))));
          at_rate = (\<lambda>i. avb_stream_format_at_rate (audio (cfg s)) (acfg_node s) is_output i
                           (stream_format_of is_output i s) rate)
      in if \<forall>i < n. at_rate i \<noteq> None then Some (map (\<lambda>i. the (at_rate i)) [0..<n]) else None)"

definition set_rate_step :: "'n nvs_ops \<Rightarrow> u32 \<Rightarrow> 'n aecp_state \<Rightarrow> aecp_status_t \<times> 'n aecp_state" where
  "set_rate_step nv requested s =
     (let supported = (requested \<in> set (supported_sample_rates (audio (cfg s))));
          formats_in = formats_at_rate False requested s; formats_out = formats_at_rate True requested s
      in if \<not> supported then (aecp_status_bad_arguments, s)
         else if any_output_streaming s \<or> any_input_connected s then (aecp_status_stream_is_running, s)
         else if formats_in = None \<or> formats_out = None then (aecp_status_not_supported, s)
         else
           let (rate_ok, au) = avb_audio_set_rate requested (audio (cfg s)) in
           if \<not> rate_ok then (aecp_status_entity_misbehaving, s)
           else
             let s = upd_cfg (\<lambda>c. snd (avb_persist_save_rate nv (c\<lparr> audio := au \<rparr>))) s;
                 s = foreach (length (input_streams (core (acfg_node s))))
                       (\<lambda>i. set_stream_format_of False i (the formats_in ! i)) s;
                 s = foreach (length (output_streams (core (acfg_node s))))
                       (\<lambda>i s. upd_node (upd_core (avb_output_stream_declare_now i None))
                                (set_stream_format_of True i (the formats_out ! i) s)) s
             in (aecp_status_success, s))"

definition avb_process_aecp_cmd_sampling_rate ::
  "'n nvs_ops \<Rightarrow> octets \<Rightarrow> octets \<Rightarrow> 'n aecp_state \<Rightarrow> 'n aecp_state" where
  "avb_process_aecp_cmd_sampling_rate nv m src s =
     (let is_set = (aecp_command m = Some aecp_cmd_code_set_sampling_rate);
          requested = (ucast (octets_to_uint (part 28 4 m) 4) :: u32);
          set_it = (is_set \<and> requested \<noteq> default_sample_rate (audio (cfg s)));
          (status, s) =
            (if get16 24 m \<noteq> aem_desc_type_audio_unit \<or> get16 26 m \<noteq> 0 then (aecp_status_no_such_descriptor, s)
             else if set_it then set_rate_step nv requested s else (aecp_status_success, s));
          changed = (set_it \<and> status = aecp_status_success);
          rsp = set_msg_len 32 (set_status status (set_aem_response
                  (put 28 (int_to_octets (ucast (default_sample_rate (audio (cfg s)))) 4) m)));
          s = aecp_reply rsp 32 src s;
          tell = (\<lambda>is_output i s. upd_cfg (\<lambda>c. snd (avb_persist_append_stream nv (\<not> is_output) i c))
                   (avb_unsol_notify_stream_format rsp is_output i s))
      in if \<not> changed then s
         else
           let s = aecp_notify rsp 32 (Some (aecp_controller m, src)) s;
               s = foreach (length (input_streams (core (acfg_node s)))) (tell False) s
           in foreach (length (output_streams (core (acfg_node s)))) (tell True) s)"

section \<open>Presentation time\<close>

text \<open>\<open>min_offset_us\<close> is the configured least offset of a Wi-Fi station.\<close>

definition avb_output_presentation_offset_ns :: "u32 \<Rightarrow> avb_state \<Rightarrow> nat \<Rightarrow> u32" where
  "avb_output_presentation_offset_ns min_offset_us c index =
     (let offset_ns = presentation_time_offset_ns (output_streams c ! index); floor_ns = min_offset_us * 1000 in
      if port_medium (port c 0) = avb_port_medium_wifi_ftm \<and> offset_ns < floor_ns then floor_ns else offset_ns)"

definition avb_process_aecp_cmd_get_max_transit_time ::
  "'n nvs_ops \<Rightarrow> u32 \<Rightarrow> octets \<Rightarrow> octets \<Rightarrow> 'n aecp_state \<Rightarrow> 'n aecp_state" where
  "avb_process_aecp_cmd_get_max_transit_time nv min_offset_us m src s =
     (let is_set = (aecp_command m = Some aecp_cmd_code_set_max_transit_time);
          index = unat (get16 26 m); who = aecp_controller m; a = acfg_node s;
          requested_ns = (if is_set then octets_to_uint (part 28 8 m) 8 else 0);
          status =
            (if get16 24 m \<noteq> aem_desc_type_stream_output \<or> index \<ge> length (output_streams (core a))
             then aecp_status_no_such_descriptor
             else if is_set \<and> streaming (output_stream a index) then aecp_status_stream_is_running
             else if is_set \<and> requested_ns > 0x7FFFFFFF then aecp_status_bad_arguments
             else if is_set \<and> entity_locked a \<and> locked_by a \<noteq> who then aecp_status_entity_locked
             else if is_set \<and> entity_acquired a \<and> acquired_by a \<noteq> who then aecp_status_entity_acquired
             else aecp_status_success);
          taken = (is_set \<and> status = aecp_status_success);
          changed = (taken \<and> presentation_time_offset_ns (output_stream a index) \<noteq> ucast requested_ns);
          s = (if taken
               then upd_cfg (\<lambda>c. snd (avb_persist_append_stream nv False index c))
                      (upd_node (upd_core (upd_output index
                         (\<lambda>t. t\<lparr> presentation_time_offset_ns := ucast requested_ns \<rparr>))) s)
               else s);
          current_ns = (if index < length (output_streams (core a))
                        then avb_output_presentation_offset_ns min_offset_us (core (acfg_node s)) index else 0);
          rsp = set_msg_len 36 (set_status status (set_aem_response (put 28 (int_to_octets (ucast current_ns) 8) m)));
          s = aecp_reply rsp 36 src s
      in if status = aecp_status_success \<and> changed then aecp_notify rsp 36 (Some (who, src)) s else s)"

section \<open>Names\<close>

definition AVB_MAX_NUM_INPUT_STREAMS :: nat where "AVB_MAX_NUM_INPUT_STREAMS = 2"
definition AVB_MAX_NUM_OUTPUT_STREAMS :: nat where "AVB_MAX_NUM_OUTPUT_STREAMS = 2"
definition AEM_CONTROL_TEST_TONE :: nat where "AEM_CONTROL_TEST_TONE = 3"

text \<open>The place of a name in \<open>descriptor_names\<close>.\<close>

definition avb_resolve_name_ptr :: "u16 \<Rightarrow> nat \<Rightarrow> u16 \<Rightarrow> nat option" where
  "avb_resolve_name_ptr desc_type desc_index name_index =
     (if desc_type = aem_desc_type_entity
      then (if name_index = 0 then Some 0 else if name_index = 1 then Some 1 else None)
      else if desc_type = aem_desc_type_avb_interface then (if name_index = 0 then Some 2 else None)
      else if desc_type = aem_desc_type_stream_input
      then (if desc_index < AVB_MAX_NUM_INPUT_STREAMS \<and> name_index = 0 then Some (6 + desc_index) else None)
      else if desc_type = aem_desc_type_stream_output
      then (if desc_index < AVB_MAX_NUM_OUTPUT_STREAMS \<and> name_index = 0 then Some (8 + desc_index) else None)
      else if desc_type = aem_desc_type_control
      then (if desc_index = AEM_CONTROL_TEST_TONE \<and> name_index = 0 then Some 10
            else if desc_index < AEM_CONTROL_TEST_TONE \<and> name_index = 0 then Some (3 + desc_index) else None)
      else None)"

definition avb_process_aecp_cmd_set_name :: "octets \<Rightarrow> octets \<Rightarrow> 'n aecp_state \<Rightarrow> 'n aecp_state" where
  "avb_process_aecp_cmd_set_name m src s =
     (let type = get16 24 m; name = part 32 64 m; len = avb_aecp_msg_len m in
      case avb_resolve_name_ptr type (unat (get16 26 m)) (get16 28 m) of
        None \<Rightarrow> aecp_reply (set_status aecp_status_not_implemented (set_aem_response m)) len src s
      | Some target \<Rightarrow>
          let changed = (descriptor_names (cfg s) ! target \<noteq> name);
              s = upd_cfg (\<lambda>c. avb_persist_request_save (c\<lparr> descriptor_names := (descriptor_names c)[target := name],
                    entity_name := (if target = 0 then name else entity_name c),
                    group_name := (if target = 1 then name else group_name c),
                    interface_name := (if target = 2 then name else interface_name c) \<rparr>)) s;
              rsp = set_status aecp_status_success (set_aem_response m);
              s = aecp_reply rsp len src s
          in if changed then aecp_notify rsp len (Some (aecp_controller m, src)) s else s)"

definition avb_process_aecp_cmd_get_name :: "octets \<Rightarrow> octets \<Rightarrow> 'n aecp_state \<Rightarrow> 'n aecp_state" where
  "avb_process_aecp_cmd_get_name m src s =
     (let (status, name) =
            (case avb_resolve_name_ptr (get16 24 m) (unat (get16 26 m)) (get16 28 m) of
               None \<Rightarrow> (aecp_status_not_implemented, zeros 64)
             | Some target \<Rightarrow> (aecp_status_success, descriptor_names (cfg s) ! target))
      in aecp_reply (set_msg_len 96 (set_status status (set_aem_response (put 32 name m)))) 96 src s)"

end
