(* ===== verification/Aecp_Dispatch.thy ===== *)
theory Aecp_Dispatch
  imports Aecp_Format
begin

text \<open>
  The dispatch of AECP messages and the packed commands of \<open>GET_DYNAMIC_INFO\<close> (\<open>atdecc.c\<close> 3053 to 3183
  and 4037 to 4290).  \<open>None\<close>: the message goes to a handler that is not modelled here.
\<close>

section \<open>Dispatch\<close>

definition avb_aem_command_changes_state :: "aecp_cmd_code_t option \<Rightarrow> bool" where
  "avb_aem_command_changes_state command \<longleftrightarrow> command \<in> Some `
     {aecp_cmd_code_set_stream_format, aecp_cmd_code_set_clock_source, aecp_cmd_code_set_sampling_rate,
      aecp_cmd_code_set_configuration, aecp_cmd_code_start_streaming, aecp_cmd_code_stop_streaming,
      aecp_cmd_code_add_audio_mappings, aecp_cmd_code_remove_audio_mappings,
      aecp_cmd_code_set_max_transit_time, aecp_cmd_code_set_name, aecp_cmd_code_set_control}"

text \<open>An AEM command other than \<open>GET_DYNAMIC_INFO\<close>.\<close>

definition aem_switch :: "'n nvs_ops \<Rightarrow> u32 \<Rightarrow> octets \<Rightarrow> octets \<Rightarrow> 'n aecp_state \<Rightarrow> 'n aecp_state option" where
  "aem_switch nv min_offset_us m src s =
     (let default = Some (avb_reflect_aem_command m src aecp_status_not_implemented s) in
      case aecp_command m of None \<Rightarrow> default
      | Some command \<Rightarrow>
         (case command of
            aecp_cmd_code_register_unsol_notif \<Rightarrow> Some (avb_process_aecp_cmd_register_unsol_notif m src s)
          | aecp_cmd_code_deregister_unsol_notif \<Rightarrow> Some (avb_process_aecp_cmd_deregister_unsol_notif m src s)
          | aecp_cmd_code_acquire_entity \<Rightarrow> Some (avb_process_aecp_cmd_acquire_entity m src s)
          | aecp_cmd_code_lock_entity \<Rightarrow> Some (avb_process_aecp_cmd_lock_entity m src s)
          | aecp_cmd_code_entity_available \<Rightarrow> Some (avb_process_aecp_cmd_entity_available m src s)
          | aecp_cmd_code_get_configuration \<Rightarrow> Some (avb_process_aecp_cmd_get_configuration m src s)
          | aecp_cmd_code_set_configuration \<Rightarrow> Some (avb_process_aecp_cmd_set_configuration m src s)
          | aecp_cmd_code_start_streaming \<Rightarrow> Some (avb_process_aecp_cmd_streaming nv m src s)
          | aecp_cmd_code_stop_streaming \<Rightarrow> Some (avb_process_aecp_cmd_streaming nv m src s)
          | aecp_cmd_code_get_audio_map \<Rightarrow> Some (avb_process_aecp_cmd_get_audio_map m src s)
          | aecp_cmd_code_add_audio_mappings \<Rightarrow> Some (avb_process_aecp_cmd_audio_mappings nv m src s)
          | aecp_cmd_code_remove_audio_mappings \<Rightarrow> Some (avb_process_aecp_cmd_audio_mappings nv m src s)
          | aecp_cmd_code_set_stream_format \<Rightarrow> Some (avb_process_aecp_cmd_set_stream_format nv m src s)
          | aecp_cmd_code_get_stream_format \<Rightarrow> Some (avb_process_aecp_cmd_get_stream_format m src s)
          | aecp_cmd_code_get_clock_source \<Rightarrow> Some (avb_process_aecp_cmd_get_clock_source m src s)
          | aecp_cmd_code_set_clock_source \<Rightarrow> Some (avb_process_aecp_cmd_set_clock_source m src s)
          | aecp_cmd_code_set_sampling_rate \<Rightarrow> Some (avb_process_aecp_cmd_sampling_rate nv m src s)
          | aecp_cmd_code_get_sampling_rate \<Rightarrow> Some (avb_process_aecp_cmd_sampling_rate nv m src s)
          | aecp_cmd_code_set_max_transit_time \<Rightarrow>
              Some (avb_process_aecp_cmd_get_max_transit_time nv min_offset_us m src s)
          | aecp_cmd_code_get_max_transit_time \<Rightarrow>
              Some (avb_process_aecp_cmd_get_max_transit_time nv min_offset_us m src s)
          | aecp_cmd_code_set_name \<Rightarrow> Some (avb_process_aecp_cmd_set_name m src s)
          | aecp_cmd_code_get_name \<Rightarrow> Some (avb_process_aecp_cmd_get_name m src s)
          | aecp_cmd_code_controller_available \<Rightarrow> default
          | _ \<Rightarrow> None))"

definition CVU_PROTOCOL_ID :: octets where "CVU_PROTOCOL_ID = [0x8C, 0x1F, 0x64, 0x36, 0xC0, 0x02]"

definition avb_process_aecp_with ::
  "(octets \<Rightarrow> octets \<Rightarrow> 'n aecp_state \<Rightarrow> 'n aecp_state option) \<Rightarrow>
   octets \<Rightarrow> octets \<Rightarrow> 'n aecp_state \<Rightarrow> 'n aecp_state option" where
  "avb_process_aecp_with aem m src s =
     (let type = aecp_msg_type m; cvu = (part 22 6 m = CVU_PROTOCOL_ID) in
      if type = 6 \<and> cvu then None
      else if type \<in> {0, 2, 6} \<and> aecp_target m \<noteq> own_entity_id (acfg_node s) then Some s
      else
        let who = aecp_controller m;
            s = (if type \<in> {0, 2, 6} then upd_unsol (avb_unsol_heard who src (aecp_now s)) s else s) in
        if type = 7 \<and> cvu then Some s
        else if type \<in> {2, 6} then None
        else if type = 0 then
          if avb_aem_command_changes_state (aecp_command m) \<and> avb_acquired_or_locked_by_other (acfg_node s) who
          then Some (avb_reflect_aem_command m src
                 (if entity_acquired (acfg_node s) then aecp_status_entity_acquired else aecp_status_entity_locked) s)
          else aem m src s
        else if aecp_command m = Some aecp_cmd_code_get_stream_info then None
        else if aecp_command m = Some aecp_cmd_code_controller_available
        then Some (upd_unsol (avb_unsol_controller_replied (aecp_target m) (aecp_seq m) (aecp_now s)) s)
        else Some s)"

section \<open>Packed commands\<close>

definition avb_dynamic_info_command :: "nat \<Rightarrow> bool" where
  "avb_dynamic_info_command type \<longleftrightarrow>
     type \<in> {0x07, 0x09, 0x0b, 0x0d, 0x0f, 0x11, 0x13, 0x15, 0x17, 0x1d, 0x29, 0x48, 0x4a}"

definition AECP_DYNAMIC_INFO_HEADER_LEN :: nat where "AECP_DYNAMIC_INFO_HEADER_LEN = 8"
definition AECP_MAX_CONTROL_DATA_LEN :: nat where "AECP_MAX_CONTROL_DATA_LEN = 524"

definition info_length :: "octets \<Rightarrow> nat" where "info_length xs = unat (xs ! 0) * 256 + unat (xs ! 1)"

definition info_type :: "octets \<Rightarrow> nat" where "info_type xs = (unat (xs ! 6) * 256 + unat (xs ! 7)) mod 32768"

text \<open>The elements of a command, when each is a GET of fixed size that fits.\<close>

function dynamic_elements :: "octets \<Rightarrow> (nat \<times> octets) list option" where
  "dynamic_elements xs =
     (if xs = [] then Some []
      else if AECP_DYNAMIC_INFO_HEADER_LEN > length xs then None
      else if \<not> avb_dynamic_info_command (info_type xs)
              \<or> AECP_DYNAMIC_INFO_HEADER_LEN + info_length xs > length xs then None
      else map_option (Cons (info_type xs, part AECP_DYNAMIC_INFO_HEADER_LEN (info_length xs) xs))
             (dynamic_elements (drop (AECP_DYNAMIC_INFO_HEADER_LEN + info_length xs) xs)))"
  by auto
termination by (relation "measure length") (auto simp: AECP_DYNAMIC_INFO_HEADER_LEN_def)

declare dynamic_elements.simps [simp del]

definition packed_command :: "octets \<Rightarrow> nat \<Rightarrow> octets \<Rightarrow> octets" where
  "packed_command m type data =
     set_msg_len (24 + length data)
       ((take 24 m)[1 := m ! 1 AND 0xF0, 22 := of_nat (type div 256) AND 0x3F, 23 := of_nat type] @ data
        @ zeros (AVB_MAX_MSG_LEN - 24 - length data))"

text \<open>What a handler sends is caught: the last message it sends, and nothing leaves.\<close>

definition captured ::
  "('n aecp_state \<Rightarrow> 'n aecp_state option) \<Rightarrow> 'n aecp_state \<Rightarrow> (octets option \<times> 'n aecp_state) option" where
  "captured f s =
     map_option (\<lambda>t. (if us_sent (unsol t) = [] then None else Some (snd (last (us_sent (unsol t)))),
                      upd_unsol (\<lambda>u. u\<lparr> us_sent := us_sent (unsol s) \<rparr>) t))
       (f (upd_unsol (\<lambda>u. u\<lparr> us_sent := [] \<rparr>) s))"

definition info_element :: "nat \<Rightarrow> octets \<Rightarrow> octets option \<Rightarrow> octets" where
  "info_element type data reply =
     (let (status, info) = (case reply of
            Some r \<Rightarrow> if length r \<ge> 24 then (drop_bit 3 (r ! 2), drop 24 r)
                      else (aecp_status_value aecp_status_not_supported, data)
          | None \<Rightarrow> (aecp_status_value aecp_status_not_supported, data));
          status = (if status = aecp_status_value aecp_status_not_implemented
                    then aecp_status_value aecp_status_not_supported else status)
      in put_be16 (length info) @ [0, 0, status, 0] @ put_be16 type @ info)"

definition dynamic_info_step ::
  "(octets \<Rightarrow> octets \<Rightarrow> 'n aecp_state \<Rightarrow> 'n aecp_state option) \<Rightarrow> octets \<Rightarrow> octets \<Rightarrow>
   nat \<times> octets \<Rightarrow> (octets \<times> 'n aecp_state) option \<Rightarrow> (octets \<times> 'n aecp_state) option" where
  "dynamic_info_step aecp m src = (\<lambda>(type, data) st. case st of None \<Rightarrow> None
     | Some (out, s) \<Rightarrow>
        (case captured (aecp (packed_command m type data) src) s of None \<Rightarrow> None
         | Some (reply, s) \<Rightarrow>
             let element = info_element type data reply in
             Some (if length out + length element > AVTP_CDL_PREAMBLE_LEN + AECP_MAX_CONTROL_DATA_LEN then out
                   else out @ element, s)))"

definition avb_process_aecp_cmd_get_dynamic_info ::
  "(octets \<Rightarrow> octets \<Rightarrow> 'n aecp_state \<Rightarrow> 'n aecp_state option) \<Rightarrow>
   octets \<Rightarrow> octets \<Rightarrow> 'n aecp_state \<Rightarrow> 'n aecp_state option" where
  "avb_process_aecp_cmd_get_dynamic_info aecp m src s =
     (let total = min (avb_aecp_msg_len m) AVB_MAX_MSG_LEN;
          finish = (\<lambda>status out s. aecp_reply (set_msg_len (length out) (set_status status (set_aem_response out)))
                                   (length out) src s)
      in case dynamic_elements (part 24 (total - 24) m) of
           None \<Rightarrow> Some (finish aecp_status_bad_arguments (take total m) s)
         | Some elements \<Rightarrow>
             map_option (\<lambda>(out, s). finish aecp_status_success out s)
               (fold (dynamic_info_step aecp m src) elements (Some (take 24 m, s))))"

section \<open>The whole\<close>

definition avb_process_aecp :: "'n nvs_ops \<Rightarrow> u32 \<Rightarrow> octets \<Rightarrow> octets \<Rightarrow> 'n aecp_state \<Rightarrow> 'n aecp_state option" where
  "avb_process_aecp nv min_offset_us =
     (let one = avb_process_aecp_with (aem_switch nv min_offset_us) in
      avb_process_aecp_with (\<lambda>m src s.
        if aecp_command m = Some aecp_cmd_code_get_dynamic_info
        then avb_process_aecp_cmd_get_dynamic_info one m src s
        else aem_switch nv min_offset_us m src s))"

end
