(* ===== verification/Aecp_Lock.thy ===== *)
theory Aecp_Lock
  imports Aecp_Dispatch
begin

text \<open>
  Who may change the entity: while a controller holds the lock no AECP message of another one changes
  the configuration, and the lock ends only by its holder or by its time.
\<close>

section \<open>What handlers leave alone\<close>

definition lock_fields :: "unsol_state \<Rightarrow> bool \<times> bool \<times> octets \<times> int" where
  "lock_fields u = (us_milan u, us_locked u, us_locked_by u, us_lock_expires_us u)"

lemma lock_fields_sent [simp]: "lock_fields (u\<lparr> us_sent := x \<rparr>) = lock_fields u"
  by (simp add: lock_fields_def)

lemma lock_fields_controller [simp]: "lock_fields (upd_controller i f u) = lock_fields u"
  by (simp add: lock_fields_def upd_controller_def)

lemma lock_fields_rearm [simp]: "lock_fields (avb_unsol_rearm i now u) = lock_fields u"
  by (simp add: avb_unsol_rearm_def Let_def) (simp add: lock_fields_def upd_controller_def)

lemma lock_fields_heard [simp]: "lock_fields (avb_unsol_heard e m now u) = lock_fields u"
  by (simp add: avb_unsol_heard_def split: option.split)

lemma lock_fields_replied [simp]: "lock_fields (avb_unsol_controller_replied e q now u) = lock_fields u"
  by (simp add: avb_unsol_controller_replied_def split: option.split)

lemma lock_fields_deregister [simp]: "lock_fields (avb_unsol_deregister e m u) = lock_fields u"
  by (simp add: avb_unsol_deregister_def avb_unsol_remove_def lock_fields_def split: option.split)

lemma lock_fields_register [simp]: "lock_fields (snd (avb_unsol_register e m l now u)) = lock_fields u"
  by (simp add: avb_unsol_register_def Let_def split: option.split) (simp add: lock_fields_def)

lemma lock_fields_send_to [simp]: "lock_fields (avb_unsol_send_to i rsp k u) = lock_fields u"
  by (simp add: avb_unsol_send_to_def Let_def)

lemma lock_fields_notify [simp]: "lock_fields (avb_unsol_notify rsp k r u) = lock_fields u"
  unfolding avb_unsol_notify_def by (rule foreach_frame) simp

text \<open>The configuration and the lock.\<close>

definition held :: "'n aecp_state \<Rightarrow> 'n config_state \<times> (bool \<times> bool \<times> octets \<times> int) \<times> bool \<times> bool" where
  "held s = (cfg s, lock_fields (unsol s), crf_stream_valid s, reply_ok s)"

lemma held_unsol: "(\<And>u. lock_fields (f u) = lock_fields u) \<Longrightarrow> held (upd_unsol f s) = held s"
  by (simp add: held_def upd_unsol_def)

lemma held_reply [simp]: "held (aecp_reply m len dst s) = held s"
  unfolding aecp_reply_def by (rule held_unsol) simp

lemma held_notify [simp]: "held (aecp_notify m len r s) = held s"
  unfolding aecp_notify_def by (rule held_unsol) simp

lemma held_reflect [simp]: "held (avb_reflect_aem_command m src status s) = held s"
  by (simp add: avb_reflect_aem_command_def)

lemma held_set: "lock_fields u = lock_fields (unsol s) \<Longrightarrow> held (s\<lparr> unsol := u \<rparr>) = held s"
  by (simp add: held_def)

lemma held_register [simp]: "held (avb_process_aecp_cmd_register_unsol_notif m src s) = held s"
  by (simp add: avb_process_aecp_cmd_register_unsol_notif_def Let_def split_def held_set)

lemma held_deregister [simp]: "held (avb_process_aecp_cmd_deregister_unsol_notif m src s) = held s"
  by (simp add: avb_process_aecp_cmd_deregister_unsol_notif_def held_unsol)

lemma held_acquire_milan:
  "us_milan (unsol s) \<Longrightarrow> held (avb_process_aecp_cmd_acquire_entity m src s) = held s"
  by (simp add: avb_process_aecp_cmd_acquire_entity_def Let_def)

lemma held_lock_other:
  "\<lbrakk>entity_locked (acfg_node s); locked_by (acfg_node s) \<noteq> aecp_controller m\<rbrakk> \<Longrightarrow>
     held (avb_process_aecp_cmd_lock_entity m src s) = held s"
  by (simp add: avb_process_aecp_cmd_lock_entity_def Let_def)

lemma held_get [simp]:
  "held (avb_process_aecp_cmd_entity_available m src s) = held s"
  "held (avb_process_aecp_cmd_get_configuration m src s) = held s"
  "held (avb_process_aecp_cmd_set_configuration m src s) = held s"
  "held (avb_process_aecp_cmd_get_audio_map m src s) = held s"
  "held (avb_process_aecp_cmd_get_stream_format m src s) = held s"
  "held (avb_process_aecp_cmd_get_clock_source m src s) = held s"
  "held (avb_process_aecp_cmd_get_name m src s) = held s"
  by (simp_all add: avb_process_aecp_cmd_entity_available_def avb_process_aecp_cmd_get_configuration_def
      avb_process_aecp_cmd_set_configuration_def avb_process_aecp_cmd_get_audio_map_def
      avb_process_aecp_cmd_get_stream_format_def avb_send_aecp_rsp_set_stream_format_def
      avb_process_aecp_cmd_get_clock_source_def avb_process_aecp_cmd_get_name_def Let_def split: option.split)

lemma held_get_rate:
  "aecp_command m = Some aecp_cmd_code_get_sampling_rate \<Longrightarrow>
     held (avb_process_aecp_cmd_sampling_rate nv m src s) = held s"
  by (simp add: avb_process_aecp_cmd_sampling_rate_def Let_def)

lemma held_get_transit:
  "aecp_command m = Some aecp_cmd_code_get_max_transit_time \<Longrightarrow>
     held (avb_process_aecp_cmd_get_max_transit_time nv mo m src s) = held s"
  by (simp add: avb_process_aecp_cmd_get_max_transit_time_def Let_def)

section \<open>Another controller\<close>

definition locked_by_other :: "octets \<Rightarrow> 'n aecp_state \<Rightarrow> bool" where
  "locked_by_other who s \<longleftrightarrow> us_milan (unsol s) \<and> entity_locked (acfg_node s) \<and> locked_by (acfg_node s) \<noteq> who"

lemma locked_by_other_held: "held t = held s \<Longrightarrow> locked_by_other who t = locked_by_other who s"
  by (simp add: locked_by_other_def held_def lock_fields_def)

lemma held_switch:
  assumes "locked_by_other (aecp_controller m) s" and "\<not> avb_aem_command_changes_state (aecp_command m)"
    and "aem_switch nv mo m src s = Some t"
  shows "held t = held s"
  using assms
  by (auto simp: aem_switch_def Let_def locked_by_other_def avb_aem_command_changes_state_def held_acquire_milan
      held_lock_other held_get_rate held_get_transit split: option.splits aecp_cmd_code_t.splits)

lemma held_with:
  assumes "locked_by_other (aecp_controller m) s" and "avb_process_aecp_with aem m src s = Some t"
    and "\<And>u. \<lbrakk>held u = held s; \<not> avb_aem_command_changes_state (aecp_command m); aem m src u = Some t\<rbrakk> \<Longrightarrow> held t = held u"
  shows "held t = held s"
proof -
  let ?h = "upd_unsol (avb_unsol_heard (aecp_controller m) src (aecp_now s)) s"
  have h: "held ?h = held s" by (rule held_unsol) simp
  have other: "avb_acquired_or_locked_by_other (acfg_node ?h) (aecp_controller m)"
    using assms(1) by (simp add: locked_by_other_def avb_acquired_or_locked_by_other_def upd_unsol_def)
  have r: "held (upd_unsol (avb_unsol_controller_replied a b c) s) = held s" for a b c by (rule held_unsol) simp
  show ?thesis
    using assms(2) other h r assms(3) [of ?h]
    by (auto simp: avb_process_aecp_with_def Let_def split: if_splits)
qed

section \<open>Packed commands\<close>

lemma part_update: "i < off \<or> off + n \<le> i \<Longrightarrow> part off n (xs[i := v]) = part off n xs"
  by (auto simp: part_def drop_update_swap list_eq_iff_nth_eq)

lemma part_set_msg_len: "4 \<le> off \<Longrightarrow> part off n (set_msg_len len xs) = part off n xs"
  by (simp add: set_msg_len_def Let_def part_update)

lemma part_take: "off + n \<le> k \<Longrightarrow> part off n (take k xs) = part off n xs"
  by (simp add: part_def drop_take)

lemma controller_packed:
  assumes "24 \<le> length m"
  shows "aecp_controller (packed_command m type data) = aecp_controller m"
proof -
  have a: "part 12 8 (xs @ ys) = part 12 8 xs" if "length xs = 24" for xs ys :: octets
    using that by (simp add: part_def)
  show ?thesis
    using assms unfolding aecp_controller_def packed_command_def
    by (simp add: part_set_msg_len a part_update part_take)
qed

lemma held_captured:
  assumes "captured f s = Some (r, t)" and "\<And>u v. \<lbrakk>held u = held s; f u = Some v\<rbrakk> \<Longrightarrow> held v = held u"
  shows "held t = held s"
proof -
  let ?u = "upd_unsol (\<lambda>u. u\<lparr> us_sent := [] \<rparr>) s"
  obtain v where v: "f ?u = Some v" "t = upd_unsol (\<lambda>u. u\<lparr> us_sent := us_sent (unsol s) \<rparr>) v"
    using assms(1) by (auto simp: captured_def)
  have u: "held ?u = held s" by (rule held_unsol) simp
  have "held v = held s" using assms(2) [OF u v(1)] u by simp
  moreover have "held t = held v" unfolding v(2) by (rule held_unsol) simp
  ultimately show ?thesis by simp
qed

lemma dynamic_info_None: "fold (dynamic_info_step aecp m src) es None = None"
  by (induction es) (auto simp: dynamic_info_step_def split: prod.split)

lemma dynamic_info_Cons:
  "fold (dynamic_info_step aecp m src) ((type, data) # es) (Some (out, s)) =
     (case captured (aecp (packed_command m type data) src) s of None \<Rightarrow> None
      | Some (reply, s') \<Rightarrow> fold (dynamic_info_step aecp m src) es
          (Some (if length out + length (info_element type data reply) > AVTP_CDL_PREAMBLE_LEN + AECP_MAX_CONTROL_DATA_LEN
                 then out else out @ info_element type data reply, s')))"
proof -
  have "dynamic_info_step aecp m src (type, data) (Some (out, s)) =
     (case captured (aecp (packed_command m type data) src) s of None \<Rightarrow> None
      | Some (reply, s') \<Rightarrow>
          Some (if length out + length (info_element type data reply) > AVTP_CDL_PREAMBLE_LEN + AECP_MAX_CONTROL_DATA_LEN
                 then out else out @ info_element type data reply, s'))"
    by (simp add: dynamic_info_step_def Let_def split: option.split)
  then show ?thesis
    by (cases "captured (aecp (packed_command m type data) src) s") (auto simp: dynamic_info_None)
qed

lemma held_dynamic:
  assumes "fold (dynamic_info_step aecp m src) es (Some (out, s)) = Some (out', t)"
    and "\<And>type data u v. \<lbrakk>held u = held s; aecp (packed_command m type data) src u = Some v\<rbrakk> \<Longrightarrow> held v = held u"
  shows "held t = held s"
  using assms
proof (induction es arbitrary: out s)
  case Nil
  from Nil.prems(1) show ?case by simp
next
  case (Cons e es)
  obtain type data where e: "e = (type, data)" by (cases e)
  from Cons.prems(1) obtain r u where u: "captured (aecp (packed_command m type data) src) s = Some (r, u)"
      "\<exists>o1. fold (dynamic_info_step aecp m src) es (Some (o1, u)) = Some (out', t)"
    unfolding e dynamic_info_Cons by (auto split: option.splits prod.splits)
  have h: "held u = held s" using held_captured [OF u(1)] Cons.prems(2) by blast
  have "held t = held u" using Cons.IH u(2) Cons.prems(2) h by metis
  from this h show ?case by (rule trans)
qed

lemma held_process:
  assumes "locked_by_other (aecp_controller m) s" and "24 \<le> length m" and "avb_process_aecp nv mo m src s = Some t"
  shows "held t = held s"
proof -
  let ?one = "avb_process_aecp_with (aem_switch nv mo)"
  have one: "held v = held u" if "locked_by_other (aecp_controller k) u" "?one k src u = Some v" for k u v
    using held_with [OF that] held_switch locked_by_other_held that(1) by metis
  have dyn: "held v = held u"
    if u: "held u = held s" and d: "avb_process_aecp_cmd_get_dynamic_info ?one m src u = Some v" for u v
  proof (cases "dynamic_elements (part 24 (min (avb_aecp_msg_len m) AVB_MAX_MSG_LEN - 24) m)")
    case None
    then show ?thesis using d by (auto simp: avb_process_aecp_cmd_get_dynamic_info_def Let_def)
  next
    case (Some es)
    then obtain out w where w: "fold (dynamic_info_step ?one m src) es (Some (take 24 m, u)) = Some (out, w)"
        "held v = held w"
      using d by (auto simp: avb_process_aecp_cmd_get_dynamic_info_def Let_def)
    have "held w = held u"
    proof (rule held_dynamic [OF w(1)])
      fix type data a b assume "held a = held u" "?one (packed_command m type data) src a = Some b"
      note a = this
      have "held a = held s" using a(1) u by (rule trans)
      then have "locked_by_other (aecp_controller (packed_command m type data)) a"
        unfolding controller_packed [OF assms(2)] using locked_by_other_held assms(1) by blast
      then show "held b = held a" using one a(2) by blast
    qed
    then show ?thesis unfolding w(2) .
  qed
  show ?thesis
  proof (rule held_with [OF assms(1) assms(3) [unfolded avb_process_aecp_def Let_def]])
    fix u assume h: "held u = held s" and c: "\<not> avb_aem_command_changes_state (aecp_command m)"
      and d: "(if aecp_command m = Some aecp_cmd_code_get_dynamic_info
        then avb_process_aecp_cmd_get_dynamic_info ?one m src u else aem_switch nv mo m src u) = Some t"
    have "locked_by_other (aecp_controller m) u" using locked_by_other_held [OF h] assms(1) by blast
    then show "held t = held u" using dyn [OF h] held_switch [OF _ c] d by (metis (mono_tags))
  qed
qed


section \<open>An example\<close>

definition aem_message :: "nat \<Rightarrow> octets \<Rightarrow> u8 \<Rightarrow> octets \<Rightarrow> octets" where
  "aem_message len who command payload =
     [0xFB, 0, 0, of_nat (len - 12)] @ replicate 8 7 @ who @ [0, 1] @ [0, command] @ payload
     @ zeros (AVB_MAX_MSG_LEN - 24 - length payload)"

definition entity_state :: "bool \<Rightarrow> bool \<Rightarrow> 'n config_state \<Rightarrow> 'n aecp_state" where
  "entity_state milan lock c = set_lock lock (replicate 8 9)
     \<lparr> cfg = c, unsol = unsol_empty\<lparr> us_milan := milan \<rparr>, crf_stream_valid = False, reply_ok = True \<rparr>"

lemma aem_message_fields:
  assumes "length who = 8"
  shows "aecp_msg_type (aem_message len who c p) = 0" "aecp_target (aem_message len who c p) = replicate 8 7"
    "aecp_controller (aem_message len who c p) = who" "aecp_command (aem_message len who c p) = map_of aecp_cmd_codes c"
  using assms
  by (simp_all add: aem_message_def aecp_msg_type_def aecp_target_def aecp_controller_def aecp_command_def part_def
      nth_append numeral_eq_Suc)


end
