(* ===== verification/Aecp_Answer.thy ===== *)
theory Aecp_Answer
  imports Aecp_Lock
begin

text \<open>
  Every AEM command is answered: one response to its sender with its own sequence number, and beside it
  only notifications.  And what an acquisition does to the one before it.
\<close>

named_theorems answering \<open>responses and notifications of the AECP handlers\<close>

section \<open>Responses\<close>

definition shaped :: "octets \<Rightarrow> octets \<Rightarrow> bool" where
  "shaped m x \<longleftrightarrow> 24 \<le> length x \<and> part 4 20 x = part 4 20 m"

definition response_to :: "octets \<Rightarrow> octets \<Rightarrow> bool" where
  "response_to m x \<longleftrightarrow> shaped m x \<and> aecp_msg_type x = 1"

lemma shaped_self [answering]: "24 \<le> length m \<Longrightarrow> shaped m m"
  by (simp add: shaped_def)

lemma shaped_take [answering]: "\<lbrakk>shaped m x; 24 \<le> n\<rbrakk> \<Longrightarrow> shaped m (take n x)"
  by (simp add: shaped_def part_take)

lemma part_prefix: "off + n \<le> length xs \<Longrightarrow> part off n (xs @ ys) = part off n xs"
  by (simp add: part_def)

lemma shaped_append [answering]: "shaped m x \<Longrightarrow> shaped m (x @ y)"
  by (simp add: shaped_def part_prefix)

lemma shaped_put [answering]: "\<lbrakk>shaped m x; 24 \<le> off\<rbrakk> \<Longrightarrow> shaped m (put off bs x)"
  unfolding put_def by (intro shaped_append shaped_take)

lemma shaped_header [answering]:
  "shaped m x \<Longrightarrow> shaped m (set_aem_response x)" "shaped m x \<Longrightarrow> shaped m (set_status st x)"
  "shaped m x \<Longrightarrow> shaped m (set_msg_len n x)"
  by (simp_all add: shaped_def set_aem_response_def set_status_def set_msg_len_def Let_def part_update)

lemma response_set [answering]: "shaped m x \<Longrightarrow> response_to m (set_aem_response x)"
proof -
  assume s: "shaped m x"
  have "(w AND 0xF0 OR 1) AND 0x0F = (1 :: u8)" for w
    by (simp add: bit.conj_disj_distrib2 and.assoc)
  then show ?thesis using s shaped_header(1) [OF s]
    by (simp add: response_to_def aecp_msg_type_def set_aem_response_def shaped_def)
qed

lemma response_header [answering]:
  "response_to m x \<Longrightarrow> response_to m (set_status st x)" "response_to m x \<Longrightarrow> response_to m (set_msg_len n x)"
  "\<lbrakk>response_to m x; 24 \<le> off\<rbrakk> \<Longrightarrow> response_to m (put off bs x)" "response_to m x \<Longrightarrow> response_to m (x @ y)"
  using shaped_header(2,3) shaped_put shaped_append
  by (auto simp: response_to_def aecp_msg_type_def set_status_def set_msg_len_def Let_def put_def shaped_def nth_append)

section \<open>What is sent\<close>

abbreviation sent :: "'n aecp_state \<Rightarrow> unsol_frame list" where "sent s \<equiv> us_sent (unsol s)"

text \<open>A notification to a registered controller, with its sequence number and the unsolicited bit.\<close>

definition is_note :: "unsol_frame \<Rightarrow> bool" where
  "is_note f \<longleftrightarrow> (\<exists>rsp c. f = notified_frame rsp avb_unsol_kind_aem c)"

definition noted :: "'n aecp_state \<Rightarrow> 'n aecp_state \<Rightarrow> bool" where
  "noted s t \<longleftrightarrow> (\<exists>ns. sent t = sent s @ ns \<and> (\<forall>f \<in> set ns. is_note f))"

definition aem_answered :: "octets \<Rightarrow> octets \<Rightarrow> 'n aecp_state \<Rightarrow> 'n aecp_state \<Rightarrow> bool" where
  "aem_answered m src s t \<longleftrightarrow> (\<exists>before r after. sent t = sent s @ before @ (src, r) # after
     \<and> (\<forall>f \<in> set (before @ after). is_note f) \<and> response_to m r)"

lemma noted_refl [answering]: "noted s s"
  by (simp add: noted_def)

lemma noted_trans: "\<lbrakk>noted s t; noted t u\<rbrakk> \<Longrightarrow> noted s u"
  by (force simp: noted_def)

lemma noted_same: "sent t = sent s \<Longrightarrow> noted s u = noted t u" "sent t = sent s \<Longrightarrow> noted u s = noted u t"
  by (simp_all add: noted_def)

lemma answered_then: "\<lbrakk>aem_answered m src s t; noted t u\<rbrakk> \<Longrightarrow> aem_answered m src s u"
  unfolding aem_answered_def noted_def by (elim exE conjE) (rule exI, rule exI, rule exI, auto)

lemma sent_frame [answering]:
  "sent (upd_cfg g s) = sent s" "sent (upd_node h s) = sent s" "sent (set_lock l b s) = sent s"
  "sent (set_stream_format_of o' i f s) = sent s"
  by (simp_all add: upd_cfg_def upd_node_def set_lock_def upd_unsol_def set_stream_format_of_def)

lemma sent_unsol: "us_sent (f (unsol s)) = sent s \<Longrightarrow> sent (upd_unsol f s) = sent s"
  by (simp add: upd_unsol_def)

lemma answered_reply [answering]:
  assumes "noted s t" and "response_to m x" and "24 \<le> n"
  shows "aem_answered m src s (aecp_reply x n src t)"
proof -
  have "response_to m (take n x)"
    using assms(2,3) shaped_take by (auto simp: response_to_def aecp_msg_type_def)
  moreover obtain ns where "sent t = sent s @ ns" "\<forall>f \<in> set ns. is_note f" using assms(1) by (auto simp: noted_def)
  ultimately show ?thesis
    unfolding aem_answered_def
    by (intro exI [of _ ns] exI [of _ "take n x"] exI [of _ "[]"]) (simp add: aecp_reply_def upd_unsol_def)
qed

lemma noted_notify [answering]: "noted s t \<Longrightarrow> noted s (aecp_notify m len r t)"
proof (erule noted_trans)
  show "noted t (aecp_notify m len r t)"
  proof (cases "length (take len m) \<le> UNSOL_MAX_FRAME")
    case True
    then show ?thesis using notify_each_once [OF True]
      by (auto simp: noted_def aecp_notify_def upd_unsol_def is_note_def)
  next
    case False
    then have "us_sent (avb_unsol_notify (take len m) k q u) = us_sent u" for k q u
      unfolding avb_unsol_notify_def by (intro foreach_frame) (auto simp: sent_send_to min_def split: if_splits)
    then show ?thesis by (simp add: noted_def aecp_notify_def upd_unsol_def)
  qed
qed

lemma answered_more [answering]:
  "aem_answered m src s t \<Longrightarrow> aem_answered m src s (aecp_notify x len r t)"
  "aem_answered m src s t \<Longrightarrow> aem_answered m src s (upd_cfg g t)" "aem_answered m src s t \<Longrightarrow> aem_answered m src s (upd_node h t)"
  using answered_then noted_notify [OF noted_refl] noted_refl sent_frame noted_same by metis+

lemma noted_more [answering]:
  "noted s t \<Longrightarrow> noted s (upd_cfg g t)" "noted s t \<Longrightarrow> noted s (upd_node h t)"
  "noted s t \<Longrightarrow> noted s (set_lock l b t)" "noted s t \<Longrightarrow> noted s (set_stream_format_of o' i f t)"
  by (simp_all add: noted_def answering)

lemma sent_register [answering]: "us_sent (snd (avb_unsol_register e a l now u)) = us_sent u"
  by (simp add: avb_unsol_register_def avb_unsol_rearm_def upd_controller_def Let_def split: option.split)

lemma sent_heard: "us_sent (avb_unsol_heard e a now u) = us_sent u"
  by (simp add: avb_unsol_heard_def avb_unsol_rearm_def upd_controller_def Let_def split: option.split)

lemma sent_deregister: "us_sent (avb_unsol_deregister e a u) = us_sent u"
  by (simp add: avb_unsol_deregister_def avb_unsol_remove_def split: option.split)

lemma noted_unsol: "\<lbrakk>noted s t; us_sent (f (unsol t)) = sent t\<rbrakk> \<Longrightarrow> noted s (upd_unsol f t)"
  by (simp add: noted_def upd_unsol_def)

lemma answered_unsol: "\<lbrakk>aem_answered m src s t; us_sent (f (unsol t)) = sent t\<rbrakk> \<Longrightarrow> aem_answered m src s (upd_unsol f t)"
  by (rule answered_then, assumption) (rule noted_unsol [OF noted_refl])

section \<open>The handlers\<close>

lemma answered_registration:
  assumes "24 \<le> length m"
  shows "aem_answered m src s (avb_process_aecp_cmd_register_unsol_notif m src s)"
    and "aem_answered m src s (avb_process_aecp_cmd_deregister_unsol_notif m src s)"
proof -
  have "noted s (s\<lparr> unsol := snd (avb_unsol_register e a l now (unsol s)) \<rparr>)" for e a l now
    by (simp add: noted_def answering)
  then show "aem_answered m src s (avb_process_aecp_cmd_register_unsol_notif m src s)"
    using assms by (simp add: avb_process_aecp_cmd_register_unsol_notif_def Let_def split_def answering)
  show "aem_answered m src s (avb_process_aecp_cmd_deregister_unsol_notif m src s)"
    unfolding avb_process_aecp_cmd_deregister_unsol_notif_def using assms
    by (intro answered_unsol) (simp_all add: answering sent_deregister)
qed

lemma answered_acquire:
  assumes "24 \<le> length m"
  shows "aem_answered m src s (avb_process_aecp_cmd_acquire_entity m src s)"
  using assms unfolding avb_process_aecp_cmd_acquire_entity_def Let_def
  by (simp add: answering answered_unsol)

lemma answered_lock:
  assumes "24 \<le> length m"
  shows "aem_answered m src s (avb_process_aecp_cmd_lock_entity m src s)"
  using assms unfolding avb_process_aecp_cmd_lock_entity_def Let_def
  by (simp add: answering noted_unsol)

lemma answered_simple:
  assumes "24 \<le> length m"
  shows "aem_answered m src s (avb_process_aecp_cmd_entity_available m src s)"
    "aem_answered m src s (avb_process_aecp_cmd_get_configuration m src s)"
    "aem_answered m src s (avb_process_aecp_cmd_set_configuration m src s)"
    "aem_answered m src s (avb_process_aecp_cmd_get_audio_map m src s)"
    "aem_answered m src s (avb_process_aecp_cmd_get_clock_source m src s)"
    "aem_answered m src s (avb_process_aecp_cmd_get_name m src s)"
    "aem_answered m src s (avb_process_aecp_cmd_streaming nv m src s)"
    "aem_answered m src s (avb_process_aecp_cmd_audio_mappings nv m src s)"
    "aem_answered m src s (avb_process_aecp_cmd_set_clock_source m src s)"
    "aem_answered m src s (avb_process_aecp_cmd_get_max_transit_time nv mo m src s)"
  using assms
  by (simp_all add: answering Let_def split_def avb_process_aecp_cmd_entity_available_def
      avb_process_aecp_cmd_get_configuration_def avb_process_aecp_cmd_set_configuration_def
      avb_process_aecp_cmd_get_audio_map_def avb_process_aecp_cmd_get_clock_source_def
      avb_process_aecp_cmd_get_name_def avb_process_aecp_cmd_streaming_def avb_process_aecp_cmd_audio_mappings_def
      avb_process_aecp_cmd_set_clock_source_def avb_process_aecp_cmd_get_max_transit_time_def)

lemma answered_reflect [answering]:
  "\<lbrakk>noted s t; 24 \<le> length m; 24 \<le> avb_aecp_msg_len m\<rbrakk> \<Longrightarrow> aem_answered m src s (avb_reflect_aem_command m src st t)"
  by (simp add: avb_reflect_aem_command_def answering)

lemma sent_set_format: "set_format_step nv o' i f s = (st, ch, t) \<Longrightarrow> sent t = sent s"
  by (auto simp: set_format_step_def take_stream_format_def Let_def answering split: if_splits prod.splits)

lemma sent_set_rate: "set_rate_step nv r s = (st, t) \<Longrightarrow> sent t = sent s"
proof -
  have "sent (foreach n (\<lambda>i s. upd_node (g i) (set_stream_format_of o' i (h i) s)) u) = sent u"
    "sent (foreach n (\<lambda>i s. set_stream_format_of o' i (h i) s) u) = sent u"
    for n g o' h and u :: "'a aecp_state"
    by (rule foreach_frame, simp add: answering)+
  then show "set_rate_step nv r s = (st, t) \<Longrightarrow> sent t = sent s"
    by (auto simp: set_rate_step_def Let_def answering split: if_splits prod.splits)
qed

lemma noted_foreach: "(\<And>i u. noted s u \<Longrightarrow> noted s (f i u)) \<Longrightarrow> noted s t \<Longrightarrow> noted s (foreach n f t)"
  by (rule foreach_invariant) auto

lemma answered_format:
  assumes "24 \<le> length m" and "24 \<le> avb_aecp_msg_len m"
  shows "aem_answered m src s (avb_process_aecp_cmd_get_stream_format m src s)"
    and "aem_answered m src s (avb_process_aecp_cmd_set_stream_format nv m src s)"
    and "aem_answered m src s (avb_process_aecp_cmd_sampling_rate nv m src s)"
    and "aem_answered m src s (avb_process_aecp_cmd_set_name m src s)"
proof -
  show "aem_answered m src s (avb_process_aecp_cmd_get_stream_format m src s)"
    using assms by (simp add: avb_process_aecp_cmd_get_stream_format_def avb_send_aecp_rsp_set_stream_format_def
        Let_def answering)
  have n: "noted s t" if "set_format_step nv o' i f s = (st, ch, t)" for o' i f st ch t
    using sent_set_format [OF that] by (simp add: noted_def)
  show "aem_answered m src s (avb_process_aecp_cmd_set_stream_format nv m src s)"
    using assms n by (auto simp: avb_process_aecp_cmd_set_stream_format_def avb_send_aecp_rsp_set_stream_format_def
        Let_def answering split: prod.split)
  have r: "noted s (snd (set_rate_step nv q s))" for q
    using sent_set_rate [of nv q s] by (cases "set_rate_step nv q s") (simp add: noted_def)
  have told: "aem_answered m src s (foreach k (\<lambda>i s. upd_cfg (g i) (avb_unsol_notify_stream_format x o' i s)) t)"
    if "aem_answered m src s t" for k g x o' t
    using that by (rule answered_then)
      (rule noted_foreach, simp_all add: answering avb_unsol_notify_stream_format_def)
  show "aem_answered m src s (avb_process_aecp_cmd_sampling_rate nv m src s)"
    using assms unfolding avb_process_aecp_cmd_sampling_rate_def Let_def split_def
    by (simp add: r answering told)
  show "aem_answered m src s (avb_process_aecp_cmd_set_name m src s)"
    using assms by (simp add: avb_process_aecp_cmd_set_name_def Let_def answering split: option.split)
qed

lemma answered_switch:
  assumes "24 \<le> length m" and "24 \<le> avb_aecp_msg_len m" and "aem_switch nv mo m src s = Some t"
  shows "aem_answered m src s t"
  using assms answered_registration [OF assms(1)] answered_acquire [OF assms(1)] answered_lock [OF assms(1)]
    answered_simple [OF assms(1)] answered_format [OF assms(1,2)]
  by (auto simp: aem_switch_def Let_def answering split: option.splits aecp_cmd_code_t.splits)

section \<open>Packed commands and the dispatch\<close>

lemma sent_captured: "captured f s = Some (r, t) \<Longrightarrow> sent t = sent s"
  by (auto simp: captured_def upd_unsol_def)

lemma sent_dynamic:
  "fold (dynamic_info_step aecp m src) es (Some (out, s)) = Some (out', t) \<Longrightarrow>
     sent t = sent s \<and> (\<exists>more. out' = out @ more)"
proof (induction es arbitrary: out s)
  case (Cons e es)
  obtain type data where e: "e = (type, data)" by (cases e)
  from Cons.prems show ?case
    unfolding e dynamic_info_Cons
    using Cons.IH sent_captured by (fastforce split: option.splits prod.splits if_splits)
qed simp

lemma answered_dynamic:
  assumes "24 \<le> length m" and "24 \<le> avb_aecp_msg_len m" and "avb_process_aecp_cmd_get_dynamic_info aecp m src s = Some t"
  shows "aem_answered m src s t"
proof (cases "dynamic_elements (part 24 (min (avb_aecp_msg_len m) AVB_MAX_MSG_LEN - 24) m)")
  case None
  have l: "24 \<le> length (take (min (avb_aecp_msg_len m) AVB_MAX_MSG_LEN) m)"
    using assms(1,2) by (simp add: AVB_MAX_MSG_LEN_def)
  then have "shaped m (take (min (avb_aecp_msg_len m) AVB_MAX_MSG_LEN) m)"
    using assms(1) by (intro shaped_take shaped_self) simp_all
  with None l show ?thesis using assms(3)
    by (auto simp: avb_process_aecp_cmd_get_dynamic_info_def Let_def answering)
next
  case (Some es)
  then obtain out w where w: "fold (dynamic_info_step aecp m src) es (Some (take 24 m, s)) = Some (out, w)"
      "t = aecp_reply (set_msg_len (length out) (set_status aecp_status_success (set_aem_response out))) (length out) src w"
    using assms(3) by (auto simp: avb_process_aecp_cmd_get_dynamic_info_def Let_def)
  from sent_dynamic [OF w(1)] obtain more where o: "sent w = sent s" "out = take 24 m @ more" by blast
  have "noted s w" using o(1) by (simp add: noted_def)
  moreover have "shaped m out" unfolding o(2) by (intro shaped_append shaped_take shaped_self assms(1)) simp
  moreover have "24 \<le> length out" using o(2) assms(1) by simp
  ultimately show ?thesis unfolding w(2) by (simp add: answering)
qed

text \<open>C20. Every AEM command addressed to the entity whose handler is modelled is answered: to its sender
  goes exactly one response, with the command's own target, controller, sequence number and command
  type; whatever else is sent is a notification to a registered controller.\<close>

theorem aecp_answered:
  assumes "24 \<le> length m" and "24 \<le> avb_aecp_msg_len m" and "aecp_msg_type m = 0"
    and "aecp_target m = own_entity_id (acfg_node s)" and "avb_process_aecp nv min_offset_us m src s = Some t"
  shows "\<exists>before r after. us_sent (unsol t) = us_sent (unsol s) @ before @ (src, r) # after
    \<and> (\<forall>f \<in> set (before @ after). is_note f)
    \<and> aecp_msg_type r = 1 \<and> part 4 20 r = part 4 20 m"
proof -
  let ?h = "upd_unsol (avb_unsol_heard (aecp_controller m) src (aecp_now s)) s"
  let ?one = "avb_process_aecp_with (aem_switch nv min_offset_us)"
  have h: "noted s ?h" by (rule noted_unsol [OF noted_refl]) (rule sent_heard)
  have "aem_answered m src ?h t"
  proof (cases "avb_aem_command_changes_state (aecp_command m)
      \<and> avb_acquired_or_locked_by_other (acfg_node ?h) (aecp_controller m)")
    case True
    then have "\<exists>st. t = avb_reflect_aem_command m src st ?h"
      using assms(3-5) by (auto simp: avb_process_aecp_def avb_process_aecp_with_def Let_def)
    then show ?thesis using assms(1,2) by (auto simp: answering)
  next
    case False
    then have "(if aecp_command m = Some aecp_cmd_code_get_dynamic_info
        then avb_process_aecp_cmd_get_dynamic_info ?one m src ?h else aem_switch nv min_offset_us m src ?h) = Some t"
      using assms(3-5) by (auto simp: avb_process_aecp_def avb_process_aecp_with_def Let_def)
    then show ?thesis
      using answered_dynamic [OF assms(1,2)] answered_switch [OF assms(1,2)] by (auto split: if_splits)
  qed
  moreover have "sent ?h = sent s" by (simp add: sent_heard upd_unsol_def)
  ultimately show ?thesis by (auto simp: aem_answered_def response_to_def shaped_def)
qed


theorem aecp_answered_witness:
  "\<exists>t before r after. avb_process_aecp (list_store 32) 0 (aem_message 24 (replicate 8 5) 0x07 []) (zeros 6)
         (entity_state True False (config_at bound_node saved_store)) = Some t
     \<and> us_sent (unsol t) = before @ (zeros 6, r) # after \<and> part 12 8 r = replicate 8 5"
proof -
  let ?m = "aem_message 24 (replicate 8 5) 0x07 []"
  let ?s = "entity_state True False (config_at bound_node saved_store)"
  note f = aem_message_fields [of "replicate 8 5" 24 "0x07" "[]"]
  have own: "own_entity_id (acfg_node ?s) = replicate 8 7"
    by (simp add: entity_state_def set_lock_def upd_node_def upd_cfg_def upd_unsol_def config_at_def bound_node_def
        upd_core_def example_listener_def atdecc_zero_def)
  have empty: "us_sent (unsol ?s) = []"
    by (simp add: entity_state_def set_lock_def upd_node_def upd_cfg_def upd_unsol_def unsol_empty_def)
  obtain t where t: "avb_process_aecp (list_store 32) 0 ?m (zeros 6) ?s = Some t"
    using f own
    by (auto simp: avb_process_aecp_def avb_process_aecp_with_def aem_switch_def Let_def aecp_cmd_codes_def
        avb_aem_command_changes_state_def)
  have l: "24 \<le> length ?m" "24 \<le> avb_aecp_msg_len ?m"
    by (simp_all add: aem_message_def avb_aecp_msg_len_def AVTP_CDL_PREAMBLE_LEN_def)
  obtain before r after where r: "us_sent (unsol t) = before @ (zeros 6, r) # after" "part 4 20 r = part 4 20 ?m"
    using aecp_answered [OF l f(1) _ t] f(2) own empty by auto
  have "part 12 8 x = part 8 8 (part 4 20 x)" for x :: octets
    by (simp add: part_def drop_take min_def)
  then have "part 12 8 r = aecp_controller ?m" using r(2) by (simp add: aecp_controller_def)
  then show ?thesis using t r(1) f(3) by auto
qed

end
