(* ===== verification/Aecp_Effect.thy ===== *)
theory Aecp_Effect
  imports Aecp_Answer Acmp_Rows
begin

text \<open>
  What the AECP commands do: a new sample rate takes every stream with it, mappings are taken all or
  none, and an acquisition is taken over without a word to the one who had it.
\<close>

section \<open>Acquisition\<close>

text \<open>C39. Where the entity does not run as Milan, a controller that acquires it takes it from the one that
  holds it: the answer is a success, and the former holder is not told.\<close>

theorem acquisition_stolen:
  assumes "\<not> us_milan (unsol s)" and "reply_ok s" and "entity_acquired (acfg_node s)"
    and "acquired_by (acfg_node s) \<noteq> aecp_controller m" and "\<not> bit (m ! 24) 7" and "m ! 2 AND 0xF8 = 0"
    and "40 \<le> length m" and "aecp_msg_type m = 0" and "aecp_target m = own_entity_id (acfg_node s)"
    and "aecp_command m = Some aecp_cmd_code_acquire_entity"
  shows "\<exists>t r. avb_process_aecp nv min_offset_us m src s = Some t
    \<and> entity_acquired (acfg_node t) \<and> acquired_by (acfg_node t) = aecp_controller m
    \<and> us_sent (unsol t) = us_sent (unsol s) @ [(src, r)] \<and> r ! 2 AND 0xF8 = 0"
proof -
  let ?h = "upd_unsol (avb_unsol_heard (aecp_controller m) src (aecp_now s)) s"
  let ?t = "avb_process_aecp_cmd_acquire_entity m src ?h"
  have "avb_process_aecp nv min_offset_us m src s = Some ?t"
    using assms(8-10) by (simp add: avb_process_aecp_def avb_process_aecp_with_def Let_def aem_switch_def
        avb_aem_command_changes_state_def)
  moreover have "\<not> us_milan (unsol ?h)"
    using lock_fields_heard [of "aecp_controller m" src "aecp_now s" "unsol s"] assms(1)
    by (simp add: upd_unsol_def lock_fields_def)
  then have "entity_acquired (acfg_node ?t)" "acquired_by (acfg_node ?t) = aecp_controller m"
    "us_sent (unsol ?t) = us_sent (unsol s) @ [(src, take 40 (put 28 (aecp_controller m) (set_aem_response m)))]"
    using assms(2,3,5)
    by (simp_all add: avb_process_aecp_cmd_acquire_entity_def Let_def aecp_reply_def upd_unsol_def upd_node_def
        upd_cfg_def sent_heard sent_register)
  moreover have "take 40 (put 28 (aecp_controller m) (set_aem_response m)) ! 2 = m ! 2"
    using assms(7) by (simp add: put_def set_aem_response_def nth_append)
  ultimately show ?thesis using assms(6) by metis
qed

theorem acquisition_stolen_witness:
  "\<exists>t. avb_process_aecp (list_store 32) 0 (aem_message 40 (replicate 8 5) 0 (zeros 16)) (zeros 6)
         (entity_state False False (config_at (bound_node\<lparr> entity_acquired := True, acquired_by := replicate 8 4 \<rparr>) saved_store))
       = Some t \<and> acquired_by (acfg_node t) = replicate 8 5"
proof -
  let ?n = "bound_node\<lparr> entity_acquired := True, acquired_by := replicate 8 4 \<rparr>"
  let ?s = "entity_state False False (config_at ?n saved_store)" and ?m = "aem_message 40 (replicate 8 5) 0 (zeros 16)"
  have n: "acfg_node ?s = ?n\<lparr> entity_locked := False, locked_by := replicate 8 9 \<rparr>" "\<not> us_milan (unsol ?s)" "reply_ok ?s"
    by (simp_all add: entity_state_def set_lock_def upd_node_def upd_cfg_def upd_unsol_def config_at_def)
  have own: "own_entity_id ?n = replicate 8 7"
    by (simp add: bound_node_def upd_core_def example_listener_def atdecc_zero_def)
  have m: "\<not> bit (?m ! 24) 7" "?m ! 2 AND 0xF8 = 0" "40 \<le> length ?m"
    by (simp_all add: aem_message_def nth_append)
  show ?thesis
    using acquisition_stolen [of ?s ?m "list_store 32" 0 "zeros 6"] n own m
      aem_message_fields [of "replicate 8 5" 40 0 "zeros 16"]
    by (auto simp: aecp_cmd_codes_def)
qed

section \<open>Sample rate\<close>

lemma save_frame [simp]:
  "node (snd (avb_persist_save_rate nv c)) = node c" "audio (snd (avb_persist_save_rate nv c)) = audio c"
  by (simp_all add: avb_persist_save_rate_def avb_persist_write_rate_def put_value_def pending_since_def Let_def
      avb_persist_sample_ingress_def split: prod.split)

lemma journal_put_frame:
  "node (snd (journal_put nv p i v c)) = node c" "audio (snd (journal_put nv p i v c)) = audio c"
  by (simp_all add: journal_put_def Let_def split: prod.split)

lemma append_frame [simp]:
  "node (snd (avb_persist_append_stream nv p i c)) = node c" "audio (snd (avb_persist_append_stream nv p i c)) = audio c"
proof -
  have r: "node (snd (avb_persist_append_stream_record nv p i v c)) = node c
      \<and> audio (snd (avb_persist_append_stream_record nv p i v c)) = audio c" for c :: "'a config_state" and v
    using journal_put_frame [of nv p i v] compact_frame [of nv]
    by (auto simp: avb_persist_append_stream_record_def Let_def split_def)
  show "node (snd (avb_persist_append_stream nv p i c)) = node c"
    "audio (snd (avb_persist_append_stream nv p i c)) = audio c"
    using r by (simp_all add: avb_persist_append_stream_def avb_persist_write_journal_def pending_since_def
        avb_persist_sample_ingress_def Let_def)
qed

lemma renew_try_inputs: "renew_try index steps s = (r, t) \<Longrightarrow> input_streams t = input_streams s"
proof (induction steps arbitrary: s)
  case (Cons step steps)
  have m: "input_streams (renew_move i g u) = input_streams u" for i g u
    by (simp add: renew_move_def Let_def upd_output_def view_fields)
  obtain ok u where f: "mrp_talker_forget 0 (stream_id_set_generation (ts_stream_id (output_streams s ! index))
      ((stream_id_gen (output_streams s ! index) + step) mod AVB_STREAM_ID_GENERATIONS)) s = (ok, u)"
    by (rule prod.exhaust)
  have u: "input_streams u = input_streams s" using forget_view [OF f] by (simp add: stream_view_def)
  show ?case using Cons f u m by (auto simp: Let_def split: if_splits bool.splits)
qed simp

lemma declare_now_inputs: "input_streams (avb_output_stream_declare_now i ex s) = input_streams s"
proof -
  have "input_streams (snd (avb_output_stream_renew_id i ex s)) = input_streams s"
    using renew_try_inputs [of i "[1..<AVB_STREAM_ID_GENERATIONS]" s]
    by (cases "renew_try i [1..<AVB_STREAM_ID_GENERATIONS] s") (simp add: avb_output_stream_renew_id_def Let_def)
  then show ?thesis
    by (simp add: avb_output_stream_declare_now_def avb_declare_output_stream_def Let_def view_fields)
qed

text \<open>What a stream's format is at a rate: the media clock format, or the format itself or one of its family.\<close>

definition follows_rate :: "'n aecp_state \<Rightarrow> bool \<Rightarrow> nat \<Rightarrow> u32 \<Rightarrow> octets \<Rightarrow> octets \<Rightarrow> bool" where
  "follows_rate s is_output i rate old new \<longleftrightarrow>
     (if is_crf_stream (acfg_node s) is_output i then new = avb_crf_format_for_rate rate
      else avb_stream_format_rate_hz new = rate \<and> (new = old \<or> avb_stream_formats_same_family old new))"

lemma format_at_rate_follows:
  "avb_stream_format_at_rate au (acfg_node s) is_output i old rate = Some new \<Longrightarrow> follows_rate s is_output i rate old new"
  using listed_at_rate_Some [of "supported_formats au is_output" rate old new]
  by (auto simp: avb_stream_format_at_rate_def follows_rate_def split: if_splits)

lemma formats_at_rate_Some:
  assumes "formats_at_rate is_output rate s = Some fs" and "stream_exists is_output i s"
  shows "follows_rate s is_output i rate (stream_format_of is_output i s) (fs ! i)"
  using assms
  by (auto simp: formats_at_rate_def stream_exists_def Let_def split: if_splits intro: format_at_rate_follows)

lemma upd_node_view [simp]:
  "acfg_node (upd_node f s) = f (acfg_node s)" "audio (cfg (upd_node f s)) = audio (cfg s)"
  by (simp_all add: upd_node_def upd_cfg_def)

lemma set_format_view:
  "length (input_streams (core (acfg_node (set_stream_format_of o' i f s)))) = length (input_streams (core (acfg_node s)))"
  "length (output_streams (core (acfg_node (set_stream_format_of o' i f s)))) = length (output_streams (core (acfg_node s)))"
  "audio (cfg (set_stream_format_of o' i f s)) = audio (cfg s)"
  "stream_exists o' i s \<Longrightarrow> stream_format_of o' i (set_stream_format_of o' i f s) = f"
  "i \<noteq> j \<Longrightarrow> stream_format_of o' j (set_stream_format_of o' i f s) = stream_format_of o' j s"
  "input_streams (core (acfg_node (set_stream_format_of True i f s))) = input_streams (core (acfg_node s))"
  "output_streams (core (acfg_node (set_stream_format_of False i f s))) = output_streams (core (acfg_node s))"
  by (auto simp: set_stream_format_of_def upd_core_def upd_output_def upd_input_def stream_format_of_def stream_exists_def)

definition redeclare :: "nat \<Rightarrow> 'n aecp_state \<Rightarrow> 'n aecp_state" where
  "redeclare i = upd_node (upd_core (avb_output_stream_declare_now i None))"

lemma redeclare_view:
  "input_streams (core (acfg_node (redeclare i s))) = input_streams (core (acfg_node s))"
  "length (output_streams (core (acfg_node (redeclare i s)))) = length (output_streams (core (acfg_node s)))"
  "stream_exists True j s \<Longrightarrow> stream_format_of True j (redeclare i s) = stream_format_of True j s"
  "audio (cfg (redeclare i s)) = audio (cfg s)"
  using declare_now_kept [of "core (acfg_node s)" i None]
  by (auto simp: redeclare_def upd_core_def declare_now_inputs streams_kept_def stream_kept_def
      stream_format_of_def stream_exists_def)

lemma inputs_set:
  assumes "stream_exists False i s"
  shows "stream_format_of False i (foreach (length (input_streams (core (acfg_node s))))
    (\<lambda>j. set_stream_format_of False j (fs ! j)) s) = fs ! i"
proof (rule foreach_at [where h = "\<lambda>_. fs ! i"])
  show "i < length (input_streams (core (acfg_node s)))" using assms by (simp add: stream_exists_def)
  show "length (input_streams (core (acfg_node s))) = length (input_streams (core (acfg_node s)))" ..
  show "length (input_streams (core (acfg_node (set_stream_format_of False j (fs ! j) y))))
      = length (input_streams (core (acfg_node y)))" for j y by (rule set_format_view)
  show "j \<noteq> i \<Longrightarrow> stream_format_of False i (set_stream_format_of False j (fs ! j) y) = stream_format_of False i y" for j y
    by (rule set_format_view(5))
  show "stream_format_of False i (set_stream_format_of False i (fs ! i) y) = fs ! i"
    if "length (input_streams (core (acfg_node y))) = length (input_streams (core (acfg_node s)))" for y
    using assms that by (intro set_format_view(4)) (simp add: stream_exists_def)
qed

lemma outputs_set:
  assumes "stream_exists True i s"
  shows "stream_format_of True i (foreach (length (output_streams (core (acfg_node s))))
    (\<lambda>j s. redeclare j (set_stream_format_of True j (fs ! j) s)) s) = fs ! i"
proof -
  let ?n = "length (output_streams (core (acfg_node s)))"
  let ?f = "\<lambda>j s. redeclare j (set_stream_format_of True j (fs ! j) s)"
  have i: "i < ?n" using assms by (simp add: stream_exists_def)
  have len: "length (output_streams (core (acfg_node (foreach m ?f s)))) = ?n" for m
    by (rule foreach_frame) (simp add: redeclare_view set_format_view)
  have "i < m \<longrightarrow> stream_format_of True i (foreach m ?f s) = fs ! i" for m
  proof (induction m)
    case (Suc m)
    let ?u = "foreach m ?f s"
    have e: "stream_exists True i (set_stream_format_of True m (fs ! m) ?u)" "stream_exists True i ?u"
      using i len by (simp_all add: stream_exists_def set_format_view)
    show ?case
      using Suc e by (cases "m = i") (auto simp: foreach_Suc redeclare_view set_format_view)
  qed simp
  with i show ?thesis by simp
qed

lemma loops_frame:
  "input_streams (core (acfg_node (foreach n (\<lambda>j s. redeclare j (set_stream_format_of True j (fs ! j) s)) s)))
     = input_streams (core (acfg_node s))"
  "audio (cfg (foreach n (\<lambda>j s. redeclare j (set_stream_format_of True j (fs ! j) s)) s)) = audio (cfg s)"
  "output_streams (core (acfg_node (foreach n (\<lambda>j. set_stream_format_of False j (fs ! j)) s)))
     = output_streams (core (acfg_node s))"
  "audio (cfg (foreach n (\<lambda>j. set_stream_format_of False j (fs ! j)) s)) = audio (cfg s)"
  by (rule foreach_frame, simp add: redeclare_view set_format_view)+

lemma set_rate_step_success:
  assumes "set_rate_step nv rate s = (aecp_status_success, t)"
  shows "default_sample_rate (audio (cfg t)) = rate" and "rate \<in> set (supported_sample_rates (audio (cfg s)))"
    and "\<not> any_output_streaming s" and "\<not> any_input_connected s"
    and "stream_exists o' i s \<Longrightarrow> follows_rate s o' i rate (stream_format_of o' i s) (stream_format_of o' i t)"
proof -
  obtain au fi fo where a: "rate \<in> set (supported_sample_rates (audio (cfg s)))" "\<not> any_output_streaming s"
      "\<not> any_input_connected s" "formats_at_rate False rate s = Some fi" "formats_at_rate True rate s = Some fo"
      "avb_audio_set_rate rate (audio (cfg s)) = (True, au)"
    and t: "t = (let s = upd_cfg (\<lambda>c. snd (avb_persist_save_rate nv (c\<lparr> audio := au \<rparr>))) s;
                     s = foreach (length (input_streams (core (acfg_node s)))) (\<lambda>i. set_stream_format_of False i (fi ! i)) s
                 in foreach (length (output_streams (core (acfg_node s))))
                       (\<lambda>i s. redeclare i (set_stream_format_of True i (fo ! i) s)) s)"
    using assms by (auto simp: set_rate_step_def Let_def redeclare_def split: if_splits prod.splits)
  define s1 where "s1 = upd_cfg (\<lambda>c. snd (avb_persist_save_rate nv (c\<lparr> audio := au \<rparr>))) s"
  define s2 where "s2 = foreach (length (input_streams (core (acfg_node s1)))) (\<lambda>i. set_stream_format_of False i (fi ! i)) s1"
  have t2: "t = foreach (length (output_streams (core (acfg_node s2)))) (\<lambda>i s. redeclare i (set_stream_format_of True i (fo ! i) s)) s2"
    unfolding t Let_def s1_def s2_def ..
  have s1: "acfg_node s1 = acfg_node s" "audio (cfg s1) = au" by (simp_all add: s1_def upd_cfg_def)
  have au: "default_sample_rate au = rate"
    using a(6) by (auto simp: avb_audio_set_rate_def split: if_splits)
  show "rate \<in> set (supported_sample_rates (audio (cfg s)))" "\<not> any_output_streaming s" "\<not> any_input_connected s"
    by (rule a)+
  show "default_sample_rate (audio (cfg t)) = rate" by (simp add: t2 loops_frame) (simp add: s2_def loops_frame s1 au)
  show "follows_rate s o' i rate (stream_format_of o' i s) (stream_format_of o' i t)" if e: "stream_exists o' i s"
  proof (cases o')
    case True
    have "stream_exists True i s2" using e True by (simp add: s2_def stream_exists_def loops_frame s1)
    then have "stream_format_of True i t = fo ! i" unfolding t2 by (rule outputs_set)
    then show ?thesis using formats_at_rate_Some [OF a(5)] e True by simp
  next
    case False
    have "stream_exists False i s1" using e False by (simp add: stream_exists_def s1)
    then have "stream_format_of False i s2 = fi ! i" unfolding s2_def by (rule inputs_set)
    then have "stream_format_of False i t = fi ! i" by (simp add: t2 loops_frame stream_format_of_def)
    then show ?thesis using formats_at_rate_Some [OF a(4)] e False by simp
  qed
qed

lemma set_rate_step_failure:
  "set_rate_step nv rate s = (st, t) \<Longrightarrow> st \<noteq> aecp_status_success \<Longrightarrow> t = s"
  by (auto simp: set_rate_step_def Let_def split: if_splits prod.splits)

definition same_streams :: "'n aecp_state \<Rightarrow> 'n aecp_state \<Rightarrow> bool" where
  "same_streams s t \<longleftrightarrow> acfg_node t = acfg_node s \<and> audio (cfg t) = audio (cfg s)"

lemma same_streams_more:
  "same_streams s s" "same_streams s t \<Longrightarrow> same_streams s (aecp_reply x n d t)"
  "same_streams s t \<Longrightarrow> same_streams s (aecp_notify x n r t)"
  "same_streams s t \<Longrightarrow> same_streams s (upd_cfg (\<lambda>c. snd (avb_persist_append_stream nv p i c)) t)"
  "same_streams s t \<Longrightarrow> same_streams s (avb_unsol_notify_stream_format y o' i t)"
  by (simp_all add: same_streams_def aecp_reply_def aecp_notify_def upd_unsol_def upd_cfg_def
      avb_unsol_notify_stream_format_def)

lemma same_streams_foreach:
  "(\<And>i u. same_streams s u \<Longrightarrow> same_streams s (f i u)) \<Longrightarrow> same_streams s t \<Longrightarrow> same_streams s (foreach n f t)"
  by (rule foreach_invariant) auto

lemma sampling_rate_same:
  assumes "aecp_command m = Some aecp_cmd_code_set_sampling_rate" and "get16 24 m = aem_desc_type_audio_unit"
    and "get16 26 m = 0" and "ucast (octets_to_uint (part 28 4 m) 4) \<noteq> default_sample_rate (audio (cfg s))"
    and "set_rate_step nv (ucast (octets_to_uint (part 28 4 m) 4)) s = (aecp_status_success, u)"
  shows "same_streams u (avb_process_aecp_cmd_sampling_rate nv m src s)"
proof -
  have k: "same_streams u (upd_cfg (\<lambda>c. snd (avb_persist_append_stream nv (\<not> o') i c))
      (avb_unsol_notify_stream_format x o' i v))" if "same_streams u v" for o' i x v
    using that by (intro same_streams_more)
  show ?thesis
    unfolding avb_process_aecp_cmd_sampling_rate_def Let_def
    using assms by (simp add: same_streams_foreach k same_streams_more)
qed

text \<open>C21. A sample rate is taken by the whole entity or not at all: \<open>SET_SAMPLING_RATE\<close> either leaves the
  configuration as it is, or no stream was running and afterwards the rate is the requested one, which
  is supported, and every stream has its own format or one of its family at that rate, the media
  clock streams the clock format.\<close>

theorem rate_taken_by_all:
  assumes "aecp_command m = Some aecp_cmd_code_set_sampling_rate"
  shows "let rate = ucast (octets_to_uint (part 28 4 m) 4); t = avb_process_aecp_cmd_sampling_rate nv m src s in
    cfg t = cfg s
    \<or> default_sample_rate (audio (cfg t)) = rate \<and> rate \<in> set (supported_sample_rates (audio (cfg s)))
      \<and> \<not> any_output_streaming s \<and> \<not> any_input_connected s
      \<and> (\<forall>is_output i. stream_exists is_output i s \<longrightarrow>
           follows_rate s is_output i rate (stream_format_of is_output i s) (stream_format_of is_output i t))"
proof -
  let ?rate = "ucast (octets_to_uint (part 28 4 m) 4) :: u32"
  let ?t = "avb_process_aecp_cmd_sampling_rate nv m src s"
  let ?set = "?rate \<noteq> default_sample_rate (audio (cfg s)) \<and> get16 24 m = aem_desc_type_audio_unit \<and> get16 26 m = 0"
  obtain st u where su: "set_rate_step nv ?rate s = (st, u)" by (cases "set_rate_step nv ?rate s")
  show ?thesis
  proof (cases "?set \<and> st = aecp_status_success")
    case True
    then have "same_streams u ?t" using assms su by (intro sampling_rate_same) simp_all
    then have "audio (cfg ?t) = audio (cfg u)" "\<And>o' i. stream_format_of o' i ?t = stream_format_of o' i u"
      by (simp_all add: same_streams_def stream_format_of_def)
    then show ?thesis using set_rate_step_success [of nv ?rate s u] su True by (simp add: Let_def)
  next
    case False
    then have "cfg ?t = cfg s"
      unfolding avb_process_aecp_cmd_sampling_rate_def Let_def
      using assms su set_rate_step_failure [OF su]
      by (cases "?rate \<noteq> default_sample_rate (audio (cfg s))") (auto simp: aecp_reply_def upd_unsol_def)
    then show ?thesis by (simp add: Let_def)
  qed
qed

lemma foreach_few:
  "foreach 2 f x = f 1 (f 0 x)" "foreach 4 f x = f 3 (f 2 (f 1 (f 0 x)))"
  by (simp_all add: numeral_eq_Suc foreach_Suc)

lemma uint_parts:
  "octets_to_uint [0, 0] 2 = 0" "octets_to_uint [0, 1] 2 = 1" "octets_to_uint [0, 2] 2 = 2"
  "octets_to_uint [0, 5] 2 = 5" "octets_to_uint [0, 14] 2 = 14" "octets_to_uint [0, 1, 119, 0] 4 = 96000"
  by (simp_all add: octets_to_uint_def foreach_few)

definition retuned_node :: atdecc_state where
  "retuned_node = upd_core (upd_input 0 (\<lambda>t. t\<lparr> ls_stream_format := AVB_DEFAULT_FORMAT_AM824 2 8 \<rparr>)) example_listener"

lemma retuned_streams:
  "input_streams (core retuned_node) = [listener_stream_zero\<lparr> ls_stream_format := AVB_DEFAULT_FORMAT_AM824 2 8 \<rparr>, listener_stream_zero]"
  "output_streams (core retuned_node) = []" "config_listener retuned_node"
  by (simp_all add: retuned_node_def upd_core_def upd_input_def example_listener_def atdecc_zero_def upd_at_def
      state_zero_def)

theorem rate_taken_by_all_witness:
  "let t = avb_process_aecp_cmd_sampling_rate (list_store 32)
             (aem_message 32 (replicate 8 5) 0x14 [0, 2, 0, 0, 0, 1, 0x77, 0]) (zeros 6)
             (entity_state True False (config_at retuned_node saved_store))
   in default_sample_rate (audio (cfg t)) = 96000 \<and> avb_stream_format_rate_hz (stream_format_of False 0 t) = 96000"
proof -
  let ?m = "aem_message 32 (replicate 8 5) 0x14 [0, 2, 0, 0, 0, 1, 0x77, 0]"
  let ?s = "entity_state True False (config_at retuned_node saved_store)"
  let ?t = "avb_process_aecp_cmd_sampling_rate (list_store 32) ?m (zeros 6) ?s"
  have c: "aecp_command ?m = Some aecp_cmd_code_set_sampling_rate"
    using aem_message_fields by (simp add: aecp_cmd_codes_def)
  have m: "get16 24 ?m = aem_desc_type_audio_unit" "get16 26 ?m = 0"
    "(ucast (octets_to_uint (part 28 4 ?m) 4) :: u32) = 96000"
    by (simp_all add: get16_def octets_u16_def part_def aem_message_def aem_desc_type_audio_unit_def uint_parts)
  have a: "audio (cfg ?s) = example_audio"
    "input_streams (core (acfg_node ?s)) = input_streams (core retuned_node)"
    "output_streams (core (acfg_node ?s)) = []" "config_listener (acfg_node ?s)"
    by (simp_all add: entity_state_def set_lock_def upd_node_def upd_cfg_def upd_unsol_def config_at_def retuned_streams)
  have f: "formats_at_rate False 96000 ?s \<noteq> None" "formats_at_rate True 96000 ?s \<noteq> None"
    by (simp_all add: formats_at_rate_def a retuned_streams Let_def less_Suc_eq avb_stream_format_at_rate_def
        is_crf_stream_def avb_get_crf_input_index_def stream_format_of_def supported_formats_def example_audio_def
        listed_at_rate_def avb_stream_format_rate_hz_def fmt_subtype_def subtype_61883_def am824_fdf_sfc_def
        cip_sfc_to_sample_rate_def am824_dbs_def avb_stream_formats_same_family_def AVB_DEFAULT_FORMAT_AM824_def)
  obtain u where u: "set_rate_step (list_store 32) 96000 ?s = (aecp_status_success, u)"
    using f a by (simp add: set_rate_step_def Let_def example_audio_def any_output_streaming_def any_input_connected_def
        retuned_streams listener_stream_zero_def avb_audio_set_rate_def)
  have "same_streams u ?t" using c m u a by (intro sampling_rate_same) (simp_all add: example_audio_def)
  then have "default_sample_rate (audio (cfg ?t)) = 96000"
    using set_rate_step_success(1) [OF u] by (simp add: same_streams_def)
  moreover have "stream_exists False 0 ?s" "\<not> is_crf_stream (acfg_node ?s) False 0"
    using a retuned_streams by (simp_all add: stream_exists_def is_crf_stream_def avb_get_crf_input_index_def)
  ultimately show ?thesis
    using rate_taken_by_all [OF c, of "list_store 32" "zeros 6" ?s] m a
    unfolding Let_def follows_rate_def by (auto simp: example_audio_def)
qed

section \<open>Mappings\<close>

lemma channels_bounded: "avb_stream_format_channels f \<le> 1023"
proof -
  have u: "unat w < 256" for w :: u8 using unsigned_less [of w] by simp
  then have "unat (f ! 3) < 256" "unat (f ! 4) < 256" by blast+
  moreover have "unat (drop_bit 6 (f ! 5)) \<le> 3"
    using u [of "f ! 5"] by (simp add: unat_drop_bit_eq) (simp add: drop_bit_eq_div)
  ultimately show ?thesis
    by (simp add: avb_stream_format_channels_def am824_dbs_def aaf_channels_def)
qed

text \<open>What the mappings of a command name, as channels and sources.\<close>

definition named_mappings :: "octets list \<Rightarrow> (nat \<times> u16) list" where
  "named_mappings maps = map (\<lambda>x. (unat (get16 6 x), get16 2 x)) maps"

definition mappings_fit :: "bool \<Rightarrow> 'n aecp_state \<Rightarrow> octets list \<Rightarrow> bool" where
  "mappings_fit add s maps \<longleftrightarrow> (\<forall>x \<in> set maps. avb_input_mapping_valid x s)
     \<and> (if add then \<forall>(ch, a) \<in> set (named_mappings maps). \<forall>(ch', b) \<in> set (named_mappings maps). ch = ch' \<longrightarrow> a = b
        else \<forall>(ch, a) \<in> set (named_mappings maps). input_map (cfg s) ! ch = a)"

lemma valid_mapping:
  assumes "avb_input_mapping_valid x s"
  shows "unat (get16 6 x) < 2" and "get16 2 x \<noteq> AVB_INPUT_MAP_UNMAPPED"
proof -
  show "unat (get16 6 x) < 2"
    using assms by (simp add: avb_input_mapping_valid_def Let_def AVB_INPUT_CLUSTER_CHANNELS_def split: if_splits)
  have "unat (get16 2 x) < 1024"
    using assms channels_bounded [of "ls_stream_format (input_stream (acfg_node s) 0)"]
    by (simp add: avb_input_mapping_valid_def Let_def split: if_splits)
  then show "get16 2 x \<noteq> AVB_INPUT_MAP_UNMAPPED" by (auto simp: AVB_INPUT_MAP_UNMAPPED_def)
qed

text \<open>The walk over the mappings in terms of what they name.\<close>

definition walked :: "bool \<Rightarrow> 'n aecp_state \<Rightarrow> octets list \<Rightarrow> mapping_walk \<Rightarrow> bool" where
  "walked add s maps w \<longleftrightarrow> length (mw_next w) = 2 \<and> length (mw_named w) = 2
     \<and> (mw_status w = aecp_status_success \<longleftrightarrow> mappings_fit add s maps)
     \<and> (mappings_fit add s maps \<longrightarrow>
         (\<forall>(ch, a) \<in> set (named_mappings maps). mw_next w ! ch = (if add then a else AVB_INPUT_MAP_UNMAPPED)
            \<and> (add \<longrightarrow> mw_named w ! ch = a))
         \<and> (\<forall>ch < 2. ch \<notin> fst ` set (named_mappings maps) \<longrightarrow>
              mw_next w ! ch = input_map (cfg s) ! ch \<and> mw_named w ! ch = AVB_INPUT_MAP_UNMAPPED))"

lemma single_insert:
  "(\<forall>p \<in> insert q S. \<forall>p' \<in> insert q S. fst p = fst p' \<longrightarrow> snd p = snd p')
    \<longleftrightarrow> (\<forall>p \<in> S. \<forall>p' \<in> S. fst p = fst p' \<longrightarrow> snd p = snd p') \<and> (\<forall>p \<in> S. fst p = fst q \<longrightarrow> snd p = snd q)"
  by (auto dest: sym)

lemma named_snoc: "set (named_mappings (maps @ [x])) = insert (unat (get16 6 x), get16 2 x) (set (named_mappings maps))"
  by (simp add: named_mappings_def)

lemma fit_snoc:
  "mappings_fit add s (maps @ [x]) \<longleftrightarrow> mappings_fit add s maps \<and> avb_input_mapping_valid x s
     \<and> (if add then \<forall>(ch, a) \<in> set (named_mappings maps). ch = unat (get16 6 x) \<longrightarrow> a = get16 2 x
        else input_map (cfg s) ! unat (get16 6 x) = get16 2 x)"
  unfolding mappings_fit_def named_snoc split_def using single_insert [of "(unat (get16 6 x), get16 2 x)" "set (named_mappings maps)"]
  by (cases add) auto

lemma walked_step:
  assumes "walked add s maps w"
  shows "walked add s (maps @ [x]) (mapping_step add s x w)"
proof -
  let ?ch = "unat (get16 6 x)" and ?a = "get16 2 x"
  let ?N = "named_mappings maps"
  have n: "named_mappings (maps @ [x]) = ?N @ [(?ch, ?a)]" by (simp add: named_mappings_def)
  note w = assms [unfolded walked_def]
  show ?thesis
  proof (cases "mappings_fit add s maps \<and> avb_input_mapping_valid x s")
    case False
    then have "\<not> mappings_fit add s (maps @ [x])" "mw_status (mapping_step add s x w) \<noteq> aecp_status_success"
      using w by (auto simp: fit_snoc mapping_step_def)
    moreover have "length (mw_next (mapping_step add s x w)) = 2" "length (mw_named (mapping_step add s x w)) = 2"
      using w by (auto simp: mapping_step_def Let_def)
    ultimately show ?thesis by (simp add: walked_def)
  next
    case True
    note v = valid_mapping [OF True [THEN conjunct2]]
    have st: "mw_status w = aecp_status_success" using w True by blast
    have fresh: "mw_named w ! ?ch = AVB_INPUT_MAP_UNMAPPED \<longleftrightarrow> ?ch \<notin> fst ` set ?N" if add
    proof
      show "?ch \<notin> fst ` set ?N \<Longrightarrow> mw_named w ! ?ch = AVB_INPUT_MAP_UNMAPPED" using w True v by blast
      show "mw_named w ! ?ch = AVB_INPUT_MAP_UNMAPPED \<Longrightarrow> ?ch \<notin> fst ` set ?N"
      proof
        assume u: "mw_named w ! ?ch = AVB_INPUT_MAP_UNMAPPED" and "?ch \<in> fst ` set ?N"
        then obtain a where a: "(?ch, a) \<in> set ?N" by auto
        then obtain y where "y \<in> set maps" "a = get16 2 y" by (auto simp: named_mappings_def)
        then have "a \<noteq> AVB_INPUT_MAP_UNMAPPED" using True valid_mapping(2) [of y s] by (auto simp: mappings_fit_def)
        moreover have "mw_named w ! ?ch = a" using w True that a by auto
        ultimately show False using u by simp
      qed
    qed
    let ?w = "mapping_step add s x w"
    have len: "length (mw_next w) = 2" "length (mw_named w) = 2" using w by simp_all
    have old: "mw_next w ! c = (if add then b else AVB_INPUT_MAP_UNMAPPED)" "add \<Longrightarrow> mw_named w ! c = b"
      if "(c, b) \<in> set ?N" for c b using w True that by auto
    have rest: "mw_next w ! c = input_map (cfg s) ! c" "mw_named w ! c = AVB_INPUT_MAP_UNMAPPED"
      if "c < 2" "c \<notin> fst ` set ?N" for c using w True that by auto
    show ?thesis
    proof (cases add)
      case add: True
      have "(\<forall>(c, b) \<in> set ?N. c = ?ch \<longrightarrow> b = ?a)
          \<longleftrightarrow> mw_named w ! ?ch = AVB_INPUT_MAP_UNMAPPED \<or> mw_named w ! ?ch = ?a"
        using fresh [OF add] old(2) add by force
      then have fit: "mappings_fit add s (maps @ [x])
          \<longleftrightarrow> mw_named w ! ?ch = AVB_INPUT_MAP_UNMAPPED \<or> mw_named w ! ?ch = ?a"
        using True add by (simp add: fit_snoc)
      show ?thesis
      proof (cases "mw_named w ! ?ch = AVB_INPUT_MAP_UNMAPPED \<or> mw_named w ! ?ch = ?a")
        case ok: True
        have agree: "b = ?a" if "(?ch, b) \<in> set ?N" for b using fit ok that by (auto simp: fit_snoc add)
        have "mw_status ?w = aecp_status_success" "mw_next ?w = (mw_next w)[?ch := ?a]" "mw_named ?w = (mw_named w)[?ch := ?a]"
          using ok add True st by (auto simp: mapping_step_def Let_def)
        then show ?thesis
          using fit ok len add v old rest agree
          by (auto simp: walked_def n nth_list_update image_Un split: if_splits)
      next
        case no: False
        then have "mw_status ?w = aecp_status_bad_arguments" "mw_next ?w = mw_next w" "mw_named ?w = mw_named w"
          using add True st by (auto simp: mapping_step_def Let_def)
        then show ?thesis using fit no len by (simp add: walked_def)
      qed
    next
      case remove: False
      have fit: "mappings_fit add s (maps @ [x]) \<longleftrightarrow> input_map (cfg s) ! ?ch = ?a"
        using True remove by (simp add: fit_snoc)
      show ?thesis
      proof (cases "input_map (cfg s) ! ?ch = ?a")
        case ok: True
        have "mw_status ?w = aecp_status_success" "mw_next ?w = (mw_next w)[?ch := AVB_INPUT_MAP_UNMAPPED]"
          "mw_named ?w = mw_named w"
          using ok remove True st by (auto simp: mapping_step_def Let_def)
        then show ?thesis
          using fit ok len remove v old rest
          by (auto simp: walked_def n nth_list_update image_Un split: if_splits)
      next
        case no: False
        then have "mw_status ?w = aecp_status_bad_arguments" "mw_next ?w = mw_next w" "mw_named ?w = mw_named w"
          using remove True st by (auto simp: mapping_step_def Let_def)
        then show ?thesis using fit no len by (simp add: walked_def)
      qed
    qed
  qed
qed

lemma walked_all:
  assumes "length (input_map (cfg s)) = 2"
  shows "walked add s maps (mapping_walk_all add s aecp_status_success maps)"
proof (induction maps rule: rev_induct)
  case Nil
  then show ?case using assms
    by (simp add: walked_def mapping_walk_all_def mappings_fit_def named_mappings_def AVB_INPUT_CLUSTER_CHANNELS_def)
next
  case (snoc x maps)
  then show ?case using walked_step by (simp add: mapping_walk_all_def)
qed

lemma save_input_map_frame: "input_map (snd (avb_persist_save_input_map nv c)) = input_map c"
  by (simp add: avb_persist_save_input_map_def avb_persist_write_input_map_def put_value_def pending_since_def
      avb_persist_sample_ingress_def Let_def split: prod.split)

text \<open>The input map after the handler: the walk's, if every mapping was taken.\<close>

lemma input_map_set:
  "input_map (cfg (avb_process_aecp_cmd_audio_mappings nv m src s)) =
     (let count = unat (get16 28 m); status = avb_audio_map_port_status (get16 24 m) (get16 26 m) s;
          status = (if status = aecp_status_success \<and> (count > AVB_AEM_MAX_MSG_MAPPINGS \<or> count > carried_mappings m)
                    then aecp_status_bad_arguments else status);
          w = mapping_walk_all (aecp_command m = Some aecp_cmd_code_add_audio_mappings) s status
                (if status = aecp_status_success then map (\<lambda>i. part (32 + 8 * i) 8 m) [0..<count] else [])
      in if mw_status w = aecp_status_success \<and> mw_next w \<noteq> take AVB_INPUT_CLUSTER_CHANNELS (input_map (cfg s))
         then mw_next w else input_map (cfg s))"
  by (simp add: avb_process_aecp_cmd_audio_mappings_def Let_def save_input_map_frame upd_cfg_def aecp_reply_def
      aecp_notify_def upd_unsol_def del: mapping_walk.simps)

text \<open>C22. Audio mappings are taken all or none: with a port that maps, mappings that the message carries
  and each of which is valid, an addition that names no channel twice with different sources gives each
  channel it names its source, a removal whose mappings are all present takes them away, and the other
  channels stay; otherwise the map stays as it is.\<close>

theorem mappings_all_or_none:
  assumes "length (input_map (cfg s)) = 2"
  shows "let add = (aecp_command m = Some aecp_cmd_code_add_audio_mappings); count = unat (get16 28 m);
             maps = map (\<lambda>i. part (32 + 8 * i) 8 m) [0..<count]; old = input_map (cfg s);
             new = input_map (cfg (avb_process_aecp_cmd_audio_mappings nv m src s))
         in if avb_audio_map_port_status (get16 24 m) (get16 26 m) s = aecp_status_success
               \<and> count \<le> AVB_AEM_MAX_MSG_MAPPINGS \<and> count \<le> carried_mappings m \<and> mappings_fit add s maps
            then (\<forall>(ch, a) \<in> set (named_mappings maps). new ! ch = (if add then a else AVB_INPUT_MAP_UNMAPPED))
                 \<and> (\<forall>ch < 2. ch \<notin> fst ` set (named_mappings maps) \<longrightarrow> new ! ch = old ! ch)
            else new = old"
proof -
  let ?add = "aecp_command m = Some aecp_cmd_code_add_audio_mappings" and ?count = "unat (get16 28 m)"
  let ?maps = "map (\<lambda>i. part (32 + 8 * i) 8 m) [0..<?count]"
  let ?st = "avb_audio_map_port_status (get16 24 m) (get16 26 m) s"
  let ?ok = "?st = aecp_status_success \<and> ?count \<le> AVB_AEM_MAX_MSG_MAPPINGS \<and> ?count \<le> carried_mappings m"
  let ?new = "input_map (cfg (avb_process_aecp_cmd_audio_mappings nv m src s))" and ?old = "input_map (cfg s)"
  show ?thesis
  proof (cases ?ok)
    case True
    let ?w = "mapping_walk_all ?add s aecp_status_success ?maps"
    have w: "walked ?add s ?maps ?w" by (rule walked_all [OF assms])
    have new: "?new = (if mw_status ?w = aecp_status_success then mw_next ?w else ?old)"
      using input_map_set [of nv m src s] True assms by (simp add: AVB_INPUT_CLUSTER_CHANNELS_def Let_def)
    show ?thesis
    proof (cases "mappings_fit ?add s ?maps")
      case fit: True
      with w new have "?new = mw_next ?w" by (simp add: walked_def)
      then show ?thesis using fit w True by (auto simp: walked_def Let_def)
    next
      case False
      then show ?thesis using w new by (simp add: walked_def)
    qed
  next
    case False
    then have "?new = ?old"
      using input_map_set [of nv m src s] by (auto simp: mapping_walk_all_def Let_def)
    then show ?thesis using False unfolding Let_def by (subst if_not_P) blast+
  qed
qed

lemma length_map_kept:
  assumes "length (input_map (cfg s)) = 2"
  shows "length (input_map (cfg (avb_process_aecp_cmd_audio_mappings nv m src s))) = 2"
proof -
  have "length (mw_next (fold (mapping_step add s) maps w)) = length (mw_next w)" for add maps w
    by (induction maps arbitrary: w) (simp_all add: mapping_step_def Let_def)
  then show ?thesis
    using assms by (simp add: input_map_set mapping_walk_all_def AVB_INPUT_CLUSTER_CHANNELS_def Let_def)
qed

theorem mappings_all_or_none_witness:
  "input_map (cfg (avb_process_aecp_cmd_audio_mappings (list_store 32)
       (aem_message 40 (replicate 8 5) 0x2c [0, 14, 0, 0, 0, 1, 0, 0, 0, 0, 0, 5, 0, 0, 0, 1]) (zeros 6)
       (entity_state True False (config_at bound_node saved_store)))) = [0, 5]"
proof -
  let ?m = "aem_message 40 (replicate 8 5) 0x2c [0, 14, 0, 0, 0, 1, 0, 0, 0, 0, 0, 5, 0, 0, 0, 1]"
  let ?s = "entity_state True False (config_at bound_node saved_store)"
  have c: "aecp_command ?m = Some aecp_cmd_code_add_audio_mappings"
    using aem_message_fields by (simp add: aecp_cmd_codes_def)
  have m: "get16 24 ?m = aem_desc_type_stream_port_input" "get16 26 ?m = 0" "get16 28 ?m = 1"
    "part 32 8 ?m = [0, 0, 0, 5, 0, 0, 0, 1]" "carried_mappings ?m = 1"
    by (simp_all add: get16_def octets_u16_def part_def aem_message_def aem_desc_type_stream_port_input_def uint_parts
        carried_mappings_def avb_aecp_msg_len_def AVTP_CDL_PREAMBLE_LEN_def)
  have l: "input_map (cfg ?s) = [0, 1]" and a: "core (acfg_node ?s) = core bound_node"
    "config_listener (acfg_node ?s) = config_listener bound_node"
    by (simp_all add: entity_state_def set_lock_def upd_node_def upd_cfg_def upd_unsol_def config_at_def)
  have v: "avb_input_mapping_valid [0, 0, 0, 5, 0, 0, 0, 1] ?s"
    using a by (simp add: avb_input_mapping_valid_def get16_def octets_u16_def part_def uint_parts avb_get_crf_input_index_def
        bound_node_def upd_core_def upd_input_def upd_at_def example_listener_def atdecc_zero_def state_zero_def
        AVB_INPUT_CLUSTER_CHANNELS_def avb_stream_format_channels_def AVB_DEFAULT_FORMAT_AM824_def fmt_subtype_def
        subtype_61883_def am824_dbs_def)
  let ?new = "input_map (cfg (avb_process_aecp_cmd_audio_mappings (list_store 32) ?m (zeros 6) ?s))"
  have "?new ! 1 = 5" "?new ! 0 = 0"
    using mappings_all_or_none [of ?s ?m "list_store 32" "zeros 6"] c m l v
    by (auto simp: Let_def named_mappings_def mappings_fit_def get16_def octets_u16_def part_def uint_parts
        avb_audio_map_port_status_def AVB_AEM_MAX_MSG_MAPPINGS_def)
  moreover have "length ?new = 2" using l by (simp add: length_map_kept)
  ultimately show ?thesis by (auto simp: list_eq_iff_nth_eq less_2_cases_iff)
qed

end
