(* ===== verification/Spec2Isabelle.thy ===== *)
theory Spec2Isabelle
  imports Utils Maap Fqtss Bridge Admission Mrp_Sm Msrp_Map Msrp_Rx Mrp_Tick Wifi_Streams Tspec
    Src_Conv Unsol Listener_Map Msrp_Reach Wifi_Order Wifi_Fifo Lite_Budget Stream_Frame Acmp_Flight Formats Aecp_Effect
begin

text \<open>
  ESP_AVB is an AVB end station and bridge for ESP32 chips: stream reservation (MSRP, MVRP, MAAP;
  \<open>src/mrp.c\<close>), AVTP streaming (\<open>src/avtp.c\<close>), the ATDECC protocols (\<open>src/atdecc.c\<close>,
  \<open>src/atdecc_unsol.c\<close>), media clock recovery (\<open>src/avbpll.c\<close>, \<open>src/avbsrc.c\<close>), a two-port bridge
  with a credit-based shaper (\<open>src/avbbridge.c\<close>, \<open>src/avbfqtss.c\<close>), and the task that drives them
  (\<open>src/avb.c\<close>, \<open>src/avbnet.c\<close>).  This library models the stream reservation part in full, and
  around it the connection management (ACMP), the commands that set up the entity (AECP), the shaper,
  the bridge's classifier, the bundles on the Wi-Fi hop, the sample-rate converter, the controllers'
  registrations and the persistence of the configuration.

  Theories, in the order of the code:

  \<^item> \<open>Prelude\<close>: integer types, octet buffers, bounded scans (\<open>first_index\<close>), counted loops
    (\<open>foreach\<close>), an array element's update (\<open>upd_at\<close>), shared lemmas.
  \<^item> \<open>Utils\<close> (\<open>avbutils.c\<close>): big-endian fields, three-packed events, hexadecimal printing, time
    arithmetic.
  \<^item> \<open>Mrp_Sm\<close> (\<open>mrp.c\<close> sections 1 to 5): the Applicant and Registrar machines of one attribute.
  \<^item> \<open>Msrp_Types\<close>, \<open>Msrp_Wire\<close>, \<open>Tables\<close>, \<open>Msrp_State\<close> (\<open>mrp.h\<close>, \<open>mrp.c\<close> sections 6 and 7): the
    structures, their octets on the wire, the fixed-size attribute tables and the state.
  \<^item> \<open>Msrp_Decl\<close>: declaring, changing and withdrawing attributes of this station or bridge port.
  \<^item> \<open>Msrp_Tx\<close>: what a transmit opportunity puts on the wire; AVB Lite sends and refusals.
  \<^item> \<open>Msrp_Map\<close>: what a registration change causes, in an end station and in a bridge.
  \<^item> \<open>Wifi_Streams\<close>: re-addressing of streams over Wi-Fi and their admission by frame budget.
  \<^item> \<open>Msrp_Rx\<close>: reception of MSRP, MVRP and AVB Lite messages.
  \<^item> \<open>Mrp_Tick\<close>: the timers of a port.
  \<^item> \<open>Boot\<close>: concrete states for the properties' examples.
  \<^item> \<open>Listener_Map\<close>: how the bridge merges and re-declares Listener declarations.
  \<^item> \<open>Msrp_Inv\<close>, \<open>Msrp_Reach\<close>: an invariant of the tables that every operation keeps, the states a
    node can reach, and the quarantine of a changed Talker Advertise.
  \<^item> \<open>Maap\<close> (\<open>mrp.c\<close> section 7): acquisition of stream destination addresses.
  \<^item> \<open>Admission\<close> (\<open>mrp.c\<close> section 8): the bridge's bandwidth ledger.
  \<^item> \<open>Tspec\<close>: the traffic specification of an output stream.
  \<^item> \<open>Stream_Out\<close> (\<open>avb.c\<close>): an output stream's class, declaration and move to a new stream ID;
    \<open>Stream_Frame\<close>, what the declarations leave alone.
  \<^item> \<open>Lite_Transport\<close> (\<open>avb.c\<close>): the transport pass of AVB Lite, unicast copies, escalation to
    multicast and the egress budget; \<open>Lite_Budget\<close>, how the budget is shared.
  \<^item> \<open>Formats\<close> (\<open>avb.c\<close>, \<open>avb.h\<close>): the stream formats of the supported sample rates and the checks
    of a saved one.
  \<^item> \<open>Registry\<close> (\<open>avbregistry.c\<close>): the devices with a base address and the identities it gives them.
  \<^item> \<open>Persist\<close> (\<open>avb.c\<close>, \<open>avb.h\<close>): the snapshot of the configuration, gathered and applied;
    \<open>Journal\<close>, the journal of stream records: its keys, appending, compaction, replay, the writes that
    wait for a quiet ingress, loading at boot, and the requests and turns of the saving task.
  \<^item> \<open>Journal_Map\<close>, \<open>Journal_Store\<close>, \<open>Journal_Latest\<close>: what the flash store promises (the locale
    \<open>nvs_store\<close>, interpreted on a list of values of limited size) and the journal as a map from streams to
    their latest records; \<open>Journal_Boot\<close>, what of it survives a boot; \<open>Save_Task\<close>, the saving task
    beside the tasks that ask it to save, as a step relation.
  \<^item> \<open>Fqtss\<close> (\<open>avbfqtss.c\<close>): the credit-based shaper.
  \<^item> \<open>Bridge\<close> (\<open>avbbridge.c\<close>): the forwarding decision.
  \<^item> \<open>Src_Conv\<close> (\<open>avbsrc.c\<close>): the sample-rate converter.
  \<^item> \<open>Wifi_Bundle\<close> (\<open>avbnet.c\<close>): the format of the Wi-Fi stream bundles and the video wrapper;
    \<open>Wifi_Reorder\<close>, their receiver, which holds bundles past a gap and asks for the missing ones;
    \<open>Wifi_Sender\<close>, the bridge's and the station's bundlers and the answers to NACKs.
  \<^item> \<open>Wifi_Order\<close>: the receiver returns, delivers in order and lets overdue bundles go;
    \<open>Wifi_Fifo\<close>: a bundler is a queue, and every request for a copy is accounted for.
  \<^item> \<open>Unsol\<close> (\<open>atdecc_unsol.c\<close>): registered controllers, notifications, the lock's expiry.
  \<^item> \<open>Acmp_State\<close> (\<open>atdecc.h\<close>, \<open>atdecc.c\<close>): ACMP messages, the commands in flight, sending, and the
    stream inputs as connection management sees them; \<open>Acmp\<close>, the handler of every message, on the
    listener's and on the talker's side, and the binding commands of Milan; \<open>Acmp_Timer\<close>, the
    timeouts, the reconnection of saved bindings and the demotion of silent streams.
  \<^item> \<open>Acmp_Rows\<close>, \<open>Acmp_Talker\<close>: the rows of an output stream as the set of its listeners;
    \<open>Acmp_Connect\<close>: answers, and a connection from the controller's command to the running stream;
    \<open>Acmp_Flight\<close>: commands in flight, lost probes and an invariant over all runs.
  \<^item> \<open>Aecp_State\<close> (\<open>atdecc.h\<close>, \<open>atdecc.c\<close>): AECP messages as octet buffers and the state of their handlers;
    \<open>Aecp\<close>, registration, acquisition, lock, configuration, streaming and audio mappings; \<open>Aecp_Format\<close>,
    stream formats, clock source, sample rate, presentation time and names; \<open>Aecp_Dispatch\<close>, the dispatch
    and the packed commands of \<open>GET_DYNAMIC_INFO\<close>.
  \<^item> \<open>Aecp_Lock\<close>: the lock keeps other controllers out; \<open>Aecp_Answer\<close>: every command is answered once;
    \<open>Aecp_Effect\<close>: what acquisitions, rate changes and mappings do.

  How the state corresponds.  A structure is a record with its field names, an enumeration a
  datatype, a C integer a word of its width where wrap-around can matter and an \<open>int\<close> where the
  code keeps it in range (times in microseconds, indices).  The configuration macros are the
  record \<open>avb_build\<close>, so one model covers the end station, the bridge and the wireless builds.
  Per-port tables are functions of the port to a list of entries; a pointer to an entry is its
  index.  \<open>esp_timer_get_time\<close> is the field \<open>now_us\<close>, constant within one handler;
  \<open>esp_random\<close> is a stream of words with a position.  A frame handed to the network is appended
  to a log.  Loops are \<open>foreach\<close> or structural recursion; the drain of held bundles, which the code leaves by
  \<open>return\<close>, is a \<open>partial_function\<close> shown to return; the one that removes while it walks
  (\<open>Unsol.unsol_tick_loop\<close>) and the walk over a received PDU (\<open>Msrp_Rx.rx_messages\<close>) run on
  fuel, of which the length of the list and of the PDU are enough: each step removes or passes
  at least one element.  The loops that share the AVB Lite budget take as many turns as there are
  copies, which is enough: each turn admits or releases one.  The walk over the
  commands in flight (\<open>Acmp_Timer.inflight_walk\<close>) restarts at the place of a removed command and ends by
  the measure of those left.  Logging, statistics and state that is only printed are left out, as are
  the packet templates and the test tone in \<open>avb_start_stream_out\<close> and \<open>avb_stop_stream_out\<close>.
  The float-built filter table of the converter is an argument of its model.  The flash store is a
  parameter, a record of operations; its values are the structures, not their octets, and \<open>cap\<close> in
  \<open>nvs_store\<close> is the number of values for which there is always room.  The erasing loop has the number
  of blobs as fuel: each turn takes one away.

  What is shown, by theory: \<open>Mrp_Sm\<close>, the machines refine the MRP service, agree over a link and
  obey their timers; \<open>Msrp_Reach\<close>, in every reachable state the tables are well formed and a quarantined
  declaration is silent; \<open>Admission\<close>, the ledger is exact over any operation sequence; \<open>Maap\<close>,
  addresses are acquired, kept and not shared; \<open>Fqtss\<close>, credits stay bounded and the shaper
  is work conserving; \<open>Bridge\<close>, the classifier is safe; \<open>Unsol\<close>, notifications reach each
  controller once, registrations stay unique and a silent controller leaves; \<open>Src_Conv\<close>, the
  ratio is exact and the audio passes unchanged; \<open>Tspec\<close>, what a reservation covers;
  \<open>Lite_Budget\<close>, the egress budget is kept, used up and shared in the order of the requests;
  \<open>Wifi_Order\<close> and \<open>Wifi_Fifo\<close>, the bundles of a stream arrive in order and as they were sent;
  \<open>Acmp_Talker\<close>, \<open>Acmp_Connect\<close> and \<open>Acmp_Flight\<close>, an output stream serves a set of listeners in one
  class, a controller's request makes a connection, every command gets one answer, and where
  the code departs from this;
  \<open>Aecp_Lock\<close>, \<open>Aecp_Answer\<close> and \<open>Aecp_Effect\<close>, a locked entity is changed by the holder only, commands get
  one answer, a rate and mappings are taken whole, and an acquisition can be stolen;
  \<open>Journal_Boot\<close> and \<open>Save_Task\<close>, a written record is the one restored, deferred writes are made and no
  snapshot is lost between the tasks, and where an unusable snapshot leaves old records in force;
  \<open>Utils\<close>, \<open>Msrp_Wire\<close>, \<open>Wifi_Bundle\<close> and \<open>Journal_Map\<close>, the round trips of the encodings.

  In AECP the result \<open>None\<close> of the dispatch stands for a message whose handler is not modelled; the lock
  is a field of the connection management's state and of the registrations', written together.

  Not modelled: discovery (ADP), descriptors, counters, controls, stream and AVB information and the
  vendor-unique status commands in \<open>atdecc.c\<close>, \<open>avtp.c\<close>, \<open>avbpll.c\<close>, \<open>avbcodec.c\<close>, the transport in \<open>avbnet.c\<close>, \<open>avbstats.c\<close> and the task loop of \<open>avb.c\<close>: drivers,
  sockets and floating-point control, and descriptors served from tables; the volume controls of the
  snapshot, which are floating point.
\<close>

end
